(* ===== verification/Prelude.thy ===== *)
theory Prelude
  imports Main "HOL-Library.Word" "HOL-Library.AList"
begin

text \<open>
  What every component of the development shares: the machine integers of the source at their
  width, byte strings and their big-endian form (\<open>to_be_bytes\<close> and \<open>from_be_bytes\<close> of the
  Rust standard library), \<open>std::time::Duration\<close>, results as sums, and the generic facts on
  lists and association lists that the component proofs rest on.
\<close>

unbundle bit_operations_syntax

section \<open>Machine integers and byte strings\<close>

type_synonym u8 = "8 word"
type_synonym u16 = "16 word"
type_synonym u32 = "32 word"
type_synonym u64 = "64 word"
type_synonym bytes = "u8 list"

text \<open>A Rust \<open>String\<close> is its UTF-8 bytes; \<open>as_bytes\<close> is the identity and \<open>len\<close> the length.\<close>

type_synonym rstring = "u8 list"

text \<open>\<open>Ipv4Addr\<close> and \<open>Ipv6Addr\<close>, by the number their octets form.\<close>

type_synonym ipv4 = "32 word"
type_synonym ipv6 = "128 word"

definition str :: "string \<Rightarrow> rstring" where
  "str s = map of_char s"

definition USIZE_MAX :: nat where
  "USIZE_MAX = 2 ^ 64 - 1"

primrec be_bytes :: "nat \<Rightarrow> nat \<Rightarrow> bytes" where
  "be_bytes 0 n = []"
| "be_bytes (Suc k) n = be_bytes k (n div 256) @ [of_nat n]"

definition be_val :: "bytes \<Rightarrow> nat" where
  "be_val bs = foldl (\<lambda>acc b. acc * 256 + unat b) 0 bs"

definition to_be16 :: "u16 \<Rightarrow> bytes" where
  "to_be16 w = be_bytes 2 (unat w)"

definition to_be32 :: "u32 \<Rightarrow> bytes" where
  "to_be32 w = be_bytes 4 (unat w)"

definition to_be64 :: "u64 \<Rightarrow> bytes" where
  "to_be64 w = be_bytes 8 (unat w)"

definition from_be16 :: "bytes \<Rightarrow> u16" where
  "from_be16 bs = of_nat (be_val bs)"

definition from_be32 :: "bytes \<Rightarrow> u32" where
  "from_be32 bs = of_nat (be_val bs)"

definition from_be64 :: "bytes \<Rightarrow> u64" where
  "from_be64 bs = of_nat (be_val bs)"

definition octets4 :: "ipv4 \<Rightarrow> bytes" where
  "octets4 a = be_bytes 4 (unat a)"

definition octets6 :: "ipv6 \<Rightarrow> bytes" where
  "octets6 a = be_bytes 16 (unat a)"

definition ipv4_of :: "bytes \<Rightarrow> ipv4" where
  "ipv4_of bs = of_nat (be_val bs)"

definition ipv6_of :: "bytes \<Rightarrow> ipv6" where
  "ipv6_of bs = of_nat (be_val bs)"

text \<open>\<open>slice[pos..pos + n].copy_from_slice(src)\<close>, with \<open>n\<close> the length of \<open>src\<close>.\<close>

definition copy_at :: "bytes \<Rightarrow> nat \<Rightarrow> bytes \<Rightarrow> bytes" where
  "copy_at out pos src = take pos out @ src @ drop (pos + length src) out"

section \<open>Durations\<close>

text \<open>A \<open>Duration\<close> by its nanoseconds; \<open>DURATION_MAX\<close> is \<open>Duration::MAX\<close>.\<close>

type_synonym duration = nat

definition DURATION_MAX :: duration where
  "DURATION_MAX = 2 ^ 64 * 10 ^ 9 - 1"

definition as_millis :: "duration \<Rightarrow> nat" where
  "as_millis d = d div 10 ^ 6"

definition as_micros :: "duration \<Rightarrow> nat" where
  "as_micros d = d div 10 ^ 3"

definition from_millis :: "u64 \<Rightarrow> duration" where
  "from_millis ms = unat ms * 10 ^ 6"

definition from_micros :: "u64 \<Rightarrow> duration" where
  "from_micros us = unat us * 10 ^ 3"

definition checked_mul :: "duration \<Rightarrow> nat \<Rightarrow> duration option" where
  "checked_mul d k = (if d * k \<le> DURATION_MAX then Some (d * k) else None)"

definition saturating_mul :: "duration \<Rightarrow> nat \<Rightarrow> duration" where
  "saturating_mul d k = min (d * k) DURATION_MAX"

section \<open>Results\<close>

text \<open>
  \<open>Result<T, E>\<close> is the sum \<open>'e + 't\<close> with the error on the left, and the operator \<open>?\<close> is
  \<open>try_then\<close>. A panic (\<open>expect\<close>, \<open>unreachable!\<close>, an index that is not there) is the left of a
  sum of its own, with the message of the source.
\<close>

type_synonym panic = string

definition try_then :: "'e + 'a \<Rightarrow> ('a \<Rightarrow> 'e + 'b) \<Rightarrow> 'e + 'b" where
  "try_then r f = (case r of Inl e \<Rightarrow> Inl e | Inr x \<Rightarrow> f x)"

definition map_err :: "('e \<Rightarrow> 'f) \<Rightarrow> 'e + 'a \<Rightarrow> 'f + 'a" where
  "map_err f r = (case r of Inl e \<Rightarrow> Inl (f e) | Inr x \<Rightarrow> Inr x)"

definition expect :: "panic \<Rightarrow> 'a option \<Rightarrow> panic + 'a" where
  "expect msg r = (case r of None \<Rightarrow> Inl msg | Some x \<Rightarrow> Inr x)"

definition expect_ok :: "panic \<Rightarrow> 'e + 'a \<Rightarrow> panic + 'a" where
  "expect_ok msg r = (case r of Inl _ \<Rightarrow> Inl msg | Inr x \<Rightarrow> Inr x)"

definition is_ok :: "'e + 'a \<Rightarrow> bool" where
  "is_ok r = (case r of Inl _ \<Rightarrow> False | Inr _ \<Rightarrow> True)"

text \<open>\<open>Iterator::find_map\<close>.\<close>

fun find_map :: "('a \<Rightarrow> 'b option) \<Rightarrow> 'a list \<Rightarrow> 'b option" where
  "find_map f [] = None"
| "find_map f (x # xs) = (case f x of None \<Rightarrow> find_map f xs | Some y \<Rightarrow> Some y)"

named_theorems result_simps \<open>evaluation of results\<close>

lemma try_then_simps [simp, result_simps]:
  "try_then (Inl e) f = Inl e"
  "try_then (Inr x) f = f x"
  by (simp_all add: try_then_def)

lemma map_err_simps [simp, result_simps]:
  "map_err g (Inl e) = Inl (g e)"
  "map_err g (Inr x) = Inr x"
  by (simp_all add: map_err_def)

lemma expect_simps [simp, result_simps]:
  "expect msg None = Inl msg"
  "expect msg (Some x) = Inr x"
  "expect_ok msg (Inl e) = Inl msg"
  "expect_ok msg (Inr y) = Inr y"
  by (simp_all add: expect_def expect_ok_def)

lemma is_ok_simps [simp, result_simps]:
  "\<not> is_ok (Inl e)"
  "is_ok (Inr x)"
  by (simp_all add: is_ok_def)

lemma try_then_eq_Inr:
  "try_then r f = Inr y \<longleftrightarrow> (\<exists>x. r = Inr x \<and> f x = Inr y)"
  by (cases r) auto

lemma try_then_eq_Inl:
  "try_then r f = Inl e \<longleftrightarrow> r = Inl e \<or> (\<exists>x. r = Inr x \<and> f x = Inl e)"
  by (cases r) auto

lemma expect_eq_Inr [simp]:
  "expect msg r = Inr x \<longleftrightarrow> r = Some x"
  by (cases r) auto

lemma find_map_None_iff: "find_map f xs = None \<longleftrightarrow> (\<forall>x\<in>set xs. f x = None)"
  by (induction xs) (auto split: option.splits)

lemma find_map_SomeD: "find_map f xs = Some y \<Longrightarrow> \<exists>x\<in>set xs. f x = Some y"
  by (induction xs) (auto split: option.splits)

lemma find_map_append:
  "find_map f (xs @ ys) = (case find_map f xs of None \<Rightarrow> find_map f ys | Some y \<Rightarrow> Some y)"
  by (induction xs) (auto split: option.splits)

section \<open>Big-endian numbers\<close>

lemma length_be_bytes [simp]: "length (be_bytes k n) = k"
  by (induction k arbitrary: n) auto

lemma be_bytes_numeral [simp]:
  "be_bytes (numeral k) n = be_bytes (pred_numeral k) (n div 256) @ [of_nat n]"
  using be_bytes.simps(2) [of "pred_numeral k" n]
  by (simp only: numeral_eq_Suc [of k, symmetric])

lemma be_val_Nil [simp]: "be_val [] = 0"
  by (simp add: be_val_def)

lemma be_val_snoc [simp]: "be_val (bs @ [b]) = be_val bs * 256 + unat b"
  by (simp add: be_val_def)

lemma unat_u8_less: "unat (b :: u8) < 256"
  using unsigned_less [of b] by simp

lemma be_val_bound: "be_val bs < 256 ^ length bs"
proof (induction bs rule: rev_induct)
  case Nil
  show ?case by simp
next
  case (snoc b bs)
  have "be_val bs * 256 + unat b < Suc (be_val bs) * 256"
    using unat_u8_less [of b] by simp
  also have "\<dots> \<le> 256 ^ length bs * 256"
    using snoc by (intro mult_le_mono1) (rule Suc_leI)
  finally show ?case by (simp add: mult.commute)
qed

lemma be_val_be_bytes: "be_val (be_bytes k n) = n mod 256 ^ k"
proof (induction k arbitrary: n)
  case 0
  show ?case by simp
next
  case (Suc k)
  have "be_val (be_bytes (Suc k) n) = (n div 256 mod 256 ^ k) * 256 + n mod 256"
    by (simp add: Suc.IH unat_of_nat del: be_bytes_numeral)
  also have "\<dots> = n mod (256 * 256 ^ k)"
    by (simp add: mod_mult2_eq mult.commute)
  finally show ?case by simp
qed

lemma of_nat_plus_unat: "(of_nat (n * 256 + unat b) :: u8) = b"
proof -
  have "(of_nat (n * 256 + unat b) :: u8) = of_nat n * of_nat 256 + of_nat (unat b)"
    by (simp only: of_nat_add of_nat_mult)
  also have "(of_nat 256 :: u8) = 0" by simp
  finally show ?thesis by simp
qed

lemma be_bytes_be_val: "be_bytes (length bs) (be_val bs) = bs"
proof (induction bs rule: rev_induct)
  case Nil
  show ?case by simp
next
  case (snoc b bs)
  have "(be_val bs * 256 + unat b) div 256 = be_val bs"
    using unat_u8_less [of b] by simp
  with snoc show ?case by (simp add: of_nat_plus_unat del: of_nat_add of_nat_mult)
qed

lemma length_to_be [simp]:
  "length (to_be16 a) = 2" "length (to_be32 b) = 4" "length (to_be64 c) = 8"
  "length (octets4 d) = 4" "length (octets6 e) = 16"
  by (simp_all add: to_be16_def to_be32_def to_be64_def octets4_def octets6_def
      del: be_bytes_numeral)

lemma unat_mod_id:
  fixes w :: "'a::len word"
  assumes "LENGTH('a) = 8 * k"
  shows "unat w mod 256 ^ k = unat w"
proof -
  have "unat w < 2 ^ (8 * k)" using unsigned_less [of w] assms by simp
  also have "(2::nat) ^ (8 * k) = 256 ^ k" by (simp add: power_mult)
  finally show ?thesis by simp
qed

lemma of_nat_be_val_be_bytes:
  fixes w :: "'a::len word"
  assumes "LENGTH('a) = 8 * k"
  shows "of_nat (be_val (be_bytes k (unat w))) = w"
  by (simp only: be_val_be_bytes unat_mod_id [OF assms]) simp

lemma from_be_to_be [simp]:
  "from_be16 (to_be16 a) = a" "from_be32 (to_be32 b) = b" "from_be64 (to_be64 c) = c"
  "ipv4_of (octets4 d) = d" "ipv6_of (octets6 e) = e"
  by (simp_all add: to_be16_def to_be32_def to_be64_def octets4_def octets6_def from_be16_def
      from_be32_def from_be64_def ipv4_of_def ipv6_of_def of_nat_be_val_be_bytes
      del: be_bytes_numeral)

lemma be_bytes_unat_of_nat:
  assumes "length bs = k" and "LENGTH('a::len) = 8 * k"
  shows "be_bytes k (unat (of_nat (be_val bs) :: 'a word)) = bs"
proof -
  have "be_val bs < 2 ^ LENGTH('a)"
    using be_val_bound [of bs] assms by (simp add: power_mult)
  then have "unat (of_nat (be_val bs) :: 'a word) = be_val bs"
    by (simp add: unat_of_nat)
  then show ?thesis using be_bytes_be_val [of bs] assms by simp
qed

lemma to_be_from_be:
  "length bs = 2 \<Longrightarrow> to_be16 (from_be16 bs) = bs"
  "length bs = 4 \<Longrightarrow> to_be32 (from_be32 bs) = bs"
  "length bs = 8 \<Longrightarrow> to_be64 (from_be64 bs) = bs"
  "length bs = 4 \<Longrightarrow> octets4 (ipv4_of bs) = bs"
  "length bs = 16 \<Longrightarrow> octets6 (ipv6_of bs) = bs"
  by (simp_all add: to_be16_def to_be32_def to_be64_def octets4_def octets6_def from_be16_def
      from_be32_def from_be64_def ipv4_of_def ipv6_of_def be_bytes_unat_of_nat
      del: be_bytes_numeral)

lemma to_be_inject [simp]:
  "to_be16 a = to_be16 a' \<longleftrightarrow> a = a'"
  "octets4 d = octets4 d' \<longleftrightarrow> d = d'"
  "octets6 e = octets6 e' \<longleftrightarrow> e = e'"
  by (metis from_be_to_be)+

lemma unat_from_be16: "length bs = 2 \<Longrightarrow> unat (from_be16 bs) = be_val bs"
  using be_val_bound [of bs] by (simp add: from_be16_def unat_of_nat)

end
