(* ===== verification/Packages.thy ===== *)
theory Packages
  imports Prelude "HOL-Library.Saturated"
begin

text \<open>
  The two packages outside the repository whose operations the modelled code calls: the \<open>bytes\<close>
  crate (\<open>Bytes\<close>, \<open>BytesMut\<close>, by the bytes they hold) and the \<open>ipnet\<close> crate (\<open>Ipv4Net\<close>,
  \<open>Ipv6Net\<close>, as the type parameters \<open>'n\<close> and \<open>'m\<close>). The record \<open>packages\<close> holds the
  operations, and every definition that calls one takes the record as its first argument. What
  the code relies on is documented behaviour of the packages and is stated in the locales
  \<open>byte_buffers\<close> and \<open>ip_nets\<close>. The last section gives an instance, on which witnesses are
  evaluated.
\<close>

section \<open>Operations\<close>

record ('n, 'm) packages =
  put_u8 :: "bytes \<Rightarrow> u8 \<Rightarrow> bytes"
  put_u16 :: "bytes \<Rightarrow> u16 \<Rightarrow> bytes"
  put_u32 :: "bytes \<Rightarrow> u32 \<Rightarrow> bytes"
  put_u64 :: "bytes \<Rightarrow> u64 \<Rightarrow> bytes"
  put_slice :: "bytes \<Rightarrow> bytes \<Rightarrow> bytes"
  truncate_buf :: "bytes \<Rightarrow> nat \<Rightarrow> bytes"
  get_u16 :: "bytes \<Rightarrow> u16 \<times> bytes"
  split_to :: "bytes \<Rightarrow> nat \<Rightarrow> bytes \<times> bytes"
  copy_to_slice :: "bytes \<Rightarrow> nat \<Rightarrow> bytes \<times> bytes"
  v4_new :: "ipv4 \<Rightarrow> u8 \<Rightarrow> 'n option"
  v4_trunc :: "'n \<Rightarrow> 'n"
  v4_network :: "'n \<Rightarrow> ipv4"
  v4_prefix_len :: "'n \<Rightarrow> u8"
  v6_new :: "ipv6 \<Rightarrow> u8 \<Rightarrow> 'm option"
  v6_trunc :: "'m \<Rightarrow> 'm"
  v6_network :: "'m \<Rightarrow> ipv6"
  v6_prefix_len :: "'m \<Rightarrow> u8"

section \<open>What the code relies on\<close>

text \<open>
  Writers append in network byte order; readers take from the front, and are only specified
  where enough bytes remain (they panic otherwise).
\<close>

locale byte_buffers =
  fixes P :: "('n, 'm) packages"
  assumes put_u8 [simp]: "put_u8 P out a = out @ [a]"
    and put_u16 [simp]: "put_u16 P out b = out @ to_be16 b"
    and put_u32 [simp]: "put_u32 P out c = out @ to_be32 c"
    and put_u64 [simp]: "put_u64 P out d = out @ to_be64 d"
    and put_slice [simp]: "put_slice P out s = out @ s"
    and truncate_buf [simp]: "truncate_buf P out n = take n out"
    and get_u16 [simp]:
      "2 \<le> length src \<Longrightarrow> get_u16 P src = (from_be16 (take 2 src), drop 2 src)"
    and split_to [simp]:
      "n \<le> length src \<Longrightarrow> split_to P src n = (take n src, drop n src)"
    and copy_to_slice [simp]:
      "n \<le> length src \<Longrightarrow> copy_to_slice P src n = (take n src, drop n src)"

text \<open>
  A network is an address with a prefix length. \<open>new\<close> refuses a prefix longer than the address,
  \<open>trunc\<close> zeroes the host bits, \<open>network\<close> is the address without them.
\<close>

locale ip_nets =
  fixes P :: "('n, 'm) packages"
  assumes v4_new_None [simp]: "v4_new P a p = None \<longleftrightarrow> 32 < unat p"
    and v4_new_prefix: "v4_new P a p = Some n \<Longrightarrow> v4_prefix_len P n = p"
    and v4_prefix_le: "unat (v4_prefix_len P n) \<le> 32"
    and v4_trunc_trunc [simp]: "v4_trunc P (v4_trunc P n) = v4_trunc P n"
    and v4_network_trunc [simp]: "v4_network P (v4_trunc P n) = v4_network P n"
    and v4_prefix_trunc [simp]: "v4_prefix_len P (v4_trunc P n) = v4_prefix_len P n"
    and v4_new_network:
      "v4_new P (v4_network P n) (v4_prefix_len P n) = Some k \<Longrightarrow> v4_trunc P k = v4_trunc P n"
    and v6_new_None [simp]: "v6_new P a' p = None \<longleftrightarrow> 128 < unat p"
    and v6_new_prefix: "v6_new P a' p = Some n' \<Longrightarrow> v6_prefix_len P n' = p"
    and v6_prefix_le: "unat (v6_prefix_len P n') \<le> 128"
    and v6_trunc_trunc [simp]: "v6_trunc P (v6_trunc P n') = v6_trunc P n'"
    and v6_network_trunc [simp]: "v6_network P (v6_trunc P n') = v6_network P n'"
    and v6_prefix_trunc [simp]: "v6_prefix_len P (v6_trunc P n') = v6_prefix_len P n'"
    and v6_new_network:
      "v6_new P (v6_network P n') (v6_prefix_len P n') = Some k' \<Longrightarrow>
        v6_trunc P k' = v6_trunc P n'"

begin

lemma v4_new_of_net:
  "\<exists>k. v4_new P (v4_network P n) (v4_prefix_len P n) = Some k \<and> v4_trunc P k = v4_trunc P n"
  using v4_new_None [of "v4_network P n" "v4_prefix_len P n"] v4_prefix_le [of n] v4_new_network
  by (cases "v4_new P (v4_network P n) (v4_prefix_len P n)") auto

lemma v6_new_of_net:
  "\<exists>k. v6_new P (v6_network P n) (v6_prefix_len P n) = Some k \<and> v6_trunc P k = v6_trunc P n"
  using v6_new_None [of "v6_network P n" "v6_prefix_len P n"] v6_prefix_le [of n] v6_new_network
  by (cases "v6_new P (v6_network P n) (v6_prefix_len P n)") auto

text \<open>Networks that show the same address and prefix are the same up to host bits.\<close>

lemma v4_trunc_eqI:
  assumes "v4_network P n = v4_network P k" and "v4_prefix_len P n = v4_prefix_len P k"
  shows "v4_trunc P n = v4_trunc P k"
  using v4_new_of_net [of n] v4_new_of_net [of k] assms by auto

lemma v6_trunc_eqI:
  assumes "v6_network P n = v6_network P k" and "v6_prefix_len P n = v6_prefix_len P k"
  shows "v6_trunc P n = v6_trunc P k"
  using v6_new_of_net [of n] v6_new_of_net [of k] assms by auto

end

locale dlep_packages = byte_buffers P + ip_nets P for P :: "('n, 'm) packages"

section \<open>An instance\<close>

text \<open>
  Networks as an address and a prefix length that is at most the width of the address; the host
  bits are masked out.
\<close>

type_synonym net4 = "ipv4 \<times> 32 sat"
type_synonym net6 = "ipv6 \<times> 128 sat"

definition prefix_mask :: "nat \<Rightarrow> nat \<Rightarrow> 'a::len word" where
  "prefix_mask width p = push_bit (width - p) (mask p)"

definition std_packages :: "(net4, net6) packages" where
  "std_packages = \<lparr>
     put_u8 = (\<lambda>out a. out @ [a]),
     put_u16 = (\<lambda>out b. out @ to_be16 b),
     put_u32 = (\<lambda>out c. out @ to_be32 c),
     put_u64 = (\<lambda>out d. out @ to_be64 d),
     put_slice = (@),
     truncate_buf = (\<lambda>out n. take n out),
     get_u16 = (\<lambda>src. (from_be16 (take 2 src), drop 2 src)),
     split_to = (\<lambda>src n. (take n src, drop n src)),
     copy_to_slice = (\<lambda>src n. (take n src, drop n src)),
     v4_new = (\<lambda>a p. if unat p \<le> 32 then Some (a, Abs_sat' (unat p)) else None),
     v4_trunc = (\<lambda>(a, p). (a AND prefix_mask 32 (nat_of p), p)),
     v4_network = (\<lambda>(a, p). a AND prefix_mask 32 (nat_of p)),
     v4_prefix_len = (\<lambda>(a, p). of_nat (nat_of p)),
     v6_new = (\<lambda>a p. if unat p \<le> 128 then Some (a, Abs_sat' (unat p)) else None),
     v6_trunc = (\<lambda>(a, p). (a AND prefix_mask 128 (nat_of p), p)),
     v6_network = (\<lambda>(a, p). a AND prefix_mask 128 (nat_of p)),
     v6_prefix_len = (\<lambda>(a, p). of_nat (nat_of p))\<rparr>"

lemma nat_of_le_32: "nat_of (p :: 32 sat) \<le> 32"
  using nat_of_le_len_of [of p] by simp

lemma nat_of_le_128: "nat_of (p :: 128 sat) \<le> 128"
  using nat_of_le_len_of [of p] by simp

lemma unat_u8_of_nat: "n < 256 \<Longrightarrow> unat (of_nat n :: u8) = n"
  by (simp add: unat_of_nat)

interpretation std: dlep_packages std_packages
proof unfold_locales
  fix a p n k
  show "(v4_new std_packages a p = None) = (32 < unat p)"
    by (auto simp: std_packages_def)
  show "v4_new std_packages a p = Some n \<Longrightarrow> v4_prefix_len std_packages n = p"
    by (auto simp: std_packages_def min_def split: if_splits)
  show "unat (v4_prefix_len std_packages n) \<le> 32"
    using nat_of_le_32 [of "snd n"]
    by (simp add: std_packages_def split_beta unat_u8_of_nat)
  show "v4_new std_packages (v4_network std_packages n) (v4_prefix_len std_packages n) = Some k \<Longrightarrow>
      v4_trunc std_packages k = v4_trunc std_packages n"
    using nat_of_le_32 [of "snd n"]
    by (auto simp: std_packages_def split_beta unat_u8_of_nat and.assoc)
next
  fix a p n k
  show "(v6_new std_packages a p = None) = (128 < unat p)"
    by (auto simp: std_packages_def)
  show "v6_new std_packages a p = Some n \<Longrightarrow> v6_prefix_len std_packages n = p"
    by (auto simp: std_packages_def min_def split: if_splits)
  show "unat (v6_prefix_len std_packages n) \<le> 128"
    using nat_of_le_128 [of "snd n"]
    by (simp add: std_packages_def split_beta unat_u8_of_nat)
  show "v6_new std_packages (v6_network std_packages n) (v6_prefix_len std_packages n) = Some k \<Longrightarrow>
      v6_trunc std_packages k = v6_trunc std_packages n"
    using nat_of_le_128 [of "snd n"]
    by (auto simp: std_packages_def split_beta unat_u8_of_nat and.assoc)
qed (auto simp: std_packages_def split_beta and.assoc)

lemma std_nets [simp]:
  "v4_new std_packages a p = (if unat p \<le> 32 then Some (a, Abs_sat' (unat p)) else None)"
  "v4_trunc std_packages n4 = (fst n4 AND prefix_mask 32 (nat_of (snd n4)), snd n4)"
  "v4_network std_packages n4 = fst n4 AND prefix_mask 32 (nat_of (snd n4))"
  "v4_prefix_len std_packages n4 = of_nat (nat_of (snd n4))"
  "v6_new std_packages b p = (if unat p \<le> 128 then Some (b, Abs_sat' (unat p)) else None)"
  "v6_trunc std_packages n6 = (fst n6 AND prefix_mask 128 (nat_of (snd n6)), snd n6)"
  "v6_network std_packages n6 = fst n6 AND prefix_mask 128 (nat_of (snd n6))"
  "v6_prefix_len std_packages n6 = of_nat (nat_of (snd n6))"
  by (simp_all add: std_packages_def split_beta)

end
