(* ===== verification/Wire_Types.thy ===== *)
theory Wire_Types
  imports Packages
begin

text \<open>
  The wire types of \<open>dlep-core\<close>: type identifiers (\<open>ids.rs\<close>), codec errors (\<open>error.rs\<close>), MAC
  addresses (\<open>mac.rs\<close>), status codes (\<open>status.rs\<close>), link metrics (\<open>metrics.rs\<close>), data items
  (\<open>data_item.rs\<close>), messages (\<open>message.rs\<close>) and signals (\<open>signal.rs\<close>). The type parameters
  \<open>'n\<close> and \<open>'m\<close> of data items stand for \<open>ipnet::Ipv4Net\<close> and \<open>ipnet::Ipv6Net\<close>.
\<close>

section \<open>Constants of the crate\<close>

definition SIGNAL_PREFIX :: bytes where
  "SIGNAL_PREFIX = [0x44, 0x4C, 0x45, 0x50]"

abbreviation (input) DEFAULT_PORT :: u16 where
  "DEFAULT_PORT \<equiv> 854"

abbreviation (input) MIN_HEARTBEAT_INTERVAL_MS :: u32 where
  "MIN_HEARTBEAT_INTERVAL_MS \<equiv> 1000"

section \<open>Identifiers\<close>

type_synonym signal_type = u16
type_synonym message_type = u16
type_synonym data_item_type = u16
type_synonym extension_id = u16

abbreviation (input) PEER_DISCOVERY :: signal_type where "PEER_DISCOVERY \<equiv> 1"
abbreviation (input) PEER_OFFER :: signal_type where "PEER_OFFER \<equiv> 2"

abbreviation (input) SESSION_INITIALIZATION :: message_type where "SESSION_INITIALIZATION \<equiv> 1"
abbreviation (input) SESSION_INITIALIZATION_RESPONSE :: message_type where
  "SESSION_INITIALIZATION_RESPONSE \<equiv> 2"
abbreviation (input) SESSION_UPDATE :: message_type where "SESSION_UPDATE \<equiv> 3"
abbreviation (input) SESSION_UPDATE_RESPONSE :: message_type where "SESSION_UPDATE_RESPONSE \<equiv> 4"
abbreviation (input) SESSION_TERMINATION :: message_type where "SESSION_TERMINATION \<equiv> 5"
abbreviation (input) SESSION_TERMINATION_RESPONSE :: message_type where
  "SESSION_TERMINATION_RESPONSE \<equiv> 6"
abbreviation (input) DESTINATION_UP :: message_type where "DESTINATION_UP \<equiv> 7"
abbreviation (input) DESTINATION_UP_RESPONSE :: message_type where "DESTINATION_UP_RESPONSE \<equiv> 8"
abbreviation (input) DESTINATION_ANNOUNCE :: message_type where "DESTINATION_ANNOUNCE \<equiv> 9"
abbreviation (input) DESTINATION_ANNOUNCE_RESPONSE :: message_type where
  "DESTINATION_ANNOUNCE_RESPONSE \<equiv> 10"
abbreviation (input) DESTINATION_DOWN :: message_type where "DESTINATION_DOWN \<equiv> 11"
abbreviation (input) DESTINATION_DOWN_RESPONSE :: message_type where "DESTINATION_DOWN_RESPONSE \<equiv> 12"
abbreviation (input) DESTINATION_UPDATE :: message_type where "DESTINATION_UPDATE \<equiv> 13"
abbreviation (input) LINK_CHARACTERISTICS_REQUEST :: message_type where
  "LINK_CHARACTERISTICS_REQUEST \<equiv> 14"
abbreviation (input) LINK_CHARACTERISTICS_RESPONSE :: message_type where
  "LINK_CHARACTERISTICS_RESPONSE \<equiv> 15"
abbreviation (input) HEARTBEAT :: message_type where "HEARTBEAT \<equiv> 16"

abbreviation (input) STATUS :: data_item_type where "STATUS \<equiv> 1"
abbreviation (input) IPV4_CONNECTION_POINT :: data_item_type where "IPV4_CONNECTION_POINT \<equiv> 2"
abbreviation (input) IPV6_CONNECTION_POINT :: data_item_type where "IPV6_CONNECTION_POINT \<equiv> 3"
abbreviation (input) PEER_TYPE :: data_item_type where "PEER_TYPE \<equiv> 4"
abbreviation (input) HEARTBEAT_INTERVAL :: data_item_type where "HEARTBEAT_INTERVAL \<equiv> 5"
abbreviation (input) EXTENSIONS_SUPPORTED :: data_item_type where "EXTENSIONS_SUPPORTED \<equiv> 6"
abbreviation (input) MAC_ADDRESS :: data_item_type where "MAC_ADDRESS \<equiv> 7"
abbreviation (input) IPV4_ADDRESS :: data_item_type where "IPV4_ADDRESS \<equiv> 8"
abbreviation (input) IPV6_ADDRESS :: data_item_type where "IPV6_ADDRESS \<equiv> 9"
abbreviation (input) IPV4_ATTACHED_SUBNET :: data_item_type where "IPV4_ATTACHED_SUBNET \<equiv> 10"
abbreviation (input) IPV6_ATTACHED_SUBNET :: data_item_type where "IPV6_ATTACHED_SUBNET \<equiv> 11"
abbreviation (input) MAXIMUM_DATA_RATE_RECEIVE :: data_item_type where "MAXIMUM_DATA_RATE_RECEIVE \<equiv> 12"
abbreviation (input) MAXIMUM_DATA_RATE_TRANSMIT :: data_item_type where
  "MAXIMUM_DATA_RATE_TRANSMIT \<equiv> 13"
abbreviation (input) CURRENT_DATA_RATE_RECEIVE :: data_item_type where "CURRENT_DATA_RATE_RECEIVE \<equiv> 14"
abbreviation (input) CURRENT_DATA_RATE_TRANSMIT :: data_item_type where
  "CURRENT_DATA_RATE_TRANSMIT \<equiv> 15"
abbreviation (input) LATENCY :: data_item_type where "LATENCY \<equiv> 16"
abbreviation (input) RESOURCES :: data_item_type where "RESOURCES \<equiv> 17"
abbreviation (input) RELATIVE_LINK_QUALITY_RECEIVE :: data_item_type where
  "RELATIVE_LINK_QUALITY_RECEIVE \<equiv> 18"
abbreviation (input) RELATIVE_LINK_QUALITY_TRANSMIT :: data_item_type where
  "RELATIVE_LINK_QUALITY_TRANSMIT \<equiv> 19"
abbreviation (input) MTU :: data_item_type where "MTU \<equiv> 20"

section \<open>Errors\<close>

datatype expected_len = Exact nat | AtLeast nat | OneOf "nat list" | Multiple nat

text \<open>\<open>InvalidUtf8\<close> carries the bytes that were refused.\<close>

datatype codec_error =
    Truncated nat nat
  | MissingSignalPrefix
  | LengthMismatch nat nat
  | UnknownSignalType signal_type
  | UnknownMessageType message_type
  | UnknownDataItemType data_item_type
  | InvalidDataItemLength data_item_type expected_len nat
  | InvalidUtf8 bytes
  | Io string
  | OutOfRange string u64

section \<open>MAC addresses\<close>

datatype mac_address_format = FormatEui48 | FormatEui64

text \<open>The octet arrays \<open>[u8; 6]\<close> and \<open>[u8; 8]\<close> are lists; \<open>mac_wf\<close> states their length.\<close>

datatype mac_address = Eui48 bytes | Eui64 bytes

fun mac_wf :: "mac_address \<Rightarrow> bool" where
  "mac_wf (Eui48 os) = (length os = 6)"
| "mac_wf (Eui64 os) = (length os = 8)"

fun accepts :: "mac_address_format \<Rightarrow> mac_address \<Rightarrow> bool" where
  "accepts FormatEui48 (Eui48 _) = True"
| "accepts FormatEui64 (Eui64 _) = True"
| "accepts _ _ = False"

definition BROADCAST_EUI48 :: mac_address where
  "BROADCAST_EUI48 = Eui48 (replicate 6 0xff)"

definition BROADCAST_EUI64 :: mac_address where
  "BROADCAST_EUI64 = Eui64 (replicate 8 0xff)"

fun as_bytes :: "mac_address \<Rightarrow> bytes" where
  "as_bytes (Eui48 os) = os"
| "as_bytes (Eui64 os) = os"

fun mac_len :: "mac_address \<Rightarrow> nat" where
  "mac_len (Eui48 _) = 6"
| "mac_len (Eui64 _) = 8"

fun is_eui48 :: "mac_address \<Rightarrow> bool" where
  "is_eui48 (Eui48 _) = True"
| "is_eui48 (Eui64 _) = False"

fun is_eui64 :: "mac_address \<Rightarrow> bool" where
  "is_eui64 (Eui64 _) = True"
| "is_eui64 (Eui48 _) = False"

text \<open>\<open>Display\<close>: two lower-case hexadecimal digits per octet, joined by colons.\<close>

definition hex_digit :: "nat \<Rightarrow> char" where
  "hex_digit n = ''0123456789abcdef'' ! n"

definition hex_byte :: "u8 \<Rightarrow> string" where
  "hex_byte b = [hex_digit (unat b div 16), hex_digit (unat b mod 16)]"

fun colon_hex :: "bytes \<Rightarrow> string" where
  "colon_hex [] = []"
| "colon_hex [b] = hex_byte b"
| "colon_hex (b # bs) = hex_byte b @ '':'' @ colon_hex bs"

definition mac_display :: "mac_address \<Rightarrow> string" where
  "mac_display m = colon_hex (as_bytes m)"

section \<open>Status codes\<close>

type_synonym status_code = u8

abbreviation (input) SUCCESS :: status_code where "SUCCESS \<equiv> 0"
abbreviation (input) NOT_INTERESTED :: status_code where "NOT_INTERESTED \<equiv> 1"
abbreviation (input) REQUEST_DENIED :: status_code where "REQUEST_DENIED \<equiv> 2"
abbreviation (input) INCONSISTENT_DATA :: status_code where "INCONSISTENT_DATA \<equiv> 3"
abbreviation (input) UNKNOWN_MESSAGE :: status_code where "UNKNOWN_MESSAGE \<equiv> 128"
abbreviation (input) UNEXPECTED_MESSAGE :: status_code where "UNEXPECTED_MESSAGE \<equiv> 129"
abbreviation (input) INVALID_DATA :: status_code where "INVALID_DATA \<equiv> 130"
abbreviation (input) INVALID_DESTINATION :: status_code where "INVALID_DESTINATION \<equiv> 131"
abbreviation (input) TIMED_OUT :: status_code where "TIMED_OUT \<equiv> 132"
abbreviation (input) SHUTTING_DOWN :: status_code where "SHUTTING_DOWN \<equiv> 255"

definition terminates_session :: "status_code \<Rightarrow> bool" where
  "terminates_session c = (c \<ge> 128)"

section \<open>Link metrics\<close>

record link_metrics =
  max_data_rate_rx_bps :: u64
  max_data_rate_tx_bps :: u64
  current_data_rate_rx_bps :: u64
  current_data_rate_tx_bps :: u64
  latency :: duration
  resources :: "u8 option"
  rlq_rx :: "u8 option"
  rlq_tx :: "u8 option"
  mtu :: "u16 option"

definition default_metrics :: link_metrics where
  "default_metrics = \<lparr>max_data_rate_rx_bps = 0, max_data_rate_tx_bps = 0,
     current_data_rate_rx_bps = 0, current_data_rate_tx_bps = 0, latency = 0,
     resources = None, rlq_rx = None, rlq_tx = None, mtu = None\<rparr>"

definition supported_by :: "link_metrics \<Rightarrow> link_metrics \<Rightarrow> bool" where
  "supported_by self initial =
     ((resources self = None \<or> resources initial \<noteq> None)
      \<and> (rlq_rx self = None \<or> rlq_rx initial \<noteq> None)
      \<and> (rlq_tx self = None \<or> rlq_tx initial \<noteq> None)
      \<and> (mtu self = None \<or> mtu initial \<noteq> None))"

record link_characteristics =
  lc_current_data_rate_rx_bps :: "u64 option"
  lc_current_data_rate_tx_bps :: "u64 option"
  lc_latency :: "duration option"

definition default_characteristics :: link_characteristics where
  "default_characteristics = \<lparr>lc_current_data_rate_rx_bps = None,
     lc_current_data_rate_tx_bps = None, lc_latency = None\<rparr>"

definition lc_is_empty :: "link_characteristics \<Rightarrow> bool" where
  "lc_is_empty lc = (lc_current_data_rate_rx_bps lc = None
     \<and> lc_current_data_rate_tx_bps lc = None \<and> lc_latency lc = None)"

section \<open>Data items\<close>

record raw_data_item =
  raw_type_id :: data_item_type
  raw_value :: bytes

record peer_flags =
  smi :: bool

record connection_point_flags =
  use_tls :: bool

datatype ('n, 'm) data_item =
    Status status_code rstring
  | Ipv4ConnectionPoint connection_point_flags ipv4 "u16 option"
  | Ipv6ConnectionPoint connection_point_flags ipv6 "u16 option"
  | PeerType peer_flags rstring
  | HeartbeatInterval duration
  | ExtensionsSupported "extension_id list"
  | MacAddress mac_address
  | Ipv4Address bool ipv4
  | Ipv6Address bool ipv6
  | Ipv4AttachedSubnet bool 'n
  | Ipv6AttachedSubnet bool 'm
  | MaxDataRateReceive u64
  | MaxDataRateTransmit u64
  | CurrentDataRateReceive u64
  | CurrentDataRateTransmit u64
  | Latency duration
  | Resources u8
  | RelativeLinkQualityReceive u8
  | RelativeLinkQualityTransmit u8
  | Mtu u16
  | Unknown raw_data_item

fun type_id :: "('n, 'm) data_item \<Rightarrow> data_item_type" where
  "type_id (Status _ _) = STATUS"
| "type_id (Ipv4ConnectionPoint _ _ _) = IPV4_CONNECTION_POINT"
| "type_id (Ipv6ConnectionPoint _ _ _) = IPV6_CONNECTION_POINT"
| "type_id (PeerType _ _) = PEER_TYPE"
| "type_id (HeartbeatInterval _) = HEARTBEAT_INTERVAL"
| "type_id (ExtensionsSupported _) = EXTENSIONS_SUPPORTED"
| "type_id (MacAddress _) = MAC_ADDRESS"
| "type_id (Ipv4Address _ _) = IPV4_ADDRESS"
| "type_id (Ipv6Address _ _) = IPV6_ADDRESS"
| "type_id (Ipv4AttachedSubnet _ _) = IPV4_ATTACHED_SUBNET"
| "type_id (Ipv6AttachedSubnet _ _) = IPV6_ATTACHED_SUBNET"
| "type_id (MaxDataRateReceive _) = MAXIMUM_DATA_RATE_RECEIVE"
| "type_id (MaxDataRateTransmit _) = MAXIMUM_DATA_RATE_TRANSMIT"
| "type_id (CurrentDataRateReceive _) = CURRENT_DATA_RATE_RECEIVE"
| "type_id (CurrentDataRateTransmit _) = CURRENT_DATA_RATE_TRANSMIT"
| "type_id (Latency _) = LATENCY"
| "type_id (Resources _) = RESOURCES"
| "type_id (RelativeLinkQualityReceive _) = RELATIVE_LINK_QUALITY_RECEIVE"
| "type_id (RelativeLinkQualityTransmit _) = RELATIVE_LINK_QUALITY_TRANSMIT"
| "type_id (Mtu _) = MTU"
| "type_id (Unknown r) = raw_type_id r"

section \<open>Messages and signals\<close>

record ('n, 'm) message =
  message_type :: message_type
  data_items :: "('n, 'm) data_item list"

definition message_new :: "message_type \<Rightarrow> ('n, 'm) message" where
  "message_new t = \<lparr>message_type = t, data_items = []\<rparr>"

definition with_item :: "('n, 'm) message \<Rightarrow> ('n, 'm) data_item \<Rightarrow> ('n, 'm) message" where
  "with_item msg item = msg\<lparr>data_items := data_items msg @ [item]\<rparr>"

record ('n, 'm) signal =
  signal_type :: signal_type
  signal_items :: "('n, 'm) data_item list"

definition signal_new :: "signal_type \<Rightarrow> ('n, 'm) signal" where
  "signal_new t = \<lparr>signal_type = t, signal_items = []\<rparr>"

definition signal_with_item :: "('n, 'm) signal \<Rightarrow> ('n, 'm) data_item \<Rightarrow> ('n, 'm) signal" where
  "signal_with_item s item = s\<lparr>signal_items := signal_items s @ [item]\<rparr>"

named_theorems wire_defs \<open>constructors of messages and signals\<close>

lemmas [wire_defs] = message_new_def with_item_def signal_new_def signal_with_item_def

lemma with_item_sel [simp]:
  "message_type (with_item msg i) = message_type msg"
  "data_items (with_item msg i) = data_items msg @ [i]"
  "message_type (message_new t) = t"
  "data_items (message_new t) = []"
  by (simp_all add: wire_defs)

lemma signal_with_item_sel [simp]:
  "signal_type (signal_with_item s i) = signal_type s"
  "signal_items (signal_with_item s i) = signal_items s @ [i]"
  "signal_type (signal_new t) = t"
  "signal_items (signal_new t) = []"
  by (simp_all add: wire_defs)

lemma length_as_bytes: "mac_wf m \<Longrightarrow> length (as_bytes m) = mac_len m"
  by (cases m) auto

end
