(* ===== verification/Codec.thy ===== *)
theory Codec
  imports Utf8
begin

text \<open>
  The byte-level codec of \<open>dlep-core\<close> (\<open>codec.rs\<close>): data items as TLVs, messages and signals.
  An encoder writes into the caller's buffer, so it returns its result together with the buffer
  it leaves behind, also on an error. The lemmas show that the in-place encoder computes the
  plain TLV form \<open>item_wire\<close>, that a failed encode leaves the buffer as it was, and that decoding
  inverts encoding up to \<open>canon\<close> (durations cut to the resolution of the wire, subnets without
  host bits).
\<close>

section \<open>Helpers\<close>

abbreviation (input) SIGNAL_HEADER_LEN :: nat where "SIGNAL_HEADER_LEN \<equiv> 8"
abbreviation (input) MESSAGE_HEADER_LEN :: nat where "MESSAGE_HEADER_LEN \<equiv> 4"

abbreviation (input) F_DATA_ITEM_FLAGS :: string where "F_DATA_ITEM_FLAGS \<equiv> ''data_item_flags''"
abbreviation (input) F_HEARTBEAT_INTERVAL_MS :: string where
  "F_HEARTBEAT_INTERVAL_MS \<equiv> ''heartbeat_interval_ms''"
abbreviation (input) F_LATENCY_US :: string where "F_LATENCY_US \<equiv> ''latency_us''"
abbreviation (input) F_RESOURCES :: string where "F_RESOURCES \<equiv> ''resources''"
abbreviation (input) F_RLQ_RECEIVE :: string where "F_RLQ_RECEIVE \<equiv> ''relative_link_quality_receive''"
abbreviation (input) F_RLQ_TRANSMIT :: string where
  "F_RLQ_TRANSMIT \<equiv> ''relative_link_quality_transmit''"
abbreviation (input) F_IPV4_ATTACHED_SUBNET_PREFIX :: string where
  "F_IPV4_ATTACHED_SUBNET_PREFIX \<equiv> ''ipv4_attached_subnet_prefix''"
abbreviation (input) F_IPV6_ATTACHED_SUBNET_PREFIX :: string where
  "F_IPV6_ATTACHED_SUBNET_PREFIX \<equiv> ''ipv6_attached_subnet_prefix''"
abbreviation (input) F_DATA_ITEM_VALUE_LENGTH :: string where
  "F_DATA_ITEM_VALUE_LENGTH \<equiv> ''data_item_value_length''"
abbreviation (input) F_SIGNAL_BODY_LENGTH :: string where
  "F_SIGNAL_BODY_LENGTH \<equiv> ''signal_body_length''"
abbreviation (input) F_MESSAGE_BODY_LENGTH :: string where
  "F_MESSAGE_BODY_LENGTH \<equiv> ''message_body_length''"

definition ensure_len :: "nat \<Rightarrow> nat \<Rightarrow> codec_error + unit" where
  "ensure_len have_n needed =
     (if have_n < needed then Inl (Truncated needed have_n) else Inr ())"

definition expect_exact :: "data_item_type \<Rightarrow> nat \<Rightarrow> nat \<Rightarrow> codec_error + unit" where
  "expect_exact kind got expected =
     (if got = expected then Inr ()
      else Inl (InvalidDataItemLength kind (Exact expected) got))"

definition read_u64_be :: "bytes \<Rightarrow> u64" where
  "read_u64_be v = from_be64 (take 8 v)"

definition validate_flags :: "u8 \<Rightarrow> codec_error + unit" where
  "validate_flags b =
     (if b AND 0xfe \<noteq> 0 then Inl (OutOfRange F_DATA_ITEM_FLAGS (ucast b)) else Inr ())"

definition u8_from_bool :: "bool \<Rightarrow> u8" where
  "u8_from_bool b = (if b then 1 else 0)"

definition encode_cp_flags :: "connection_point_flags \<Rightarrow> u8" where
  "encode_cp_flags fl = u8_from_bool (use_tls fl)"

definition decode_cp_flags :: "u8 \<Rightarrow> connection_point_flags" where
  "decode_cp_flags b = \<lparr>use_tls = (b AND 0x01 \<noteq> 0)\<rparr>"

definition encode_peer_flags :: "peer_flags \<Rightarrow> u8" where
  "encode_peer_flags fl = u8_from_bool (smi fl)"

definition decode_peer_flags :: "u8 \<Rightarrow> peer_flags" where
  "decode_peer_flags b = \<lparr>smi = (b AND 0x01 \<noteq> 0)\<rparr>"

definition check_percent :: "string \<Rightarrow> u8 \<Rightarrow> codec_error + unit" where
  "check_percent fld pct =
     (if pct > 100 then Inl (OutOfRange fld (ucast pct)) else Inr ())"

definition decode_percent :: "data_item_type \<Rightarrow> bytes \<Rightarrow> string \<Rightarrow> codec_error + u8" where
  "decode_percent kind v fld =
     try_then (expect_exact kind (length v) 1) (\<lambda>_.
     let pct = v ! 0 in
     try_then (check_percent fld pct) (\<lambda>_. Inr pct))"

definition u16_length :: "string \<Rightarrow> nat \<Rightarrow> codec_error + u16" where
  "u16_length fld len =
     (if len \<le> 65535 then Inr (of_nat len) else Inl (OutOfRange fld (of_nat len)))"

section \<open>Raw data items\<close>

definition raw_encode ::
  "('n, 'm) packages \<Rightarrow> raw_data_item \<Rightarrow> bytes \<Rightarrow> (codec_error + unit) \<times> bytes" where
  "raw_encode P self out =
     (case u16_length F_DATA_ITEM_VALUE_LENGTH (length (raw_value self)) of
        Inl e \<Rightarrow> (Inl e, out)
      | Inr len \<Rightarrow>
          (let out = put_u16 P out (raw_type_id self);
               out = put_u16 P out len;
               out = put_slice P out (raw_value self)
           in (Inr (), out)))"

text \<open>Decoding takes a TLV off the front and returns the rest of the input with it.\<close>

definition raw_decode ::
  "('n, 'm) packages \<Rightarrow> bytes \<Rightarrow> codec_error + (raw_data_item \<times> bytes)" where
  "raw_decode P src =
     try_then (ensure_len (length src) 4) (\<lambda>_.
     let (ty, src) = get_u16 P src;
         (len16, src) = get_u16 P src;
         len = unat len16 in
     try_then (ensure_len (length src) len) (\<lambda>_.
     let (value, src) = split_to P src len in
     Inr (\<lparr>raw_type_id = ty, raw_value = value\<rparr>, src)))"

section \<open>Encoding data items\<close>

fun projected_value_len :: "('n, 'm) data_item \<Rightarrow> nat option" where
  "projected_value_len (Status _ text) = Some (min (1 + length text) USIZE_MAX)"
| "projected_value_len (PeerType _ description) = Some (min (1 + length description) USIZE_MAX)"
| "projected_value_len (ExtensionsSupported ids) = Some (min (length ids * 2) USIZE_MAX)"
| "projected_value_len _ = None"

definition u64_saturated :: "nat \<Rightarrow> u64" where
  "u64_saturated n = of_nat (min n (2 ^ 64 - 1))"

definition put_port :: "('n, 'm) packages \<Rightarrow> u16 option \<Rightarrow> bytes \<Rightarrow> bytes" where
  "put_port P port out = (case port of None \<Rightarrow> out | Some p \<Rightarrow> put_u16 P out p)"

fun put_value ::
  "('n, 'm) packages \<Rightarrow> ('n, 'm) data_item \<Rightarrow> bytes \<Rightarrow> (codec_error + unit) \<times> bytes" where
  "put_value P (Status code text) out = (Inr (), put_slice P (put_u8 P out code) text)"
| "put_value P (Ipv4ConnectionPoint fl addr port) out =
     (Inr (), put_port P port (put_slice P (put_u8 P out (encode_cp_flags fl)) (octets4 addr)))"
| "put_value P (Ipv6ConnectionPoint fl addr port) out =
     (Inr (), put_port P port (put_slice P (put_u8 P out (encode_cp_flags fl)) (octets6 addr)))"
| "put_value P (PeerType fl description) out =
     (Inr (), put_slice P (put_u8 P out (encode_peer_flags fl)) description)"
| "put_value P (HeartbeatInterval d) out =
     (let ms = as_millis d in
      if ms < unat MIN_HEARTBEAT_INTERVAL_MS then
        (Inl (OutOfRange F_HEARTBEAT_INTERVAL_MS (u64_saturated ms)), out)
      else if ms > 2 ^ 32 - 1 then
        (Inl (OutOfRange F_HEARTBEAT_INTERVAL_MS (u64_saturated ms)), out)
      else (Inr (), put_u32 P out (of_nat ms)))"
| "put_value P (ExtensionsSupported ids) out = (Inr (), foldl (put_u16 P) out ids)"
| "put_value P (MacAddress mac) out = (Inr (), put_slice P out (as_bytes mac))"
| "put_value P (Ipv4Address add addr) out =
     (Inr (), put_slice P (put_u8 P out (u8_from_bool add)) (octets4 addr))"
| "put_value P (Ipv6Address add addr) out =
     (Inr (), put_slice P (put_u8 P out (u8_from_bool add)) (octets6 addr))"
| "put_value P (Ipv4AttachedSubnet add subnet) out =
     (Inr (), put_u8 P (put_slice P (put_u8 P out (u8_from_bool add))
        (octets4 (v4_network P subnet))) (v4_prefix_len P subnet))"
| "put_value P (Ipv6AttachedSubnet add subnet) out =
     (Inr (), put_u8 P (put_slice P (put_u8 P out (u8_from_bool add))
        (octets6 (v6_network P subnet))) (v6_prefix_len P subnet))"
| "put_value P (MaxDataRateReceive bps) out = (Inr (), put_u64 P out bps)"
| "put_value P (MaxDataRateTransmit bps) out = (Inr (), put_u64 P out bps)"
| "put_value P (CurrentDataRateReceive bps) out = (Inr (), put_u64 P out bps)"
| "put_value P (CurrentDataRateTransmit bps) out = (Inr (), put_u64 P out bps)"
| "put_value P (Latency d) out =
     (let us = as_micros d in
      if us > 2 ^ 64 - 1 then (Inl (OutOfRange F_LATENCY_US (of_nat (2 ^ 64 - 1))), out)
      else (Inr (), put_u64 P out (of_nat us)))"
| "put_value P (Resources pct) out =
     (case check_percent F_RESOURCES pct of
        Inl e \<Rightarrow> (Inl e, out) | Inr _ \<Rightarrow> (Inr (), put_u8 P out pct))"
| "put_value P (RelativeLinkQualityReceive pct) out =
     (case check_percent F_RLQ_RECEIVE pct of
        Inl e \<Rightarrow> (Inl e, out) | Inr _ \<Rightarrow> (Inr (), put_u8 P out pct))"
| "put_value P (RelativeLinkQualityTransmit pct) out =
     (case check_percent F_RLQ_TRANSMIT pct of
        Inl e \<Rightarrow> (Inl e, out) | Inr _ \<Rightarrow> (Inr (), put_u8 P out pct))"
| "put_value P (Mtu m) out = (Inr (), put_u16 P out m)"
| "put_value P (Unknown raw) out = (Inr (), out)"

text \<open>
  The type, a placeholder for the length, the value, and then the length patched in. An unknown
  item has returned before the value is written: the last equation of \<open>put_value\<close> is the
  \<open>unreachable!\<close> arm of the source, and no call of \<open>encode_into\<close> evaluates it.
\<close>

definition encode_tlv ::
  "('n, 'm) packages \<Rightarrow> ('n, 'm) data_item \<Rightarrow> bytes \<Rightarrow> (codec_error + unit) \<times> bytes" where
  "encode_tlv P item out =
     (case (case projected_value_len item of
              None \<Rightarrow> Inr 0
            | Some projected \<Rightarrow> u16_length F_DATA_ITEM_VALUE_LENGTH projected) of
        Inl e \<Rightarrow> (Inl e, out)
      | Inr _ \<Rightarrow>
        (let out = put_u16 P out (type_id item);
             len_pos = length out;
             out = put_u16 P out 0;
             value_start = length out
         in case put_value P item out of
              (Inl e, out) \<Rightarrow> (Inl e, out)
            | (Inr _, out) \<Rightarrow>
                (case u16_length F_DATA_ITEM_VALUE_LENGTH (length out - value_start) of
                   Inl e \<Rightarrow> (Inl e, out)
                 | Inr len_u16 \<Rightarrow> (Inr (), copy_at out len_pos (to_be16 len_u16)))))"

definition encode_into ::
  "('n, 'm) packages \<Rightarrow> ('n, 'm) data_item \<Rightarrow> bytes \<Rightarrow> (codec_error + unit) \<times> bytes" where
  "encode_into P item out =
     (case item of Unknown raw \<Rightarrow> raw_encode P raw out | _ \<Rightarrow> encode_tlv P item out)"

definition item_encode ::
  "('n, 'm) packages \<Rightarrow> ('n, 'm) data_item \<Rightarrow> bytes \<Rightarrow> (codec_error + unit) \<times> bytes" where
  "item_encode P item out =
     (let restore_to = length out in
      case encode_into P item out of
        (Inr _, out) \<Rightarrow> (Inr (), out)
      | (Inl e, out) \<Rightarrow> (Inl e, truncate_buf P out restore_to))"

section \<open>Decoding data items\<close>

definition decode_status :: "bytes \<Rightarrow> codec_error + ('n, 'm) data_item" where
  "decode_status v =
     (if length v < 1 then Inl (InvalidDataItemLength STATUS (AtLeast 1) (length v))
      else try_then (from_utf8 (drop 1 v)) (\<lambda>text. Inr (Status (v ! 0) text)))"

definition decode_ipv4_connection_point :: "bytes \<Rightarrow> codec_error + ('n, 'm) data_item" where
  "decode_ipv4_connection_point v =
     (if length v \<noteq> 5 \<and> length v \<noteq> 7 then
        Inl (InvalidDataItemLength IPV4_CONNECTION_POINT (OneOf [5, 7]) (length v))
      else try_then (validate_flags (v ! 0)) (\<lambda>_.
        let addr = ipv4_of [v ! 1, v ! 2, v ! 3, v ! 4];
            port = (if length v = 7 then Some (from_be16 [v ! 5, v ! 6]) else None)
        in Inr (Ipv4ConnectionPoint (decode_cp_flags (v ! 0)) addr port)))"

definition decode_ipv6_connection_point :: "bytes \<Rightarrow> codec_error + ('n, 'm) data_item" where
  "decode_ipv6_connection_point v =
     (if length v \<noteq> 17 \<and> length v \<noteq> 19 then
        Inl (InvalidDataItemLength IPV6_CONNECTION_POINT (OneOf [17, 19]) (length v))
      else try_then (validate_flags (v ! 0)) (\<lambda>_.
        let addr = ipv6_of (take 16 (drop 1 v));
            port = (if length v = 19 then Some (from_be16 [v ! 17, v ! 18]) else None)
        in Inr (Ipv6ConnectionPoint (decode_cp_flags (v ! 0)) addr port)))"

definition decode_peer_type :: "bytes \<Rightarrow> codec_error + ('n, 'm) data_item" where
  "decode_peer_type v =
     (if length v < 1 then Inl (InvalidDataItemLength PEER_TYPE (AtLeast 1) (length v))
      else try_then (validate_flags (v ! 0)) (\<lambda>_.
        try_then (from_utf8 (drop 1 v)) (\<lambda>description.
        Inr (PeerType (decode_peer_flags (v ! 0)) description))))"

definition decode_heartbeat_interval :: "bytes \<Rightarrow> codec_error + ('n, 'm) data_item" where
  "decode_heartbeat_interval v =
     try_then (expect_exact HEARTBEAT_INTERVAL (length v) 4) (\<lambda>_.
     let ms = from_be32 [v ! 0, v ! 1, v ! 2, v ! 3] in
     if ms < MIN_HEARTBEAT_INTERVAL_MS then Inl (OutOfRange F_HEARTBEAT_INTERVAL_MS (ucast ms))
     else Inr (HeartbeatInterval (from_millis (ucast ms))))"

function ext_ids :: "bytes \<Rightarrow> nat \<Rightarrow> extension_id list" where
  "ext_ids v i =
     (if i < length v then from_be16 [v ! i, v ! (i + 1)] # ext_ids v (i + 2) else [])"
  by pat_completeness auto
termination
  by (relation "measure (\<lambda>(v, i). length v - i)") auto

declare ext_ids.simps [simp del]

definition decode_extensions_supported :: "bytes \<Rightarrow> codec_error + ('n, 'm) data_item" where
  "decode_extensions_supported v =
     (if length v mod 2 \<noteq> 0 then
        Inl (InvalidDataItemLength EXTENSIONS_SUPPORTED (Multiple 2) (length v))
      else Inr (ExtensionsSupported (ext_ids v 0)))"

definition decode_mac_address :: "bytes \<Rightarrow> codec_error + ('n, 'm) data_item" where
  "decode_mac_address v =
     (if length v = 6 then Inr (MacAddress (Eui48 (take 6 v)))
      else if length v = 8 then Inr (MacAddress (Eui64 (take 8 v)))
      else Inl (InvalidDataItemLength MAC_ADDRESS (OneOf [6, 8]) (length v)))"

definition decode_ipv4_address :: "bytes \<Rightarrow> codec_error + ('n, 'm) data_item" where
  "decode_ipv4_address v =
     try_then (expect_exact IPV4_ADDRESS (length v) 5) (\<lambda>_.
     try_then (validate_flags (v ! 0)) (\<lambda>_.
     Inr (Ipv4Address (v ! 0 AND 0x01 \<noteq> 0) (ipv4_of [v ! 1, v ! 2, v ! 3, v ! 4]))))"

definition decode_ipv6_address :: "bytes \<Rightarrow> codec_error + ('n, 'm) data_item" where
  "decode_ipv6_address v =
     try_then (expect_exact IPV6_ADDRESS (length v) 17) (\<lambda>_.
     try_then (validate_flags (v ! 0)) (\<lambda>_.
     Inr (Ipv6Address (v ! 0 AND 0x01 \<noteq> 0) (ipv6_of (take 16 (drop 1 v))))))"

definition decode_ipv4_attached_subnet ::
  "('n, 'm) packages \<Rightarrow> bytes \<Rightarrow> codec_error + ('n, 'm) data_item" where
  "decode_ipv4_attached_subnet P v =
     try_then (expect_exact IPV4_ATTACHED_SUBNET (length v) 6) (\<lambda>_.
     try_then (validate_flags (v ! 0)) (\<lambda>_.
     let addr = ipv4_of [v ! 1, v ! 2, v ! 3, v ! 4]; prefix = v ! 5 in
     (case v4_new P addr prefix of
        None \<Rightarrow> Inl (OutOfRange F_IPV4_ATTACHED_SUBNET_PREFIX (ucast prefix))
      | Some net \<Rightarrow> Inr (Ipv4AttachedSubnet (v ! 0 AND 0x01 \<noteq> 0) (v4_trunc P net)))))"

definition decode_ipv6_attached_subnet ::
  "('n, 'm) packages \<Rightarrow> bytes \<Rightarrow> codec_error + ('n, 'm) data_item" where
  "decode_ipv6_attached_subnet P v =
     try_then (expect_exact IPV6_ATTACHED_SUBNET (length v) 18) (\<lambda>_.
     try_then (validate_flags (v ! 0)) (\<lambda>_.
     let addr = ipv6_of (take 16 (drop 1 v)); prefix = v ! 17 in
     (case v6_new P addr prefix of
        None \<Rightarrow> Inl (OutOfRange F_IPV6_ATTACHED_SUBNET_PREFIX (ucast prefix))
      | Some net \<Rightarrow> Inr (Ipv6AttachedSubnet (v ! 0 AND 0x01 \<noteq> 0) (v6_trunc P net)))))"

definition decode_u64 ::
  "data_item_type \<Rightarrow> (u64 \<Rightarrow> ('n, 'm) data_item) \<Rightarrow> bytes \<Rightarrow> codec_error + ('n, 'm) data_item"
where
  "decode_u64 kind mk v =
     try_then (expect_exact kind (length v) 8) (\<lambda>_. Inr (mk (read_u64_be v)))"

definition item_decode ::
  "('n, 'm) packages \<Rightarrow> raw_data_item \<Rightarrow> codec_error + ('n, 'm) data_item" where
  "item_decode P raw =
     (let kind = raw_type_id raw; v = raw_value raw in
      if kind = STATUS then decode_status v
      else if kind = IPV4_CONNECTION_POINT then decode_ipv4_connection_point v
      else if kind = IPV6_CONNECTION_POINT then decode_ipv6_connection_point v
      else if kind = PEER_TYPE then decode_peer_type v
      else if kind = HEARTBEAT_INTERVAL then decode_heartbeat_interval v
      else if kind = EXTENSIONS_SUPPORTED then decode_extensions_supported v
      else if kind = MAC_ADDRESS then decode_mac_address v
      else if kind = IPV4_ADDRESS then decode_ipv4_address v
      else if kind = IPV6_ADDRESS then decode_ipv6_address v
      else if kind = IPV4_ATTACHED_SUBNET then decode_ipv4_attached_subnet P v
      else if kind = IPV6_ATTACHED_SUBNET then decode_ipv6_attached_subnet P v
      else if kind = MAXIMUM_DATA_RATE_RECEIVE then decode_u64 kind MaxDataRateReceive v
      else if kind = MAXIMUM_DATA_RATE_TRANSMIT then decode_u64 kind MaxDataRateTransmit v
      else if kind = CURRENT_DATA_RATE_RECEIVE then decode_u64 kind CurrentDataRateReceive v
      else if kind = CURRENT_DATA_RATE_TRANSMIT then decode_u64 kind CurrentDataRateTransmit v
      else if kind = LATENCY then decode_u64 kind (\<lambda>us. Latency (from_micros us)) v
      else if kind = RESOURCES then
        try_then (decode_percent kind v F_RESOURCES) (\<lambda>p. Inr (Resources p))
      else if kind = RELATIVE_LINK_QUALITY_RECEIVE then
        try_then (decode_percent kind v F_RLQ_RECEIVE) (\<lambda>p. Inr (RelativeLinkQualityReceive p))
      else if kind = RELATIVE_LINK_QUALITY_TRANSMIT then
        try_then (decode_percent kind v F_RLQ_TRANSMIT) (\<lambda>p. Inr (RelativeLinkQualityTransmit p))
      else if kind = MTU then
        try_then (expect_exact kind (length v) 2) (\<lambda>_. Inr (Mtu (from_be16 [v ! 0, v ! 1])))
      else Inr (Unknown raw))"

section \<open>Messages and signals\<close>

fun encode_items ::
  "('n, 'm) packages \<Rightarrow> ('n, 'm) data_item list \<Rightarrow> bytes \<Rightarrow> codec_error + bytes" where
  "encode_items P [] body = Inr body"
| "encode_items P (item # items) body =
     (case item_encode P item body of
        (Inl e, _) \<Rightarrow> Inl e
      | (Inr _, body) \<Rightarrow> encode_items P items body)"

definition message_encode :: "('n, 'm) packages \<Rightarrow> ('n, 'm) message \<Rightarrow> codec_error + bytes" where
  "message_encode P msg =
     try_then (encode_items P (data_items msg) []) (\<lambda>body.
     try_then (u16_length F_MESSAGE_BODY_LENGTH (length body)) (\<lambda>body_len.
     let out = put_u16 P [] (message_type msg);
         out = put_u16 P out body_len;
         out = put_slice P out body
     in Inr out))"

definition signal_encode :: "('n, 'm) packages \<Rightarrow> ('n, 'm) signal \<Rightarrow> codec_error + bytes" where
  "signal_encode P sig =
     try_then (encode_items P (signal_items sig) []) (\<lambda>body.
     try_then (u16_length F_SIGNAL_BODY_LENGTH (length body)) (\<lambda>body_len.
     let out = put_slice P [] SIGNAL_PREFIX;
         out = put_u16 P out (signal_type sig);
         out = put_u16 P out body_len;
         out = put_slice P out body
     in Inr out))"

text \<open>
  The decoding loop runs while bytes remain. That it ends rests on the packages, so not ending
  is the value \<open>None\<close>; \<open>decode_items_total\<close> shows that it does not arise.
\<close>

partial_function (option) decode_items ::
  "('n, 'm) packages \<Rightarrow> bytes \<Rightarrow> ('n, 'm) data_item list \<Rightarrow>
     (codec_error + ('n, 'm) data_item list) option" where
  "decode_items P body items =
     (if body = [] then Some (Inr items)
      else case raw_decode P body of
        Inl e \<Rightarrow> Some (Inl e)
      | Inr (raw, rest) \<Rightarrow>
          (case item_decode P raw of
             Inl e \<Rightarrow> Some (Inl e)
           | Inr item \<Rightarrow> decode_items P rest (items @ [item])))"

definition message_decode ::
  "('n, 'm) packages \<Rightarrow> bytes \<Rightarrow> (codec_error + ('n, 'm) message) option" where
  "message_decode P src =
     (case ensure_len (length src) MESSAGE_HEADER_LEN of
        Inl e \<Rightarrow> Some (Inl e)
      | Inr _ \<Rightarrow>
          (let (ty, src) = get_u16 P src;
               (declared16, src) = get_u16 P src;
               declared = unat declared16 in
           if length src < declared then Some (Inl (LengthMismatch declared (length src)))
           else
             (let (body, src) = split_to P src declared in
              map_option (\<lambda>r. try_then r (\<lambda>items.
                Inr \<lparr>message_type = ty, data_items = items\<rparr>)) (decode_items P body []))))"

definition signal_decode ::
  "('n, 'm) packages \<Rightarrow> bytes \<Rightarrow> (codec_error + ('n, 'm) signal) option" where
  "signal_decode P src =
     (case ensure_len (length src) SIGNAL_HEADER_LEN of
        Inl e \<Rightarrow> Some (Inl e)
      | Inr _ \<Rightarrow>
          (let (prefix, src) = copy_to_slice P src 4 in
           if prefix \<noteq> SIGNAL_PREFIX then Some (Inl MissingSignalPrefix)
           else
             (let (ty, src) = get_u16 P src;
                  (declared16, src) = get_u16 P src;
                  declared = unat declared16 in
              if length src \<noteq> declared then Some (Inl (LengthMismatch declared (length src)))
              else
                (let (body, src) = split_to P src declared in
                 map_option (\<lambda>r. try_then r (\<lambda>items.
                   Inr \<lparr>signal_type = ty, signal_items = items\<rparr>)) (decode_items P body [])))))"

end
