(* ===== verification/Codec_Correct.thy ===== *)
theory Codec_Correct
  imports Codec
begin

text \<open>
  Correctness of the codec. \<open>item_wire\<close> is the plain TLV form of a data item; the in-place
  encoder is shown to compute it (\<open>item_encode_correct\<close>). \<open>decode_items_total\<close> shows that the
  decoding loop ends. \<open>message_roundtrip\<close> and \<open>signal_roundtrip\<close> show that decoding inverts
  encoding up to \<open>canon\<close>; \<open>message_reencode\<close> is the other direction, that what the decoder
  accepts encodes to the bytes it was read from.
\<close>

section \<open>The wire form of a data item\<close>

definition port_bytes :: "u16 option \<Rightarrow> bytes" where
  "port_bytes port = (case port of None \<Rightarrow> [] | Some p \<Rightarrow> to_be16 p)"

fun item_value :: "('n, 'm) packages \<Rightarrow> ('n, 'm) data_item \<Rightarrow> bytes option" where
  "item_value P (Status code text) = Some (code # text)"
| "item_value P (Ipv4ConnectionPoint fl addr port) =
     Some (encode_cp_flags fl # octets4 addr @ port_bytes port)"
| "item_value P (Ipv6ConnectionPoint fl addr port) =
     Some (encode_cp_flags fl # octets6 addr @ port_bytes port)"
| "item_value P (PeerType fl description) = Some (encode_peer_flags fl # description)"
| "item_value P (HeartbeatInterval d) =
     (if 1000 \<le> as_millis d \<and> as_millis d < 2 ^ 32
      then Some (to_be32 (of_nat (as_millis d))) else None)"
| "item_value P (ExtensionsSupported ids) = Some (concat (map to_be16 ids))"
| "item_value P (MacAddress mac) = Some (as_bytes mac)"
| "item_value P (Ipv4Address add addr) = Some (u8_from_bool add # octets4 addr)"
| "item_value P (Ipv6Address add addr) = Some (u8_from_bool add # octets6 addr)"
| "item_value P (Ipv4AttachedSubnet add net) =
     Some (u8_from_bool add # octets4 (v4_network P net) @ [v4_prefix_len P net])"
| "item_value P (Ipv6AttachedSubnet add net) =
     Some (u8_from_bool add # octets6 (v6_network P net) @ [v6_prefix_len P net])"
| "item_value P (MaxDataRateReceive bps) = Some (to_be64 bps)"
| "item_value P (MaxDataRateTransmit bps) = Some (to_be64 bps)"
| "item_value P (CurrentDataRateReceive bps) = Some (to_be64 bps)"
| "item_value P (CurrentDataRateTransmit bps) = Some (to_be64 bps)"
| "item_value P (Latency d) =
     (if as_micros d < 2 ^ 64 then Some (to_be64 (of_nat (as_micros d))) else None)"
| "item_value P (Resources pct) = (if pct \<le> 100 then Some [pct] else None)"
| "item_value P (RelativeLinkQualityReceive pct) = (if pct \<le> 100 then Some [pct] else None)"
| "item_value P (RelativeLinkQualityTransmit pct) = (if pct \<le> 100 then Some [pct] else None)"
| "item_value P (Mtu m) = Some (to_be16 m)"
| "item_value P (Unknown raw) = Some (raw_value raw)"

definition tlv :: "data_item_type \<Rightarrow> bytes \<Rightarrow> bytes" where
  "tlv ty v = to_be16 ty @ to_be16 (of_nat (length v)) @ v"

definition item_wire :: "('n, 'm) packages \<Rightarrow> ('n, 'm) data_item \<Rightarrow> bytes option" where
  "item_wire P item =
     (case item_value P item of
        None \<Rightarrow> None
      | Some v \<Rightarrow> if length v \<le> 65535 then Some (tlv (type_id item) v) else None)"

fun items_wire :: "('n, 'm) packages \<Rightarrow> ('n, 'm) data_item list \<Rightarrow> bytes option" where
  "items_wire P [] = Some []"
| "items_wire P (i # is) =
     (case item_wire P i of
        None \<Rightarrow> None
      | Some w \<Rightarrow> map_option ((@) w) (items_wire P is))"

lemma items_wire_fits: "items_wire P is = Some w \<Longrightarrow> i \<in> set is \<Longrightarrow> item_wire P i \<noteq> None"
  by (induction "is" arbitrary: w) (auto split: option.splits)

lemma item_wire_type: "item_wire P i = Some w \<Longrightarrow> item_wire P j = Some w \<Longrightarrow> type_id i = type_id j"
  by (auto simp: item_wire_def tlv_def to_be_inject split: option.splits if_splits)

section \<open>The in-place encoder computes the wire form\<close>

lemma copy_at_patch:
  "length old = length new \<Longrightarrow>
     copy_at (out @ old @ v) (length out) new = out @ new @ v"
  by (simp add: copy_at_def)

lemma u16_length_small [simp]:
  "n \<le> 65535 \<Longrightarrow> u16_length fld n = Inr (of_nat n)"
  by (simp add: u16_length_def)

lemma u16_length_large:
  "\<not> n \<le> 65535 \<Longrightarrow> \<exists>e. u16_length fld n = Inl e"
  by (simp add: u16_length_def)

lemma length_concat_to_be16 [simp]: "length (concat (map to_be16 ids)) = 2 * length ids"
  by (induction ids) auto

lemma projected_value_len_sound:
  assumes "projected_value_len item = Some n" and "item_value P item = Some v"
  shows "n = min (length v) USIZE_MAX"
  using assms by (cases item) (auto simp: mult.commute)

lemma check_percent_cases:
  "check_percent fld pct = (if pct \<le> 100 then Inr () else Inl (OutOfRange fld (ucast pct)))"
  by (auto simp: check_percent_def)

lemma unknown_cases:
  obtains raw where "item = Unknown raw" | "\<forall>raw. item \<noteq> Unknown raw"
  by blast

lemma encode_into_known:
  "\<forall>raw. item \<noteq> Unknown raw \<Longrightarrow> encode_into P item out = encode_tlv P item out"
  by (cases item) (auto simp: encode_into_def)

context byte_buffers
begin

lemma foldl_put_u16 [simp]: "foldl (put_u16 P) out ids = out @ concat (map to_be16 ids)"
  by (induction ids arbitrary: out) auto

lemma put_port_append [simp]: "put_port P port out = out @ port_bytes port"
  by (simp add: put_port_def port_bytes_def split: option.split)

lemma put_value_Some:
  assumes "item_value P item = Some v" and "\<forall>raw. item \<noteq> Unknown raw"
  shows "put_value P item out = (Inr (), out @ v)"
  using assms by (cases item) (auto simp: check_percent_cases Let_def split: if_splits)

lemma put_value_None:
  assumes "item_value P item = None"
  shows "\<exists>e. put_value P item out = (Inl e, out)"
  using assms by (cases item) (auto simp: check_percent_cases Let_def split: if_splits)

lemma raw_encode_eq:
  "raw_encode P raw out =
     (if length (raw_value raw) \<le> 65535
      then (Inr (), out @ tlv (raw_type_id raw) (raw_value raw))
      else (Inl (OutOfRange F_DATA_ITEM_VALUE_LENGTH (of_nat (length (raw_value raw)))), out))"
  by (simp add: raw_encode_def u16_length_def tlv_def Let_def)

lemma encode_into_Some:
  assumes "item_wire P item = Some w"
  shows "encode_into P item out = (Inr (), out @ w)"
proof (cases item rule: unknown_cases)
  case (1 raw)
  then show ?thesis using assms
    by (simp add: encode_into_def item_wire_def raw_encode_eq split: if_splits)
next
  case 2
  from assms obtain v where v: "item_value P item = Some v" "length v \<le> 65535"
      and w: "w = tlv (type_id item) v"
    by (auto simp: item_wire_def split: option.splits if_splits)
  have proj: "n \<le> 65535" if "projected_value_len item = Some n" for n
    using projected_value_len_sound [OF that v(1)] v(2) by simp
  have patch: "copy_at (out @ to_be16 (type_id item) @ to_be16 0 @ v) (Suc (Suc (length out))) len16
      = out @ to_be16 (type_id item) @ len16 @ v" if "length len16 = 2" for len16
    using copy_at_patch [of "to_be16 0" len16 "out @ to_be16 (type_id item)" v] that by simp
  show ?thesis
    unfolding encode_into_known [OF 2] encode_tlv_def Let_def
    using proj v(2) by (auto simp: put_value_Some [OF v(1) 2] patch w tlv_def split: option.split)
qed

lemma encode_into_None:
  assumes "item_wire P item = None"
  shows "\<exists>e out'. encode_into P item out = (Inl e, out @ out')"
proof (cases item rule: unknown_cases)
  case (1 raw)
  then show ?thesis using assms
    by (simp add: encode_into_def item_wire_def raw_encode_eq split: if_splits)
next
  case 2
  show ?thesis
  proof (cases "item_value P item")
    case None
    obtain e where "put_value P item (out @ to_be16 (type_id item) @ to_be16 0)
        = (Inl e, out @ to_be16 (type_id item) @ to_be16 0)"
      using put_value_None [OF None] by blast
    then show ?thesis unfolding encode_into_known [OF 2] encode_tlv_def Let_def
      by (auto split: option.split sum.split)
  next
    case (Some v)
    then have "\<not> length v \<le> 65535" using assms by (simp add: item_wire_def split: if_splits)
    then show ?thesis unfolding encode_into_known [OF 2] encode_tlv_def Let_def
      by (auto simp: put_value_Some [OF Some 2] u16_length_def split: option.split sum.split)
  qed
qed

lemma item_encode_Some:
  "item_wire P item = Some w \<Longrightarrow> item_encode P item out = (Inr (), out @ w)"
  by (simp add: item_encode_def encode_into_Some)

lemma item_encode_None:
  "item_wire P item = None \<Longrightarrow> \<exists>e. item_encode P item out = (Inl e, out)"
  using encode_into_None [of item out] by (auto simp: item_encode_def)

end


section \<open>Decoding inverts encoding\<close>

text \<open>
  What a value of the source's types always is (a \<open>String\<close> is valid UTF-8, a MAC has its six or
  eight octets), and an \<open>Unknown\<close> item has a type that is not one of the typed ones.
\<close>

fun wf_item :: "('n, 'm) data_item \<Rightarrow> bool" where
  "wf_item (Status _ text) = utf8_valid text"
| "wf_item (PeerType _ description) = utf8_valid description"
| "wf_item (MacAddress mac) = mac_wf mac"
| "wf_item (Unknown raw) = (raw_type_id raw = 0 \<or> raw_type_id raw > 20)"
| "wf_item _ = True"

text \<open>What survives the wire: whole milliseconds and microseconds, and subnets without host bits.\<close>

fun canon :: "('n, 'm) packages \<Rightarrow> ('n, 'm) data_item \<Rightarrow> ('n, 'm) data_item" where
  "canon P (HeartbeatInterval d) = HeartbeatInterval (as_millis d * 10 ^ 6)"
| "canon P (Latency d) = Latency (as_micros d * 10 ^ 3)"
| "canon P (Ipv4AttachedSubnet add net) = Ipv4AttachedSubnet add (v4_trunc P net)"
| "canon P (Ipv6AttachedSubnet add net) = Ipv6AttachedSubnet add (v6_trunc P net)"
| "canon P item = item"

lemma nths_id:
  "length xs = 2 \<Longrightarrow> [xs ! 0, xs ! 1] = xs"
  "length xs = 4 \<Longrightarrow> [xs ! 0, xs ! 1, xs ! 2, xs ! 3] = xs"
  by (auto simp: list_eq_iff_nth_eq less_Suc_eq numeral_eq_Suc)

lemma flag_bits [simp]:
  "u8_from_bool b AND 0xfe = 0" "(u8_from_bool b AND 1 \<noteq> 0) = b"
  by (simp_all add: u8_from_bool_def)

lemma validate_flags_bool [simp]: "validate_flags (u8_from_bool b) = Inr ()"
  by (simp add: validate_flags_def)

lemma decode_flags_encode [simp]:
  "decode_cp_flags (encode_cp_flags fl) = fl"
  "validate_flags (encode_cp_flags fl) = Inr ()"
  "decode_peer_flags (encode_peer_flags pf) = pf"
  "validate_flags (encode_peer_flags pf) = Inr ()"
  by (simp_all add: decode_cp_flags_def encode_cp_flags_def decode_peer_flags_def
      encode_peer_flags_def)

lemma ext_ids_concat: "ext_ids (xs @ concat (map to_be16 ids)) (length xs) = ids"
proof (induction ids arbitrary: xs)
  case Nil
  show ?case by (simp add: ext_ids.simps)
next
  case (Cons id ids)
  let ?v = "xs @ concat (map to_be16 (id # ids))"
  have "[?v ! length xs, ?v ! (length xs + 1)] = to_be16 id"
    using nths_id(1) [of "to_be16 id"] by (simp add: nth_append)
  moreover have "ext_ids ?v (length xs + 2) = ids"
    using Cons.IH [of "xs @ to_be16 id"] by simp
  ultimately show ?case by (subst ext_ids.simps) simp
qed

lemma unat_of_nat_u32: "n < 2 ^ 32 \<Longrightarrow> unat (of_nat n :: u32) = n"
  by (simp add: unat_of_nat)

lemma unat_of_nat_u64: "n < 2 ^ 64 \<Longrightarrow> unat (of_nat n :: u64) = n"
  by (simp add: unat_of_nat)

lemma unat_ucast_u64: "unat (ucast (w :: u32) :: u64) = unat w"
proof -
  have "unat w < 2 ^ 32" using unsigned_less [of w] by simp
  then have "unat w < 2 ^ 64" by simp
  then show ?thesis by (simp add: unsigned_ucast_eq take_bit_nat_eq_self_iff)
qed

lemmas item_decode_defs =
  decode_status_def decode_ipv4_connection_point_def decode_ipv6_connection_point_def
  decode_peer_type_def decode_heartbeat_interval_def decode_extensions_supported_def
  decode_mac_address_def decode_ipv4_address_def decode_ipv6_address_def
  decode_ipv4_attached_subnet_def decode_ipv6_attached_subnet_def decode_u64_def
  decode_percent_def expect_exact_def check_percent_cases


lemma nth_front4:
  assumes "length os = 4"
  shows "[(f # os @ t) ! 1, (f # os @ t) ! 2, (f # os @ t) ! 3, (f # os @ t) ! 4] = os"
  using nths_id(2) [OF assms] assms by (simp add: nth_append)

lemma length_port_bytes: "length (port_bytes p) = (case p of None \<Rightarrow> 0 | Some _ \<Rightarrow> 2)"
  by (simp add: port_bytes_def split: option.split)

lemma decode_ipv4_connection_point_encode:
  "decode_ipv4_connection_point (encode_cp_flags fl # octets4 a @ port_bytes p) =
     Inr (Ipv4ConnectionPoint fl a p)"
proof (cases p)
  case None
  then show ?thesis
    using nth_front4 [of "octets4 a" "encode_cp_flags fl" "[]"]
    by (simp add: decode_ipv4_connection_point_def port_bytes_def Let_def)
next
  case (Some q)
  then show ?thesis
    using nth_front4 [of "octets4 a" "encode_cp_flags fl" "to_be16 q"] nths_id(1) [of "to_be16 q"]
    by (simp add: decode_ipv4_connection_point_def port_bytes_def Let_def nth_append)
qed

lemma decode_ipv6_connection_point_encode:
  "decode_ipv6_connection_point (encode_cp_flags fl # octets6 a @ port_bytes p) =
     Inr (Ipv6ConnectionPoint fl a p)"
proof (cases p)
  case None
  then show ?thesis
    by (simp add: decode_ipv6_connection_point_def port_bytes_def Let_def)
next
  case (Some q)
  then show ?thesis
    using nths_id(1) [of "to_be16 q"]
    by (simp add: decode_ipv6_connection_point_def port_bytes_def Let_def nth_append)
qed

lemma decode_heartbeat_interval_encode:
  assumes "1000 \<le> as_millis d" "as_millis d < 2 ^ 32"
  shows "decode_heartbeat_interval (to_be32 (of_nat (as_millis d))) =
     Inr (HeartbeatInterval (as_millis d * 10 ^ 6))"
proof -
  let ?w = "of_nat (as_millis d) :: u32"
  have "unat ?w = as_millis d" using assms(2) by (rule unat_of_nat_u32)
  moreover have "\<not> ?w < 1000" using assms(1) calculation by (simp add: word_less_nat_alt)
  moreover have "unat (ucast ?w :: u64) = unat ?w" by (rule unat_ucast_u64)
  ultimately show ?thesis
    using nths_id(2) [of "to_be32 ?w"]
    by (simp add: decode_heartbeat_interval_def expect_exact_def Let_def from_millis_def)
qed

lemma decode_ipv4_address_encode:
  "decode_ipv4_address (u8_from_bool add # octets4 a) = Inr (Ipv4Address add a)"
  using nth_front4 [of "octets4 a" "u8_from_bool add" "[]"]
  by (simp add: decode_ipv4_address_def expect_exact_def)

lemma decode_ipv6_address_encode:
  "decode_ipv6_address (u8_from_bool add # octets6 a) = Inr (Ipv6Address add a)"
  by (simp add: decode_ipv6_address_def expect_exact_def)

lemma decode_extensions_supported_encode:
  "decode_extensions_supported (concat (map to_be16 ids)) = Inr (ExtensionsSupported ids)"
  using ext_ids_concat [of "[]" ids] by (simp add: decode_extensions_supported_def)

lemma decode_mac_address_encode:
  "mac_wf m \<Longrightarrow> decode_mac_address (as_bytes m) = Inr (MacAddress m)"
  by (cases m) (simp_all add: decode_mac_address_def)

context ip_nets
begin

lemma decode_ipv4_attached_subnet_encode:
  "decode_ipv4_attached_subnet P
     (u8_from_bool add # octets4 (v4_network P net) @ [v4_prefix_len P net]) =
   Inr (Ipv4AttachedSubnet add (v4_trunc P net))"
proof -
  obtain k where "v4_new P (v4_network P net) (v4_prefix_len P net) = Some k"
      and "v4_trunc P k = v4_trunc P net"
    using v4_new_of_net by blast
  then show ?thesis
    using nth_front4 [of "octets4 (v4_network P net)" "u8_from_bool add" "[v4_prefix_len P net]"]
    by (simp add: decode_ipv4_attached_subnet_def expect_exact_def Let_def nth_append)
qed

lemma decode_ipv6_attached_subnet_encode:
  "decode_ipv6_attached_subnet P
     (u8_from_bool add # octets6 (v6_network P net) @ [v6_prefix_len P net]) =
   Inr (Ipv6AttachedSubnet add (v6_trunc P net))"
proof -
  obtain k where "v6_new P (v6_network P net) (v6_prefix_len P net) = Some k"
      and "v6_trunc P k = v6_trunc P net"
    using v6_new_of_net by blast
  then show ?thesis
    by (simp add: decode_ipv6_attached_subnet_def expect_exact_def Let_def nth_append)
qed

lemma item_decode_value:
  assumes "item_value P item = Some v" and "wf_item item"
  shows "item_decode P \<lparr>raw_type_id = type_id item, raw_value = v\<rparr> = Inr (canon P item)"
proof (cases item)
  case (Unknown raw)
  with assms have "raw_type_id raw = 0 \<or> raw_type_id raw > 20" "v = raw_value raw" by auto
  then have "raw_type_id raw \<notin> {1,2,3,4,5,6,7,8,9,10,11,12,13,14,15,16,17,18,19,20}"
    by auto
  with Unknown \<open>v = raw_value raw\<close> show ?thesis by (simp add: item_decode_def Let_def)
next
  case (Mtu m)
  then show ?thesis using assms nths_id(1) [of "to_be16 m"]
    by (auto simp: item_decode_def expect_exact_def)
next
  case (Latency d)
  then show ?thesis using assms unat_of_nat_u64 [of "as_micros d"]
    by (auto simp: item_decode_def decode_u64_def expect_exact_def read_u64_be_def
        from_micros_def split: if_splits)
qed (use assms in \<open>auto simp: item_decode_def decode_status_def decode_peer_type_def
    decode_ipv4_connection_point_encode decode_ipv6_connection_point_encode
    decode_heartbeat_interval_encode decode_extensions_supported_encode decode_mac_address_encode
    decode_ipv4_address_encode decode_ipv6_address_encode decode_ipv4_attached_subnet_encode
    decode_ipv6_attached_subnet_encode decode_u64_def read_u64_be_def expect_exact_def
    decode_percent_def check_percent_cases from_utf8_def Let_def split: if_splits\<close>)

end


section \<open>Whole bodies, messages and signals\<close>

lemma length_tlv [simp]: "length (tlv ty v) = 4 + length v"
  by (simp add: tlv_def)

lemma take_to_be16 [simp]: "take 2 (to_be16 w @ xs) = to_be16 w" "drop 2 (to_be16 w @ xs) = xs"
  by simp_all

lemma take_app_id: "length xs = n \<Longrightarrow> take n (xs @ ys) = xs"
  by simp

lemma drop_app_id: "length xs = n \<Longrightarrow> drop n (xs @ ys) = ys"
  by simp

context byte_buffers
begin

lemma raw_decode_tlv:
  assumes "length v \<le> 65535"
  shows "raw_decode P (tlv ty v @ rest) = Inr (\<lparr>raw_type_id = ty, raw_value = v\<rparr>, rest)"
proof -
  have n: "unat (of_nat (length v) :: u16) = length v" using assms by (simp add: unat_of_nat)
  show ?thesis
    by (simp add: raw_decode_def ensure_len_def tlv_def n take_app_id drop_app_id)
qed

lemma raw_decode_shrinks:
  assumes "raw_decode P src = Inr (raw, rest)"
  shows "length rest < length src" "length (raw_value raw) \<le> 65535"
    "src = tlv (raw_type_id raw) (raw_value raw) @ rest"
proof -
  from assms have l: "4 \<le> length src"
    by (auto simp: raw_decode_def ensure_len_def Let_def split: if_splits)
  let ?n = "unat (from_be16 (take 2 (drop 2 src)))"
  from assms l have m: "?n \<le> length (drop 4 src)"
    by (auto simp: raw_decode_def ensure_len_def Let_def split: if_splits)
  from assms l m have eqs: "raw_type_id raw = from_be16 (take 2 src)"
      "raw_value raw = take ?n (drop 4 src)" "rest = drop ?n (drop 4 src)"
    by (auto simp: raw_decode_def ensure_len_def Let_def split: if_splits)
  have n: "?n < 65536" using unsigned_less [of "from_be16 (take 2 (drop 2 src))"] by simp
  show "length rest < length src" "length (raw_value raw) \<le> 65535"
    using l m n eqs by auto
  have "to_be16 (of_nat ?n) = take 2 (drop 2 src)" using l by (simp add: to_be_from_be)
  moreover have "length (raw_value raw) = ?n" using m eqs by simp
  moreover have "to_be16 (raw_type_id raw) = take 2 src" using l eqs by (simp add: to_be_from_be)
  ultimately have "tlv (raw_type_id raw) (raw_value raw) =
      take 2 src @ take 2 (drop 2 src) @ take ?n (drop 4 src)"
    using eqs by (simp add: tlv_def)
  then have "tlv (raw_type_id raw) (raw_value raw) @ rest =
      take 2 src @ take 2 (drop 2 src) @ drop 4 src"
    using eqs by (simp del: drop_drop)
  also have "take 2 (drop 2 src) @ drop 4 src = drop 2 src"
    using append_take_drop_id [of 2 "drop 2 src"] by simp
  finally show "src = tlv (raw_type_id raw) (raw_value raw) @ rest" by simp
qed

lemma decode_items_total: "\<exists>r. decode_items P body items = Some r"
proof (induction body arbitrary: items rule: length_induct)
  case (1 body)
  show ?case
  proof (cases "raw_decode P body")
    case (Inl e)
    then show ?thesis by (auto simp: decode_items.simps)
  next
    case (Inr res)
    then obtain raw rest where rr: "raw_decode P body = Inr (raw, rest)" by (cases res) auto
    from raw_decode_shrinks(1) [OF rr] 1 have "\<exists>r. decode_items P rest its = Some r" for its
      by blast
    with rr show ?thesis
      by (subst decode_items.simps) (auto split: sum.split)
  qed
qed

lemma message_decode_total: "\<exists>r. message_decode P src = Some r"
  by (simp add: message_decode_def Let_def split_beta decode_items_total split: sum.split)

lemma signal_decode_total: "\<exists>r. signal_decode P src = Some r"
  by (simp add: signal_decode_def Let_def split_beta decode_items_total split: sum.split)

lemma encode_items_eq_Inr:
  "encode_items P items body = Inr out \<longleftrightarrow> (\<exists>w. items_wire P items = Some w \<and> out = body @ w)"
proof (induction items arbitrary: body)
  case Nil
  show ?case by auto
next
  case (Cons i items)
  show ?case
  proof (cases "item_wire P i")
    case None
    then obtain e where "item_encode P i body = (Inl e, body)" using item_encode_None by blast
    with None show ?thesis by simp
  next
    case (Some w)
    then show ?thesis using Cons.IH by (auto simp: item_encode_Some)
  qed
qed

lemma message_encode_eq_Inr:
  "message_encode P msg = Inr out \<longleftrightarrow>
     (\<exists>w. items_wire P (data_items msg) = Some w \<and> length w \<le> 65535 \<and>
        out = tlv (message_type msg) w)"
  by (auto simp: message_encode_def try_then_eq_Inr encode_items_eq_Inr u16_length_def tlv_def
      Let_def)

lemma signal_encode_eq_Inr:
  "signal_encode P sig = Inr out \<longleftrightarrow>
     (\<exists>w. items_wire P (signal_items sig) = Some w \<and> length w \<le> 65535 \<and>
        out = SIGNAL_PREFIX @ tlv (signal_type sig) w)"
  by (auto simp: signal_encode_def try_then_eq_Inr encode_items_eq_Inr u16_length_def tlv_def
      Let_def)

end

context dlep_packages
begin

lemma item_roundtrip:
  assumes "item_wire P item = Some w" and "wf_item item"
  obtains raw where "raw_decode P (w @ rest) = Inr (raw, rest)"
    and "item_decode P raw = Inr (canon P item)" and "w \<noteq> []"
proof -
  from assms(1) obtain v where v: "item_value P item = Some v" "length v \<le> 65535"
      and w: "w = tlv (type_id item) v"
    by (auto simp: item_wire_def split: option.splits if_splits)
  show thesis
  proof (rule that)
    show "raw_decode P (w @ rest) = Inr (\<lparr>raw_type_id = type_id item, raw_value = v\<rparr>, rest)"
      using v w by (simp add: raw_decode_tlv)
    show "item_decode P \<lparr>raw_type_id = type_id item, raw_value = v\<rparr> = Inr (canon P item)"
      using v(1) assms(2) by (rule item_decode_value)
    show "w \<noteq> []" using w length_tlv [of "type_id item" v] by fastforce
  qed
qed

lemma decode_items_wire:
  assumes "items_wire P items = Some w" and "list_all wf_item items"
  shows "decode_items P w acc = Some (Inr (acc @ map (canon P) items))"
  using assms
proof (induction items arbitrary: w acc)
  case Nil
  then show ?case by (simp add: decode_items.simps)
next
  case (Cons i items)
  from Cons.prems(1) obtain a b where a: "item_wire P i = Some a"
      and b: "items_wire P items = Some b" and w: "w = a @ b"
    by (auto split: option.splits)
  from Cons.prems(2) have wf: "wf_item i" "list_all wf_item items" by auto
  obtain raw where "raw_decode P (a @ b) = Inr (raw, b)" "item_decode P raw = Inr (canon P i)" "a \<noteq> []"
    by (rule item_roundtrip [OF a wf(1)])
  with Cons.IH [OF b wf(2)] w show ?case by (subst decode_items.simps) simp
qed

lemma message_roundtrip:
  assumes "message_encode P msg = Inr out" and "list_all wf_item (data_items msg)"
  shows "message_decode P (out @ rest) =
    Some (Inr (msg\<lparr>data_items := map (canon P) (data_items msg)\<rparr>))"
proof -
  from assms(1) obtain w where w: "items_wire P (data_items msg) = Some w" "length w \<le> 65535"
      and out: "out = tlv (message_type msg) w"
    by (auto simp: message_encode_eq_Inr)
  have n: "unat (of_nat (length w) :: u16) = length w" using w(2) by (simp add: unat_of_nat)
  show ?thesis
    using decode_items_wire [OF w(1) assms(2), of "[]"] w(2)
    by (simp add: out message_decode_def ensure_len_def tlv_def n take_app_id drop_app_id)
qed

lemma signal_roundtrip:
  assumes "signal_encode P sig = Inr out" and "list_all wf_item (signal_items sig)"
  shows "signal_decode P out =
    Some (Inr (sig\<lparr>signal_items := map (canon P) (signal_items sig)\<rparr>))"
proof -
  from assms(1) obtain w where w: "items_wire P (signal_items sig) = Some w" "length w \<le> 65535"
      and out: "out = SIGNAL_PREFIX @ tlv (signal_type sig) w"
    by (auto simp: signal_encode_eq_Inr)
  have n: "unat (of_nat (length w) :: u16) = length w" using w(2) by (simp add: unat_of_nat)
  have p: "length SIGNAL_PREFIX = 4" by (simp add: SIGNAL_PREFIX_def)
  show ?thesis
    using decode_items_wire [OF w(1) assms(2), of "[]"] w(2)
    by (simp add: out signal_decode_def ensure_len_def tlv_def n p take_app_id drop_app_id)
qed

lemma signal_trailing:
  assumes "signal_encode P sig = Inr out"
  shows "\<exists>n. signal_decode P (out @ b # bs) = Some (Inl (LengthMismatch n (n + 1 + length bs)))"
proof -
  from assms obtain w where w: "length w \<le> 65535"
      and out: "out = SIGNAL_PREFIX @ tlv (signal_type sig) w"
    by (auto simp: signal_encode_eq_Inr)
  have n: "unat (of_nat (length w) :: u16) = length w" using w by (simp add: unat_of_nat)
  have p: "length SIGNAL_PREFIX = 4" by (simp add: SIGNAL_PREFIX_def)
  show ?thesis
    by (simp add: out signal_decode_def ensure_len_def tlv_def n p take_app_id drop_app_id Let_def)
qed

end


section \<open>What the decoder accepts\<close>

lemma flag_byte:
  assumes "(b :: u8) AND 0xfe = 0"
  shows "u8_from_bool (b AND 1 \<noteq> 0) = b"
proof -
  have "b = (b AND 1) OR (b AND NOT 1)"
    by (rule bit_eqI) (auto simp: bit_simps)
  also have "(NOT 1 :: u8) = 0xfe" by simp
  also note assms
  finally have "b = b AND 1" by simp
  moreover have "b AND 1 = 0 \<or> b AND 1 = 1" by (auto simp: and_one_eq)
  ultimately show ?thesis by (auto simp: u8_from_bool_def)
qed

lemma validate_flags_Inr: "validate_flags b = Inr () \<longleftrightarrow> b AND 0xfe = 0"
  by (simp add: validate_flags_def)

lemma len4_rebuild: "length v = 5 \<Longrightarrow> v ! 0 # [v ! 1, v ! 2, v ! 3, v ! 4] = v"
  by (auto simp: list_eq_iff_nth_eq less_Suc_eq numeral_eq_Suc)

lemma ext_ids_rebuild:
  assumes "even (length v)" "even i"
  shows "concat (map to_be16 (ext_ids v i)) = drop i v"
  using assms
proof (induction v i rule: ext_ids.induct)
  case (1 v i)
  show ?case
  proof (cases "i < length v")
    case True
    with "1.prems" have l: "i + 1 < length v" by presburger
    have "concat (map to_be16 (ext_ids v i)) = [v ! i, v ! (i + 1)] @ drop (i + 2) v"
      using True 1 by (subst ext_ids.simps) (simp add: to_be_from_be)
    also have "\<dots> = drop i v"
      using l True by (simp add: Cons_nth_drop_Suc)
    finally show ?thesis .
  next
    case False
    then show ?thesis by (simp add: ext_ids.simps)
  qed
qed


fun is_subnet :: "('n, 'm) data_item \<Rightarrow> bool" where
  "is_subnet (Ipv4AttachedSubnet _ _) = True"
| "is_subnet (Ipv6AttachedSubnet _ _) = True"
| "is_subnet _ = False"

text \<open>
  What a successful decode of \<open>v\<close> yields: a well-formed, canonical item whose wire form has the
  length of \<open>v\<close>, and is \<open>v\<close> itself unless host bits of a subnet were zeroed.
\<close>

definition reads :: "('n, 'm) packages \<Rightarrow> bytes \<Rightarrow> ('n, 'm) data_item \<Rightarrow> bool" where
  "reads P v item \<longleftrightarrow>
     wf_item item \<and> canon P item = item \<and>
     (\<exists>v'. item_value P item = Some v' \<and> length v' = length v \<and> (\<not> is_subnet item \<longrightarrow> v' = v))"

lemma reads_exact:
  "wf_item item \<Longrightarrow> canon P item = item \<Longrightarrow> item_value P item = Some v \<Longrightarrow> reads P v item"
  by (simp add: reads_def)

lemma flags_rebuild:
  assumes "b AND 0xfe = 0"
  shows "encode_cp_flags (decode_cp_flags b) = b" "encode_peer_flags (decode_peer_flags b) = b"
  using flag_byte [OF assms]
  by (simp_all add: encode_cp_flags_def decode_cp_flags_def encode_peer_flags_def
      decode_peer_flags_def)

lemma reads_status: "decode_status v = Inr item \<Longrightarrow> reads P v item"
  by (cases v) (auto simp: decode_status_def try_then_eq_Inr intro!: reads_exact)

lemma reads_peer_type: "decode_peer_type v = Inr item \<Longrightarrow> reads P v item"
  by (cases v) (auto simp: decode_peer_type_def try_then_eq_Inr validate_flags_Inr flags_rebuild
      intro!: reads_exact)

lemma reads_extensions_supported: "decode_extensions_supported v = Inr item \<Longrightarrow> reads P v item"
  using ext_ids_rebuild [of v 0]
  by (auto simp: decode_extensions_supported_def split: if_splits intro!: reads_exact)

lemma reads_mac_address: "decode_mac_address v = Inr item \<Longrightarrow> reads P v item"
  by (auto simp: decode_mac_address_def split: if_splits intro!: reads_exact)

lemma reads_ipv4_address: "decode_ipv4_address v = Inr item \<Longrightarrow> reads P v item"
  using len4_rebuild [of v]
  by (auto simp: decode_ipv4_address_def expect_exact_def try_then_eq_Inr validate_flags_Inr
      flag_byte to_be_from_be split: if_splits intro!: reads_exact)

lemma reads_ipv6_address: "decode_ipv6_address v = Inr item \<Longrightarrow> reads P v item"
  by (cases v) (auto simp: decode_ipv6_address_def expect_exact_def try_then_eq_Inr
      validate_flags_Inr flag_byte to_be_from_be split: if_splits intro!: reads_exact)

lemma reads_ipv4_connection_point:
  assumes "decode_ipv4_connection_point v = Inr item"
  shows "reads P v item"
proof -
  from assms have fl: "v ! 0 AND 0xfe = 0"
    by (auto simp: decode_ipv4_connection_point_def try_then_eq_Inr validate_flags_Inr
        split: if_splits)
  consider "length v = 5" | "length v = 7"
    using assms by (auto simp: decode_ipv4_connection_point_def split: if_splits)
  then show ?thesis
  proof cases
    case 1
    then show ?thesis using assms len4_rebuild [OF 1] fl
      by (auto simp: decode_ipv4_connection_point_def try_then_eq_Inr flags_rebuild to_be_from_be
          port_bytes_def intro!: reads_exact)
  next
    case 2
    then have "v = v ! 0 # [v ! 1, v ! 2, v ! 3, v ! 4] @ [v ! 5, v ! 6]"
      by (auto simp: list_eq_iff_nth_eq less_Suc_eq numeral_eq_Suc)
    with 2 show ?thesis using assms fl
      by (auto simp: decode_ipv4_connection_point_def try_then_eq_Inr flags_rebuild to_be_from_be
          port_bytes_def intro!: reads_exact)
  qed
qed

lemma reads_ipv6_connection_point:
  assumes "decode_ipv6_connection_point v = Inr item"
  shows "reads P v item"
proof -
  from assms obtain b r where v: "v = b # r" by (cases v) (auto simp: decode_ipv6_connection_point_def)
  from assms have fl: "b AND 0xfe = 0"
    by (auto simp: decode_ipv6_connection_point_def try_then_eq_Inr validate_flags_Inr v
        split: if_splits)
  consider "length r = 16" | "length r = 18"
    using assms v by (auto simp: decode_ipv6_connection_point_def split: if_splits)
  then show ?thesis
  proof cases
    case 1
    then show ?thesis using assms fl
      by (auto simp: decode_ipv6_connection_point_def try_then_eq_Inr flags_rebuild to_be_from_be
          port_bytes_def v intro!: reads_exact)
  next
    case 2
    then have "[r ! 16, r ! 17] = drop 16 r"
      by (auto simp: list_eq_iff_nth_eq less_Suc_eq numeral_eq_Suc)
    with 2 show ?thesis using assms fl
      by (auto simp: decode_ipv6_connection_point_def try_then_eq_Inr flags_rebuild to_be_from_be
          port_bytes_def v intro!: reads_exact)
  qed
qed


lemma reads_heartbeat_interval:
  assumes "decode_heartbeat_interval v = Inr item"
  shows "reads P v item"
proof -
  from assms have l: "length v = 4"
    by (auto simp: decode_heartbeat_interval_def expect_exact_def split: if_splits)
  let ?ms = "from_be32 v"
  have v: "[v ! 0, v ! Suc 0, v ! 2, v ! 3] = v" using nths_id(2) [OF l] by simp
  from assms l have item: "item = HeartbeatInterval (from_millis (ucast ?ms))" and ge: "\<not> ?ms < 1000"
    by (auto simp: decode_heartbeat_interval_def expect_exact_def v Let_def split: if_splits)
  have "as_millis (from_millis (ucast ?ms)) = unat ?ms"
    by (simp add: as_millis_def from_millis_def unat_ucast_u64)
  moreover have "1000 \<le> unat ?ms" using ge by (simp add: word_less_nat_alt)
  moreover have "unat ?ms < 2 ^ 32" using unsigned_less [of ?ms] by simp
  ultimately show ?thesis using l item
    by (auto simp: to_be_from_be from_millis_def unat_ucast_u64 intro!: reads_exact)
qed

lemma reads_latency: "length v = 8 \<Longrightarrow> reads P v (Latency (from_micros (read_u64_be v)))"
proof -
  assume l: "length v = 8"
  have "as_micros (from_micros w) = unat w" "unat w < 2 ^ 64" for w
    using unsigned_less [of w] by (simp_all add: as_micros_def from_micros_def)
  with l show ?thesis
    by (auto simp: read_u64_be_def to_be_from_be from_micros_def intro!: reads_exact)
qed

lemma reads_rates:
  assumes "length v = 8"
  shows "reads P v (MaxDataRateReceive (read_u64_be v))"
    "reads P v (MaxDataRateTransmit (read_u64_be v))"
    "reads P v (CurrentDataRateReceive (read_u64_be v))"
    "reads P v (CurrentDataRateTransmit (read_u64_be v))"
  using assms by (auto simp: read_u64_be_def to_be_from_be intro!: reads_exact)

lemma reads_small:
  "p \<le> 100 \<Longrightarrow> reads P [p] (Resources p)"
  "p \<le> 100 \<Longrightarrow> reads P [p] (RelativeLinkQualityReceive p)"
  "p \<le> 100 \<Longrightarrow> reads P [p] (RelativeLinkQualityTransmit p)"
  "length v = 2 \<Longrightarrow> reads P v (Mtu (from_be16 [v ! 0, v ! 1]))"
  using nths_id(1) [of v] by (auto simp: to_be_from_be intro!: reads_exact)

lemma reads_unknown:
  assumes "raw_type_id raw \<notin> {1,2,3,4,5,6,7,8,9,10,11,12,13,14,15,16,17,18,19,20}"
  shows "reads P (raw_value raw) (Unknown raw)"
proof -
  have "raw_type_id raw \<le> 20 \<Longrightarrow> raw_type_id raw = 0"
    using assms by (simp add: word_le_nat_alt word_unat_eq_iff) presburger
  then show ?thesis by (intro reads_exact) force+
qed

lemma decode_u64_eq_Inr:
  "decode_u64 kind mk v = Inr item \<longleftrightarrow> length v = 8 \<and> item = mk (read_u64_be v)"
  by (auto simp: decode_u64_def expect_exact_def)

lemma decode_percent_eq_Inr:
  "decode_percent kind v fld = Inr p \<longleftrightarrow> v = [p] \<and> p \<le> 100"
  by (cases v) (auto simp: decode_percent_def expect_exact_def check_percent_cases Let_def
      split: if_splits)

context ip_nets
begin

lemma reads_ipv4_attached_subnet:
  "decode_ipv4_attached_subnet P v = Inr item \<Longrightarrow> reads P v item"
  by (auto simp: decode_ipv4_attached_subnet_def expect_exact_def try_then_eq_Inr Let_def reads_def
      split: if_splits option.splits)

lemma reads_ipv6_attached_subnet:
  "decode_ipv6_attached_subnet P v = Inr item \<Longrightarrow> reads P v item"
  by (auto simp: decode_ipv6_attached_subnet_def expect_exact_def try_then_eq_Inr Let_def reads_def
      split: if_splits option.splits)

lemma item_decode_reads:
  assumes "item_decode P raw = Inr item"
  shows "reads P (raw_value raw) item" "type_id item = raw_type_id raw"
proof -
  show "reads P (raw_value raw) item"
    using assms unfolding item_decode_def Let_def
    by (auto simp: decode_u64_eq_Inr decode_percent_eq_Inr try_then_eq_Inr expect_exact_def
        split: if_splits
        intro: reads_status reads_ipv4_connection_point reads_ipv6_connection_point
          reads_peer_type reads_heartbeat_interval reads_extensions_supported reads_mac_address
          reads_ipv4_address reads_ipv6_address reads_ipv4_attached_subnet
          reads_ipv6_attached_subnet reads_latency reads_rates reads_small reads_small [simplified]
          reads_unknown)
  show "type_id item = raw_type_id raw"
    using assms
    by (auto simp: item_decode_def item_decode_defs try_then_eq_Inr Let_def split: if_splits option.splits)
qed

end


context dlep_packages
begin

lemma decode_items_reads:
  assumes "decode_items P body acc = Some (Inr items)"
  shows "\<exists>its w. items = acc @ its \<and> list_all wf_item its \<and> map (canon P) its = its \<and>
     items_wire P its = Some w \<and> length w = length body \<and> (\<not> list_ex is_subnet its \<longrightarrow> w = body)"
  using assms
proof (induction body arbitrary: acc rule: length_induct)
  case (1 body)
  show ?case
  proof (cases "body = []")
    case True
    then show ?thesis using "1.prems" by (simp add: decode_items.simps)
  next
    case False
    from "1.prems" False obtain raw rest item where rd: "raw_decode P body = Inr (raw, rest)"
        and it: "item_decode P raw = Inr item"
        and rec: "decode_items P rest (acc @ [item]) = Some (Inr items)"
      by (subst (asm) decode_items.simps) (auto split: sum.splits)
    obtain its w where IH: "items = (acc @ [item]) @ its" "list_all wf_item its"
        "map (canon P) its = its" "items_wire P its = Some w" "length w = length rest"
        "\<not> list_ex is_subnet its \<longrightarrow> w = rest"
      using "1.IH" [rule_format, OF raw_decode_shrinks(1) [OF rd] rec] by blast
    from item_decode_reads(1) [OF it] obtain v where v: "wf_item item" "canon P item = item"
        "item_value P item = Some v" "length v = length (raw_value raw)"
        "\<not> is_subnet item \<longrightarrow> v = raw_value raw"
      by (auto simp: reads_def)
    have "item_wire P item = Some (tlv (raw_type_id raw) v)"
      using v raw_decode_shrinks(2) [OF rd] item_decode_reads(2) [OF it]
      by (simp add: item_wire_def)
    with IH v show ?thesis
      using raw_decode_shrinks(3) [OF rd] by (intro exI [of _ "item # its"]) auto
  qed
qed

lemma message_reencode:
  assumes "message_decode P src = Some (Inr msg)"
  shows "\<exists>out. message_encode P msg = Inr out \<and> length out \<le> length src \<and>
    list_all wf_item (data_items msg) \<and> map (canon P) (data_items msg) = data_items msg \<and>
    (\<not> list_ex is_subnet (data_items msg) \<longrightarrow> out = take (length out) src)"
proof -
  from assms have l: "4 \<le> length src"
    by (auto simp: message_decode_def ensure_len_def split: if_splits)
  let ?n = "unat (from_be16 (take 2 (drop 2 src)))"
  from assms l have m: "?n \<le> length src - 4"
    by (auto simp: message_decode_def ensure_len_def Let_def split: if_splits)
  from assms l m have d: "decode_items P (take ?n (drop 4 src)) [] = Some (Inr (data_items msg))"
      and ty: "message_type msg = from_be16 (take 2 src)"
    by (auto simp: message_decode_def ensure_len_def Let_def try_then_eq_Inr split: if_splits)
  obtain w where w: "list_all wf_item (data_items msg)" "map (canon P) (data_items msg) = data_items msg"
      "items_wire P (data_items msg) = Some w" "length w = ?n"
      "\<not> list_ex is_subnet (data_items msg) \<longrightarrow> w = take ?n (drop 4 src)"
    using decode_items_reads [OF d] m by auto
  have n: "?n < 65536" using unsigned_less [of "from_be16 (take 2 (drop 2 src))"] by simp
  have enc: "message_encode P msg = Inr (tlv (message_type msg) w)"
    using w n by (auto simp: message_encode_eq_Inr)
  have "tlv (message_type msg) w = take 2 src @ take 2 (drop 2 src) @ w"
    using l w(4) ty by (simp add: tlv_def to_be_from_be)
  moreover have "take 2 src @ take 2 (drop 2 src) @ take ?n (drop 4 src) = take (4 + ?n) src"
    using take_add [of 2 2 src] take_add [of 4 ?n src] by simp
  ultimately show ?thesis using enc w m l by auto
qed

end

section \<open>Properties\<close>

text \<open>
  C24: the in-place encoder of a data item (type, placeholder, value, patched length) succeeds
  exactly where the item has a wire form, then appends that form to the buffer, and on every
  error leaves the buffer as it was.
\<close>

theorem item_encode_correct:
  assumes "byte_buffers P"
  shows "case item_wire P item of
      Some w \<Rightarrow> item_encode P item out = (Inr (), out @ w)
    | None \<Rightarrow> \<exists>e. item_encode P item out = (Inl e, out)"
  using byte_buffers.item_encode_Some [OF assms, of item] byte_buffers.item_encode_None [OF assms, of item]
  by (simp split: option.split)

theorem item_encode_correct_witness:
  "item_encode std_packages (Mtu 1500) [7] = (Inr (), [7, 0, 20, 0, 2, 5, 220]) \<and>
   (\<exists>e. item_encode std_packages (Resources 101) [7] = (Inl e, [7]))"
  using item_encode_correct [OF std.byte_buffers_axioms, of "Mtu 1500" "[7]"]
    item_encode_correct [OF std.byte_buffers_axioms, of "Resources 101" "[7]"]
  by (simp add: item_wire_def tlv_def to_be16_def)



definition sample_message :: "(net4, net6) message" where
  "sample_message = \<lparr>message_type = DESTINATION_UP, data_items =
     [MacAddress (Eui48 [1, 2, 3, 4, 5, 6]), Latency 2500,
      Ipv4AttachedSubnet True (0x0A000005, Abs_sat' 24)]\<rparr>"

definition sample_bytes :: bytes where
  "sample_bytes = [0, 7, 0, 32, 0, 7, 0, 6, 1, 2, 3, 4, 5, 6,
     0, 16, 0, 8, 0, 0, 0, 0, 0, 0, 0, 2, 0, 10, 0, 6, 1, 10, 0, 0, 0, 24]"

lemma sample_encodes: "message_encode std_packages sample_message = Inr sample_bytes"
  by (simp add: std.message_encode_eq_Inr sample_message_def sample_bytes_def item_wire_def tlv_def
      to_be16_def to_be64_def octets4_def u8_from_bool_def as_micros_def prefix_mask_def mask_eq_exp_minus_1)


text \<open>
  A signal that encodes decodes to itself, up to the resolution of the wire; its body must end
  where its declared length says.
\<close>

theorem signal_encode_decode:
  assumes "dlep_packages P"
    and "signal_encode P sig = Inr out" and "list_all wf_item (signal_items sig)"
  shows "signal_decode P out = Some (Inr (sig\<lparr>signal_items := map (canon P) (signal_items sig)\<rparr>)) \<and>
    (\<exists>n. signal_decode P (out @ b # bs) = Some (Inl (LengthMismatch n (n + 1 + length bs))))"
  using dlep_packages.signal_roundtrip [OF assms] dlep_packages.signal_trailing [OF assms(1,2)]
  by blast

definition sample_signal :: "(net4, net6) signal" where
  "sample_signal = \<lparr>signal_type = PEER_OFFER, signal_items =
     [PeerType \<lparr>smi = True\<rparr> [0x6D], Ipv4ConnectionPoint \<lparr>use_tls = True\<rparr> 0xC0000201 (Some 854)]\<rparr>"

lemma sample_signal_encodes:
  "signal_encode std_packages sample_signal =
     Inr [0x44, 0x4C, 0x45, 0x50, 0, 2, 0, 17, 0, 4, 0, 2, 1, 0x6D, 0, 2, 0, 7, 1, 192, 0, 2, 1, 3, 86]"
  by (simp add: std.signal_encode_eq_Inr sample_signal_def item_wire_def tlv_def SIGNAL_PREFIX_def
      to_be16_def octets4_def encode_cp_flags_def encode_peer_flags_def u8_from_bool_def
      port_bytes_def)

theorem signal_encode_decode_witness:
  "signal_decode std_packages
     [0x44, 0x4C, 0x45, 0x50, 0, 2, 0, 17, 0, 4, 0, 2, 1, 0x6D, 0, 2, 0, 7, 1, 192, 0, 2, 1, 3, 86] =
   Some (Inr sample_signal)"
  using signal_encode_decode [OF std.dlep_packages_axioms sample_signal_encodes, of 0 "[]"]
  by (simp add: sample_signal_def)



end
