(* ===== verification/Addresses.thy ===== *)
theory Addresses
  imports Codec_Correct
begin

text \<open>
  Address and attached-subnet state (\<open>addresses.rs\<close> of \<open>dlep-fsm\<close>): complete sets as four
  vectors, deltas as additions and removals, strict and lenient application of a delta, and the
  delta between two sets. The lemmas give the set semantics of each operation and show that the
  delta between two sets, sent as data items and applied by the receiver, yields the new set.
\<close>

section \<open>Definitions\<close>

record ('n, 'm) destination_addrs =
  v4 :: "ipv4 list"
  v6 :: "ipv6 list"
  v4_subnets :: "'n list"
  v6_subnets :: "'m list"

definition no_addrs :: "('n, 'm) destination_addrs" where
  "no_addrs = \<lparr>v4 = [], v6 = [], v4_subnets = [], v6_subnets = []\<rparr>"

definition addrs_is_empty :: "('n, 'm) destination_addrs \<Rightarrow> bool" where
  "addrs_is_empty a = (v4 a = [] \<and> v6 a = [] \<and> v4_subnets a = [] \<and> v6_subnets a = [])"

definition addrs_canonical ::
  "('n, 'm) packages \<Rightarrow> ('n, 'm) destination_addrs \<Rightarrow> ('n, 'm) destination_addrs" where
  "addrs_canonical P a =
     \<lparr>v4 = v4 a, v6 = v6 a,
      v4_subnets = map (v4_trunc P) (v4_subnets a),
      v6_subnets = map (v6_trunc P) (v6_subnets a)\<rparr>"

record ('n, 'm) address_changes =
  added :: "('n, 'm) destination_addrs"
  removed :: "('n, 'm) destination_addrs"

definition no_changes :: "('n, 'm) address_changes" where
  "no_changes = \<lparr>added = no_addrs, removed = no_addrs\<rparr>"

definition changes_is_empty :: "('n, 'm) address_changes \<Rightarrow> bool" where
  "changes_is_empty c = (addrs_is_empty (added c) \<and> addrs_is_empty (removed c))"

definition changes_canonical ::
  "('n, 'm) packages \<Rightarrow> ('n, 'm) address_changes \<Rightarrow> ('n, 'm) address_changes" where
  "changes_canonical P c =
     \<lparr>added = addrs_canonical P (added c), removed = addrs_canonical P (removed c)\<rparr>"

definition update_side ::
  "bool \<Rightarrow> (('n, 'm) destination_addrs \<Rightarrow> ('n, 'm) destination_addrs) \<Rightarrow>
     ('n, 'm) address_changes \<Rightarrow> ('n, 'm) address_changes" where
  "update_side add f c =
     (if add then c\<lparr>added := f (added c)\<rparr> else c\<lparr>removed := f (removed c)\<rparr>)"

fun note_item ::
  "('n, 'm) packages \<Rightarrow> ('n, 'm) address_changes \<Rightarrow> ('n, 'm) data_item \<Rightarrow> ('n, 'm) address_changes"
where
  "note_item P c (Ipv4Address add addr) = update_side add (\<lambda>s. s\<lparr>v4 := v4 s @ [addr]\<rparr>) c"
| "note_item P c (Ipv6Address add addr) = update_side add (\<lambda>s. s\<lparr>v6 := v6 s @ [addr]\<rparr>) c"
| "note_item P c (Ipv4AttachedSubnet add subnet) =
     update_side add (\<lambda>s. s\<lparr>v4_subnets := v4_subnets s @ [v4_trunc P subnet]\<rparr>) c"
| "note_item P c (Ipv6AttachedSubnet add subnet) =
     update_side add (\<lambda>s. s\<lparr>v6_subnets := v6_subnets s @ [v6_trunc P subnet]\<rparr>) c"
| "note_item P c _ = c"

definition from_message :: "('n, 'm) packages \<Rightarrow> ('n, 'm) message \<Rightarrow> ('n, 'm) address_changes" where
  "from_message P msg = foldl (note_item P) no_changes (data_items msg)"

definition addrs_items ::
  "('n, 'm) packages \<Rightarrow> bool \<Rightarrow> ('n, 'm) destination_addrs \<Rightarrow> ('n, 'm) data_item list" where
  "addrs_items P add a =
     map (Ipv4Address add) (v4 a) @ map (Ipv6Address add) (v6 a)
     @ map (\<lambda>s. Ipv4AttachedSubnet add (v4_trunc P s)) (v4_subnets a)
     @ map (\<lambda>s. Ipv6AttachedSubnet add (v6_trunc P s)) (v6_subnets a)"

definition append_to ::
  "('n, 'm) packages \<Rightarrow> ('n, 'm) address_changes \<Rightarrow> ('n, 'm) message \<Rightarrow> ('n, 'm) message" where
  "append_to P c msg =
     msg\<lparr>data_items := data_items msg @ addrs_items P False (removed c) @ addrs_items P True (added c)\<rparr>"

definition family_valid :: "'a list \<Rightarrow> 'a list \<Rightarrow> bool" where
  "family_valid add rem =
     (list_all (\<lambda>(n, x). x \<notin> set (take n add) \<and> x \<notin> set rem) (enumerate 0 add)
      \<and> list_all (\<lambda>(n, x). x \<notin> set (take n rem)) (enumerate 0 rem))"

definition changes_validate ::
  "('n, 'm) packages \<Rightarrow> ('n, 'm) address_changes \<Rightarrow> status_code + unit" where
  "changes_validate P self =
     (let c = changes_canonical P self in
      if family_valid (v4 (added c)) (v4 (removed c))
         \<and> family_valid (v6 (added c)) (v6 (removed c))
         \<and> family_valid (v4_subnets (added c)) (v4_subnets (removed c))
         \<and> family_valid (v6_subnets (added c)) (v6_subnets (removed c))
      then Inr () else Inl INVALID_DATA)"

definition family_lenient :: "'a list \<Rightarrow> 'a list \<Rightarrow> 'a list \<Rightarrow> 'a list" where
  "family_lenient current add rem =
     foldl (\<lambda>cur a. if a \<notin> set rem \<and> a \<notin> set cur then cur @ [a] else cur)
       (filter (\<lambda>a. a \<notin> set rem \<or> a \<in> set add) current) add"

definition apply_lenient ::
  "('n, 'm) packages \<Rightarrow> ('n, 'm) address_changes \<Rightarrow> ('n, 'm) destination_addrs \<Rightarrow>
     ('n, 'm) destination_addrs" where
  "apply_lenient P self current =
     (let c = changes_canonical P self in
      \<lparr>v4 = family_lenient (v4 current) (v4 (added c)) (v4 (removed c)),
       v6 = family_lenient (v6 current) (v6 (added c)) (v6 (removed c)),
       v4_subnets = family_lenient (v4_subnets current) (v4_subnets (added c)) (v4_subnets (removed c)),
       v6_subnets = family_lenient (v6_subnets current) (v6_subnets (added c)) (v6_subnets (removed c))\<rparr>)"

definition family_strict :: "'a list \<Rightarrow> 'a list \<Rightarrow> 'a list \<Rightarrow> bool" where
  "family_strict current add rem =
     (list_all (\<lambda>a. a \<notin> set current) add \<and> list_all (\<lambda>a. a \<in> set current) rem)"

definition apply_strict ::
  "('n, 'm) packages \<Rightarrow> ('n, 'm) address_changes \<Rightarrow> ('n, 'm) destination_addrs \<Rightarrow>
     status_code + ('n, 'm) destination_addrs" where
  "apply_strict P self current =
     try_then (changes_validate P self) (\<lambda>_.
     let c = changes_canonical P self in
     if \<not> family_strict (v4 current) (v4 (added c)) (v4 (removed c))
        \<or> \<not> family_strict (v6 current) (v6 (added c)) (v6 (removed c))
        \<or> \<not> family_strict (v4_subnets current) (v4_subnets (added c)) (v4_subnets (removed c))
        \<or> \<not> family_strict (v6_subnets current) (v6_subnets (added c)) (v6_subnets (removed c))
     then Inl INVALID_DATA
     else Inr (apply_lenient P c current))"

definition addrs_difference ::
  "('n, 'm) destination_addrs \<Rightarrow> ('n, 'm) destination_addrs \<Rightarrow> ('n, 'm) destination_addrs" where
  "addrs_difference a b =
     \<lparr>v4 = filter (\<lambda>x. x \<notin> set (v4 b)) (v4 a),
      v6 = filter (\<lambda>x. x \<notin> set (v6 b)) (v6 a),
      v4_subnets = filter (\<lambda>x. x \<notin> set (v4_subnets b)) (v4_subnets a),
      v6_subnets = filter (\<lambda>x. x \<notin> set (v6_subnets b)) (v6_subnets a)\<rparr>"

definition between ::
  "('n, 'm) destination_addrs \<Rightarrow> ('n, 'm) destination_addrs \<Rightarrow> ('n, 'm) address_changes" where
  "between old new = \<lparr>added = addrs_difference new old, removed = addrs_difference old new\<rparr>"

section \<open>One family\<close>

lemma enumerate_prefix_iff:
  "list_all (\<lambda>(n, x). x \<notin> set (take n xs)) (enumerate 0 xs) \<longleftrightarrow> distinct xs"
proof -
  have "list_all (\<lambda>(n, x). x \<notin> set (take n xs)) (enumerate 0 xs) \<longleftrightarrow>
      (\<forall>n < length xs. xs ! n \<notin> set (take n xs))"
    by (auto simp: list_all_length nth_enumerate_eq)
  also have "\<dots> \<longleftrightarrow> distinct xs"
    by (auto simp: distinct_conv_nth in_set_conv_nth) (metis linorder_neqE_nat)
  finally show ?thesis .
qed

lemma family_valid_iff:
  "family_valid add rem \<longleftrightarrow> distinct add \<and> distinct rem \<and> set add \<inter> set rem = {}"
proof -
  have "list_all (\<lambda>(n, x). x \<notin> set (take n add) \<and> x \<notin> set rem) (enumerate 0 add) \<longleftrightarrow>
      list_all (\<lambda>(n, x). x \<notin> set (take n add)) (enumerate 0 add) \<and> list_all (\<lambda>x. x \<notin> set rem) add"
    by (auto simp: list_all_length nth_enumerate_eq)
  then show ?thesis
    by (simp only: family_valid_def enumerate_prefix_iff) (auto simp: list_all_iff)
qed

lemma lenient_fold:
  fixes rem :: "'a list"
  defines "push \<equiv> \<lambda>cur a. if a \<notin> set rem \<and> a \<notin> set cur then cur @ [a] else cur"
  shows "set (foldl push cur add) = set cur \<union> (set add - set rem)"
    and "distinct cur \<Longrightarrow> distinct (foldl push cur add)"
  by (induction add arbitrary: cur) (auto simp: push_def)

lemma set_family_lenient:
  "set (family_lenient current add rem) =
     (set current - (set rem - set add)) \<union> (set add - set rem)"
  by (auto simp: family_lenient_def lenient_fold)

lemma distinct_family_lenient:
  "distinct current \<Longrightarrow> distinct (family_lenient current add rem)"
  by (simp add: family_lenient_def lenient_fold)

lemma lenient_append:
  assumes "distinct add" "set add \<inter> set rem = {}" "set add \<inter> set current = {}"
  shows "family_lenient current add rem = filter (\<lambda>a. a \<notin> set rem) current @ add"
proof -
  have "foldl (\<lambda>cur a. if a \<notin> set rem \<and> a \<notin> set cur then cur @ [a] else cur) cur add = cur @ add"
    if "set add \<inter> set cur = {}" "distinct add" "set add \<inter> set rem = {}" for cur
    using that
  proof (induction add arbitrary: cur)
    case (Cons a add)
    then have "set add \<inter> set (cur @ [a]) = {}" by auto
    from Cons.IH [OF this] Cons.prems show ?case by simp
  qed simp
  moreover have "filter (\<lambda>a. a \<notin> set rem \<or> a \<in> set add) current = filter (\<lambda>a. a \<notin> set rem) current"
    using assms(3) by (intro filter_cong) auto
  ultimately show ?thesis using assms by (simp add: family_lenient_def disjoint_iff)
qed

section \<open>Address sets\<close>

text \<open>
  The abstraction of the four vectors: one set of tagged values. \<open>addrs_distinct\<close> is the
  invariant that no vector holds a value twice.
\<close>

datatype ('n, 'm) addr_value = V4 ipv4 | V6 ipv6 | Net4 'n | Net6 'm

definition addr_set :: "('n, 'm) destination_addrs \<Rightarrow> ('n, 'm) addr_value set" where
  "addr_set a = V4 ` set (v4 a) \<union> V6 ` set (v6 a)
     \<union> Net4 ` set (v4_subnets a) \<union> Net6 ` set (v6_subnets a)"

definition addrs_distinct :: "('n, 'm) destination_addrs \<Rightarrow> bool" where
  "addrs_distinct a = (distinct (v4 a) \<and> distinct (v6 a)
     \<and> distinct (v4_subnets a) \<and> distinct (v6_subnets a))"

lemma addr_set_mem [simp]:
  "V4 x \<in> addr_set a \<longleftrightarrow> x \<in> set (v4 a)"
  "V6 y \<in> addr_set a \<longleftrightarrow> y \<in> set (v6 a)"
  "Net4 n \<in> addr_set a \<longleftrightarrow> n \<in> set (v4_subnets a)"
  "Net6 m \<in> addr_set a \<longleftrightarrow> m \<in> set (v6_subnets a)"
  by (auto simp: addr_set_def)

lemma addr_value_all:
  "(\<forall>x. Q x) \<longleftrightarrow> (\<forall>a. Q (V4 a)) \<and> (\<forall>a. Q (V6 a)) \<and> (\<forall>n. Q (Net4 n)) \<and> (\<forall>m. Q (Net6 m))"
  by (metis addr_value.exhaust)

lemma addr_set_eqI:
  assumes "\<And>x. V4 x \<in> A \<longleftrightarrow> V4 x \<in> B" "\<And>x. V6 x \<in> A \<longleftrightarrow> V6 x \<in> B"
    "\<And>x. Net4 x \<in> A \<longleftrightarrow> Net4 x \<in> B" "\<And>x. Net6 x \<in> A \<longleftrightarrow> Net6 x \<in> B"
  shows "A = B"
  using assms by (auto simp: set_eq_iff addr_value_all)

lemma addr_set_no_addrs [simp]: "addr_set no_addrs = {}"
  by (simp add: addr_set_def no_addrs_def)

lemma addrs_distinct_no_addrs [simp]: "addrs_distinct no_addrs"
  by (simp add: addrs_distinct_def no_addrs_def)

lemma addrs_is_empty_iff: "addrs_is_empty a \<longleftrightarrow> addr_set a = {}"
  by (auto simp: addrs_is_empty_def addr_set_def)

lemma addr_set_difference: "addr_set (addrs_difference a b) = addr_set a - addr_set b"
  by (rule addr_set_eqI) (simp_all add: addrs_difference_def)

lemma addr_set_lenient:
  "addr_set (apply_lenient P c cur) =
     (addr_set cur - (addr_set (addrs_canonical P (removed c)) - addr_set (addrs_canonical P (added c))))
     \<union> (addr_set (addrs_canonical P (added c)) - addr_set (addrs_canonical P (removed c)))"
  by (rule addr_set_eqI)
    (auto simp: apply_lenient_def changes_canonical_def Let_def set_family_lenient)

lemma addrs_distinct_lenient:
  "addrs_distinct cur \<Longrightarrow> addrs_distinct (apply_lenient P c cur)"
  by (simp add: addrs_distinct_def apply_lenient_def Let_def distinct_family_lenient)

lemma changes_validate_iff:
  "changes_validate P c = Inr () \<longleftrightarrow>
     addrs_distinct (addrs_canonical P (added c)) \<and> addrs_distinct (addrs_canonical P (removed c)) \<and>
     addr_set (addrs_canonical P (added c)) \<inter> addr_set (addrs_canonical P (removed c)) = {}"
proof -
  have "addr_set a \<inter> addr_set b = {} \<longleftrightarrow> set (v4 a) \<inter> set (v4 b) = {} \<and> set (v6 a) \<inter> set (v6 b) = {} \<and>
      set (v4_subnets a) \<inter> set (v4_subnets b) = {} \<and> set (v6_subnets a) \<inter> set (v6_subnets b) = {}"
    for a b :: "('a, 'b) destination_addrs"
    by (simp add: disjoint_iff addr_value_all)
  then show ?thesis
    by (auto simp: changes_validate_def changes_canonical_def Let_def family_valid_iff addrs_distinct_def)
qed

lemma changes_validate_cases: "changes_validate P c = Inr () \<or> changes_validate P c = Inl INVALID_DATA"
  by (simp add: changes_validate_def Let_def)

context ip_nets
begin

lemma addrs_canonical_idem [simp]:
  "addrs_canonical P (addrs_canonical P a) = addrs_canonical P a"
  by (simp add: addrs_canonical_def)

lemma changes_canonical_idem [simp]:
  "changes_canonical P (changes_canonical P c) = changes_canonical P c"
  by (simp add: changes_canonical_def)

lemma changes_canonical_sel:
  "added (changes_canonical P c) = addrs_canonical P (added c)"
  "removed (changes_canonical P c) = addrs_canonical P (removed c)"
  by (simp_all add: changes_canonical_def)

lemma apply_strict_iff:
  "apply_strict P c cur = Inr new \<longleftrightarrow>
     changes_validate P c = Inr () \<and>
     addr_set (addrs_canonical P (added c)) \<inter> addr_set cur = {} \<and>
     addr_set (addrs_canonical P (removed c)) \<subseteq> addr_set cur \<and>
     new = apply_lenient P c cur"
proof -
  have strict: "\<not> family_strict (v4 cur) (v4 a) (v4 r) \<or> \<not> family_strict (v6 cur) (v6 a) (v6 r) \<or>
      \<not> family_strict (v4_subnets cur) (v4_subnets a) (v4_subnets r) \<or>
      \<not> family_strict (v6_subnets cur) (v6_subnets a) (v6_subnets r) \<longleftrightarrow>
      \<not> (addr_set a \<inter> addr_set cur = {} \<and> addr_set r \<subseteq> addr_set cur)" for a r
    by (simp add: family_strict_def list_all_iff disjoint_iff subset_iff addr_value_all) blast
  have len: "apply_lenient P (changes_canonical P c) cur = apply_lenient P c cur"
    by (simp add: apply_lenient_def)
  show ?thesis
    using changes_validate_cases [of P c]
    by (simp only: apply_strict_def Let_def changes_canonical_sel strict len) auto
qed

end

lemma note_items_append:
  "foldl (note_item P) c (addrs_items P add a) =
     update_side add (\<lambda>s. \<lparr>v4 = v4 s @ v4 a, v6 = v6 s @ v6 a,
       v4_subnets = v4_subnets s @ map (v4_trunc P \<circ> v4_trunc P) (v4_subnets a),
       v6_subnets = v6_subnets s @ map (v6_trunc P \<circ> v6_trunc P) (v6_subnets a)\<rparr>) c"
proof -
  have 1: "foldl (note_item P) c (map (Ipv4Address add) xs) = update_side add (\<lambda>s. s\<lparr>v4 := v4 s @ xs\<rparr>) c"
    for c xs by (induction xs arbitrary: c) (auto simp: update_side_def)
  have 2: "foldl (note_item P) c (map (Ipv6Address add) xs) = update_side add (\<lambda>s. s\<lparr>v6 := v6 s @ xs\<rparr>) c"
    for c xs by (induction xs arbitrary: c) (auto simp: update_side_def)
  have 3: "foldl (note_item P) c (map (\<lambda>s. Ipv4AttachedSubnet add (v4_trunc P s)) xs) =
      update_side add (\<lambda>s. s\<lparr>v4_subnets := v4_subnets s @ map (v4_trunc P \<circ> v4_trunc P) xs\<rparr>) c"
    for c xs by (induction xs arbitrary: c) (auto simp: update_side_def)
  have 4: "foldl (note_item P) c (map (\<lambda>s. Ipv6AttachedSubnet add (v6_trunc P s)) xs) =
      update_side add (\<lambda>s. s\<lparr>v6_subnets := v6_subnets s @ map (v6_trunc P \<circ> v6_trunc P) xs\<rparr>) c"
    for c xs by (induction xs arbitrary: c) (auto simp: update_side_def)
  show ?thesis by (simp add: addrs_items_def 1 2 3 4) (simp add: update_side_def)
qed

lemma map_filter_id: "map f xs = xs \<Longrightarrow> map f (filter Q xs) = filter Q xs"
  by (induction xs) auto

lemma from_message_cong:
  "data_items a = data_items b \<Longrightarrow> from_message P a = from_message P b"
  by (simp add: from_message_def)

context ip_nets
begin

text \<open>Deltas survive the wire: what \<open>append_to\<close> writes, \<open>from_message\<close> reads.\<close>

lemma from_message_append_to:
  assumes "from_message P msg = no_changes"
  shows "from_message P (append_to P c msg) = changes_canonical P c"
  using assms
  by (simp add: from_message_def append_to_def note_items_append)
    (simp add: update_side_def no_changes_def no_addrs_def changes_canonical_def addrs_canonical_def comp_def)

lemma difference_canonical:
  assumes "addrs_canonical P a = a"
  shows "addrs_canonical P (addrs_difference a b) = addrs_difference a b"
  using assms by (cases a) (simp add: addrs_canonical_def addrs_difference_def map_filter_id)

lemma between_canonical:
  assumes "addrs_canonical P a = a" "addrs_canonical P b = b"
  shows "changes_canonical P (between a b) = between a b"
  using assms by (simp add: changes_canonical_def between_def difference_canonical)

lemma distinct_difference: "addrs_distinct a \<Longrightarrow> addrs_distinct (addrs_difference a b)"
  by (simp add: addrs_distinct_def addrs_difference_def)

lemma between_sync:
  assumes can: "addrs_canonical P old = old" "addrs_canonical P new = new"
    and dist: "addrs_distinct old" "addrs_distinct new" and "addr_set cur = addr_set old"
    and msg: "from_message P msg = no_changes"
  shows "\<exists>res. apply_strict P (from_message P (append_to P (between old new) msg)) cur = Inr res \<and>
    addr_set res = addr_set new"
proof -
  let ?c = "between old new"
  have c: "from_message P (append_to P ?c msg) = ?c"
    using from_message_append_to [OF msg] between_canonical [OF can] by simp
  have ar: "addrs_canonical P (added ?c) = addrs_difference new old"
    "addrs_canonical P (removed ?c) = addrs_difference old new"
    using can by (simp_all add: between_def difference_canonical)
  have "apply_strict P ?c cur = Inr (apply_lenient P ?c cur)"
    using dist assms(5)
    by (auto simp: apply_strict_iff changes_validate_iff ar addr_set_difference distinct_difference)
  moreover have "addr_set (apply_lenient P ?c cur) = addr_set new"
    using assms(5) by (auto simp: addr_set_lenient ar addr_set_difference)
  ultimately show ?thesis using c by simp
qed

end

lemma addrs_canonical_iff:
  "addrs_canonical P a = a \<longleftrightarrow>
     map (v4_trunc P) (v4_subnets a) = v4_subnets a \<and> map (v6_trunc P) (v6_subnets a) = v6_subnets a"
  by (cases a) (simp add: addrs_canonical_def)

lemma changes_canonical_iff:
  "changes_canonical P c = c \<longleftrightarrow>
     addrs_canonical P (added c) = added c \<and> addrs_canonical P (removed c) = removed c"
  by (cases c) (simp add: changes_canonical_def)

context ip_nets
begin

lemma canonical_note_item:
  assumes "changes_canonical P c = c"
  shows "changes_canonical P (note_item P c i) = note_item P c i"
  using assms
  by (cases i) (auto simp: changes_canonical_iff addrs_canonical_iff update_side_def)

lemma canonical_from_message [simp]: "changes_canonical P (from_message P msg) = from_message P msg"
proof -
  have "changes_canonical P (foldl (note_item P) c is) = foldl (note_item P) c is"
    if "changes_canonical P c = c" for c "is"
    using that by (induction "is" arbitrary: c) (auto simp: canonical_note_item)
  moreover have "changes_canonical P no_changes = no_changes"
    by (simp add: changes_canonical_def addrs_canonical_def no_changes_def no_addrs_def)
  ultimately show ?thesis by (simp add: from_message_def)
qed

end

section \<open>Properties\<close>

text \<open>
  Lenient application never fails and follows set semantics: additions are inserted, removals
  are deleted, and a value both added and removed in one delta changes nothing; no value appears
  twice afterwards if none did before.
\<close>

theorem apply_lenient_semantics:
  assumes "changes_canonical P c = c"
  shows "addr_set (apply_lenient P c cur) =
      (addr_set cur - (addr_set (removed c) - addr_set (added c)))
      \<union> (addr_set (added c) - addr_set (removed c))
    \<and> (addrs_distinct cur \<longrightarrow> addrs_distinct (apply_lenient P c cur))"
proof -
  have "addrs_canonical P (added c) = added c" "addrs_canonical P (removed c) = removed c"
    using arg_cong [OF assms, of added] arg_cong [OF assms, of removed]
    by (simp_all add: changes_canonical_def)
  then show ?thesis by (simp add: addr_set_lenient addrs_distinct_lenient)
qed

definition sample_addrs :: "(net4, net6) destination_addrs" where
  "sample_addrs = \<lparr>v4 = [1, 2], v6 = [], v4_subnets = [(0x0A000000, Abs_sat' 24)], v6_subnets = []\<rparr>"

definition sample_delta :: "(net4, net6) address_changes" where
  "sample_delta = \<lparr>added = no_addrs\<lparr>v4 := [3, 2]\<rparr>, removed = no_addrs\<lparr>v4 := [1, 2]\<rparr>\<rparr>"

theorem apply_lenient_semantics_witness:
  "addr_set (apply_lenient std_packages sample_delta sample_addrs) =
     {V4 2, V4 3, Net4 (0x0A000000, Abs_sat' 24)} \<and>
   addrs_distinct (apply_lenient std_packages sample_delta sample_addrs)"
proof -
  have "changes_canonical std_packages sample_delta = sample_delta"
    by (simp add: changes_canonical_def addrs_canonical_def sample_delta_def no_addrs_def)
  moreover have "addrs_distinct sample_addrs"
    by (simp add: addrs_distinct_def sample_addrs_def)
  ultimately show ?thesis
    using apply_lenient_semantics [of std_packages sample_delta sample_addrs]
    by (auto simp: addr_set_def sample_delta_def sample_addrs_def no_addrs_def)
qed



text \<open>
  C27: the delta between two address sets, written into a message as data items, read back by the
  receiver and applied strictly to a set with the old values, is accepted and yields the new set.
\<close>

theorem address_sync:
  assumes "ip_nets P"
    and "addrs_canonical P old = old" "addrs_canonical P new = new"
    and "addrs_distinct old" "addrs_distinct new" and "addr_set cur = addr_set old"
  shows "\<exists>res. apply_strict P (from_message P (append_to P (between old new) (message_new t))) cur =
      Inr res \<and> addr_set res = addr_set new"
  using ip_nets.between_sync [OF assms] by (simp add: from_message_def)

theorem address_sync_witness:
  "\<exists>res. apply_strict std_packages (from_message std_packages (append_to std_packages
       (between sample_addrs (no_addrs\<lparr>v4 := [9, 2]\<rparr>)) (message_new SESSION_UPDATE)))
       (sample_addrs\<lparr>v4 := [2, 1]\<rparr>) = Inr res \<and> addr_set res = {V4 2, V4 9}"
proof -
  have "addrs_canonical std_packages sample_addrs = sample_addrs"
    by (simp add: addrs_canonical_def sample_addrs_def prefix_mask_def mask_eq_exp_minus_1)
  moreover have "addrs_canonical std_packages (no_addrs\<lparr>v4 := [9, 2]\<rparr>) = no_addrs\<lparr>v4 := [9, 2]\<rparr>"
    by (simp add: addrs_canonical_def no_addrs_def)
  moreover have "addrs_distinct sample_addrs" "addrs_distinct (no_addrs\<lparr>v4 := [9, 2]\<rparr>)"
    "addr_set (sample_addrs\<lparr>v4 := [2, 1]\<rparr>) = addr_set sample_addrs"
    "addr_set (no_addrs\<lparr>v4 := [9, 2]\<rparr>) = {V4 2, V4 9}"
    by (auto simp: addrs_distinct_def addr_set_def sample_addrs_def no_addrs_def)
  ultimately show ?thesis
    using address_sync [OF std.ip_nets_axioms, of sample_addrs "no_addrs\<lparr>v4 := [9, 2]\<rparr>"
        "sample_addrs\<lparr>v4 := [2, 1]\<rparr>" SESSION_UPDATE] by metis
qed

end
