(* ===== verification/Fsm_Types.thy ===== *)
theory Fsm_Types
  imports Addresses
begin

text \<open>
  The vocabulary of the state machines of \<open>dlep-fsm\<close>: timers (\<open>timers.rs\<close>), local commands and
  their outcomes (\<open>commands.rs\<close>), inbound events, actions and emitted events (\<open>events.rs\<close>), and
  the transaction tracker (\<open>transaction.rs\<close>) with its contract, the locale
  \<open>request_tracker\<close>. Constructors of Rust enums that share a name carry a prefix: \<open>K\<close> for
  command kinds, \<open>Tk\<close> for timer kinds, \<open>Req\<close> for request kinds, \<open>Ev\<close> for emitted events.
\<close>

section \<open>Timers\<close>

type_synonym timer_id = u32

datatype timer_kind = TkHeartbeat | TkHeartbeatMissed | TkSessionInit | TkTermination | TkDiscovery

section \<open>Socket addresses\<close>

text \<open>
  \<open>std::net::SocketAddr\<close>: address and port, and for version 6 the flow information and the scope.
\<close>

datatype socket_addr = SocketV4 ipv4 u16 | SocketV6 ipv6 u16 u32 u32

record offer_endpoint =
  ep_addr :: socket_addr
  ep_use_tls :: bool

datatype send_target = DiscoveryGroup | Unicast socket_addr

section \<open>Commands\<close>

datatype command_kind =
    KAddDestination
  | KDropDestination
  | KUpdateMetrics
  | KUpdateAddresses
  | KSessionAddresses
  | KSessionMetrics
  | KAnnounceDestination
  | KLinkCharacteristics
  | KLinkCharacteristicsResponse

record command_info =
  ci_kind :: command_kind
  ci_destination :: "mac_address option"

datatype command_error =
    Busy
  | NotReady
  | UnknownDestination
  | AlreadyExists
  | Unsupported
  | InvalidInput
  | NoPendingRequest
  | MacAddressFormatMismatch

record command_rejection =
  cr_command :: command_info
  cr_reason :: command_error

section \<open>Events and actions\<close>

datatype ('n, 'm) fsm_event =
    RecvMessage "('n, 'm) message"
  | RecvExtensionMessage
  | ProtocolError status_code
  | RecvSignal "('n, 'm) signal" socket_addr
  | TcpConnected
  | TcpAccepted
  | TcpClosed
  | TimerExpired timer_id timer_kind
  | AppAddDestination mac_address link_metrics "('n, 'm) destination_addrs"
  | AppDropDestination mac_address status_code
  | AppUpdateMetrics mac_address link_metrics
  | AppUpdateAddresses mac_address "('n, 'm) address_changes"
  | AppSessionAddresses "('n, 'm) address_changes"
  | AppAnnounceDestination mac_address
  | AppSessionUpdate link_metrics
  | AppRequestLinkCharacteristics mac_address link_characteristics
  | AppLinkCharacteristicsResponse mac_address status_code rstring "link_metrics option"
  | AppStartDiscovery
  | AppShutdown status_code

datatype ('n, 'm) emitted_event =
    EvCommandRejected command_rejection
  | EvSessionUp "extension_id list"
  | EvSessionDown status_code
  | EvPeerDiscovered "offer_endpoint list" "rstring option"
  | EvDestinationUp mac_address link_metrics "('n, 'm) destination_addrs"
  | EvDestinationDown mac_address status_code
  | EvDestinationUpdate mac_address link_metrics
  | EvDestinationAddressesUpdate mac_address "('n, 'm) address_changes" "('n, 'm) destination_addrs"
  | EvSessionAddressesUpdate "('n, 'm) address_changes" "('n, 'm) destination_addrs"
  | EvLinkCharacteristicsResponse mac_address status_code rstring link_metrics
  | EvLinkCharacteristicsRequested mac_address link_characteristics link_metrics bool
  | EvSessionMetricsUpdate link_metrics
  | EvDestinationAnnounced mac_address "('n, 'm) address_changes"

datatype ('n, 'm) fsm_action =
    SendMessage "('n, 'm) message"
  | SendSignal "('n, 'm) signal" send_target
  | StartTimer timer_id timer_kind duration bool
  | CancelTimer timer_id
  | ResetHeartbeat timer_id duration
  | CloseTcp
  | Emit "('n, 'm) emitted_event"

fun command :: "('n, 'm) fsm_event \<Rightarrow> command_info option" where
  "command (AppAddDestination mac _ _) =
     Some \<lparr>ci_kind = KAddDestination, ci_destination = Some mac\<rparr>"
| "command (AppDropDestination mac _) =
     Some \<lparr>ci_kind = KDropDestination, ci_destination = Some mac\<rparr>"
| "command (AppUpdateMetrics mac _) =
     Some \<lparr>ci_kind = KUpdateMetrics, ci_destination = Some mac\<rparr>"
| "command (AppUpdateAddresses mac _) =
     Some \<lparr>ci_kind = KUpdateAddresses, ci_destination = Some mac\<rparr>"
| "command (AppSessionAddresses _) =
     Some \<lparr>ci_kind = KSessionAddresses, ci_destination = None\<rparr>"
| "command (AppSessionUpdate _) =
     Some \<lparr>ci_kind = KSessionMetrics, ci_destination = None\<rparr>"
| "command (AppAnnounceDestination mac) =
     Some \<lparr>ci_kind = KAnnounceDestination, ci_destination = Some mac\<rparr>"
| "command (AppRequestLinkCharacteristics mac _) =
     Some \<lparr>ci_kind = KLinkCharacteristics, ci_destination = Some mac\<rparr>"
| "command (AppLinkCharacteristicsResponse mac _ _ _) =
     Some \<lparr>ci_kind = KLinkCharacteristicsResponse, ci_destination = Some mac\<rparr>"
| "command _ = None"

section \<open>Transactions\<close>

datatype request_kind =
    ReqSessionUpdate
  | ReqSessionTermination
  | ReqDestinationUp
  | ReqDestinationAnnounce
  | ReqDestinationDown
  | ReqLinkCharacteristics

record pending_request =
  req_kind :: request_kind

record transaction_tracker =
  session_pending :: "pending_request option"
  per_destination :: "mac_address \<rightharpoonup> pending_request"

definition default_tracker :: transaction_tracker where
  "default_tracker = \<lparr>session_pending = None, per_destination = Map.empty\<rparr>"

definition session_busy :: "transaction_tracker \<Rightarrow> bool" where
  "session_busy tx = (session_pending tx \<noteq> None)"

definition destination_busy :: "transaction_tracker \<Rightarrow> mac_address \<Rightarrow> bool" where
  "destination_busy tx mac = (per_destination tx mac \<noteq> None)"

definition open_session ::
  "transaction_tracker \<Rightarrow> request_kind \<Rightarrow> (pending_request + unit) \<times> transaction_tracker" where
  "open_session tx k =
     (case session_pending tx of
        Some existing \<Rightarrow> (Inl existing, tx)
      | None \<Rightarrow> (Inr (), tx\<lparr>session_pending := Some \<lparr>req_kind = k\<rparr>\<rparr>))"

definition close_session ::
  "transaction_tracker \<Rightarrow> pending_request option \<times> transaction_tracker" where
  "close_session tx = (session_pending tx, tx\<lparr>session_pending := None\<rparr>)"

definition open_destination ::
  "transaction_tracker \<Rightarrow> mac_address \<Rightarrow> request_kind \<Rightarrow>
     (pending_request + unit) \<times> transaction_tracker" where
  "open_destination tx mac k =
     (case per_destination tx mac of
        Some existing \<Rightarrow> (Inl existing, tx)
      | None \<Rightarrow> (Inr (), tx\<lparr>per_destination := (per_destination tx)(mac \<mapsto> \<lparr>req_kind = k\<rparr>)\<rparr>))"

definition close_destination ::
  "transaction_tracker \<Rightarrow> mac_address \<Rightarrow> pending_request option \<times> transaction_tracker" where
  "close_destination tx mac =
     (per_destination tx mac, tx\<lparr>per_destination := (per_destination tx)(mac := None)\<rparr>)"

text \<open>
  What the state machines rely on: an idle scope can be opened, an open scope refuses a second
  request and keeps the first, closing returns the request and frees the scope, and the scopes
  do not interfere. A scope is the session (\<open>None\<close>) or a destination.
\<close>

locale request_tracker =
  fixes pending :: "'t \<Rightarrow> 's \<Rightarrow> 'q option"
    and opn :: "'t \<Rightarrow> 's \<Rightarrow> 'k \<Rightarrow> ('q + unit) \<times> 't"
    and cls :: "'t \<Rightarrow> 's \<Rightarrow> 'q option \<times> 't"
    and req :: "'k \<Rightarrow> 'q"
  assumes opn_idle: "pending t s = None \<Longrightarrow> fst (opn t s k) = Inr ()"
    and opn_busy: "pending t s = Some q \<Longrightarrow> opn t s k = (Inl q, t)"
    and pending_opn: "pending t s = None \<Longrightarrow>
      pending (snd (opn t s k)) s' = (if s' = s then Some (req k) else pending t s')"
    and fst_cls: "fst (cls t s) = pending t s"
    and pending_cls: "pending (snd (cls t s)) s' = (if s' = s then None else pending t s')"
begin

lemma opn_ok_iff: "fst (opn t s k) = Inr () \<longleftrightarrow> pending t s = None"
  using opn_idle opn_busy [of t s] by (cases "pending t s") force+

lemma opn_keeps: "pending t s = Some q \<Longrightarrow> pending (snd (opn t s' k)) s = Some q"
  using opn_busy [of t s'] pending_opn [of t s' k s] by (cases "pending t s'") auto

lemma opn_cls:
  assumes "fst (opn t s k) = Inr ()"
  shows "fst (cls (snd (opn t s k)) s) = Some (req k)"
    and "pending (snd (cls (snd (opn t s k)) s)) = pending t"
  using assms by (auto simp: opn_ok_iff fst_cls pending_cls pending_opn)

lemma cls_reopens: "fst (opn (snd (cls t s)) s k) = Inr ()"
  by (simp add: opn_ok_iff pending_cls)

text \<open>Requests opened in sequence: at most one per scope succeeds until it is closed.\<close>

lemma second_request_refused:
  "fst (opn t s k) = Inr () \<Longrightarrow> opn (snd (opn t s k)) s k' = (Inl (req k), snd (opn t s k))"
  by (simp add: opn_busy opn_ok_iff pending_opn)

end

definition pending_at :: "transaction_tracker \<Rightarrow> mac_address option \<Rightarrow> pending_request option" where
  "pending_at tx s = (case s of None \<Rightarrow> session_pending tx | Some mac \<Rightarrow> per_destination tx mac)"

definition open_at ::
  "transaction_tracker \<Rightarrow> mac_address option \<Rightarrow> request_kind \<Rightarrow>
     (pending_request + unit) \<times> transaction_tracker" where
  "open_at tx s k = (case s of None \<Rightarrow> open_session tx k | Some mac \<Rightarrow> open_destination tx mac k)"

definition close_at ::
  "transaction_tracker \<Rightarrow> mac_address option \<Rightarrow> pending_request option \<times> transaction_tracker" where
  "close_at tx s = (case s of None \<Rightarrow> close_session tx | Some mac \<Rightarrow> close_destination tx mac)"

named_theorems tracker_defs \<open>operations of the transaction tracker\<close>

lemmas [tracker_defs] =
  session_busy_def destination_busy_def open_session_def close_session_def open_destination_def
  close_destination_def default_tracker_def

interpretation tracker:
  request_tracker pending_at open_at close_at "\<lambda>k. \<lparr>req_kind = k\<rparr>"
  by unfold_locales
    (auto simp: pending_at_def open_at_def close_at_def tracker_defs split: option.splits)

lemma open_idle_session [simp]:
  "session_pending tx = None \<Longrightarrow>
     open_session tx k = (Inr (), tx\<lparr>session_pending := Some \<lparr>req_kind = k\<rparr>\<rparr>)"
  by (simp add: open_session_def)

lemma open_idle_destination [simp]:
  "per_destination tx mac = None \<Longrightarrow>
     open_destination tx mac k =
       (Inr (), tx\<lparr>per_destination := (per_destination tx)(mac \<mapsto> \<lparr>req_kind = k\<rparr>)\<rparr>)"
  by (simp add: open_destination_def)

section \<open>Properties\<close>



end
