(* ===== verification/Session_Common.thy ===== *)
theory Session_Common
  imports Fsm_Types
begin

text \<open>
  Types, message builders and extractors shared by both session state machines
  (\<open>session_common.rs\<close>). The lemmas show that extracting inverts building, that metric deltas
  merge field by field, and what an address update of the local side sends and changes.
\<close>

section \<open>Configuration\<close>

record session_config =
  cfg_mac_address_format :: mac_address_format
  cfg_peer_description :: rstring
  cfg_initial_metrics :: link_metrics
  cfg_heartbeat_interval_ms :: u32
  cfg_session_init_timeout :: duration
  cfg_termination_timeout :: "duration option"
  cfg_advertised_extensions :: "extension_id list"
  cfg_defer_link_characteristics :: bool

definition default_config :: session_config where
  "default_config = \<lparr>
     cfg_mac_address_format = FormatEui48,
     cfg_peer_description = str ''dlep-router'',
     cfg_initial_metrics = default_metrics,
     cfg_heartbeat_interval_ms = 60000,
     cfg_session_init_timeout = from_millis 5000,
     cfg_termination_timeout = None,
     cfg_advertised_extensions = [],
     cfg_defer_link_characteristics = False\<rparr>"

definition local_heartbeat_interval :: "session_config \<Rightarrow> duration" where
  "local_heartbeat_interval config =
     from_millis (ucast (max (cfg_heartbeat_interval_ms config) MIN_HEARTBEAT_INTERVAL_MS))"

definition termination_timeout :: "session_config \<Rightarrow> duration" where
  "termination_timeout config =
     (case cfg_termination_timeout config of
        Some d \<Rightarrow> d
      | None \<Rightarrow> saturating_mul (local_heartbeat_interval config) 4)"

section \<open>Metrics\<close>

definition push_metric_items :: "('n, 'm) message \<Rightarrow> link_metrics \<Rightarrow> ('n, 'm) message" where
  "push_metric_items msg m =
     (let msg = with_item msg (MaxDataRateReceive (max_data_rate_rx_bps m));
          msg = with_item msg (MaxDataRateTransmit (max_data_rate_tx_bps m));
          msg = with_item msg (CurrentDataRateReceive (current_data_rate_rx_bps m));
          msg = with_item msg (CurrentDataRateTransmit (current_data_rate_tx_bps m));
          msg = with_item msg (Latency (latency m));
          msg = (case resources m of None \<Rightarrow> msg | Some v \<Rightarrow> with_item msg (Resources v));
          msg = (case rlq_rx m of None \<Rightarrow> msg | Some v \<Rightarrow> with_item msg (RelativeLinkQualityReceive v));
          msg = (case rlq_tx m of None \<Rightarrow> msg | Some v \<Rightarrow> with_item msg (RelativeLinkQualityTransmit v));
          msg = (case mtu m of None \<Rightarrow> msg | Some v \<Rightarrow> with_item msg (Mtu v))
      in msg)"

fun merge_item :: "bool \<times> link_metrics \<Rightarrow> ('n, 'm) data_item \<Rightarrow> bool \<times> link_metrics" where
  "merge_item (found, m) (MaxDataRateReceive v) = (True, m\<lparr>max_data_rate_rx_bps := v\<rparr>)"
| "merge_item (found, m) (MaxDataRateTransmit v) = (True, m\<lparr>max_data_rate_tx_bps := v\<rparr>)"
| "merge_item (found, m) (CurrentDataRateReceive v) = (True, m\<lparr>current_data_rate_rx_bps := v\<rparr>)"
| "merge_item (found, m) (CurrentDataRateTransmit v) = (True, m\<lparr>current_data_rate_tx_bps := v\<rparr>)"
| "merge_item (found, m) (Latency v) = (True, m\<lparr>latency := v\<rparr>)"
| "merge_item (found, m) (Resources v) = (True, m\<lparr>resources := Some v\<rparr>)"
| "merge_item (found, m) (RelativeLinkQualityReceive v) = (True, m\<lparr>rlq_rx := Some v\<rparr>)"
| "merge_item (found, m) (RelativeLinkQualityTransmit v) = (True, m\<lparr>rlq_tx := Some v\<rparr>)"
| "merge_item (found, m) (Mtu v) = (True, m\<lparr>mtu := Some v\<rparr>)"
| "merge_item (found, m) _ = (found, m)"

definition merge_link_metrics :: "('n, 'm) message \<Rightarrow> link_metrics \<Rightarrow> bool \<times> link_metrics" where
  "merge_link_metrics msg m = foldl merge_item (False, m) (data_items msg)"

definition extract_link_metrics :: "('n, 'm) message \<Rightarrow> link_metrics option" where
  "extract_link_metrics msg =
     (case merge_link_metrics msg default_metrics of (found, m) \<Rightarrow> if found then Some m else None)"

section \<open>Message builders\<close>

definition build_session_termination :: "status_code \<Rightarrow> ('n, 'm) message" where
  "build_session_termination reason = with_item (message_new SESSION_TERMINATION) (Status reason [])"

definition build_session_termination_response :: "('n, 'm) message" where
  "build_session_termination_response = message_new SESSION_TERMINATION_RESPONSE"

definition build_session_update :: "link_metrics \<Rightarrow> ('n, 'm) message" where
  "build_session_update metrics = push_metric_items (message_new SESSION_UPDATE) metrics"

definition build_session_update_response :: "status_code \<Rightarrow> ('n, 'm) message" where
  "build_session_update_response status =
     with_item (message_new SESSION_UPDATE_RESPONSE) (Status status [])"

definition build_link_characteristics_request ::
  "mac_address \<Rightarrow> link_characteristics \<Rightarrow> ('n, 'm) message" where
  "build_link_characteristics_request mac requested =
     (let msg = with_item (message_new LINK_CHARACTERISTICS_REQUEST) (MacAddress mac);
          msg = (case lc_current_data_rate_rx_bps requested of
                   None \<Rightarrow> msg | Some v \<Rightarrow> with_item msg (CurrentDataRateReceive v));
          msg = (case lc_current_data_rate_tx_bps requested of
                   None \<Rightarrow> msg | Some v \<Rightarrow> with_item msg (CurrentDataRateTransmit v));
          msg = (case lc_latency requested of None \<Rightarrow> msg | Some v \<Rightarrow> with_item msg (Latency v))
      in msg)"

fun request_item :: "link_characteristics \<Rightarrow> ('n, 'm) data_item \<Rightarrow> link_characteristics" where
  "request_item r (CurrentDataRateReceive v) = r\<lparr>lc_current_data_rate_rx_bps := Some v\<rparr>"
| "request_item r (CurrentDataRateTransmit v) = r\<lparr>lc_current_data_rate_tx_bps := Some v\<rparr>"
| "request_item r (Latency v) = r\<lparr>lc_latency := Some v\<rparr>"
| "request_item r _ = r"

definition extract_link_characteristics :: "('n, 'm) message \<Rightarrow> link_characteristics" where
  "extract_link_characteristics msg = foldl request_item default_characteristics (data_items msg)"

definition build_link_characteristics_response ::
  "mac_address \<Rightarrow> status_code \<Rightarrow> link_metrics \<Rightarrow> ('n, 'm) message" where
  "build_link_characteristics_response mac status metrics =
     push_metric_items
       (with_item (with_item (message_new LINK_CHARACTERISTICS_RESPONSE) (MacAddress mac))
          (Status status [])) metrics"

definition build_destination_announce :: "mac_address \<Rightarrow> ('n, 'm) message" where
  "build_destination_announce mac = with_item (message_new DESTINATION_ANNOUNCE) (MacAddress mac)"

definition build_destination_announce_response ::
  "mac_address \<Rightarrow> status_code \<Rightarrow> ('n, 'm) message" where
  "build_destination_announce_response mac status =
     with_item (with_item (message_new DESTINATION_ANNOUNCE_RESPONSE) (MacAddress mac))
       (Status status [])"

definition build_heartbeat :: "('n, 'm) message" where
  "build_heartbeat = message_new HEARTBEAT"

definition build_destination_up ::
  "mac_address \<Rightarrow> link_metrics \<Rightarrow> ('n, 'm) destination_addrs \<Rightarrow> ('n, 'm) message" where
  "build_destination_up mac metrics addrs =
     (let msg = with_item (message_new DESTINATION_UP) (MacAddress mac);
          msg = foldl (\<lambda>msg a. with_item msg (Ipv4Address True a)) msg (v4 addrs);
          msg = foldl (\<lambda>msg a. with_item msg (Ipv6Address True a)) msg (v6 addrs);
          msg = foldl (\<lambda>msg s. with_item msg (Ipv4AttachedSubnet True s)) msg (v4_subnets addrs);
          msg = foldl (\<lambda>msg s. with_item msg (Ipv6AttachedSubnet True s)) msg (v6_subnets addrs)
      in push_metric_items msg metrics)"

definition build_destination_up_response :: "mac_address \<Rightarrow> status_code \<Rightarrow> ('n, 'm) message" where
  "build_destination_up_response mac status =
     with_item (with_item (message_new DESTINATION_UP_RESPONSE) (MacAddress mac)) (Status status [])"

definition build_destination_update :: "mac_address \<Rightarrow> link_metrics \<Rightarrow> ('n, 'm) message" where
  "build_destination_update mac metrics =
     push_metric_items (with_item (message_new DESTINATION_UPDATE) (MacAddress mac)) metrics"

definition build_destination_down :: "mac_address \<Rightarrow> status_code \<Rightarrow> ('n, 'm) message" where
  "build_destination_down mac reason = with_item (message_new DESTINATION_DOWN) (MacAddress mac)"

definition build_destination_down_response :: "mac_address \<Rightarrow> status_code \<Rightarrow> ('n, 'm) message" where
  "build_destination_down_response mac status =
     with_item (with_item (message_new DESTINATION_DOWN_RESPONSE) (MacAddress mac)) (Status status [])"

definition push_extensions_supported ::
  "('n, 'm) message \<Rightarrow> extension_id list \<Rightarrow> ('n, 'm) message" where
  "push_extensions_supported msg ids =
     (if ids = [] then msg else with_item msg (ExtensionsSupported ids))"

section \<open>Extractors\<close>

definition extract_status :: "('n, 'm) message \<Rightarrow> status_code option" where
  "extract_status msg =
     find_map (\<lambda>item. case item of Status code _ \<Rightarrow> Some code | _ \<Rightarrow> None) (data_items msg)"

definition extract_heartbeat_interval :: "('n, 'm) message \<Rightarrow> duration option" where
  "extract_heartbeat_interval msg =
     find_map (\<lambda>item. case item of HeartbeatInterval d \<Rightarrow> Some d | _ \<Rightarrow> None) (data_items msg)"

definition extract_extensions_supported :: "('n, 'm) message \<Rightarrow> extension_id list option" where
  "extract_extensions_supported msg =
     find_map (\<lambda>item. case item of ExtensionsSupported ids \<Rightarrow> Some ids | _ \<Rightarrow> None) (data_items msg)"

definition extract_destination_mac :: "('n, 'm) message \<Rightarrow> mac_address option" where
  "extract_destination_mac msg =
     find_map (\<lambda>item. case item of MacAddress m \<Rightarrow> Some m | _ \<Rightarrow> None) (data_items msg)"

definition extract_destination_addrs ::
  "('n, 'm) packages \<Rightarrow> ('n, 'm) message \<Rightarrow> ('n, 'm) destination_addrs" where
  "extract_destination_addrs P msg = apply_lenient P (from_message P msg) no_addrs"

definition heartbeat_reset_action ::
  "timer_id \<Rightarrow> duration option \<Rightarrow> ('n, 'm) fsm_action option" where
  "heartbeat_reset_action timer_id peer_interval =
     (case peer_interval of
        None \<Rightarrow> None
      | Some d \<Rightarrow>
          if d < from_millis (ucast MIN_HEARTBEAT_INTERVAL_MS) then None
          else map_option (ResetHeartbeat timer_id) (checked_mul d 2))"

section \<open>Address updates of the local side\<close>

definition validate_local_address_update ::
  "('n, 'm) packages \<Rightarrow> ('n, 'm) destination_addrs \<Rightarrow> ('n, 'm) address_changes \<Rightarrow>
     command_error + unit" where
  "validate_local_address_update P local changes =
     try_then (map_err (\<lambda>_. InvalidInput) (changes_validate P changes)) (\<lambda>_.
     let desired = apply_lenient P changes local in
     try_then (map_err (\<lambda>_. InvalidInput)
       (message_encode P (append_to P (between local desired) (message_new SESSION_UPDATE)))) (\<lambda>_.
     Inr ()))"

definition apply_local_address_update ::
  "('n, 'm) packages \<Rightarrow> transaction_tracker \<Rightarrow> ('n, 'm) destination_addrs \<Rightarrow>
     ('n, 'm) address_changes \<Rightarrow>
     panic + (transaction_tracker \<times> ('n, 'm) destination_addrs \<times> ('n, 'm) fsm_action list)" where
  "apply_local_address_update P tx local changes =
     (let validation =
        (if session_busy tx then Inl Busy else validate_local_address_update P local changes) in
      case validation of
        Inl reason \<Rightarrow>
          Inr (tx, local, [Emit (EvCommandRejected
            \<lparr>cr_command = \<lparr>ci_kind = KSessionAddresses, ci_destination = None\<rparr>, cr_reason = reason\<rparr>)])
      | Inr _ \<Rightarrow>
          (let desired = apply_lenient P changes local;
               effective = between local desired in
           if changes_is_empty effective then Inr (tx, local, [])
           else
             (let message = append_to P effective (message_new SESSION_UPDATE);
                  (opened, tx) = open_session tx ReqSessionUpdate in
              try_then (expect_ok ''checked transaction'' opened) (\<lambda>_.
              Inr (tx, desired, [SendMessage message])))))"

section \<open>Lemmas\<close>

named_theorems build_defs \<open>the message builders\<close>

lemmas [build_defs] =
  build_session_termination_def build_session_termination_response_def build_session_update_def
  build_session_update_response_def build_link_characteristics_request_def
  build_link_characteristics_response_def build_destination_announce_def
  build_destination_announce_response_def build_heartbeat_def build_destination_up_response_def
  build_destination_update_def build_destination_down_def build_destination_down_response_def
  push_extensions_supported_def

named_theorems extract_defs \<open>the extractors\<close>

lemmas [extract_defs] =
  extract_status_def extract_heartbeat_interval_def extract_extensions_supported_def
  extract_destination_mac_def

definition opt_item :: "('a \<Rightarrow> 'b) \<Rightarrow> 'a option \<Rightarrow> 'b list" where
  "opt_item f v = (case v of None \<Rightarrow> [] | Some x \<Rightarrow> [f x])"

lemma opt_item_simps [simp]: "opt_item f None = []" "opt_item f (Some x) = [f x]"
  by (simp_all add: opt_item_def)

text \<open>The metric data items, in wire order.\<close>

definition metric_items :: "link_metrics \<Rightarrow> ('n, 'm) data_item list" where
  "metric_items m =
     [MaxDataRateReceive (max_data_rate_rx_bps m), MaxDataRateTransmit (max_data_rate_tx_bps m),
      CurrentDataRateReceive (current_data_rate_rx_bps m),
      CurrentDataRateTransmit (current_data_rate_tx_bps m), Latency (latency m)]
     @ opt_item Resources (resources m) @ opt_item RelativeLinkQualityReceive (rlq_rx m)
     @ opt_item RelativeLinkQualityTransmit (rlq_tx m) @ opt_item Mtu (mtu m)"

lemma push_metric_items_sel [simp]:
  "message_type (push_metric_items msg m) = message_type msg"
  "data_items (push_metric_items msg m) = data_items msg @ metric_items m"
  by (simp_all add: push_metric_items_def metric_items_def Let_def split: option.splits)

definition up_items :: "('n, 'm) destination_addrs \<Rightarrow> ('n, 'm) data_item list" where
  "up_items a = map (Ipv4Address True) (v4 a) @ map (Ipv6Address True) (v6 a)
     @ map (Ipv4AttachedSubnet True) (v4_subnets a) @ map (Ipv6AttachedSubnet True) (v6_subnets a)"

lemma foldl_with_item:
  "message_type (foldl (\<lambda>msg a. with_item msg (f a)) msg xs) = message_type msg"
  "data_items (foldl (\<lambda>msg a. with_item msg (f a)) msg xs) = data_items msg @ map f xs"
  by (induction xs arbitrary: msg) auto

lemma build_destination_up_sel [simp]:
  "message_type (build_destination_up mac metrics addrs) = DESTINATION_UP"
  "data_items (build_destination_up mac metrics addrs) =
     MacAddress mac # up_items addrs @ metric_items metrics"
  by (simp_all add: build_destination_up_def Let_def foldl_with_item up_items_def)

text \<open>Merging a complete set of metrics: the mandatory fields are replaced, an optional one only
  where the sender has it.\<close>

definition overlay :: "link_metrics \<Rightarrow> link_metrics \<Rightarrow> link_metrics" where
  "overlay new old = new\<lparr>
     resources := (case resources new of None \<Rightarrow> resources old | Some v \<Rightarrow> Some v),
     rlq_rx := (case rlq_rx new of None \<Rightarrow> rlq_rx old | Some v \<Rightarrow> Some v),
     rlq_tx := (case rlq_tx new of None \<Rightarrow> rlq_tx old | Some v \<Rightarrow> Some v),
     mtu := (case mtu new of None \<Rightarrow> mtu old | Some v \<Rightarrow> Some v)\<rparr>"

lemma foldl_merge_metric_items:
  "foldl merge_item (found, old) (metric_items m) = (True, overlay m old)"
  by (cases m; cases old) (simp add: metric_items_def overlay_def split: option.splits)

fun is_metric :: "('n, 'm) data_item \<Rightarrow> bool" where
  "is_metric (MaxDataRateReceive _) = True"
| "is_metric (MaxDataRateTransmit _) = True"
| "is_metric (CurrentDataRateReceive _) = True"
| "is_metric (CurrentDataRateTransmit _) = True"
| "is_metric (Latency _) = True"
| "is_metric (Resources _) = True"
| "is_metric (RelativeLinkQualityReceive _) = True"
| "is_metric (RelativeLinkQualityTransmit _) = True"
| "is_metric (Mtu _) = True"
| "is_metric _ = False"

lemma merge_item_other: "\<not> is_metric i \<Longrightarrow> merge_item s i = s"
  by (cases s; cases i) auto

lemma foldl_merge_other: "list_all (\<lambda>i. \<not> is_metric i) is \<Longrightarrow> foldl merge_item s is = s"
  by (induction "is") (auto simp: merge_item_other)

lemma merge_push_metric_items:
  assumes "list_all (\<lambda>i. \<not> is_metric i) (data_items msg)"
  shows "merge_link_metrics (push_metric_items msg m) old = (True, overlay m old)"
  using assms by (simp add: merge_link_metrics_def foldl_merge_other foldl_merge_metric_items)

lemma overlay_default [simp]: "overlay m default_metrics = m"
  by (cases m) (auto simp: overlay_def default_metrics_def split: option.splits)

lemma overlay_same_support:
  assumes "supported_by old new"
  shows "overlay new old = new"
  using assms by (cases new; cases old) (auto simp: overlay_def supported_by_def split: option.splits)

lemma merge_found_mono: "fst s \<Longrightarrow> fst (foldl merge_item s is)"
proof (induction "is" arbitrary: s)
  case (Cons i "is")
  have "fst (merge_item s i)" using Cons.prems by (cases s; cases i) auto
  then show ?case using Cons.IH by simp
qed simp

lemma merge_found_iff:
  "fst (merge_link_metrics msg m) \<longleftrightarrow> list_ex is_metric (data_items msg)"
proof -
  have "fst (foldl merge_item (False, m) is) \<longleftrightarrow> list_ex is_metric is" for "is" and m
  proof (induction "is" arbitrary: m)
    case (Cons i "is")
    show ?case
    proof (cases "is_metric i")
      case True
      then obtain m' where "merge_item (False, m) i = (True, m')" by (cases i) auto
      with True show ?thesis using merge_found_mono [of "(True, m')"] by simp
    qed (simp add: merge_item_other Cons.IH)
  qed simp
  then show ?thesis by (simp add: merge_link_metrics_def)
qed

lemma from_message_no_addresses:
  assumes "\<And>i. i \<in> set (data_items msg) \<Longrightarrow> note_item P no_changes i = no_changes"
  shows "from_message P msg = no_changes"
proof -
  have "foldl (note_item P) no_changes is = no_changes"
    if "\<And>i. i \<in> set is \<Longrightarrow> note_item P no_changes i = no_changes" for "is"
    using that by (induction "is") auto
  with assms show ?thesis by (simp add: from_message_def)
qed

lemma note_up_items:
  "foldl (note_item P) c (up_items a) =
     c\<lparr>added := \<lparr>v4 = v4 (added c) @ v4 a, v6 = v6 (added c) @ v6 a,
       v4_subnets = v4_subnets (added c) @ map (v4_trunc P) (v4_subnets a),
       v6_subnets = v6_subnets (added c) @ map (v6_trunc P) (v6_subnets a)\<rparr>\<rparr>"
proof -
  have 1: "foldl (note_item P) c (map (Ipv4Address True) xs) =
      c\<lparr>added := (added c)\<lparr>v4 := v4 (added c) @ xs\<rparr>\<rparr>"
    for c xs by (induction xs arbitrary: c) (auto simp: update_side_def)
  have 2: "foldl (note_item P) c (map (Ipv6Address True) xs) =
      c\<lparr>added := (added c)\<lparr>v6 := v6 (added c) @ xs\<rparr>\<rparr>"
    for c xs by (induction xs arbitrary: c) (auto simp: update_side_def)
  have 3: "foldl (note_item P) c (map (Ipv4AttachedSubnet True) xs) =
      c\<lparr>added := (added c)\<lparr>v4_subnets := v4_subnets (added c) @ map (v4_trunc P) xs\<rparr>\<rparr>"
    for c xs by (induction xs arbitrary: c) (auto simp: update_side_def)
  have 4: "foldl (note_item P) c (map (Ipv6AttachedSubnet True) xs) =
      c\<lparr>added := (added c)\<lparr>v6_subnets := v6_subnets (added c) @ map (v6_trunc P) xs\<rparr>\<rparr>"
    for c xs by (induction xs arbitrary: c) (auto simp: update_side_def)
  show ?thesis by (simp add: up_items_def 1 2 3 4)
qed

lemma note_metric_items [simp]: "foldl (note_item P) c (metric_items m) = c"
  by (auto simp: metric_items_def opt_item_def split: option.splits)

lemma from_message_destination_up:
  "from_message P (build_destination_up mac metrics addrs) =
     \<lparr>added = addrs_canonical P addrs, removed = no_addrs\<rparr>"
  by (simp add: from_message_def note_up_items no_changes_def addrs_canonical_def no_addrs_def)

lemma up_items_not_metric [simp]: "list_all (\<lambda>i. \<not> is_metric i) (up_items a)"
  by (simp add: up_items_def list_all_iff ball_Un)

lemma extract_link_metrics_destination_up:
  "extract_link_metrics (build_destination_up mac metrics addrs) = Some metrics"
  by (simp add: extract_link_metrics_def merge_link_metrics_def foldl_merge_other
      foldl_merge_metric_items)

lemma heartbeat_reset_action_Some:
  "heartbeat_reset_action t d = Some a \<longleftrightarrow>
     (\<exists>i. d = Some i \<and> 10 ^ 9 \<le> i \<and> 2 * i \<le> DURATION_MAX \<and> a = ResetHeartbeat t (2 * i))"
  by (auto simp: heartbeat_reset_action_def checked_mul_def from_millis_def mult.commute
      split: option.splits)

lemma local_heartbeat_interval_bounds:
  "10 ^ 9 \<le> local_heartbeat_interval config"
  "local_heartbeat_interval config < 2 ^ 32 * 10 ^ 6"
proof -
  let ?w = "max (cfg_heartbeat_interval_ms config) 1000"
  have "1000 \<le> ?w" by simp
  then have "1000 \<le> unat ?w" by (simp only: word_le_nat_alt) simp
  then show "10 ^ 9 \<le> local_heartbeat_interval config"
    by (simp add: local_heartbeat_interval_def from_millis_def unat_ucast_u64)
  have "unat ?w < 2 ^ 32" using unsigned_less [of ?w] by simp
  then show "local_heartbeat_interval config < 2 ^ 32 * 10 ^ 6"
    by (simp add: local_heartbeat_interval_def from_millis_def unat_ucast_u64)
qed

lemma map_id_iff: "map f xs = xs \<longleftrightarrow> (\<forall>x\<in>set xs. f x = x)"
  by (induction xs) auto

lemma canonical_family_lenient:
  assumes "map f current = current" "map f add = add"
  shows "map f (family_lenient current add rem) = family_lenient current add rem"
  using assms by (auto simp: map_id_iff set_family_lenient)

context dlep_packages
begin

lemma canonical_lenient:
  assumes "addrs_canonical P cur = cur"
  shows "addrs_canonical P (apply_lenient P c cur) = apply_lenient P c cur"
proof -
  have "map (v4_trunc P) (v4_subnets cur) = v4_subnets cur"
    "map (v6_trunc P) (v6_subnets cur) = v6_subnets cur"
    using arg_cong [OF assms, of v4_subnets] arg_cong [OF assms, of v6_subnets]
    by (simp_all add: addrs_canonical_def)
  then show ?thesis
    by (simp add: apply_lenient_def Let_def addrs_canonical_def changes_canonical_def
        canonical_family_lenient)
qed

lemma between_empty_iff: "changes_is_empty (between a b) \<longleftrightarrow> addr_set a = addr_set b"
  by (auto simp: changes_is_empty_def between_def addrs_is_empty_iff addr_set_difference)

lemma local_address_update:
  assumes can: "addrs_canonical P local = local" and dist: "addrs_distinct local"
    and peer: "addr_set peer = addr_set local"
  shows "\<exists>tx' local' acts. apply_local_address_update P tx local changes = Inr (tx', local', acts) \<and>
    ((\<exists>r. acts = [Emit (EvCommandRejected r)] \<and> tx' = tx \<and> local' = local) \<or>
     (acts = [] \<and> tx' = tx \<and> local' = local \<and> addr_set (apply_lenient P changes local) = addr_set local) \<or>
     (\<exists>msg out peer'. acts = [SendMessage msg] \<and> message_encode P msg = Inr out \<and>
        session_pending tx = None \<and> tx' = tx\<lparr>session_pending := Some \<lparr>req_kind = ReqSessionUpdate\<rparr>\<rparr> \<and>
        local' = apply_lenient P changes local \<and>
        apply_strict P (from_message P msg) peer = Inr peer' \<and> addr_set peer' = addr_set local'))"
proof (cases "session_busy tx \<or> validate_local_address_update P local changes \<noteq> Inr ()")
  case True
  then show ?thesis
    by (cases "validate_local_address_update P local changes")
      (auto simp: apply_local_address_update_def)
next
  case False
  let ?new = "apply_lenient P changes local"
  let ?msg = "append_to P (between local ?new) (message_new SESSION_UPDATE)"
  from False have idle: "session_pending tx = None"
    and valid: "validate_local_address_update P local changes = Inr ()"
    by (simp_all add: session_busy_def)
  obtain out where out: "message_encode P ?msg = Inr out"
    using valid by (cases "message_encode P ?msg")
      (auto simp: validate_local_address_update_def Let_def try_then_eq_Inr)
  have "from_message P (message_new SESSION_UPDATE) = no_changes"
    by (simp add: from_message_def)
  from between_sync [OF can canonical_lenient [OF can] dist addrs_distinct_lenient [OF dist] peer this]
  obtain peer' where "apply_strict P (from_message P ?msg) peer = Inr peer'" "addr_set peer' = addr_set ?new"
    by blast
  with out idle valid show ?thesis
    by (cases "changes_is_empty (between local ?new)")
      (simp_all add: apply_local_address_update_def session_busy_def Let_def between_empty_iff)
qed

end

section \<open>Properties\<close>

text \<open>
  What a modem writes into a Destination Up message is what a router extracts from it: the
  address, every metric, and the address set with subnets reduced to their network.
\<close>

theorem destination_up_extract:
  assumes "ip_nets P"
  shows "extract_destination_mac (build_destination_up mac metrics addrs) = Some mac \<and>
    extract_link_metrics (build_destination_up mac metrics addrs) = Some metrics \<and>
    addr_set (extract_destination_addrs P (build_destination_up mac metrics addrs)) =
      addr_set (addrs_canonical P addrs)"
  using ip_nets.addrs_canonical_idem [OF assms]
  by (simp add: extract_link_metrics_destination_up extract_destination_addrs_def
      from_message_destination_up addr_set_lenient extract_destination_mac_def)
    (simp add: addrs_canonical_def no_addrs_def addr_set_def)

theorem destination_up_extract_witness:
  "addr_set (extract_destination_addrs std_packages
      (build_destination_up (Eui48 [1, 2, 3, 4, 5, 6]) default_metrics
        \<lparr>v4 = [7], v6 = [], v4_subnets = [(0x0A000005, Abs_sat' 24)], v6_subnets = []\<rparr>)) =
    {V4 7, Net4 (0x0A000000, Abs_sat' 24)}"
  using destination_up_extract [OF std.ip_nets_axioms, of "Eui48 [1, 2, 3, 4, 5, 6]" default_metrics
      "\<lparr>v4 = [7], v6 = [], v4_subnets = [(0x0A000005, Abs_sat' 24)], v6_subnets = []\<rparr>"]
  by (simp add: addrs_canonical_def addr_set_def prefix_mask_def mask_eq_exp_minus_1 insert_commute)

text \<open>
  A Link Characteristics Request carries exactly the requested characteristics, and the metrics
  of a Link Characteristics Response, a Destination Update and a Session Update overlay the
  receiver's metrics: mandatory fields are replaced, optional ones only where they are sent.
\<close>

theorem metrics_exchange:
  "extract_link_characteristics (build_link_characteristics_request mac requested) = requested \<and>
   merge_link_metrics (build_link_characteristics_response mac status m) old = (True, overlay m old) \<and>
   merge_link_metrics (build_destination_update mac m) old = (True, overlay m old) \<and>
   merge_link_metrics (build_session_update m) old = (True, overlay m old)"
proof -
  have "extract_link_characteristics (build_link_characteristics_request mac requested) = requested"
    by (cases requested)
      (auto simp: extract_link_characteristics_def build_link_characteristics_request_def Let_def
        default_characteristics_def split: option.splits)
  then show ?thesis by (simp add: build_defs merge_push_metric_items)
qed

text \<open>
  The timing of the heartbeat. The local interval is at least one second, whatever was
  configured, and can be encoded; the default termination deadline is four intervals; the deadline
  for a missed heartbeat is twice the interval of the peer for every interval that can be received.
\<close>

theorem heartbeat_timing:
  fixes P :: "('n, 'm) packages"
  shows "10 ^ 9 \<le> local_heartbeat_interval config \<and>
   item_wire P (HeartbeatInterval (local_heartbeat_interval config)) \<noteq> None \<and>
   (cfg_termination_timeout config = None \<longrightarrow>
     termination_timeout config = 4 * local_heartbeat_interval config) \<and>
   (decode_heartbeat_interval v = Inr (HeartbeatInterval d :: ('n, 'm) data_item) \<longrightarrow>
     heartbeat_reset_action t (Some d) = Some (ResetHeartbeat t (2 * d) :: ('n, 'm) fsm_action))"
proof -
  let ?i = "local_heartbeat_interval config"
  have "1000 \<le> as_millis ?i" "as_millis ?i < 2 ^ 32"
    using local_heartbeat_interval_bounds [of config] by (simp_all add: as_millis_def)
  then have "item_wire P (HeartbeatInterval ?i) \<noteq> None" by (simp add: item_wire_def)
  moreover have "termination_timeout config = 4 * ?i" if "cfg_termination_timeout config = None"
    using that local_heartbeat_interval_bounds [of config]
    by (simp add: termination_timeout_def saturating_mul_def DURATION_MAX_def min_def)
  moreover have "heartbeat_reset_action t (Some d) = Some (ResetHeartbeat t (2 * d) :: ('n, 'm) fsm_action)"
    if dec: "decode_heartbeat_interval v = Inr (HeartbeatInterval d :: ('n, 'm) data_item)"
  proof -
    obtain ms :: u32 where ms: "d = from_millis (ucast ms)" "\<not> ms < 1000"
      using dec by (auto simp: decode_heartbeat_interval_def expect_exact_def Let_def split: if_splits)
    have "10 ^ 9 \<le> d" "d < 2 ^ 32 * 10 ^ 6"
      using ms unsigned_less [of ms] by (simp_all add: from_millis_def unat_ucast_u64 word_less_nat_alt)
    then show ?thesis by (simp add: heartbeat_reset_action_Some DURATION_MAX_def)
  qed
  ultimately show ?thesis using local_heartbeat_interval_bounds by blast
qed

theorem heartbeat_timing_witness:
  "heartbeat_reset_action 1 (Some (60 * 10 ^ 9)) =
     Some (ResetHeartbeat 1 (120 * 10 ^ 9) :: (net4, net6) fsm_action) \<and>
   termination_timeout default_config = 240 * 10 ^ 9"
proof -
  have "decode_heartbeat_interval [0, 0, 0xEA, 0x60] =
      Inr (HeartbeatInterval (60 * 10 ^ 9) :: (net4, net6) data_item)"
    by (simp add: decode_heartbeat_interval_def expect_exact_def from_be32_def be_val_def from_millis_def)
  moreover have "local_heartbeat_interval default_config = 60 * 10 ^ 9"
    by (simp add: local_heartbeat_interval_def default_config_def from_millis_def)
  moreover have "cfg_termination_timeout default_config = None"
    by (simp add: default_config_def)
  ultimately show ?thesis
    using heartbeat_timing [of default_config std_packages "[0, 0, 0xEA, 0x60]" "60 * 10 ^ 9" 1] by simp
qed

text \<open>
  An address update of the local side never panics. It is refused, without any change, while
  another session transaction is pending or when the delta is ambiguous or does not fit into a
  message; an update that changes nothing sends nothing; otherwise exactly one Session Update is
  sent, it can be encoded, the transaction is opened, and a peer that holds the old set accepts the
  update and holds the new set afterwards.
\<close>

theorem local_address_update_correct:
  assumes "dlep_packages P" and "addrs_canonical P local = local" "addrs_distinct local"
    and "addr_set peer = addr_set local"
  shows "\<exists>tx' local' acts. apply_local_address_update P tx local changes = Inr (tx', local', acts) \<and>
    ((\<exists>r. acts = [Emit (EvCommandRejected r)] \<and> tx' = tx \<and> local' = local) \<or>
     (acts = [] \<and> tx' = tx \<and> local' = local \<and> addr_set (apply_lenient P changes local) = addr_set local) \<or>
     (\<exists>msg out peer'. acts = [SendMessage msg] \<and> message_encode P msg = Inr out \<and>
        session_pending tx = None \<and> tx' = tx\<lparr>session_pending := Some \<lparr>req_kind = ReqSessionUpdate\<rparr>\<rparr> \<and>
        local' = apply_lenient P changes local \<and>
        apply_strict P (from_message P msg) peer = Inr peer' \<and> addr_set peer' = addr_set local'))"
  using dlep_packages.local_address_update [OF assms] .

definition sample_update :: "(net4, net6) address_changes" where
  "sample_update = \<lparr>added = no_addrs\<lparr>v4 := [9]\<rparr>, removed = no_addrs\<lparr>v4 := [1]\<rparr>\<rparr>"

theorem local_address_update_correct_witness:
  "\<exists>tx' local' acts. apply_local_address_update std_packages default_tracker sample_addrs sample_update =
     Inr (tx', local', acts)"
proof -
  have "addrs_canonical std_packages sample_addrs = sample_addrs"
    by (simp add: addrs_canonical_def sample_addrs_def prefix_mask_def mask_eq_exp_minus_1)
  moreover have "addrs_distinct sample_addrs"
    by (simp add: addrs_distinct_def sample_addrs_def)
  ultimately show ?thesis
    using local_address_update_correct [OF std.dlep_packages_axioms, of sample_addrs sample_addrs
        default_tracker sample_update] by blast
qed

end
