(* ===== verification/Extensions.thy ===== *)
theory Extensions
  imports Wire_Types
begin

text \<open>
  The plug-in interface and the registry of extensions (\<open>dlep-ext\<close>), and what the session runtime
  derives from them: the identifiers advertised in Session Initialization, the extensions that take part
  in a session, and the identifiers reported as negotiated.
\<close>

section \<open>The plug-in interface\<close>

type_synonym session_id = u64

datatype role = Router | Modem

fun is_router :: "role \<Rightarrow> bool" where
  "is_router Router = True"
| "is_router Modem = False"

text \<open>
  What a hook sees of its session, and what it may do with its context: queue a message, or emit an
  event of its own type \<open>'x\<close> to the application.
\<close>

record extension_ctx =
  ctx_session_id :: session_id
  ctx_is_router_side :: bool

datatype ('n, 'm, 'x) ext_effect =
    CtxSendMessage "('n, 'm) message"
  | CtxEmitEvent 'x

datatype ext_handled = Handled | Passthrough

record session_state_snapshot =
  ss_up :: bool

record destination_state_snapshot =
  ds_up :: bool
  ds_last_status :: status_code
  ds_metrics :: "link_metrics option"

text \<open>
  A plug-in is code of the embedding application, so its hooks are arbitrary. They may keep state
  behind their shared reference: it is part of the state \<open>'w\<close> of everything outside the session,
  which every call reads and changes.
\<close>

record ('n, 'm, 'w, 'x) dlep_extension =
  advertised_ids :: "extension_id list"
  on_negotiated :: "extension_id list \<Rightarrow> bool"
  on_unknown_data_item :: "message_type \<Rightarrow> raw_data_item \<Rightarrow> extension_ctx \<Rightarrow> 'w \<Rightarrow>
    ext_handled \<times> ('n, 'm, 'x) ext_effect list \<times> 'w"
  on_unknown_message :: "message_type \<Rightarrow> ('n, 'm) data_item list \<Rightarrow> extension_ctx \<Rightarrow> 'w \<Rightarrow>
    ext_handled \<times> ('n, 'm, 'x) ext_effect list \<times> 'w"
  on_session_state :: "session_state_snapshot \<Rightarrow> extension_ctx \<Rightarrow> 'w \<Rightarrow> ('n, 'm, 'x) ext_effect list \<times> 'w"
  on_destination_state :: "mac_address \<Rightarrow> destination_state_snapshot \<Rightarrow> extension_ctx \<Rightarrow> 'w \<Rightarrow>
    ('n, 'm, 'x) ext_effect list \<times> 'w"

definition default_on_negotiated :: "extension_id list \<Rightarrow> extension_id list \<Rightarrow> bool" where
  "default_on_negotiated ids remote_ids = (ids \<noteq> [] \<and> list_all (\<lambda>id. id \<in> set remote_ids) ids)"

text \<open>The plug-in that overrides nothing but its identifiers.\<close>

definition default_extension :: "extension_id list \<Rightarrow> ('n, 'm, 'w, 'x) dlep_extension" where
  "default_extension ids =
     \<lparr>advertised_ids = ids,
      on_negotiated = default_on_negotiated ids,
      on_unknown_data_item = (\<lambda>in_message item ctx w. (Passthrough, [], w)),
      on_unknown_message = (\<lambda>mt items ctx w. (Passthrough, [], w)),
      on_session_state = (\<lambda>state ctx w. ([], w)),
      on_destination_state = (\<lambda>mac state ctx w. ([], w))\<rparr>"

section \<open>The registry\<close>

type_synonym ('n, 'm, 'w, 'x) extension_registry = "('n, 'm, 'w, 'x) dlep_extension list"

definition ext_register ::
  "('n, 'm, 'w, 'x) extension_registry \<Rightarrow> ('n, 'm, 'w, 'x) dlep_extension \<Rightarrow> ('n, 'm, 'w, 'x) extension_registry" where
  "ext_register registry ext = registry @ [ext]"

definition ext_advertised :: "('n, 'm, 'w, 'x) extension_registry \<Rightarrow> extension_id list" where
  "ext_advertised registry = remdups_adj (sort (concat (map advertised_ids registry)))"

definition ext_negotiate ::
  "('n, 'm, 'w, 'x) extension_registry \<Rightarrow> extension_id list \<Rightarrow> ('n, 'm, 'w, 'x) dlep_extension list" where
  "ext_negotiate registry remote =
     filter (\<lambda>e. advertised_ids e \<noteq> [] \<and> list_all (\<lambda>id. id \<in> set remote) (advertised_ids e) \<and>
       on_negotiated e remote) registry"

definition negotiated_from_active ::
  "('n, 'm, 'w, 'x) dlep_extension list \<Rightarrow> extension_id list \<Rightarrow> extension_id list" where
  "negotiated_from_active active_exts peer_extensions =
     remdups_adj (sort (filter (\<lambda>id. id \<in> set peer_extensions) (concat (map advertised_ids active_exts))))"

section \<open>Sorted lists of identifiers\<close>

lemma distinct_remdups_adj_sorted: "sorted xs \<Longrightarrow> distinct (remdups_adj (xs :: 'a :: linorder list))"
  by (induction xs rule: remdups_adj.induct) (auto simp: order.strict_iff_order)

lemma dedup_sort: "distinct (remdups_adj (sort xs))" "sorted (remdups_adj (sort xs))"
  for xs :: "'a :: linorder list"
  by (simp_all add: distinct_remdups_adj_sorted sorted_remdups_adj)

section \<open>Properties\<close>

text \<open>
  C40: negotiation of extensions. What a registry advertises is sorted, free of repetitions and exactly the identifiers
  of its extensions. An extension takes part in a session exactly if it is registered, advertises
  something, the peer advertised all of it, and it agreed; the order is that of registration. What is
  reported as negotiated are exactly the identifiers of the extensions taking part, so both
  sides advertised each of them.
\<close>

theorem extension_negotiation:
  "sorted (ext_advertised r) \<and> distinct (ext_advertised r) \<and>
   set (ext_advertised r) = (\<Union>e \<in> set r. set (advertised_ids e)) \<and>
   (\<exists>Q. ext_negotiate r remote = filter Q r) \<and>
   set (ext_negotiate r remote) =
     {e \<in> set r. advertised_ids e \<noteq> [] \<and> set (advertised_ids e) \<subseteq> set remote \<and> on_negotiated e remote} \<and>
   sorted (negotiated_from_active (ext_negotiate r remote) remote) \<and>
   distinct (negotiated_from_active (ext_negotiate r remote) remote) \<and>
   set (negotiated_from_active (ext_negotiate r remote) remote) =
     (\<Union>e \<in> set (ext_negotiate r remote). set (advertised_ids e)) \<and>
   set (negotiated_from_active (ext_negotiate r remote) remote) \<subseteq> set (ext_advertised r) \<inter> set remote"
proof -
  have "set (ext_negotiate r remote) =
      {e \<in> set r. advertised_ids e \<noteq> [] \<and> set (advertised_ids e) \<subseteq> set remote \<and> on_negotiated e remote}"
    by (auto simp: ext_negotiate_def list_all_iff)
  moreover from this have "set (negotiated_from_active (ext_negotiate r remote) remote) =
      (\<Union>e \<in> set (ext_negotiate r remote). set (advertised_ids e))"
    by (auto simp: negotiated_from_active_def)
  moreover have "\<exists>Q. ext_negotiate r remote = filter Q r" by (auto simp: ext_negotiate_def)
  ultimately show ?thesis
    by (auto simp: ext_advertised_def negotiated_from_active_def dedup_sort)
qed

end
