(* ===== verification/Daemon_Types.thy ===== *)
theory Daemon_Types
  imports Session_Common Extensions
begin

text \<open>
  What the tasks of the daemon exchange: the public events (\<open>dlep-daemon/events.rs\<close>), the commands of
  the application with their receipts, the errors of the public interface, and the dispatch of a
  command to the session tasks with the report of their answers (\<open>dlep-daemon/runtime.rs\<close>).
\<close>

section \<open>Events\<close>

type_synonym destination_id = mac_address

record peer_info =
  pi_addr :: socket_addr
  pi_is_tls :: bool
  pi_peer_description :: "rstring option"

record peer_offer =
  po_endpoints :: "offer_endpoint list"
  po_peer_description :: "rstring option"

datatype ('n, 'm) destination_event =
    DeUp destination_id link_metrics "ipv4 list" "ipv6 list" "'n list" "'m list"
  | DeUpdate destination_id link_metrics
  | DeLinkCharacteristicsResponse destination_id status_code rstring link_metrics
  | DeLinkCharacteristicsRequested destination_id link_characteristics
  | DeAddressesChanged destination_id "('n, 'm) address_changes" "('n, 'm) destination_addrs"
  | DeAnnounced destination_id "('n, 'm) address_changes"
  | DeDown destination_id status_code

record metrics_event =
  me_session_wide :: link_metrics

datatype ('n, 'm, 'x) daemon_event =
    DmCommandRejected session_id peer_info command_rejection
  | DmPeerDiscovered peer_offer
  | DmSessionUp session_id peer_info "extension_id list"
  | DmSessionDown session_id peer_info status_code
  | DmDestination session_id peer_info "('n, 'm) destination_event"
  | DmMetrics session_id peer_info metrics_event
  | DmSessionAddresses session_id peer_info "('n, 'm) address_changes" "('n, 'm) destination_addrs"
  | DmExtension 'x

section \<open>Commands and errors\<close>

datatype ('n, 'm) session_command =
    CmdShutdown status_code
  | CmdAddDestination mac_address link_metrics "('n, 'm) destination_addrs"
  | CmdUpdateDestination mac_address link_metrics
  | CmdUpdateDestinationAddresses mac_address "('n, 'm) address_changes"
  | CmdUpdateSessionAddresses session_id "('n, 'm) address_changes"
  | CmdDropDestination mac_address status_code
  | CmdDropDestinationForSession session_id mac_address
  | CmdSessionUpdate link_metrics
  | CmdAnnounceDestination mac_address
  | CmdRequestLinkCharacteristics session_id mac_address link_characteristics

fun command_target :: "('n, 'm) session_command \<Rightarrow> session_id option" where
  "command_target (CmdDropDestinationForSession sid _) = Some sid"
| "command_target (CmdUpdateSessionAddresses sid _) = Some sid"
| "command_target (CmdRequestLinkCharacteristics sid _ _) = Some sid"
| "command_target _ = None"

text \<open>A receipt is the sending half of a oneshot channel, by its number.\<close>

type_synonym command_receipt = "(session_id \<times> (command_rejection + unit)) option"

record ('n, 'm) session_request =
  sr_target :: "session_id option"
  sr_command :: "('n, 'm) session_command"
  sr_receipt :: "nat option"

definition request_from_command :: "('n, 'm) session_command \<Rightarrow> ('n, 'm) session_request" where
  "request_from_command cmd =
     \<lparr>sr_target = command_target cmd, sr_command = cmd, sr_receipt = None\<rparr>"

record command_report =
  rep_accepted :: "session_id list"
  rep_rejected :: "(session_id \<times> command_rejection) list"
  rep_undelivered :: nat
  rep_unknown :: nat

definition default_report :: command_report where
  "default_report = \<lparr>rep_accepted = [], rep_rejected = [], rep_undelivered = 0, rep_unknown = 0\<rparr>"

datatype io_error_kind = IoTimedOut | IoInvalidInput | IoInvalidData | IoAddrNotAvailable | IoOther

datatype io_error = IoError io_error_kind string

datatype daemon_error =
    SessionLimitReached
  | PeerHistoryFull
  | NoMatchingSession
  | CommandRejected command_report
  | ShuttingDown
  | ErrConfig string
  | ErrIo io_error
  | ErrCodec codec_error

section \<open>Dispatch\<close>

text \<open>
  A session task as the dispatcher sees it: its channel is closed, it ends without using the receipt,
  or it answers. \<open>dispatch_command\<close> takes the tasks as functions of the request.
\<close>

datatype delivery = ChannelClosed | ReceiptDropped | Answered command_receipt

fun tally :: "command_report \<Rightarrow> delivery \<Rightarrow> command_report" where
  "tally report (Answered (Some (sid, Inr _))) = report\<lparr>rep_accepted := rep_accepted report @ [sid]\<rparr>"
| "tally report (Answered (Some (sid, Inl reason))) =
     report\<lparr>rep_rejected := rep_rejected report @ [(sid, reason)]\<rparr>"
| "tally report (Answered None) = report"
| "tally report ReceiptDropped = report\<lparr>rep_unknown := rep_unknown report + 1\<rparr>"
| "tally report ChannelClosed = report\<lparr>rep_undelivered := rep_undelivered report + 1\<rparr>"

definition dispatch_outcome :: "session_id option \<Rightarrow> command_report \<Rightarrow> daemon_error + unit" where
  "dispatch_outcome target report =
     (let report = (if target \<noteq> None \<and> (rep_accepted report \<noteq> [] \<or> rep_rejected report \<noteq> [])
        then report\<lparr>rep_undelivered := 0, rep_unknown := 0\<rparr> else report) in
      if rep_rejected report \<noteq> [] \<or> rep_undelivered report \<noteq> 0 \<or> rep_unknown report \<noteq> 0
      then Inl (CommandRejected report)
      else if rep_accepted report = [] then Inl NoMatchingSession
      else Inr ())"

definition dispatch_command ::
  "(('n, 'm) session_request \<Rightarrow> delivery) list \<Rightarrow> ('n, 'm) session_command \<Rightarrow> session_id option \<Rightarrow>
     daemon_error + unit" where
  "dispatch_command senders cmd target =
     (if target \<noteq> None \<and> command_target cmd \<noteq> None \<and> target \<noteq> command_target cmd
      then Inl (ErrConfig ''conflicting command session IDs'')
      else
        (let target = (case target of Some t \<Rightarrow> Some t | None \<Rightarrow> command_target cmd);
             requests = map (\<lambda>i. \<lparr>sr_target = target, sr_command = cmd, sr_receipt = Some i\<rparr>)
               [0..<length senders] in
         dispatch_outcome target (foldl tally default_report (map2 (\<lambda>s r. s r) senders requests))))"

definition validate_address_changes ::
  "('n, 'm) packages \<Rightarrow> ('n, 'm) address_changes \<Rightarrow> daemon_error + unit" where
  "validate_address_changes P changes =
     try_then (map_err (\<lambda>_. ErrConfig ''duplicate or conflicting address changes'') (changes_validate P changes)) (\<lambda>_.
     try_then (map_err ErrCodec (message_encode P (append_to P changes (message_new SESSION_UPDATE)))) (\<lambda>_. Inr ()))"

end
