(* ===== verification/Link_Control.thy ===== *)
theory Link_Control
  imports Daemon_Types
begin

text \<open>
  The link-control backend of a modem (\<open>dlep-daemon/link_control.rs\<close>): requests of the router for other
  link characteristics, the answers of the backend, and the calls in flight for one session. The
  backend is code of the embedding application; what its call returns, or that it fails, is an argument.
\<close>

section \<open>Requests and answers\<close>

record link_request =
  lrq_session_id :: session_id
  lrq_peer :: peer_info
  lrq_id :: destination_id
  lrq_requested :: link_characteristics
  lrq_current :: link_metrics

record link_response =
  lrs_status :: status_code
  lrs_text :: rstring
  lrs_metrics :: "link_metrics option"

definition link_granted :: "link_metrics \<Rightarrow> link_response" where
  "link_granted metrics = \<lparr>lrs_status = SUCCESS, lrs_text = [], lrs_metrics = Some metrics\<rparr>"

definition link_denied :: link_response where
  "link_denied = \<lparr>lrs_status = REQUEST_DENIED, lrs_text = [], lrs_metrics = None\<rparr>"

definition with_text :: "link_response \<Rightarrow> rstring \<Rightarrow> link_response" where
  "with_text response reason = response\<lparr>lrs_text := reason\<rparr>"

definition into_event :: "link_response \<Rightarrow> mac_address \<Rightarrow> ('n, 'm) fsm_event" where
  "into_event response mac =
     AppLinkCharacteristicsResponse mac (lrs_status response) (lrs_text response) (lrs_metrics response)"

fun fallback_denial :: "('n, 'm) fsm_event \<Rightarrow> ('n, 'm) fsm_event option" where
  "fallback_denial (AppLinkCharacteristicsResponse mac _ _ _) = Some (into_event link_denied mac)"
| "fallback_denial _ = None"

section \<open>Calls in flight\<close>

text \<open>
  A task of the \<open>JoinSet\<close> is a call of the backend, or the immediate denial when there is none. The
  identifier of a task is the number of tasks started before it.
\<close>

datatype link_job = BackendCall link_request | ImmediateDenial

record link_jobs =
  lj_backend :: bool
  lj_tasks :: "(nat \<times> link_job) list"
  lj_macs :: "(nat \<times> mac_address) list"
  lj_started :: nat

definition link_jobs_new :: "bool \<Rightarrow> link_jobs" where
  "link_jobs_new backend = \<lparr>lj_backend = backend, lj_tasks = [], lj_macs = [], lj_started = 0\<rparr>"

definition link_jobs_start :: "link_jobs \<Rightarrow> link_request \<Rightarrow> link_jobs" where
  "link_jobs_start jobs request =
     (let mac = lrq_id request;
          handle = lj_started jobs;
          job = (if lj_backend jobs then BackendCall request else ImmediateDenial) in
      jobs\<lparr>lj_tasks := lj_tasks jobs @ [(handle, job)],
        lj_macs := AList.update handle mac (lj_macs jobs), lj_started := handle + 1\<rparr>)"

definition link_jobs_is_empty :: "link_jobs \<Rightarrow> bool" where
  "link_jobs_is_empty jobs = (lj_tasks jobs = [])"

text \<open>
  The task \<open>handle\<close> completes: \<open>outcome\<close> is what the backend returned, or \<open>None\<close> if the call failed.
  Nothing completes if there is no such task.
\<close>

definition link_jobs_next ::
  "link_jobs \<Rightarrow> nat \<Rightarrow> link_response option \<Rightarrow> panic + ('n, 'm) fsm_event option \<times> link_jobs" where
  "link_jobs_next jobs handle outcome =
     (case map_of (lj_tasks jobs) handle of
        None \<Rightarrow> Inr (None, jobs)
      | Some job \<Rightarrow>
          (let response = (case job of
               BackendCall _ \<Rightarrow> (case outcome of Some response \<Rightarrow> response | None \<Rightarrow> link_denied)
             | ImmediateDenial \<Rightarrow> link_denied) in
           try_then (expect ''tracked link-control task'' (map_of (lj_macs jobs) handle)) (\<lambda>mac.
           Inr (Some (into_event response mac),
             jobs\<lparr>lj_tasks := AList.delete handle (lj_tasks jobs), lj_macs := AList.delete handle (lj_macs jobs)\<rparr>))))"

text \<open>Dropping the set aborts every call.\<close>

definition link_jobs_drop :: "link_jobs \<Rightarrow> link_jobs" where
  "link_jobs_drop jobs = jobs\<lparr>lj_tasks := [], lj_macs := []\<rparr>"

section \<open>Every call is tracked\<close>

definition jobs_ok :: "link_jobs \<Rightarrow> bool" where
  "jobs_ok jobs =
     (dom (map_of (lj_macs jobs)) = dom (map_of (lj_tasks jobs)) \<and>
      (\<forall>h \<in> dom (map_of (lj_tasks jobs)). h < lj_started jobs))"

lemma jobs_ok_new: "jobs_ok (link_jobs_new backend)"
  by (simp add: jobs_ok_def link_jobs_new_def)

lemma jobs_ok_start: "jobs_ok jobs \<Longrightarrow> jobs_ok (link_jobs_start jobs request)"
  by (auto simp: jobs_ok_def link_jobs_start_def Let_def update_conv' map_add_def less_Suc_eq dom_def
      split: option.splits if_splits)

lemma jobs_ok_next:
  assumes "jobs_ok jobs"
  shows "\<exists>e jobs'. link_jobs_next jobs h outcome = Inr (e, jobs') \<and> jobs_ok jobs' \<and>
    (\<forall>ev. e = Some ev \<longrightarrow> fallback_denial ev \<noteq> None)"
proof (cases "map_of (lj_tasks jobs) h")
  case None
  then show ?thesis using assms by (simp add: link_jobs_next_def)
next
  case (Some job)
  then obtain mac where "map_of (lj_macs jobs) h = Some mac"
    using assms by (auto simp: jobs_ok_def dom_def set_eq_iff)
  with Some assms show ?thesis
    by (simp add: link_jobs_next_def Let_def jobs_ok_def delete_conv' into_event_def)
qed

end
