(* ===== verification/Validation.thy ===== *)
theory Validation
  imports Session_Common
begin

text \<open>
  The message grammar of the sessions (\<open>validation.rs\<close>): which message types a role accepts in
  which phase, which data items they carry, and how a message relates to the pending
  transactions. \<open>validate_message_grammar\<close> shows that the item loop of the code accepts exactly
  the messages of a declarative grammar.
\<close>

section \<open>Definitions\<close>

definition validate_mac_format ::
  "('n, 'm) message \<Rightarrow> mac_address_format \<Rightarrow> status_code + unit" where
  "validate_mac_format msg format =
     (if list_ex (\<lambda>item. case item of MacAddress mac \<Rightarrow> \<not> accepts format mac | _ \<Rightarrow> False)
          (data_items msg)
      then Inl INVALID_DATA else Inr ())"

definition expected_message :: "message_type \<Rightarrow> bool \<Rightarrow> bool \<Rightarrow> bool" where
  "expected_message mt router initializing =
     (if initializing
      then mt = (if router then SESSION_INITIALIZATION_RESPONSE else SESSION_INITIALIZATION)
      else
        mt \<in> {SESSION_UPDATE, SESSION_UPDATE_RESPONSE, SESSION_TERMINATION, HEARTBEAT} \<or>
        (if router
         then mt \<in> {DESTINATION_UP, DESTINATION_ANNOUNCE_RESPONSE, DESTINATION_DOWN,
                DESTINATION_DOWN_RESPONSE, DESTINATION_UPDATE, LINK_CHARACTERISTICS_RESPONSE}
         else mt \<in> {DESTINATION_UP_RESPONSE, DESTINATION_ANNOUNCE, DESTINATION_DOWN,
                DESTINATION_DOWN_RESPONSE, LINK_CHARACTERISTICS_REQUEST}))"

definition address_type :: "data_item_type \<Rightarrow> bool" where
  "address_type t = (8 \<le> t \<and> t \<le> 11)"

definition metric_type :: "data_item_type \<Rightarrow> bool" where
  "metric_type t = (12 \<le> t \<and> t \<le> 20)"

definition item_allowed :: "message_type \<Rightarrow> bool \<Rightarrow> data_item_type \<Rightarrow> bool" where
  "item_allowed mt router t =
     (let address = address_type t; metric = metric_type t in
      if mt = SESSION_INITIALIZATION then
        t \<in> {PEER_TYPE, HEARTBEAT_INTERVAL, EXTENSIONS_SUPPORTED} \<or> address
      else if mt = SESSION_INITIALIZATION_RESPONSE then
        t \<in> {STATUS, PEER_TYPE, HEARTBEAT_INTERVAL, EXTENSIONS_SUPPORTED} \<or> address \<or> metric
      else if mt = SESSION_UPDATE then address \<or> (router \<and> metric)
      else if mt = SESSION_UPDATE_RESPONSE \<or> mt = SESSION_TERMINATION then t = STATUS
      else if mt = DESTINATION_UP \<or> mt = DESTINATION_UPDATE then
        t = MAC_ADDRESS \<or> address \<or> metric
      else if mt = DESTINATION_UP_RESPONSE \<or> mt = DESTINATION_DOWN_RESPONSE then
        t \<in> {MAC_ADDRESS, STATUS}
      else if mt = DESTINATION_ANNOUNCE then t \<in> {MAC_ADDRESS, IPV4_ADDRESS, IPV6_ADDRESS}
      else if mt = DESTINATION_ANNOUNCE_RESPONSE then
        t \<in> {MAC_ADDRESS, STATUS} \<or> address \<or> metric
      else if mt = LINK_CHARACTERISTICS_RESPONSE then t \<in> {MAC_ADDRESS, STATUS} \<or> metric
      else if mt = DESTINATION_DOWN then t = MAC_ADDRESS
      else if mt = LINK_CHARACTERISTICS_REQUEST then
        t \<in> {MAC_ADDRESS, CURRENT_DATA_RATE_RECEIVE, CURRENT_DATA_RATE_TRANSMIT, LATENCY}
      else False)"

fun is_unknown :: "('n, 'm) data_item \<Rightarrow> bool" where
  "is_unknown (Unknown _) = True"
| "is_unknown _ = False"

fun is_removal :: "('n, 'm) data_item \<Rightarrow> bool" where
  "is_removal (Ipv4Address add _) = (\<not> add)"
| "is_removal (Ipv6Address add _) = (\<not> add)"
| "is_removal (Ipv4AttachedSubnet add _) = (\<not> add)"
| "is_removal (Ipv6AttachedSubnet add _) = (\<not> add)"
| "is_removal _ = False"

definition unrecognized_extension :: "('n, 'm) message \<Rightarrow> extension_id list \<Rightarrow> bool" where
  "unrecognized_extension msg local_extensions =
     list_ex (\<lambda>i. case i of
         ExtensionsSupported ids \<Rightarrow> list_ex (\<lambda>id. id \<notin> set local_extensions) ids
       | _ \<Rightarrow> False) (data_items msg)"

fun validate_items ::
  "('n, 'm) packages \<Rightarrow> ('n, 'm) message \<Rightarrow> bool \<Rightarrow> bool \<Rightarrow> extension_id list \<Rightarrow>
     data_item_type set \<Rightarrow> bytes set \<Rightarrow> ('n, 'm) data_item list \<Rightarrow> status_code + data_item_type set"
where
  "validate_items P msg router initializing local_extensions types addresses [] = Inr types"
| "validate_items P msg router initializing local_extensions types addresses (item # items) =
     (let t = type_id item in
      if is_unknown item then
        if initializing \<and> unrecognized_extension msg local_extensions
        then validate_items P msg router initializing local_extensions types addresses items
        else Inl INVALID_DATA
      else if \<not> item_allowed (message_type msg) router t then Inl INVALID_DATA
      else
        case item_encode P item [] of
          (Inl _, _) \<Rightarrow> Inl INVALID_DATA
        | (Inr _, bytes) \<Rightarrow>
            if address_type t then
              if bytes \<in> addresses then Inl INVALID_DATA
              else if initializing \<and> is_removal item then Inl INVALID_DATA
              else validate_items P msg router initializing local_extensions types
                (insert bytes addresses) items
            else if t \<in> types then Inl INVALID_DATA
            else validate_items P msg router initializing local_extensions (insert t types)
              addresses items)"

definition required_items :: "message_type \<Rightarrow> data_item_type list" where
  "required_items mt =
     (if mt = SESSION_INITIALIZATION then [PEER_TYPE, HEARTBEAT_INTERVAL]
      else if mt = SESSION_INITIALIZATION_RESPONSE then
        [STATUS, PEER_TYPE, HEARTBEAT_INTERVAL, MAXIMUM_DATA_RATE_RECEIVE,
         MAXIMUM_DATA_RATE_TRANSMIT, CURRENT_DATA_RATE_RECEIVE, CURRENT_DATA_RATE_TRANSMIT, LATENCY]
      else if mt \<in> {SESSION_UPDATE_RESPONSE, SESSION_TERMINATION} then [STATUS]
      else if mt \<in> {DESTINATION_UP_RESPONSE, DESTINATION_ANNOUNCE_RESPONSE,
          DESTINATION_DOWN_RESPONSE, LINK_CHARACTERISTICS_RESPONSE} then [MAC_ADDRESS, STATUS]
      else if mt \<in> {DESTINATION_UP, DESTINATION_ANNOUNCE, DESTINATION_DOWN, DESTINATION_UPDATE,
          LINK_CHARACTERISTICS_REQUEST} then [MAC_ADDRESS]
      else [])"

definition validate_message ::
  "('n, 'm) packages \<Rightarrow> ('n, 'm) message \<Rightarrow> bool \<Rightarrow> bool \<Rightarrow> extension_id list \<Rightarrow>
     status_code + unit" where
  "validate_message P msg router initializing local_extensions =
     (let mt = message_type msg in
      if \<not> (1 \<le> mt \<and> mt \<le> 16) then Inl UNKNOWN_MESSAGE
      else if \<not> expected_message mt router initializing then Inl UNEXPECTED_MESSAGE
      else
        try_then
          (validate_items P msg router initializing local_extensions {} {} (data_items msg)) (\<lambda>types.
        if list_ex (\<lambda>t. t \<notin> types) (required_items mt) then Inl INVALID_DATA
        else if mt = LINK_CHARACTERISTICS_REQUEST \<and>
            CURRENT_DATA_RATE_RECEIVE \<notin> types \<and> CURRENT_DATA_RATE_TRANSMIT \<notin> types \<and>
            LATENCY \<notin> types
        then Inl INVALID_DATA
        else Inr ()))"

definition response_kind :: "message_type \<Rightarrow> request_kind option" where
  "response_kind mt =
     (if mt = DESTINATION_UP_RESPONSE then Some ReqDestinationUp
      else if mt = DESTINATION_DOWN_RESPONSE then Some ReqDestinationDown
      else if mt = DESTINATION_ANNOUNCE_RESPONSE then Some ReqDestinationAnnounce
      else if mt = LINK_CHARACTERISTICS_RESPONSE then Some ReqLinkCharacteristics
      else None)"

definition validate_transaction ::
  "('n, 'm) message \<Rightarrow> transaction_tracker \<Rightarrow> bool \<Rightarrow> status_code + unit" where
  "validate_transaction msg tx destination_up =
     (let mt = message_type msg in
      if mt = SESSION_UPDATE \<and> session_busy tx then Inl UNEXPECTED_MESSAGE
      else if mt = SESSION_UPDATE_RESPONSE \<and>
          session_pending tx \<noteq> Some \<lparr>req_kind = ReqSessionUpdate\<rparr>
      then Inl UNEXPECTED_MESSAGE
      else
        case extract_destination_mac msg of
          None \<Rightarrow> Inr ()
        | Some mac \<Rightarrow>
            (case response_kind mt of
               Some kind \<Rightarrow>
                 if per_destination tx mac \<noteq> Some \<lparr>req_kind = kind\<rparr> then Inl UNEXPECTED_MESSAGE
                 else Inr ()
             | None \<Rightarrow>
                 if mt \<in> {DESTINATION_UP, DESTINATION_ANNOUNCE, DESTINATION_DOWN,
                      LINK_CHARACTERISTICS_REQUEST} \<and> destination_busy tx mac
                 then Inl UNEXPECTED_MESSAGE
                 else if mt \<in> {DESTINATION_UPDATE, DESTINATION_DOWN, LINK_CHARACTERISTICS_REQUEST}
                     \<and> \<not> destination_up
                 then Inl INVALID_DESTINATION
                 else if mt \<in> {DESTINATION_UP, DESTINATION_ANNOUNCE} \<and> destination_up
                 then Inl UNEXPECTED_MESSAGE
                 else Inr ()))"

section \<open>The grammar\<close>

text \<open>
  A message is grammatical when its type is expected, every item that is not an ignorable unknown
  one is allowed and has a wire form, no item type but the addresses occurs twice, no address item
  occurs twice, initialization removes nothing, and the required items are there.
\<close>

definition ignorable ::
  "('n, 'm) message \<Rightarrow> bool \<Rightarrow> extension_id list \<Rightarrow> ('n, 'm) data_item \<Rightarrow> bool" where
  "ignorable msg initializing local_extensions i =
     (is_unknown i \<and> initializing \<and> unrecognized_extension msg local_extensions)"

definition considered ::
  "('n, 'm) message \<Rightarrow> bool \<Rightarrow> extension_id list \<Rightarrow> ('n, 'm) data_item list" where
  "considered msg initializing local_extensions =
     filter (\<lambda>i. \<not> ignorable msg initializing local_extensions i) (data_items msg)"

definition item_fits ::
  "('n, 'm) packages \<Rightarrow> message_type \<Rightarrow> bool \<Rightarrow> bool \<Rightarrow> ('n, 'm) data_item \<Rightarrow> bool" where
  "item_fits P mt router initializing i =
     (\<not> is_unknown i \<and> item_allowed mt router (type_id i) \<and> item_wire P i \<noteq> None
      \<and> \<not> (initializing \<and> is_removal i))"

definition singles :: "('n, 'm) data_item list \<Rightarrow> data_item_type list" where
  "singles items = map type_id (filter (\<lambda>i. \<not> address_type (type_id i)) items)"

definition address_wires :: "('n, 'm) packages \<Rightarrow> ('n, 'm) data_item list \<Rightarrow> bytes option list" where
  "address_wires P items = map (item_wire P) (filter (\<lambda>i. address_type (type_id i)) items)"

definition grammatical ::
  "('n, 'm) packages \<Rightarrow> ('n, 'm) message \<Rightarrow> bool \<Rightarrow> bool \<Rightarrow> extension_id list \<Rightarrow> bool" where
  "grammatical P msg router initializing local_extensions =
     (let mt = message_type msg; items = considered msg initializing local_extensions in
      1 \<le> mt \<and> mt \<le> 16 \<and> expected_message mt router initializing
      \<and> list_all (item_fits P mt router initializing) items
      \<and> distinct (singles items) \<and> distinct (address_wires P items)
      \<and> set (required_items mt) \<subseteq> set (singles items)
      \<and> (mt = LINK_CHARACTERISTICS_REQUEST \<longrightarrow>
           set (singles items) \<inter> {CURRENT_DATA_RATE_RECEIVE, CURRENT_DATA_RATE_TRANSMIT, LATENCY} \<noteq> {}))"

lemma singles_simps [simp]:
  "singles [] = []"
  "singles (i # items) = (if address_type (type_id i) then singles items else type_id i # singles items)"
  by (simp_all add: singles_def)

lemma address_wires_simps [simp]:
  "address_wires P [] = []"
  "address_wires P (i # items) =
     (if address_type (type_id i) then item_wire P i # address_wires P items else address_wires P items)"
  by (simp_all add: address_wires_def)

lemma disjoint_Some_insert:
  "W \<inter> Some ` insert w A = {} \<longleftrightarrow> Some w \<notin> W \<and> W \<inter> Some ` A = {}"
  by auto

lemma known_item_of_type:
  "\<not> is_unknown i \<Longrightarrow> type_id i = MAC_ADDRESS \<Longrightarrow> \<exists>mac. i = MacAddress mac"
  "\<not> is_unknown i \<Longrightarrow> type_id i = STATUS \<Longrightarrow> \<exists>code text. i = Status code text"
  "\<not> is_unknown i \<Longrightarrow> type_id i = HEARTBEAT_INTERVAL \<Longrightarrow> \<exists>d. i = HeartbeatInterval d"
  by (cases i; simp)+

lemma find_status:
  assumes "Status c t \<in> set xs"
  shows "\<exists>code text. find_map (\<lambda>item. case item of Status code _ \<Rightarrow> Some code | _ \<Rightarrow> None) xs = Some code \<and>
    find_map (\<lambda>item. case item of Status code text \<Rightarrow> Some (code, text) | _ \<Rightarrow> None) xs = Some (code, text)"
  using assms
proof (induction xs)
  case (Cons x xs)
  then show ?case by (cases x) auto
qed simp

lemma is_removal_address: "is_removal i \<Longrightarrow> address_type (type_id i)"
  by (cases i) (auto simp: address_type_def)

context byte_buffers
begin

lemma item_encode_empty:
  "item_encode P item [] = (Inr (), w) \<longleftrightarrow> item_wire P item = Some w"
  "(\<exists>e b. item_encode P item [] = (Inl e, b)) \<longleftrightarrow> item_wire P item = None"
  using item_encode_Some [of item _ "[]"] item_encode_None [of item "[]"]
  by (cases "item_wire P item"; force)+

lemma validate_items_refuses:
  assumes keep: "\<not> ignorable msg initializing exts i"
    and "is_unknown i \<or> \<not> item_allowed (message_type msg) router (type_id i) \<or> item_wire P i = None"
  shows "validate_items P msg router initializing exts types addresses (i # items) = Inl INVALID_DATA"
proof (cases "is_unknown i")
  case True
  with keep have "\<not> (initializing \<and> unrecognized_extension msg exts)" by (simp add: ignorable_def)
  with True show ?thesis by (simp only: validate_items.simps Let_def if_True if_False)
next
  case False
  then show ?thesis using assms(2) item_encode_empty(2) [of i] by (auto simp: Let_def)
qed

lemma validate_items_known:
  assumes "\<not> is_unknown i" "item_allowed (message_type msg) router (type_id i)" "item_wire P i = Some w"
  shows "validate_items P msg router initializing exts types addresses (i # items) =
     (if address_type (type_id i) then
        if w \<in> addresses \<or> initializing \<and> is_removal i then Inl INVALID_DATA
        else validate_items P msg router initializing exts types (insert w addresses) items
      else if type_id i \<in> types then Inl INVALID_DATA
      else validate_items P msg router initializing exts (insert (type_id i) types) addresses items)"
proof -
  have "item_encode P i [] = (Inr (), w)" using assms(3) by (simp add: item_encode_empty)
  with assms show ?thesis
    by (cases initializing; cases "is_removal i") (simp_all add: Let_def)
qed

lemma validate_items_iff:
  "validate_items P msg router initializing exts types addresses items = Inr types' \<longleftrightarrow>
     (let its = filter (\<lambda>i. \<not> ignorable msg initializing exts i) items in
      list_all (item_fits P (message_type msg) router initializing) its
      \<and> distinct (singles its) \<and> set (singles its) \<inter> types = {}
      \<and> distinct (address_wires P its) \<and> set (address_wires P its) \<inter> Some ` addresses = {}
      \<and> types' = types \<union> set (singles its))"
proof (induction items arbitrary: types addresses)
  case Nil
  show ?case by auto
next
  case (Cons i items)
  define F where "F = item_fits P (message_type msg) router initializing"
  define its where "its = filter (\<lambda>i. \<not> ignorable msg initializing exts i) items"
  define bad where "bad \<longleftrightarrow> initializing \<and> is_removal i"
  define V where "V = validate_items P msg router initializing exts"
  have IH: "V T A items = Inr types' \<longleftrightarrow> list_all F its \<and> distinct (singles its) \<and> set (singles its) \<inter> T = {} \<and>
      distinct (address_wires P its) \<and> set (address_wires P its) \<inter> Some ` A = {} \<and>
      types' = T \<union> set (singles its)" for T A
    unfolding V_def by (simp add: Cons.IH Let_def F_def its_def)
  have known: "V types addresses (i # items) = Inr types' \<longleftrightarrow>
      list_all F (i # its) \<and> distinct (singles (i # its)) \<and> set (singles (i # its)) \<inter> types = {} \<and>
      distinct (address_wires P (i # its)) \<and> set (address_wires P (i # its)) \<inter> Some ` addresses = {} \<and>
      types' = types \<union> set (singles (i # its))"
    if i: "\<not> is_unknown i" "item_allowed (message_type msg) router (type_id i)" "item_wire P i = Some w" for w
  proof -
    have "F i \<longleftrightarrow> \<not> bad" using i by (simp add: F_def item_fits_def bad_def)
    moreover have "\<not> address_type (type_id i) \<Longrightarrow> \<not> bad" using is_removal_address by (auto simp: bad_def)
    ultimately show ?thesis
      using i(3) validate_items_known [OF i, of initializing exts types addresses items]
      by (cases "address_type (type_id i)"; cases bad)
        (auto simp: IH disjoint_Some_insert simp flip: V_def bad_def)
  qed
  show ?case
  proof (cases "ignorable msg initializing exts i")
    case True
    then show ?thesis using Cons.IH by (simp add: ignorable_def Let_def)
  next
    case keep: False
    show ?thesis
    proof (cases "is_unknown i \<or> \<not> item_allowed (message_type msg) router (type_id i) \<or> item_wire P i = None")
      case True
      then have "\<not> F i" by (auto simp: F_def item_fits_def)
      with validate_items_refuses [OF keep True] keep show ?thesis by (simp add: F_def)
    next
      case False
      then obtain w where "item_wire P i = Some w" by blast
      with False known keep show ?thesis by (simp add: V_def F_def its_def)
    qed
  qed
qed

lemma validate_message_iff:
  "validate_message P msg router initializing exts = Inr () \<longleftrightarrow>
     grammatical P msg router initializing exts"
  by (simp add: validate_message_def grammatical_def Let_def try_then_eq_Inr validate_items_iff
      considered_def list_ex_iff subset_iff) blast

text \<open>What a handler may rely on once its message was validated.\<close>

lemma required_item:
  assumes "validate_message P msg router initializing exts = Inr ()"
    and "t \<in> set (required_items (message_type msg))"
  obtains i where "i \<in> set (data_items msg)" "\<not> is_unknown i" "type_id i = t"
    and "item_wire P i \<noteq> None"
  using assms
  by (auto simp: validate_message_iff grammatical_def Let_def considered_def singles_def item_fits_def
      list_all_iff subset_iff image_iff)

lemma validated_item:
  assumes "validate_message P msg router initializing exts = Inr ()"
    and "i \<in> set (data_items msg)" "\<not> is_unknown i"
  shows "item_allowed (message_type msg) router (type_id i) \<and> item_wire P i \<noteq> None"
  using assms
  by (auto simp: validate_message_iff grammatical_def Let_def considered_def item_fits_def
      list_all_iff ignorable_def)

lemma validated_mac:
  assumes "validate_message P msg router initializing exts = Inr ()"
    and "MAC_ADDRESS \<in> set (required_items (message_type msg))"
  shows "\<exists>mac. extract_destination_mac msg = Some mac"
proof -
  obtain i where i: "i \<in> set (data_items msg)" "\<not> is_unknown i" "type_id i = MAC_ADDRESS"
    using required_item [OF assms] .
  then obtain mac where "i = MacAddress mac" using known_item_of_type(1) by blast
  with i show ?thesis
    by (cases "extract_destination_mac msg") (auto simp: extract_destination_mac_def find_map_None_iff)
qed

lemma validated_status:
  assumes "validate_message P msg router initializing exts = Inr ()"
    and "STATUS \<in> set (required_items (message_type msg))"
  shows "\<exists>code text. extract_status msg = Some code \<and>
    find_map (\<lambda>item. case item of Status code text \<Rightarrow> Some (code, text) | _ \<Rightarrow> None) (data_items msg) =
      Some (code, text)"
proof -
  obtain i where i: "i \<in> set (data_items msg)" "\<not> is_unknown i" "type_id i = STATUS"
    using required_item [OF assms] .
  then obtain c t where "Status c t \<in> set (data_items msg)" using known_item_of_type(2) by blast
  then show ?thesis unfolding extract_status_def by (rule find_status)
qed

lemma validated_heartbeat:
  assumes "validate_message P msg router initializing exts = Inr ()"
    and "HEARTBEAT_INTERVAL \<in> set (required_items (message_type msg))"
  shows "\<exists>d. extract_heartbeat_interval msg = Some d \<and> 10 ^ 9 \<le> d \<and> d < 2 ^ 32 * 10 ^ 6"
proof -
  obtain i where i: "i \<in> set (data_items msg)" "\<not> is_unknown i" "type_id i = HEARTBEAT_INTERVAL"
    using required_item [OF assms] .
  then obtain d where "i = HeartbeatInterval d" using known_item_of_type(3) by blast
  with i obtain e where e: "extract_heartbeat_interval msg = Some e"
    by (cases "extract_heartbeat_interval msg") (auto simp: extract_heartbeat_interval_def find_map_None_iff)
  then have "HeartbeatInterval e \<in> set (data_items msg)"
    by (auto simp: extract_heartbeat_interval_def split: data_item.splits dest!: find_map_SomeD)
  from validated_item [OF assms(1) this] have "1000 \<le> as_millis e" "as_millis e < 2 ^ 32"
    by (auto simp: item_wire_def split: if_splits)
  with e show ?thesis by (auto simp: as_millis_def)
qed

end

lemma validate_mac_format_accepts:
  assumes "validate_mac_format msg format = Inr ()" "extract_destination_mac msg = Some mac"
  shows "accepts format mac"
  using assms
  by (auto simp: validate_mac_format_def extract_destination_mac_def list_ex_iff
      split: if_splits data_item.splits dest!: find_map_SomeD)

text \<open>What a validated transaction gives.\<close>

lemma transaction_idle:
  assumes "validate_transaction msg tx up = Inr ()" "extract_destination_mac msg = Some mac"
    and "message_type msg \<in> {DESTINATION_UP, DESTINATION_ANNOUNCE, DESTINATION_DOWN,
      LINK_CHARACTERISTICS_REQUEST}"
  shows "per_destination tx mac = None"
proof (rule ccontr)
  assume "per_destination tx mac \<noteq> None"
  with assms show False
    by (elim insertE) (simp_all add: validate_transaction_def response_kind_def destination_busy_def)
qed

lemma transaction_known:
  assumes "validate_transaction msg tx up = Inr ()" "extract_destination_mac msg = Some mac"
    and "message_type msg \<in> {DESTINATION_UPDATE, DESTINATION_DOWN, LINK_CHARACTERISTICS_REQUEST}"
  shows up
proof (rule ccontr)
  assume "\<not> up"
  with assms show False
    by (elim insertE) (simp_all add: validate_transaction_def response_kind_def split: if_splits)
qed

lemma transaction_unknown:
  assumes "validate_transaction msg tx up = Inr ()" "extract_destination_mac msg = Some mac"
    and "message_type msg \<in> {DESTINATION_UP, DESTINATION_ANNOUNCE}"
  shows "\<not> up"
proof
  assume up
  with assms show False
    by (elim insertE) (simp_all add: validate_transaction_def response_kind_def split: if_splits)
qed

lemma transaction_response:
  assumes "validate_transaction msg tx up = Inr ()" "extract_destination_mac msg = Some mac"
    and "response_kind (message_type msg) = Some k"
  shows "per_destination tx mac = Some \<lparr>req_kind = k\<rparr>"
proof (rule ccontr)
  assume "per_destination tx mac \<noteq> Some \<lparr>req_kind = k\<rparr>"
  with assms show False
    by (simp add: validate_transaction_def Let_def split: if_splits)
qed

section \<open>Properties\<close>

text \<open>
  C3: the validator, which scans the items once with two sets and stops at the first error, accepts
  exactly the messages of the declarative grammar, for both roles and both phases.
\<close>

theorem validate_message_grammar:
  assumes "byte_buffers P"
  shows "validate_message P msg router initializing exts = Inr () \<longleftrightarrow>
    grammatical P msg router initializing exts"
  by (rule byte_buffers.validate_message_iff [OF assms])

theorem validate_message_grammar_witness:
  "validate_message std_packages
     (build_destination_up (Eui48 [1, 2, 3, 4, 5, 6]) default_metrics no_addrs :: (net4, net6) message)
     True False [] = Inr () \<and>
   validate_message std_packages (build_heartbeat :: (net4, net6) message) True True [] \<noteq> Inr ()"
proof -
  have "grammatical std_packages
     (build_destination_up (Eui48 [1, 2, 3, 4, 5, 6]) default_metrics no_addrs) True False []"
    by (simp add: grammatical_def considered_def ignorable_def expected_message_def item_fits_def
        item_allowed_def singles_def address_wires_def required_items_def up_items_def no_addrs_def
        metric_items_def default_metrics_def address_type_def metric_type_def item_wire_def as_micros_def
        del: set_filter)
  moreover have "\<not> grammatical std_packages (build_heartbeat :: (net4, net6) message) True True []"
    by (simp add: grammatical_def build_heartbeat_def expected_message_def)
  ultimately show ?thesis
    using validate_message_grammar [OF std.byte_buffers_axioms] by blast
qed

end
