(* ===== verification/Session_Machine.thy ===== *)
theory Session_Machine
  imports Validation
begin

text \<open>
  What both session state machines share: the timer identifiers (declared in
  \<open>session_router.rs\<close> and used by both roles), running a machine over a sequence of events, the
  abstract life cycle of a session, and the timers the runtime keeps armed. The locale
  \<open>session_machine\<close> is the contract between a session state machine and the runtime that drives
  it; its lemmas lift the laws of one step to every sequence of events. Both roles interpret it.
\<close>

section \<open>Timers of a session\<close>

definition TIMER_SESSION_INIT :: timer_id where "TIMER_SESSION_INIT = 1"
definition TIMER_TERMINATION :: timer_id where "TIMER_TERMINATION = 2"
definition TIMER_HEARTBEAT :: timer_id where "TIMER_HEARTBEAT = 3"
definition TIMER_HEARTBEAT_MISSED :: timer_id where "TIMER_HEARTBEAT_MISSED = 4"

lemmas timer_ids = TIMER_SESSION_INIT_def TIMER_TERMINATION_def TIMER_HEARTBEAT_def
  TIMER_HEARTBEAT_MISSED_def

section \<open>Shared parts of the message gate\<close>

text \<open>A fatal status of a received message, which both roles echo; the metric types of a message.\<close>

definition fatal_status :: "('n, 'm) message \<Rightarrow> ('n, 'm) data_item option" where
  "fatal_status msg =
     (if message_type msg \<noteq> SESSION_TERMINATION
      then List.find (\<lambda>i. case i of Status code _ \<Rightarrow> terminates_session code | _ \<Rightarrow> False)
        (data_items msg)
      else None)"

definition metric_types :: "('n, 'm) message \<Rightarrow> data_item_type set" where
  "metric_types msg = set (filter metric_type (map type_id (data_items msg)))"

lemma fatal_status_Some:
  assumes "fatal_status msg = Some item"
  shows "item \<in> set (data_items msg) \<and> (\<exists>code t. item = Status code t \<and> terminates_session code)"
proof -
  have mem: "item \<in> set (data_items msg)"
    and "case item of Status code _ \<Rightarrow> terminates_session code | _ \<Rightarrow> False"
    using assms by (auto simp: fatal_status_def find_Some_iff split: if_split_asm)
  from this(2) have "\<exists>code t. item = Status code t \<and> terminates_session code" by (cases item) auto
  with mem show ?thesis by blast
qed

lemma map_of_map_values: "map_of (map (\<lambda>(m, d). (m, f d)) al) = map_option f \<circ> map_of al"
  by (induction al) auto

lemma map_fst_map_values [simp]: "map (fst \<circ> (\<lambda>(m, d). (m, f d))) al = map fst al"
  by (induction al) auto

section \<open>Runs\<close>

fun run_events ::
  "('s \<Rightarrow> 'e \<Rightarrow> panic + ('s \<times> 'a list)) \<Rightarrow> 's \<Rightarrow> 'e list \<Rightarrow> panic + ('s \<times> 'a list)" where
  "run_events step s [] = Inr (s, [])"
| "run_events step s (e # es) =
     try_then (step s e) (\<lambda>(s1, acts1).
     try_then (run_events step s1 es) (\<lambda>(s2, acts2). Inr (s2, acts1 @ acts2)))"

lemma run_events_append:
  "run_events step s (es @ fs) =
     try_then (run_events step s es) (\<lambda>(s1, acts1).
     try_then (run_events step s1 fs) (\<lambda>(s2, acts2). Inr (s2, acts1 @ acts2)))"
proof (induction es arbitrary: s)
  case Nil
  show ?case by (cases "run_events step s fs") auto
next
  case (Cons e es)
  show ?case
  proof (cases "step s e")
    case (Inr r)
    obtain s1 a1 where r: "r = (s1, a1)" by (cases r)
    show ?thesis
      by (cases "run_events step s1 es") (auto simp: Inr r Cons.IH try_then_def split: sum.splits)
  qed simp
qed

section \<open>The life cycle\<close>

text \<open>
  The phases of a session, as the runtime sees them, and the notifications \<open>SessionUp\<close> and
  \<open>SessionDown\<close> a step may emit between them.
\<close>

datatype phase = Idle | Initializing | Established | Closing | Ended

datatype notice = UpNotice | DownNotice

fun notice_of :: "('n, 'm) fsm_action \<Rightarrow> notice list" where
  "notice_of (Emit (EvSessionUp _)) = [UpNotice]"
| "notice_of (Emit (EvSessionDown _)) = [DownNotice]"
| "notice_of _ = []"

definition notices :: "('n, 'm) fsm_action list \<Rightarrow> notice list" where
  "notices acts = concat (map notice_of acts)"

lemma notices_simps [simp]:
  "notices [] = []" "notices (a # acts) = notice_of a @ notices acts" "notices (xs @ ys) = notices xs @ notices ys"
  by (simp_all add: notices_def)

inductive phase_step :: "phase \<Rightarrow> notice list \<Rightarrow> phase \<Rightarrow> bool" where
  stay: "phase_step p [] p"
| begin_session: "phase_step Idle [] Initializing"
| abandon: "phase_step Idle [] Ended"
| refuse: "phase_step Idle [] Closing"
| establish: "phase_step Initializing [UpNotice] Established"
| reject: "phase_step Initializing [] Closing"
| fail: "phase_step Initializing [DownNotice] Ended"
| shut: "phase_step Established [] Closing"
| lose: "phase_step Established [DownNotice] Ended"
| finish: "phase_step Closing [DownNotice] Ended"

inductive_simps phase_step_iff: "phase_step p ns q"

inductive phase_steps :: "phase \<Rightarrow> notice list \<Rightarrow> phase \<Rightarrow> bool" where
  none: "phase_steps p [] p"
| more: "phase_steps p ns q \<Longrightarrow> phase_step q ms r \<Longrightarrow> phase_steps p (ns @ ms) r"

lemma phase_steps_from_Idle:
  "phase_steps p ns q \<Longrightarrow> p = Idle \<Longrightarrow>
     (q \<in> {Idle, Initializing} \<longrightarrow> ns = []) \<and> (q = Established \<longrightarrow> ns = [UpNotice]) \<and>
     (q = Closing \<longrightarrow> ns \<in> {[], [UpNotice]}) \<and>
     (q = Ended \<longrightarrow> ns \<in> {[], [DownNotice], [UpNotice, DownNotice]})"
  by (induction rule: phase_steps.induct) (auto simp: phase_step_iff)

section \<open>Armed timers\<close>

text \<open>
  The runtime arms a timer on \<open>StartTimer\<close> and \<open>ResetHeartbeat\<close>, disarms it on \<open>CancelTimer\<close>, and
  a one-shot timer is disarmed when it expires. \<open>timer_event\<close> says that a timer event stems from
  an armed timer, with the kind it was started with.
\<close>

fun arm :: "timer_id set \<Rightarrow> ('n, 'm) fsm_action \<Rightarrow> timer_id set" where
  "arm T (StartTimer i k d periodic) = insert i T"
| "arm T (CancelTimer i) = T - {i}"
| "arm T (ResetHeartbeat i d) = insert i T"
| "arm T _ = T"

definition armed_after :: "timer_id set \<Rightarrow> ('n, 'm) fsm_action list \<Rightarrow> timer_id set" where
  "armed_after T acts = foldl arm T acts"

lemma armed_after_simps [simp]:
  "armed_after T [] = T" "armed_after T (a # acts) = armed_after (arm T a) acts"
  "armed_after T (xs @ ys) = armed_after (armed_after T xs) ys"
  by (simp_all add: armed_after_def)

fun timer_kind_of :: "timer_id \<Rightarrow> timer_kind option" where
  "timer_kind_of i =
     (if i = TIMER_SESSION_INIT then Some TkSessionInit
      else if i = TIMER_TERMINATION then Some TkTermination
      else if i = TIMER_HEARTBEAT then Some TkHeartbeat
      else if i = TIMER_HEARTBEAT_MISSED then Some TkHeartbeatMissed
      else None)"

fun timer_event :: "timer_id set \<Rightarrow> ('n, 'm) fsm_event \<Rightarrow> bool" where
  "timer_event T (TimerExpired i k) = (i \<in> T \<and> timer_kind_of i = Some k)"
| "timer_event T _ = True"

fun expire :: "timer_id set \<Rightarrow> ('n, 'm) fsm_event \<Rightarrow> timer_id set" where
  "expire T (TimerExpired i k) = (if k = TkHeartbeat then T else T - {i})"
| "expire T _ = T"

text \<open>The states and armed timers a machine can reach under such a runtime.\<close>

inductive driven ::
  "('s \<Rightarrow> ('n, 'm) fsm_event \<Rightarrow> panic + ('s \<times> ('n, 'm) fsm_action list)) \<Rightarrow> 's \<Rightarrow> 's \<Rightarrow> timer_id set \<Rightarrow> bool"
  for step s0 where
  start: "driven step s0 s0 {}"
| event: "driven step s0 s T \<Longrightarrow> timer_event T e \<Longrightarrow> step s e = Inr (s', acts) \<Longrightarrow>
    driven step s0 s' (armed_after (expire T e) acts)"

lemma expire_subset: "expire T e \<subseteq> T"
  by (cases e) auto

lemma timer_kind_of_iff:
  "timer_kind_of i = Some TkSessionInit \<longleftrightarrow> i = TIMER_SESSION_INIT"
  "timer_kind_of i = Some TkTermination \<longleftrightarrow> i = TIMER_TERMINATION"
  "timer_kind_of i = Some TkHeartbeat \<longleftrightarrow> i = TIMER_HEARTBEAT"
  "timer_kind_of i = Some TkHeartbeatMissed \<longleftrightarrow> i = TIMER_HEARTBEAT_MISSED"
  by (auto simp: timer_ids)

text \<open>A calm action is no life-cycle notice and touches no timer but the missed deadline.\<close>

fun calm :: "('n, 'm) fsm_action \<Rightarrow> bool" where
  "calm (SendMessage _) = True"
| "calm (ResetHeartbeat i _) = (i = TIMER_HEARTBEAT_MISSED)"
| "calm (Emit (EvSessionUp _)) = False"
| "calm (Emit (EvSessionDown _)) = False"
| "calm (Emit _) = True"
| "calm _ = False"

lemma calm_actions:
  "list_all calm acts \<Longrightarrow> notices acts = []"
  "list_all calm acts \<Longrightarrow> armed_after T acts \<subseteq> insert TIMER_HEARTBEAT_MISSED T"
proof -
  have "calm a \<Longrightarrow> notice_of a = []" for a :: "('a, 'b) fsm_action" by (cases a rule: calm.cases) auto
  then show "list_all calm acts \<Longrightarrow> notices acts = []" by (induction acts) auto
  have "calm a \<Longrightarrow> arm T a \<subseteq> insert TIMER_HEARTBEAT_MISSED T" for a :: "('a, 'b) fsm_action" and T
    by (cases a rule: calm.cases) auto
  then show "list_all calm acts \<Longrightarrow> armed_after T acts \<subseteq> insert TIMER_HEARTBEAT_MISSED T"
    by (induction acts arbitrary: T) (auto, blast)
qed

lemma local_update_calm:
  "apply_local_address_update P tx local changes = Inr (tx', local', acts) \<Longrightarrow> list_all calm acts"
  by (auto simp: apply_local_address_update_def Let_def try_then_eq_Inr
      split: sum.splits if_splits prod.splits)

fun is_rejection :: "('n, 'm) fsm_action \<Rightarrow> bool" where
  "is_rejection (Emit (EvCommandRejected _)) = True"
| "is_rejection _ = False"

text \<open>A timer action fits its timer: a timer is always started with the kind that belongs to its
  identifier, only the heartbeat timer is periodic, and only the missed deadline is reset.\<close>

fun kinded :: "('n, 'm) fsm_action \<Rightarrow> bool" where
  "kinded (StartTimer i k d periodic) = (timer_kind_of i = Some k \<and> periodic = (k = TkHeartbeat))"
| "kinded (ResetHeartbeat i d) = (i = TIMER_HEARTBEAT_MISSED)"
| "kinded _ = True"

declare kinded.simps(1) [simp del]

lemma kinded_start [simp]:
  "kinded (StartTimer TIMER_SESSION_INIT k d periodic) \<longleftrightarrow> k = TkSessionInit \<and> \<not> periodic"
  "kinded (StartTimer TIMER_TERMINATION k d periodic) \<longleftrightarrow> k = TkTermination \<and> \<not> periodic"
  "kinded (StartTimer TIMER_HEARTBEAT k d periodic) \<longleftrightarrow> k = TkHeartbeat \<and> periodic"
  by (auto simp: kinded.simps(1) timer_ids)

lemma calm_kinded: "list_all calm acts \<Longrightarrow> list_all kinded acts"
proof (induction acts)
  case (Cons a acts)
  then show ?case by (cases a rule: calm.cases) auto
qed simp

lemma rejection_kinded: "list_all is_rejection acts \<Longrightarrow> list_all kinded acts"
proof (induction acts)
  case (Cons a acts)
  then show ?case by (cases a rule: is_rejection.cases) auto
qed simp

section \<open>Results of a step\<close>

text \<open>
  Predicates on the result of a handler: \<open>keeps\<close> (it returns, and in a good state), \<open>quiet\<close> (it
  changes nothing the runtime sees of the session and has calm actions only) and \<open>tame\<close> (it moves
  through the phases and the timers as allowed). Each comes with its rule for \<open>try_then\<close>, so that a
  handler is proved by following its own structure.
\<close>

definition keeps :: "('s \<Rightarrow> bool) \<Rightarrow> panic + ('s \<times> 'a list) \<Rightarrow> bool" where
  "keeps good r = (\<exists>s' acts. r = Inr (s', acts) \<and> good s')"

lemma keeps_Inr [simp]: "keeps good (Inr (s', acts)) \<longleftrightarrow> good s'"
  by (simp add: keeps_def)

definition quiet :: "('s \<Rightarrow> 'v) \<Rightarrow> 's \<Rightarrow> panic + ('s \<times> ('n, 'm) fsm_action list) \<Rightarrow> bool" where
  "quiet view s r = (\<forall>s' acts. r = Inr (s', acts) \<longrightarrow> view s' = view s \<and> list_all calm acts)"

lemma quiet_Inl [simp]: "quiet view s (Inl p)"
  by (simp add: quiet_def)

lemma quiet_Inr [simp]: "quiet view s (Inr (s', acts)) \<longleftrightarrow> view s' = view s \<and> list_all calm acts"
  by (simp add: quiet_def)

lemma quiet_try: "(\<And>x. r = Inr x \<Longrightarrow> quiet view s (f x)) \<Longrightarrow> quiet view s (try_then r f)"
  by (cases r) auto

definition tame ::
  "('s \<Rightarrow> 'c) \<Rightarrow> ('s \<Rightarrow> phase) \<Rightarrow> ('s \<Rightarrow> timer_id set) \<Rightarrow> ('n, 'm) fsm_event \<Rightarrow> 's \<Rightarrow>
     panic + ('s \<times> ('n, 'm) fsm_action list) \<Rightarrow> bool" where
  "tame cfg ph tm e s r = (\<forall>s' acts. r = Inr (s', acts) \<longrightarrow>
     cfg s' = cfg s \<and>
     phase_step (ph s) (notices acts) (ph s') \<and>
     (\<forall>T. T \<subseteq> tm s \<and> timer_event T e \<longrightarrow> armed_after (expire T e) acts \<subseteq> tm s') \<and>
     list_all kinded acts \<and>
     (ph s = Ended \<longrightarrow> s' = s \<and> list_all is_rejection acts))"

lemma tame_Inl [simp]: "tame cfg ph tm e s (Inl p)"
  by (simp add: tame_def)

lemma tame_same [simp]: "tame cfg ph tm e s (Inr (s, []))"
  using expire_subset [of _ e] by (auto simp: tame_def phase_step.stay)

lemma tame_rejection: "tame cfg ph tm e s (Inr (s, [Emit (EvCommandRejected x)]))"
  using expire_subset [of _ e] by (auto simp: tame_def phase_step.stay)

lemma tame_try: "(\<And>x. r = Inr x \<Longrightarrow> tame cfg ph tm e s (f x)) \<Longrightarrow> tame cfg ph tm e s (try_then r f)"
  by (cases r) auto

lemma tame_step:
  assumes "r = Inr (s', acts)" "cfg s' = cfg s" "ph s \<noteq> Ended" "list_all kinded acts"
    and "phase_step (ph s) (notices acts) (ph s')"
    and "\<And>T. T \<subseteq> tm s \<Longrightarrow> timer_event T e \<Longrightarrow> armed_after (expire T e) acts \<subseteq> tm s'"
  shows "tame cfg ph tm e s r"
  using assms by (simp add: tame_def)

lemma tame_quiet:
  assumes quiet: "quiet view s r" and live: "ph s \<noteq> Ended" "TIMER_HEARTBEAT_MISSED \<in> tm s"
    and view: "\<And>s'. view s' = view s \<Longrightarrow> cfg s' = cfg s \<and> ph s' = ph s \<and> tm s' = tm s"
  shows "tame cfg ph tm e s r"
  unfolding tame_def
proof (intro allI impI)
  fix s' acts assume "r = Inr (s', acts)"
  with quiet have same: "cfg s' = cfg s" "ph s' = ph s" "tm s' = tm s" and c: "list_all calm acts"
    using view [of s'] by (simp_all add: quiet_def)
  have "armed_after (expire T e) acts \<subseteq> tm s" if "T \<subseteq> tm s" for T
    using calm_actions(2) [OF c, of "expire T e"] expire_subset [of T e] that live(2) by auto
  with same c live(1) show "cfg s' = cfg s \<and> phase_step (ph s) (notices acts) (ph s') \<and>
     (\<forall>T. T \<subseteq> tm s \<and> timer_event T e \<longrightarrow> armed_after (expire T e) acts \<subseteq> tm s') \<and>
     list_all kinded acts \<and> (ph s = Ended \<longrightarrow> s' = s \<and> list_all is_rejection acts)"
    by (simp add: calm_actions(1) calm_kinded phase_step.stay)
qed

text \<open>The messages sent by a list of actions, and a result that sends exactly the given answers and
  re-arms the deadline last.\<close>

definition sent :: "('n, 'm) fsm_action list \<Rightarrow> ('n, 'm) message list" where
  "sent acts = concat (map (\<lambda>a. case a of SendMessage m \<Rightarrow> [m] | _ \<Rightarrow> []) acts)"

lemma sent_simps [simp]:
  "sent [] = []" "sent (a # acts) = (case a of SendMessage m \<Rightarrow> [m] | _ \<Rightarrow> []) @ sent acts"
  "sent (xs @ ys) = sent xs @ sent ys"
  by (simp_all add: sent_def)

definition answering ::
  "('n, 'm) fsm_action \<Rightarrow> ('n, 'm) message list \<Rightarrow> panic + ('s \<times> ('n, 'm) fsm_action list) \<Rightarrow> bool" where
  "answering reset answers r = (\<forall>s' acts. r = Inr (s', acts) \<longrightarrow>
     sent acts = answers \<and> acts \<noteq> [] \<and> last acts = reset)"

lemma answering_Inl [simp]: "answering reset answers (Inl p)"
  by (simp add: answering_def)

lemma answering_Inr [simp]:
  "answering reset answers (Inr (s', acts)) \<longleftrightarrow> sent acts = answers \<and> acts \<noteq> [] \<and> last acts = reset"
  by (simp add: answering_def)

lemma answering_try:
  "(\<And>x. r = Inr x \<Longrightarrow> answering reset answers (f x)) \<Longrightarrow> answering reset answers (try_then r f)"
  by (cases r) auto

section \<open>The contract\<close>

locale session_machine =
  fixes step :: "'s \<Rightarrow> ('n, 'm) fsm_event \<Rightarrow> panic + ('s \<times> ('n, 'm) fsm_action list)"
    and inv :: "'s \<Rightarrow> bool"
    and phase_of :: "'s \<Rightarrow> phase"
    and timers_of :: "'s \<Rightarrow> timer_id set"
  assumes step_total: "inv s \<Longrightarrow> \<exists>s' acts. step s e = Inr (s', acts)"
    and step_inv: "inv s \<Longrightarrow> step s e = Inr (s', acts) \<Longrightarrow> inv s'"
    and step_phase: "step s e = Inr (s', acts) \<Longrightarrow> phase_step (phase_of s) (notices acts) (phase_of s')"
    and step_ended: "phase_of s = Ended \<Longrightarrow> step s e = Inr (s', acts) \<Longrightarrow>
      s' = s \<and> list_all is_rejection acts"
    and step_timers: "T \<subseteq> timers_of s \<Longrightarrow> timer_event T e \<Longrightarrow> step s e = Inr (s', acts) \<Longrightarrow>
      armed_after (expire T e) acts \<subseteq> timers_of s'"
    and step_kinded: "step s e = Inr (s', acts) \<Longrightarrow> list_all kinded acts"
begin

lemma run_total: "inv s \<Longrightarrow> \<exists>s' acts. run_events step s es = Inr (s', acts) \<and> inv s'"
proof (induction es arbitrary: s)
  case (Cons e es)
  obtain s1 a1 where 1: "step s e = Inr (s1, a1)" using step_total [OF Cons.prems] by blast
  with Cons.IH step_inv [OF Cons.prems] obtain s2 a2 where "run_events step s1 es = Inr (s2, a2)" "inv s2"
    by blast
  with 1 show ?case by simp
qed simp

lemma run_inv: "inv s \<Longrightarrow> run_events step s es = Inr (s', acts) \<Longrightarrow> inv s'"
  using run_total [of s es] by auto

lemma run_phases:
  "run_events step s es = Inr (s', acts) \<Longrightarrow> phase_steps (phase_of s) (notices acts) (phase_of s')"
proof (induction es arbitrary: s' acts rule: rev_induct)
  case Nil
  then show ?case by (simp add: phase_steps.none)
next
  case (snoc e es)
  then obtain s1 a1 a2 where "run_events step s es = Inr (s1, a1)" "step s1 e = Inr (s', a2)"
    and "acts = a1 @ a2"
    by (auto simp: run_events_append try_then_eq_Inr)
  with snoc.IH step_phase show ?case by (auto intro: phase_steps.more)
qed

lemma run_notices:
  assumes "phase_of s = Idle" "run_events step s es = Inr (s', acts)"
  shows "notices acts \<in> {[], [UpNotice], [DownNotice], [UpNotice, DownNotice]} \<and>
    (phase_of s' = Established \<longrightarrow> notices acts = [UpNotice]) \<and>
    (DownNotice \<in> set (notices acts) \<longrightarrow> phase_of s' = Ended)"
  using phase_steps_from_Idle [OF run_phases [OF assms(2)] assms(1)]
  by (cases "phase_of s'") auto

lemma run_ended:
  assumes "phase_of s = Ended" "run_events step s es = Inr (s', acts)"
  shows "s' = s \<and> list_all is_rejection acts"
  using assms
proof (induction es arbitrary: acts s')
  case (Cons e es)
  then obtain s1 a1 a2 where 1: "step s e = Inr (s1, a1)"
    and 2: "run_events step s1 es = Inr (s', a2)" and a: "acts = a1 @ a2"
    by (auto simp: try_then_eq_Inr)
  from step_ended [OF Cons.prems(1) 1] have "s1 = s" "list_all is_rejection a1" by auto
  with Cons.IH [of s' a2] Cons.prems(1) 2 a show ?case by auto
qed simp

lemma driven_timers: "driven step s0 s T \<Longrightarrow> T \<subseteq> timers_of s"
  by (induction rule: driven.induct) (auto dest: step_timers)

end

end
