(* ===== verification/Timer_Set.thy ===== *)
theory Timer_Set
  imports Session_Machine
begin

text \<open>
  The timers of a session task (\<open>TimerSet\<close> of \<open>dlep-daemon/session.rs\<close>). A timer is a spawned task
  that sleeps and then pushes its expiry into a channel; aborting it cannot take back an expiry that is
  already queued. Each start of a timer therefore gets a new generation, and the loop drops expiries of
  another generation. The clock is not modelled: a task may wake up at any time, also after it was
  aborted, when it was already past its last suspension point.
\<close>

section \<open>Timer tasks and their channel\<close>

text \<open>A \<open>JoinHandle\<close> is the position of its task in the list of all tasks ever spawned.\<close>

record sleeper =
  sl_timer :: timer_id
  sl_kind :: timer_kind
  sl_generation :: u64
  sl_periodic :: bool
  sl_aborted :: bool
  sl_done :: bool

type_synonym expiry = "timer_id \<times> timer_kind \<times> u64"

definition abort_task :: "sleeper list \<Rightarrow> nat \<Rightarrow> sleeper list" where
  "abort_task tasks h =
     (if h < length tasks then tasks[h := (tasks ! h)\<lparr>sl_aborted := True\<rparr>] else tasks)"

text \<open>A sleeper wakes up and sends its expiry. A one-shot sleeper ends after that, a periodic one
  sleeps again unless it was aborted.\<close>

definition sleeper_fires :: "sleeper list \<Rightarrow> expiry list \<Rightarrow> nat \<Rightarrow> sleeper list \<times> expiry list" where
  "sleeper_fires tasks queue h =
     (if h < length tasks \<and> \<not> sl_done (tasks ! h)
      then
        (let t = tasks ! h in
         (tasks[h := t\<lparr>sl_done := (\<not> sl_periodic t \<or> sl_aborted t)\<rparr>],
          queue @ [(sl_timer t, sl_kind t, sl_generation t)]))
      else (tasks, queue))"

section \<open>The timer set\<close>

record timer_entry =
  te_handle :: nat
  te_periodic :: bool
  te_generation :: u64

record timer_set =
  ts_handles :: "(timer_id \<times> timer_entry) list"
  ts_last_generations :: "(timer_id \<times> u64) list"

definition default_timer_set :: timer_set where
  "default_timer_set = \<lparr>ts_handles = [], ts_last_generations = []\<rparr>"

definition next_generation_for :: "timer_set \<Rightarrow> timer_id \<Rightarrow> u64 \<times> timer_set" where
  "next_generation_for ts tid =
     (let generation = (case map_of (ts_last_generations ts) tid of None \<Rightarrow> 0 | Some g \<Rightarrow> g) + 1 in
      (generation, ts\<lparr>ts_last_generations := AList.update tid generation (ts_last_generations ts)\<rparr>))"

definition timer_arm ::
  "timer_set \<Rightarrow> sleeper list \<Rightarrow> timer_id \<Rightarrow> nat \<Rightarrow> bool \<Rightarrow> u64 \<Rightarrow> timer_set \<times> sleeper list" where
  "timer_arm ts tasks tid handle periodic generation =
     (ts\<lparr>ts_handles := AList.update tid
          \<lparr>te_handle = handle, te_periodic = periodic, te_generation = generation\<rparr> (ts_handles ts)\<rparr>,
      case map_of (ts_handles ts) tid of
        Some old \<Rightarrow> abort_task tasks (te_handle old)
      | None \<Rightarrow> tasks)"

definition timer_cancel :: "timer_set \<Rightarrow> sleeper list \<Rightarrow> timer_id \<Rightarrow> timer_set \<times> sleeper list" where
  "timer_cancel ts tasks tid =
     (ts\<lparr>ts_handles := AList.delete tid (ts_handles ts)\<rparr>,
      case map_of (ts_handles ts) tid of
        Some entry \<Rightarrow> abort_task tasks (te_handle entry)
      | None \<Rightarrow> tasks)"

definition is_current_generation :: "timer_set \<Rightarrow> timer_id \<Rightarrow> u64 \<Rightarrow> bool" where
  "is_current_generation ts tid generation =
     (case map_of (ts_handles ts) tid of Some e \<Rightarrow> te_generation e = generation | None \<Rightarrow> False)"

definition timer_forget :: "timer_set \<Rightarrow> timer_id \<Rightarrow> timer_set" where
  "timer_forget ts tid =
     (case map_of (ts_handles ts) tid of
        Some entry \<Rightarrow>
          if \<not> te_periodic entry then ts\<lparr>ts_handles := AList.delete tid (ts_handles ts)\<rparr> else ts
      | None \<Rightarrow> ts)"

definition timer_set_drop :: "timer_set \<Rightarrow> sleeper list \<Rightarrow> timer_set \<times> sleeper list" where
  "timer_set_drop ts tasks =
     (ts\<lparr>ts_handles := []\<rparr>,
      foldl (\<lambda>tasks (_, entry). abort_task tasks (te_handle entry)) tasks (ts_handles ts))"

text \<open>What \<open>process_actions\<close> does for \<open>StartTimer\<close> and \<open>ResetHeartbeat\<close>: draw a generation, spawn the
  sleeper with it and arm the timer.\<close>

definition start_timer ::
  "timer_set \<Rightarrow> sleeper list \<Rightarrow> timer_id \<Rightarrow> timer_kind \<Rightarrow> bool \<Rightarrow> timer_set \<times> sleeper list" where
  "start_timer ts tasks tid kind periodic =
     (let (generation, ts) = next_generation_for ts tid;
          sleeper = \<lparr>sl_timer = tid, sl_kind = kind, sl_generation = generation, sl_periodic = periodic,
            sl_aborted = False, sl_done = False\<rparr> in
      timer_arm ts (tasks @ [sleeper]) tid (length tasks) periodic generation)"

section \<open>Generations\<close>

text \<open>What a task was spawned with; the task list only grows, and its flags change.\<close>

definition spawned :: "sleeper list \<Rightarrow> (timer_id \<times> timer_kind \<times> bool \<times> u64) list" where
  "spawned tasks = map (\<lambda>t. (sl_timer t, sl_kind t, sl_periodic t, sl_generation t)) tasks"

definition starts :: "timer_id \<Rightarrow> (timer_id \<times> timer_kind \<times> bool \<times> u64) list \<Rightarrow> nat" where
  "starts tid ks = length (filter (\<lambda>k. fst k = tid) ks)"

lemma starts_simps [simp]:
  "starts tid [] = 0" "starts tid (xs @ ys) = starts tid xs + starts tid ys"
  "starts tid (k # ks) = (if fst k = tid then 1 else 0) + starts tid ks"
  by (simp_all add: starts_def)

lemma starts_le: "starts tid ks \<le> length ks"
  by (simp add: starts_def)

lemma spawned_simps [simp]:
  "length (spawned tasks) = length tasks"
  "spawned (tasks @ [t]) = spawned tasks @ [(sl_timer t, sl_kind t, sl_periodic t, sl_generation t)]"
  "h < length tasks \<Longrightarrow> spawned tasks ! h =
     (sl_timer (tasks ! h), sl_kind (tasks ! h), sl_periodic (tasks ! h), sl_generation (tasks ! h))"
  "spawned [] = []"
  by (simp_all add: spawned_def)

lemma spawned_update:
  "h < length tasks \<Longrightarrow> spawned (tasks[h := (tasks ! h)\<lparr>sl_aborted := b\<rparr>]) = spawned tasks"
  "h < length tasks \<Longrightarrow> spawned (tasks[h := (tasks ! h)\<lparr>sl_done := b\<rparr>]) = spawned tasks"
  by (auto intro!: nth_equalityI simp: nth_list_update)

lemma spawned_abort [simp]: "spawned (abort_task tasks h) = spawned tasks"
  by (simp add: abort_task_def spawned_update)

lemma length_abort [simp]: "length (abort_task tasks h) = length tasks"
  by (simp add: abort_task_def)

text \<open>The generation of a task is the number of starts of its timer so far, modulo the width.\<close>

definition numbered :: "(timer_id \<times> timer_kind \<times> bool \<times> u64) list \<Rightarrow> bool" where
  "numbered ks = (\<forall>h < length ks. snd (snd (snd (ks ! h))) = of_nat (starts (fst (ks ! h)) (take (Suc h) ks)))"

lemma numbered_snoc:
  "numbered (ks @ [(tid, kind, periodic, g)]) \<longleftrightarrow> numbered ks \<and> g = of_nat (Suc (starts tid ks))"
proof -
  let ?ks = "ks @ [(tid, kind, periodic, g)]"
  let ?Q = "\<lambda>ks h. snd (snd (snd (ks ! h))) = of_nat (starts (fst (ks ! h)) (take (Suc h) ks))"
  have "?Q ?ks h = ?Q ks h" if "h < length ks" for h
    using that by (simp only: nth_append take_append) simp
  moreover have "?Q ?ks (length ks) \<longleftrightarrow> g = of_nat (Suc (starts tid ks))"
    by (simp del: of_nat_Suc)
  ultimately show ?thesis
    unfolding numbered_def by (simp only: length_append_singleton less_Suc_eq) blast
qed

lemma starts_take_mono:
  assumes "h < h'" "h' < length ks" "fst (ks ! h') = tid"
  shows "starts tid (take (Suc h) ks) < starts tid (take (Suc h') ks)"
proof -
  have "take (Suc h') ks = take (Suc h) ks @ drop (Suc h) (take h' ks) @ [ks ! h']"
    using assms append_take_drop_id [of "Suc h" "take h' ks"]
    by (simp add: take_Suc_conv_app_nth min.absorb1)
  then show ?thesis using assms(3) by simp
qed

text \<open>Below \<open>2 ^ 64\<close> starts, a timer and a generation determine the task.\<close>

lemma numbered_unique:
  assumes "numbered ks" "length ks < 2 ^ 64" "h < length ks" "h' < length ks"
    and "fst (ks ! h) = fst (ks ! h')" "snd (snd (snd (ks ! h))) = snd (snd (snd (ks ! h')))"
  shows "h = h'"
proof (rule ccontr)
  define n where "n = (\<lambda>h. starts (fst (ks ! h)) (take (Suc h) ks))"
  have bound: "n h < 2 ^ 64" for h
    using starts_le [of "fst (ks ! h)" "take (Suc h) ks"] assms(2) by (simp add: n_def)
  have "(of_nat (n h) :: u64) = of_nat (n h')"
    using assms by (simp add: numbered_def n_def)
  then have "unat (of_nat (n h) :: u64) = unat (of_nat (n h') :: u64)" by (rule arg_cong)
  then have "n h = n h'" using bound [of h] bound [of h'] by (simp add: unat_of_nat)
  moreover assume "h \<noteq> h'"
  then have "h < h' \<or> h' < h" by auto
  then have "n h < n h' \<or> n h' < n h"
    unfolding n_def using starts_take_mono [of h h' ks] starts_take_mono [of h' h ks] assms(3-5) by auto
  ultimately show False by simp
qed

section \<open>The invariant of the timer service\<close>

text \<open>
  The generations drawn so far are numbered by start; every entry of the set refers to the task it was
  armed with; a task without an entry is aborted or done; and a queued expiry stems from a task, which
  is done if it is one-shot.
\<close>

definition drawn_ok :: "timer_set \<Rightarrow> sleeper list \<Rightarrow> bool" where
  "drawn_ok ts tasks =
     (numbered (spawned tasks) \<and>
      (\<forall>i. (case map_of (ts_last_generations ts) i of None \<Rightarrow> 0 | Some g \<Rightarrow> g) =
         of_nat (starts i (spawned tasks))) \<and>
      (\<forall>t \<in> set tasks. timer_kind_of (sl_timer t) = Some (sl_kind t) \<and>
         sl_periodic t = (sl_kind t = TkHeartbeat)))"

definition entries_ok :: "timer_set \<Rightarrow> sleeper list \<Rightarrow> bool" where
  "entries_ok ts tasks =
     ((\<forall>i e. map_of (ts_handles ts) i = Some e \<longrightarrow>
         te_handle e < length tasks \<and> sl_timer (tasks ! te_handle e) = i \<and>
         sl_periodic (tasks ! te_handle e) = te_periodic e \<and>
         sl_generation (tasks ! te_handle e) = te_generation e) \<and>
      (\<forall>h < length tasks. sl_aborted (tasks ! h) \<or> sl_done (tasks ! h) \<or>
         (\<exists>i e. map_of (ts_handles ts) i = Some e \<and> te_handle e = h)))"

definition queue_ok :: "sleeper list \<Rightarrow> expiry list \<Rightarrow> bool" where
  "queue_ok tasks queue =
     (\<forall>(i, k, g) \<in> set queue. \<exists>h < length tasks.
        sl_timer (tasks ! h) = i \<and> sl_kind (tasks ! h) = k \<and> sl_generation (tasks ! h) = g \<and>
        (sl_periodic (tasks ! h) \<or> sl_done (tasks ! h)))"

definition timers_ok :: "timer_set \<Rightarrow> sleeper list \<Rightarrow> expiry list \<Rightarrow> bool" where
  "timers_ok ts tasks queue = (drawn_ok ts tasks \<and> entries_ok ts tasks \<and> queue_ok tasks queue)"

abbreviation armed_timers :: "timer_set \<Rightarrow> timer_id set" where
  "armed_timers ts \<equiv> dom (map_of (ts_handles ts))"

lemma timers_ok_initial: "timers_ok default_timer_set [] []"
  by (simp add: timers_ok_def drawn_ok_def entries_ok_def queue_ok_def default_timer_set_def numbered_def)

lemma nth_abort:
  "h < length tasks \<Longrightarrow> abort_task tasks h' ! h =
     (if h = h' then (tasks ! h)\<lparr>sl_aborted := True\<rparr> else tasks ! h)"
  by (simp add: abort_task_def nth_list_update)

lemma queue_ok_abort [simp]: "queue_ok (abort_task tasks h') queue = queue_ok tasks queue"
proof -
  have "(\<exists>h < length tasks. Q (abort_task tasks h' ! h)) \<longleftrightarrow> (\<exists>h < length tasks. Q (tasks ! h))"
    if "\<And>t. Q (t\<lparr>sl_aborted := True\<rparr>) = Q t" for Q
    using that by (metis nth_abort)
  from this [of "\<lambda>t. sl_timer t = i \<and> sl_kind t = k \<and> sl_generation t = g \<and> (sl_periodic t \<or> sl_done t)" for i k g]
  show ?thesis by (simp add: queue_ok_def)
qed

lemma queue_ok_grow: "queue_ok tasks queue \<Longrightarrow> queue_ok (tasks @ [t]) queue"
  by (fastforce simp: queue_ok_def nth_append)

lemma kinds_abort:
  "(\<forall>t \<in> set (abort_task tasks h). timer_kind_of (sl_timer t) = Some (sl_kind t) \<and>
      sl_periodic t = (sl_kind t = TkHeartbeat)) \<longleftrightarrow>
   (\<forall>t \<in> set tasks. timer_kind_of (sl_timer t) = Some (sl_kind t) \<and>
      sl_periodic t = (sl_kind t = TkHeartbeat))"
  by (auto simp: all_set_conv_all_nth nth_abort simp del: timer_kind_of.simps split: if_splits)

lemma drawn_ok_abort [simp]: "drawn_ok ts (abort_task tasks h) = drawn_ok ts tasks"
  by (simp only: drawn_ok_def spawned_abort kinds_abort)

lemma drawn_ok_handles [simp]: "drawn_ok (ts\<lparr>ts_handles := hs\<rparr>) tasks = drawn_ok ts tasks"
  by (simp add: drawn_ok_def del: timer_kind_of.simps)

text \<open>An entry of a timer is replaced or removed, and the task it had is aborted.\<close>

lemma entries_ok_replace:
  assumes ok: "entries_ok ts tasks"
    and new: "map_of (ts_handles ts') = (map_of (ts_handles ts))(i := new)"
    and entry: "\<And>e. new = Some e \<Longrightarrow> te_handle e = length tasks \<and> te_periodic e = sl_periodic t \<and>
      te_generation e = sl_generation t \<and> sl_timer t = i \<and> fresh = [t]"
    and idle: "new = None \<Longrightarrow> fresh = []"
  shows "entries_ok ts' (case map_of (ts_handles ts) i of
      Some old \<Rightarrow> abort_task (tasks @ fresh) (te_handle old) | None \<Rightarrow> tasks @ fresh)"
    (is "entries_ok ts' ?tasks")
proof -
  let ?m = "map_of (ts_handles ts)"
  have old: "?m j = Some e \<Longrightarrow> te_handle e < length tasks \<and> sl_timer (tasks ! te_handle e) = j \<and>
      sl_periodic (tasks ! te_handle e) = te_periodic e \<and> sl_generation (tasks ! te_handle e) = te_generation e" for j e
    using ok by (simp add: entries_ok_def)
  have len: "length ?tasks = length (tasks @ fresh)" by (simp split: option.splits)
  have nth: "?tasks ! h = (if map_option te_handle (?m i) = Some h
      then ((tasks @ fresh) ! h)\<lparr>sl_aborted := True\<rparr> else (tasks @ fresh) ! h)" if "h < length (tasks @ fresh)" for h
    using that by (auto simp: nth_abort simp del: length_append split: option.splits)
  have fresh: "fresh = (if new = None then [] else [t])" using entry idle by (cases new) auto
  show ?thesis
    unfolding entries_ok_def len new
  proof (intro conjI allI impI)
    fix j e assume j: "((?m)(i := new)) j = Some e"
    then have "te_handle e < length (tasks @ fresh)"
      using old [of j e] entry [of e] by (cases "j = i") (auto simp: fresh)
    moreover have "sl_timer ((tasks @ fresh) ! te_handle e) = j \<and>
        sl_periodic ((tasks @ fresh) ! te_handle e) = te_periodic e \<and>
        sl_generation ((tasks @ fresh) ! te_handle e) = te_generation e"
      using j old [of j e] entry [of e] by (cases "j = i") (auto simp: fresh nth_append split: if_splits)
    ultimately show "te_handle e < length (tasks @ fresh)" "sl_timer (?tasks ! te_handle e) = j"
      "sl_periodic (?tasks ! te_handle e) = te_periodic e" "sl_generation (?tasks ! te_handle e) = te_generation e"
      using nth [of "te_handle e"] by (simp_all split: if_splits)
  next
    fix h assume h: "h < length (tasks @ fresh)"
    show "sl_aborted (?tasks ! h) \<or> sl_done (?tasks ! h) \<or>
        (\<exists>j e. ((?m)(i := new)) j = Some e \<and> te_handle e = h)"
    proof (cases "h < length tasks")
      case True
      then consider "sl_aborted (tasks ! h)" | "sl_done (tasks ! h)" | j e where "?m j = Some e" "te_handle e = h"
        using ok by (auto simp: entries_ok_def)
      then show ?thesis
      proof cases
        case 3
        then show ?thesis using nth [OF h] by (cases "j = i") auto
      qed (use nth [OF h] True in \<open>auto simp: nth_append\<close>)
    next
      case False
      then have "h = length tasks" "new \<noteq> None" using h by (auto simp: fresh split: if_splits)
      with entry show ?thesis by (metis fun_upd_same not_None_eq)
    qed
  qed
qed

lemma timers_ok_cancel:
  assumes "timers_ok ts tasks queue" "timer_cancel ts tasks i = (ts', tasks')"
  shows "timers_ok ts' tasks' queue \<and> armed_timers ts' = armed_timers ts - {i} \<and> length tasks' = length tasks"
proof -
  have ts': "ts' = ts\<lparr>ts_handles := AList.delete i (ts_handles ts)\<rparr>"
    and tasks': "tasks' = (case map_of (ts_handles ts) i of
      Some old \<Rightarrow> abort_task (tasks @ []) (te_handle old) | None \<Rightarrow> tasks @ [])"
    using assms(2) by (auto simp: timer_cancel_def split: option.splits)
  have new: "map_of (ts_handles ts') = (map_of (ts_handles ts))(i := None)"
    by (simp add: ts' delete_conv')
  have "entries_ok ts' tasks'"
    unfolding tasks' by (rule entries_ok_replace [OF _ new]) (use assms(1) in \<open>simp_all add: timers_ok_def\<close>)
  moreover have "drawn_ok ts' tasks'" "queue_ok tasks' queue"
    using assms(1) by (auto simp: ts' tasks' timers_ok_def split: option.splits)
  ultimately show ?thesis
    by (simp add: timers_ok_def new) (simp add: tasks' split: option.splits)
qed

lemma timers_ok_start:
  assumes ok: "timers_ok ts tasks queue" and start: "start_timer ts tasks i kind periodic = (ts', tasks')"
    and kind: "timer_kind_of i = Some kind" "periodic = (kind = TkHeartbeat)"
  shows "timers_ok ts' tasks' queue \<and> armed_timers ts' = insert i (armed_timers ts) \<and>
    length tasks' = Suc (length tasks)"
proof -
  define g :: u64 where "g = of_nat (Suc (starts i (spawned tasks)))"
  define t where "t = \<lparr>sl_timer = i, sl_kind = kind, sl_generation = g, sl_periodic = periodic,
    sl_aborted = False, sl_done = False\<rparr>"
  define e where "e = \<lparr>te_handle = length tasks, te_periodic = periodic, te_generation = g\<rparr>"
  define ls where "ls = AList.update i g (ts_last_generations ts)"
  have drawn: "drawn_ok ts tasks" using ok by (simp add: timers_ok_def)
  then have gen: "(case map_of (ts_last_generations ts) i of None \<Rightarrow> 0 | Some g \<Rightarrow> g) + 1 = g"
    by (simp add: drawn_ok_def g_def add.commute)
  from start have ts': "ts' = ts\<lparr>ts_last_generations := ls, ts_handles := AList.update i e (ts_handles ts)\<rparr>"
    and tasks': "tasks' = (case map_of (ts_handles ts) i of
      Some old \<Rightarrow> abort_task (tasks @ [t]) (te_handle old) | None \<Rightarrow> tasks @ [t])"
    unfolding ls_def e_def t_def
    by (simp_all add: start_timer_def next_generation_for_def timer_arm_def gen Let_def split: option.splits)
  have new: "map_of (ts_handles ts') = (map_of (ts_handles ts))(i := Some e)"
    by (simp add: ts' update_conv')
  have "entries_ok ts' tasks'"
    unfolding tasks' by (rule entries_ok_replace [where t = t, OF _ new])
      (use ok in \<open>simp_all add: timers_ok_def e_def t_def\<close>)
  moreover have "queue_ok tasks' queue"
    using ok queue_ok_grow [of tasks queue t] by (simp add: tasks' timers_ok_def split: option.splits)
  moreover have "drawn_ok ts' (tasks @ [t])"
    using drawn kind by (simp add: drawn_ok_def numbered_snoc ts' ls_def update_conv' t_def g_def
        del: timer_kind_of.simps)
  then have "drawn_ok ts' tasks'" by (simp add: tasks' split: option.splits)
  ultimately show ?thesis by (simp add: timers_ok_def new) (simp add: tasks' split: option.splits)
qed

lemma timers_ok_fires:
  assumes ok: "timers_ok ts tasks queue" and fires: "sleeper_fires tasks queue h = (tasks', queue')"
  shows "timers_ok ts tasks' queue' \<and> length tasks' = length tasks"
proof (cases "h < length tasks \<and> \<not> sl_done (tasks ! h)")
  case True
  let ?t = "tasks ! h"
  let ?d = "\<not> sl_periodic ?t \<or> sl_aborted ?t"
  have tasks': "tasks' = tasks[h := ?t\<lparr>sl_done := ?d\<rparr>]"
    and queue': "queue' = queue @ [(sl_timer ?t, sl_kind ?t, sl_generation ?t)]"
    using True fires by (auto simp: sleeper_fires_def Let_def)
  have nth: "tasks' ! j = (if j = h then ?t\<lparr>sl_done := ?d\<rparr> else tasks ! j)" if "j < length tasks" for j
    using that by (simp add: tasks' nth_list_update)
  have len: "length tasks' = length tasks" by (simp add: tasks')
  have "drawn_ok ts tasks'"
    using ok True by (auto simp: timers_ok_def drawn_ok_def tasks' spawned_update all_set_conv_all_nth
        nth_list_update simp del: timer_kind_of.simps)
  moreover have "entries_ok ts tasks'"
    unfolding entries_ok_def len
  proof (intro conjI allI impI)
    fix j e assume "map_of (ts_handles ts) j = Some e"
    then have "te_handle e < length tasks \<and> sl_timer (tasks ! te_handle e) = j \<and>
        sl_periodic (tasks ! te_handle e) = te_periodic e \<and> sl_generation (tasks ! te_handle e) = te_generation e"
      using ok by (simp add: timers_ok_def entries_ok_def)
    then show "te_handle e < length tasks" "sl_timer (tasks' ! te_handle e) = j"
      "sl_periodic (tasks' ! te_handle e) = te_periodic e" "sl_generation (tasks' ! te_handle e) = te_generation e"
      using nth [of "te_handle e"] by (simp_all split: if_splits)
  next
    fix j assume j: "j < length tasks"
    then have "sl_aborted (tasks ! j) \<or> sl_done (tasks ! j) \<or> (\<exists>i e. map_of (ts_handles ts) i = Some e \<and> te_handle e = j)"
      using ok by (simp add: timers_ok_def entries_ok_def)
    then show "sl_aborted (tasks' ! j) \<or> sl_done (tasks' ! j) \<or> (\<exists>i e. map_of (ts_handles ts) i = Some e \<and> te_handle e = j)"
      using True nth [OF j] by (cases "j = h") simp_all
  qed
  moreover have "queue_ok tasks' queue'"
    unfolding queue_ok_def len
  proof (intro ballI, clarify)
    fix i k g assume "(i, k, g) \<in> set queue'"
    then consider "(i, k, g) \<in> set queue" | "(i, k, g) = (sl_timer ?t, sl_kind ?t, sl_generation ?t)"
      by (auto simp: queue')
    then show "\<exists>j < length tasks. sl_timer (tasks' ! j) = i \<and> sl_kind (tasks' ! j) = k \<and>
        sl_generation (tasks' ! j) = g \<and> (sl_periodic (tasks' ! j) \<or> sl_done (tasks' ! j))"
    proof cases
      case 1
      then obtain j where "j < length tasks" "sl_timer (tasks ! j) = i" "sl_kind (tasks ! j) = k"
        "sl_generation (tasks ! j) = g" "sl_periodic (tasks ! j) \<or> sl_done (tasks ! j)"
        using ok by (fastforce simp: timers_ok_def queue_ok_def)
      then show ?thesis using True nth [of j] by (intro exI [of _ j]) (auto split: if_splits)
    next
      case 2
      then show ?thesis using True nth [of h] by (intro exI [of _ h]) auto
    qed
  qed
  ultimately show ?thesis by (simp add: timers_ok_def len)
qed (use ok fires in \<open>auto simp: sleeper_fires_def\<close>)

text \<open>The loop takes an expiry from the queue: one of the current generation is an expiry of an armed
  timer with its kind, and forgetting it leaves exactly the timers that stay armed.\<close>

lemma timers_ok_expiry:
  assumes ok: "timers_ok ts tasks ((i, k, g) # queue)" and bound: "length tasks < 2 ^ 64"
    and current: "is_current_generation ts i g"
  shows "timer_event (armed_timers ts) (TimerExpired i k)"
    and "armed_timers (timer_forget ts i) = expire (armed_timers ts) (TimerExpired i k)"
    and "timers_ok (timer_forget ts i) tasks queue"
proof -
  from current obtain e where e: "map_of (ts_handles ts) i = Some e" "te_generation e = g"
    by (auto simp: is_current_generation_def split: option.splits)
  let ?h = "te_handle e"
  have h: "?h < length tasks" "sl_timer (tasks ! ?h) = i" "sl_periodic (tasks ! ?h) = te_periodic e"
    "sl_generation (tasks ! ?h) = g"
    using ok e by (auto simp: timers_ok_def entries_ok_def)
  obtain h' where h': "h' < length tasks" "sl_timer (tasks ! h') = i" "sl_kind (tasks ! h') = k"
    "sl_generation (tasks ! h') = g" "sl_periodic (tasks ! h') \<or> sl_done (tasks ! h')"
    using ok by (auto simp: timers_ok_def queue_ok_def)
  have drawn: "drawn_ok ts tasks" using ok by (simp add: timers_ok_def)
  then have "?h = h'"
    using numbered_unique [of "spawned tasks" ?h h'] bound h h' by (simp add: drawn_ok_def)
  with h h' have k: "sl_kind (tasks ! ?h) = k" "te_periodic e \<or> sl_done (tasks ! ?h)" by auto
  have kind: "timer_kind_of i = Some k" "te_periodic e = (k = TkHeartbeat)"
    using drawn h k(1) nth_mem [OF h(1)] unfolding drawn_ok_def by metis+
  from kind(1) e(1) show "timer_event (armed_timers ts) (TimerExpired i k)"
    by (auto simp del: timer_kind_of.simps)
  show "armed_timers (timer_forget ts i) = expire (armed_timers ts) (TimerExpired i k)"
    using e kind(2) by (auto simp: timer_forget_def delete_conv' split: if_splits)
  have "entries_ok (timer_forget ts i) tasks"
  proof (cases "te_periodic e")
    case True
    with e ok show ?thesis by (simp add: timer_forget_def timers_ok_def)
  next
    case False
    then have "map_of (ts_handles (timer_forget ts i)) = (map_of (ts_handles ts))(i := None)"
      using e by (simp add: timer_forget_def delete_conv')
    moreover have "sl_done (tasks ! ?h)" using k False by simp
    ultimately show ?thesis
      using ok e unfolding timers_ok_def entries_ok_def by (auto split: if_splits) (metis option.inject)
  qed
  moreover have "drawn_ok (timer_forget ts i) tasks" using drawn e by (simp add: timer_forget_def)
  moreover have "queue_ok tasks queue" using ok by (simp add: timers_ok_def queue_ok_def)
  ultimately show "timers_ok (timer_forget ts i) tasks queue" by (simp add: timers_ok_def)
qed

lemma timers_ok_stale: "timers_ok ts tasks (x # queue) \<Longrightarrow> timers_ok ts tasks queue"
  by (simp add: timers_ok_def queue_ok_def)

text \<open>Dropping the set aborts what is still running.\<close>

definition abort_entries :: "sleeper list \<Rightarrow> (timer_id \<times> timer_entry) list \<Rightarrow> sleeper list" where
  "abort_entries tasks es = foldl (\<lambda>tasks (_, entry). abort_task tasks (te_handle entry)) tasks es"

lemma length_abort_entries [simp]: "length (abort_entries tasks es) = length tasks"
  unfolding abort_entries_def by (induction es arbitrary: tasks) auto

lemma abort_entries_flags:
  "h < length tasks \<Longrightarrow>
     (sl_done (abort_entries tasks es ! h) = sl_done (tasks ! h)) \<and>
     (sl_aborted (abort_entries tasks es ! h) \<longleftrightarrow> sl_aborted (tasks ! h) \<or> h \<in> te_handle ` snd ` set es)"
proof (induction es arbitrary: tasks)
  case Nil
  show ?case by (simp add: abort_entries_def)
next
  case (Cons x es)
  have "abort_entries tasks (x # es) = abort_entries (abort_task tasks (te_handle (snd x))) es"
    by (simp add: abort_entries_def case_prod_beta)
  with Cons.IH [of "abort_task tasks (te_handle (snd x))"] Cons.prems show ?case
    by (simp add: nth_abort)
qed

lemma timer_set_drop_aborts:
  assumes "timers_ok ts tasks queue" "timer_set_drop ts tasks = (ts', tasks')"
  shows "list_all (\<lambda>t. sl_aborted t \<or> sl_done t) tasks' \<and> armed_timers ts' = {}"
proof -
  have "sl_aborted (abort_entries tasks (ts_handles ts) ! h) \<or> sl_done (abort_entries tasks (ts_handles ts) ! h)"
    if h: "h < length tasks" for h
  proof -
    consider "sl_aborted (tasks ! h) \<or> sl_done (tasks ! h)" | i e where "map_of (ts_handles ts) i = Some e" "te_handle e = h"
      using assms(1) h by (auto simp: timers_ok_def entries_ok_def)
    then show ?thesis
    proof cases
      case 2
      then have "h \<in> te_handle ` snd ` set (ts_handles ts)" by (force dest: map_of_SomeD)
      then show ?thesis using abort_entries_flags [OF h, of "ts_handles ts"] by simp
    qed (use abort_entries_flags [OF h, of "ts_handles ts"] in auto)
  qed
  with assms(2) show ?thesis
    by (fastforce simp: timer_set_drop_def abort_entries_def [symmetric] list_all_iff in_set_conv_nth)
qed

end
