(* ===== verification/Framing.thy ===== *)
theory Framing
  imports Codec_Correct "HOL-Library.Sublist"
begin

text \<open>
  Framing of messages on the TCP stream (\<open>dlep-net/framed.rs\<close>): the decoder looks at the declared
  length, waits until the frame is complete, takes it from the buffer and decodes it. TCP keeps no
  boundaries, so the bytes of a stream arrive in any pieces and the decoder may be polled at any time;
  \<open>polled\<close> is the set of states this can lead to, and the theorem shows that none of it is visible.
  \<open>None\<close> of the outer option stands for a decoder that does not return, as in \<open>Codec\<close>.
\<close>

section \<open>The codecs\<close>

definition codec_decode ::
  "('n, 'm) packages \<Rightarrow> bytes \<Rightarrow> ((codec_error + ('n, 'm) message option) \<times> bytes) option" where
  "codec_decode P src =
     (if length src < MESSAGE_HEADER_LEN then Some (Inr None, src)
      else
        (let declared = unat (from_be16 [src ! 2, src ! 3]);
             total = MESSAGE_HEADER_LEN + declared in
         if length src < total then Some (Inr None, src)
         else
           (let (frame, src) = split_to P src total in
            map_option (\<lambda>r. (try_then r (\<lambda>msg. Inr (Some msg)), src)) (message_decode P frame))))"

definition codec_encode ::
  "('n, 'm) packages \<Rightarrow> ('n, 'm) message \<Rightarrow> bytes \<Rightarrow> (codec_error + unit) \<times> bytes" where
  "codec_encode P item dst =
     (case message_encode P item of Inl e \<Rightarrow> (Inl e, dst) | Inr bytes \<Rightarrow> (Inr (), dst @ bytes))"

definition decode_datagram ::
  "('n, 'm) packages \<Rightarrow> bytes \<Rightarrow> (codec_error + ('n, 'm) signal) option" where
  "decode_datagram P buf = signal_decode P buf"

definition encode_datagram ::
  "('n, 'm) packages \<Rightarrow> ('n, 'm) signal \<Rightarrow> codec_error + bytes" where
  "encode_datagram P signal = signal_encode P signal"

fun codec_encode_all ::
  "('n, 'm) packages \<Rightarrow> ('n, 'm) message list \<Rightarrow> bytes \<Rightarrow> (codec_error + unit) \<times> bytes" where
  "codec_encode_all P [] dst = (Inr (), dst)"
| "codec_encode_all P (msg # msgs) dst =
     (case codec_encode P msg dst of
        (Inl e, dst) \<Rightarrow> (Inl e, dst)
      | (Inr _, dst) \<Rightarrow> codec_encode_all P msgs dst)"

section \<open>A stream in pieces\<close>

text \<open>
  The buffer, the bytes still under way, and the messages handed over so far: a piece of any
  length may arrive, and the decoder may be polled, in any order.
\<close>

inductive polled ::
  "('n, 'm) packages \<Rightarrow> bytes \<Rightarrow> bytes \<Rightarrow> bytes \<Rightarrow> ('n, 'm) message list \<Rightarrow> bool"
  for P stream where
  start: "polled P stream [] stream []"
| arrive: "polled P stream buf (piece @ net) out \<Longrightarrow> polled P stream (buf @ piece) net out"
| poll: "polled P stream buf net out \<Longrightarrow> codec_decode P buf = Some (Inr (Some msg), buf') \<Longrightarrow>
    polled P stream buf' net (out @ [msg])"

definition on_wire :: "('n, 'm) packages \<Rightarrow> ('n, 'm) message \<Rightarrow> ('n, 'm) message" where
  "on_wire P msg = msg\<lparr>data_items := map (canon P) (data_items msg)\<rparr>"

definition sendable :: "('n, 'm) packages \<Rightarrow> ('n, 'm) message \<Rightarrow> bytes \<Rightarrow> bool" where
  "sendable P msg frame = (message_encode P msg = Inr frame \<and> list_all wf_item (data_items msg))"

context dlep_packages
begin

lemma frame_header:
  assumes "message_encode P msg = Inr frame"
  shows "4 \<le> length frame" "unat (from_be16 [frame ! 2, frame ! 3]) = length frame - 4"
proof -
  obtain w where w: "length w \<le> 65535" "frame = tlv (message_type msg) w"
    using assms by (auto simp: message_encode_eq_Inr)
  have "[frame ! 2, frame ! 3] = to_be16 (of_nat (length w))"
    using nths_id(1) [of "to_be16 (of_nat (length w))"] by (simp add: w(2) tlv_def nth_append)
  then have "from_be16 [frame ! 2, frame ! 3] = of_nat (length w)" by simp
  then show "4 \<le> length frame" "unat (from_be16 [frame ! 2, frame ! 3]) = length frame - 4"
    using w(1) by (simp_all add: w(2) unat_of_nat)
qed

lemma codec_decode_frame:
  assumes "sendable P msg frame"
  shows "codec_decode P (frame @ rest) = Some (Inr (Some (on_wire P msg)), rest)"
proof -
  have enc: "message_encode P msg = Inr frame" "list_all wf_item (data_items msg)"
    using assms by (simp_all add: sendable_def)
  have "message_decode P frame = Some (Inr (on_wire P msg))"
    using message_roundtrip [OF enc, of "[]"] by (simp add: on_wire_def)
  with frame_header [OF enc(1)] show ?thesis
    by (simp add: codec_decode_def nth_append split_to)
qed

lemma codec_decode_partial:
  assumes "sendable P msg frame" "buf @ ahead = frame" "ahead \<noteq> []"
  shows "codec_decode P buf = Some (Inr None, buf)"
proof (cases "length buf < 4")
  case False
  have enc: "message_encode P msg = Inr frame" using assms(1) by (simp add: sendable_def)
  have "buf ! 2 = frame ! 2" "buf ! 3 = frame ! 3" using False by (auto simp: nth_append simp flip: assms(2))
  with frame_header [OF enc] False assms(3) show ?thesis
    by (auto simp: codec_decode_def simp flip: assms(2))
qed (simp add: codec_decode_def)

text \<open>What a buffer that starts the rest of a stream holds: a whole frame, or part of one.\<close>

lemma next_frame:
  assumes "list_all2 (sendable P) msgs frames" "buf @ net = concat frames"
  obtains (ended) "msgs = []" "buf = []" "net = []"
  | (part) ahead msg msgs' where "msgs = msg # msgs'" "ahead \<noteq> []" "\<exists>rest. net = ahead @ rest"
      "codec_decode P buf = Some (Inr None, buf)"
  | (whole) msg msgs' frames' buf' where "msgs = msg # msgs'" "list_all2 (sendable P) msgs' frames'"
      "buf' @ net = concat frames'" "length buf' < length buf" "frames = take 1 frames @ frames'"
      "codec_decode P buf = Some (Inr (Some (on_wire P msg)), buf')"
proof (cases msgs)
  case Nil
  with assms ended show ?thesis by simp
next
  case (Cons msg msgs')
  then obtain frame frames' where fr: "frames = frame # frames'" "sendable P msg frame"
    "list_all2 (sendable P) msgs' frames'" using assms(1) by (auto simp: list_all2_Cons1)
  have "frame \<noteq> []" using frame_header(1) [of msg frame] fr(2) by (auto simp: sendable_def)
  have "buf @ net = frame @ concat frames'" using assms(2) fr(1) by simp
  then consider ahead where "buf @ ahead = frame" "ahead \<noteq> []" "net = ahead @ concat frames'"
    | rest where "buf = frame @ rest" "rest @ net = concat frames'"
    by (auto simp: append_eq_append_conv2) (metis append_Nil2 append_self_conv)
  then show ?thesis
  proof cases
    case (1 ahead)
    with part [OF Cons 1(2)] codec_decode_partial [OF fr(2) 1(1,2)] show ?thesis by blast
  next
    case (2 rest)
    with whole [OF Cons fr(3) 2(2)] codec_decode_frame [OF fr(2), of rest] \<open>frame \<noteq> []\<close> fr(1) show ?thesis
      by simp
  qed
qed

lemma polled_prefix:
  assumes "polled P stream buf net out" "list_all2 (sendable P) msgs frames" "stream = concat frames"
  obtains msgs1 msgs2 frames2 where "msgs = msgs1 @ msgs2" "out = map (on_wire P) msgs1"
    "list_all2 (sendable P) msgs2 frames2" "buf @ net = concat frames2"
proof -
  have "\<exists>msgs1 msgs2 frames2. msgs = msgs1 @ msgs2 \<and> out = map (on_wire P) msgs1 \<and>
      list_all2 (sendable P) msgs2 frames2 \<and> buf @ net = concat frames2"
    using assms(1,3)
  proof (induction rule: polled.induct)
    case start
    with assms(2) show ?case by auto
  next
    case (poll buf net out msg buf')
    then obtain msgs1 msgs2 frames2 where ih: "msgs = msgs1 @ msgs2" "out = map (on_wire P) msgs1"
      "list_all2 (sendable P) msgs2 frames2" "buf @ net = concat frames2" by blast
    from ih(3,4) show ?case
    proof (cases rule: next_frame)
      case (whole m msgs' frames' b')
      with poll.hyps(2) ih(1,2) show ?thesis
        by (intro exI [of _ "msgs1 @ [m]"] exI [of _ msgs'] exI [of _ frames']) simp
    qed (use poll.hyps(2) in \<open>simp_all add: codec_decode_def\<close>)
  qed auto
  with that show thesis by blast
qed

lemma polled_next:
  assumes "polled P stream buf net out" "list_all2 (sendable P) msgs frames" "stream = concat frames"
  shows "codec_decode P buf = Some (Inr None, buf) \<or>
      (\<exists>msg buf'. codec_decode P buf = Some (Inr (Some msg), buf') \<and> length buf' < length buf)"
    and "net = [] \<Longrightarrow> codec_decode P buf = Some (Inr None, buf) \<Longrightarrow> out = map (on_wire P) msgs \<and> buf = []"
    and "prefix out (map (on_wire P) msgs)"
proof -
  obtain msgs1 msgs2 frames2 where p: "msgs = msgs1 @ msgs2" "out = map (on_wire P) msgs1"
    "list_all2 (sendable P) msgs2 frames2" "buf @ net = concat frames2"
    by (rule polled_prefix [OF assms])
  from p(3,4) show "codec_decode P buf = Some (Inr None, buf) \<or>
      (\<exists>msg buf'. codec_decode P buf = Some (Inr (Some msg), buf') \<and> length buf' < length buf)"
    by (cases rule: next_frame) (auto simp: codec_decode_def)
  show "out = map (on_wire P) msgs \<and> buf = []" if "net = []" "codec_decode P buf = Some (Inr None, buf)"
    using p(3,4) by (cases rule: next_frame) (use that p(1,2) in auto)
  show "prefix out (map (on_wire P) msgs)" using p(1,2) by simp
qed

end

lemma codec_encode_all_frames:
  assumes "codec_encode_all P msgs dst = (Inr (), out)" "list_all (\<lambda>m. list_all wf_item (data_items m)) msgs"
  obtains frames where "list_all2 (sendable P) msgs frames" "out = dst @ concat frames"
proof -
  have "\<exists>frames. list_all2 (sendable P) msgs frames \<and> out = dst @ concat frames"
    using assms
  proof (induction msgs arbitrary: dst)
    case (Cons msg msgs)
    then obtain frame where f: "message_encode P msg = Inr frame" "codec_encode_all P msgs (dst @ frame) = (Inr (), out)"
      by (auto simp: codec_encode_def split: sum.splits)
    with Cons.IH [OF f(2)] Cons.prems(2) obtain frames where "list_all2 (sendable P) msgs frames"
      "out = (dst @ frame) @ concat frames" by auto
    moreover have "sendable P msg frame" using f(1) Cons.prems(2) by (simp add: sendable_def)
    ultimately show ?case by (intro exI [of _ "frame # frames"]) simp
  qed simp
  with that show thesis by blast
qed

section \<open>Properties\<close>

text \<open>
  C36: framing is transparent. Let messages be encoded one after another into a stream, and let the stream
  arrive in pieces of any length, with the decoder polled at any time. The decoder never fails and
  never blocks; what it has handed over is always a prefix of the messages sent, in order and up to
  the resolution of the wire; every message it hands over shortens the buffer; and once all
  bytes have arrived and it asks for more, it has handed over exactly all of them.
\<close>

theorem framing_transparent:
  assumes "dlep_packages P"
    and "codec_encode_all P msgs [] = (Inr (), stream)" "list_all (\<lambda>m. list_all wf_item (data_items m)) msgs"
    and "polled P stream buf net out"
  shows "prefix out (map (on_wire P) msgs) \<and>
    (codec_decode P buf = Some (Inr None, buf) \<or>
      (\<exists>msg buf'. codec_decode P buf = Some (Inr (Some msg), buf') \<and> length buf' < length buf)) \<and>
    (net = [] \<and> codec_decode P buf = Some (Inr None, buf) \<longrightarrow> out = map (on_wire P) msgs \<and> buf = [])"
proof -
  obtain frames where f: "list_all2 (sendable P) msgs frames" "stream = concat frames"
    using codec_encode_all_frames [OF assms(2,3)] by auto
  note dlep_packages.polled_next [OF assms(1,4) f]
  then show ?thesis by blast
qed

theorem framing_transparent_witness:
  "\<exists>buf. polled std_packages (sample_bytes @ sample_bytes) buf (drop 10 sample_bytes) [on_wire std_packages sample_message] \<and>
     codec_decode std_packages buf = Some (Inr None, buf) \<and>
     prefix [on_wire std_packages sample_message] [on_wire std_packages sample_message, on_wire std_packages sample_message]"
proof -
  let ?s = "sample_bytes @ sample_bytes" and ?m = "on_wire std_packages sample_message"
  have enc: "codec_encode_all std_packages [sample_message, sample_message] [] = (Inr (), ?s)"
    by (simp add: codec_encode_def sample_encodes)
  have wf: "list_all (\<lambda>m. list_all wf_item (data_items m)) [sample_message, sample_message]"
    by (simp add: sample_message_def)
  have ok: "sendable std_packages sample_message sample_bytes"
    using wf by (simp add: sendable_def sample_encodes)
  have cut: "sample_bytes = take 10 sample_bytes @ drop 10 sample_bytes" by simp
  have "polled std_packages ?s [] ((sample_bytes @ take 10 sample_bytes) @ drop 10 sample_bytes) []"
    using polled.start [of std_packages ?s] cut by (metis append.assoc)
  from polled.arrive [OF this] have "polled std_packages ?s (sample_bytes @ take 10 sample_bytes) (drop 10 sample_bytes) []"
    by simp
  from polled.poll [OF this std.codec_decode_frame [OF ok]]
  have p: "polled std_packages ?s (take 10 sample_bytes) (drop 10 sample_bytes) [?m]" by simp
  have "codec_decode std_packages (take 10 sample_bytes) = Some (Inr None, take 10 sample_bytes)"
    by (rule std.codec_decode_partial [OF ok cut [symmetric]]) (simp add: sample_bytes_def)
  with p framing_transparent [OF std.dlep_packages_axioms enc wf p] show ?thesis by auto
qed

end
