(* ===== verification/Session_Task.thy ===== *)
theory Session_Task
  imports Link_Control Timer_Set Framing
begin

text \<open>
  The task that drives one session (\<open>dlep-daemon/session.rs\<close>): it owns the state machine, the read
  buffer, the timers, the extensions taking part and the calls of the link-control backend, turns
  what happens into events of the machine, and executes the actions. Everything the task cannot
  determine is an input: what the transport delivers, commands, completed backend calls, and the
  wake-ups of the timer tasks, in any order. The transport's writes and the hooks of extensions are
  parameters that act on a state \<open>'w\<close> of their own. Everything others can observe is appended to one
  list in the order it happens.
\<close>

section \<open>The driven machine\<close>

record ('s, 'n, 'm) session_fsm =
  sf_mac_address_format :: "'s \<Rightarrow> mac_address_format"
  sf_step :: "'s \<Rightarrow> ('n, 'm) fsm_event \<Rightarrow> panic + ('s \<times> ('n, 'm) fsm_action list)"
  sf_in_session :: "'s \<Rightarrow> bool"

section \<open>Environment and state of the task\<close>

text \<open>A write either succeeds or fails, by a timeout too; that the task is cancelled while it waits is
  a failure like any other.\<close>

record ('s, 'n, 'm, 'w, 'x) session_env =
  en_packages :: "('n, 'm) packages"
  en_fsm :: "('s, 'n, 'm) session_fsm"
  en_write :: "bytes \<Rightarrow> 'w \<Rightarrow> io_error option \<times> 'w"
  en_shutdown :: "'w \<Rightarrow> 'w"
  en_extensions :: "('n, 'm, 'w, 'x) extension_registry"
  en_session_id :: session_id
  en_role :: role

definition session_ctx :: "('s, 'n, 'm, 'w, 'x) session_env \<Rightarrow> extension_ctx" where
  "session_ctx env = \<lparr>ctx_session_id = en_session_id env, ctx_is_router_side = is_router (en_role env)\<rparr>"

datatype ('n, 'm, 'x) session_output =
    OutWire bytes
  | OutBroadcast "('n, 'm, 'x) daemon_event"
  | OutReceipt nat command_receipt
  | OutEstablished
  | OutReleased

record ('n, 'm, 'w, 'x) session_lifecycle =
  lf_connection :: bool
  lf_peer :: peer_info
  lf_active_exts :: "('n, 'm, 'w, 'x) dlep_extension list"
  lf_down_emitted :: bool
  lf_mac_address_format :: mac_address_format
  lf_link_jobs :: link_jobs

record ('s, 'n, 'm, 'w, 'x) session_task =
  rt_fsm :: 's
  rt_timers :: timer_set
  rt_tasks :: "sleeper list"
  rt_queue :: "expiry list"
  rt_read_buf :: bytes
  rt_peer :: peer_info
  rt_lifecycle :: "('n, 'm, 'w, 'x) session_lifecycle"
  rt_pending_sends :: "('n, 'm) message list"
  rt_commands_open :: bool
  rt_world :: 'w
  rt_out :: "('n, 'm, 'x) session_output list"

text \<open>The task ends early with an error of the daemon, by a panic, or not at all if a decoder does not
  return.\<close>

datatype session_failure = Failed daemon_error | Panicked panic | Diverged

definition and_then :: "'t \<times> ('e + 'a) \<Rightarrow> ('t \<Rightarrow> 'a \<Rightarrow> 't \<times> ('e + 'b)) \<Rightarrow> 't \<times> ('e + 'b)" where
  "and_then r f = (case r of (t, Inl e) \<Rightarrow> (t, Inl e) | (t, Inr x) \<Rightarrow> f t x)"

lemma and_then_simps [simp]:
  "and_then (t, Inl e) f = (t, Inl e)" "and_then (t, Inr x) f = f t x"
  by (simp_all add: and_then_def)

definition emit_out ::
  "('n, 'm, 'x) session_output \<Rightarrow> ('s, 'n, 'm, 'w, 'x) session_task \<Rightarrow> ('s, 'n, 'm, 'w, 'x) session_task" where
  "emit_out x t = t\<lparr>rt_out := rt_out t @ [x]\<rparr>"

definition update_lifecycle ::
  "(('n, 'm, 'w, 'x) session_lifecycle \<Rightarrow> ('n, 'm, 'w, 'x) session_lifecycle) \<Rightarrow>
     ('s, 'n, 'm, 'w, 'x) session_task \<Rightarrow> ('s, 'n, 'm, 'w, 'x) session_task" where
  "update_lifecycle f t = t\<lparr>rt_lifecycle := f (rt_lifecycle t)\<rparr>"

section \<open>Writing\<close>

definition write_message ::
  "('s, 'n, 'm, 'w, 'x) session_env \<Rightarrow> ('s, 'n, 'm, 'w, 'x) session_task \<Rightarrow> ('n, 'm) message \<Rightarrow>
     ('s, 'n, 'm, 'w, 'x) session_task \<times> (session_failure + unit)" where
  "write_message env t msg =
     (case message_encode (en_packages env) msg of
        Inl e \<Rightarrow> (t, Inl (Failed (ErrCodec e)))
      | Inr bytes \<Rightarrow>
          (case en_write env bytes (rt_world t) of
             (Some e, w) \<Rightarrow> (t\<lparr>rt_world := w\<rparr>, Inl (Failed (ErrIo e)))
           | (None, w) \<Rightarrow> (emit_out (OutWire bytes) (t\<lparr>rt_world := w\<rparr>), Inr ())))"

fun write_pending ::
  "('s, 'n, 'm, 'w, 'x) session_env \<Rightarrow> mac_address_format \<Rightarrow> ('s, 'n, 'm, 'w, 'x) session_task \<Rightarrow>
     ('n, 'm) message list \<Rightarrow> ('s, 'n, 'm, 'w, 'x) session_task \<times> (session_failure + unit)" where
  "write_pending env format t [] = (t, Inr ())"
| "write_pending env format t (msg # msgs) =
     (case validate_mac_format msg format of
        Inl _ \<Rightarrow> (t, Inl (Failed (ErrConfig ''extension message MAC does not match session address format'')))
      | Inr _ \<Rightarrow> and_then (write_message env t msg) (\<lambda>t _. write_pending env format t msgs))"

definition flush_pending_sends ::
  "('s, 'n, 'm, 'w, 'x) session_env \<Rightarrow> ('s, 'n, 'm, 'w, 'x) session_task \<Rightarrow>
     ('s, 'n, 'm, 'w, 'x) session_task \<times> (session_failure + unit)" where
  "flush_pending_sends env t =
     write_pending env (lf_mac_address_format (rt_lifecycle t)) (t\<lparr>rt_pending_sends := []\<rparr>) (rt_pending_sends t)"

section \<open>Hooks of extensions\<close>

fun apply_effect ::
  "('s, 'n, 'm, 'w, 'x) session_task \<Rightarrow> ('n, 'm, 'x) ext_effect \<Rightarrow> ('s, 'n, 'm, 'w, 'x) session_task" where
  "apply_effect t (CtxSendMessage msg) = t\<lparr>rt_pending_sends := rt_pending_sends t @ [msg]\<rparr>"
| "apply_effect t (CtxEmitEvent ev) = emit_out (OutBroadcast (DmExtension ev)) t"

definition apply_effects ::
  "('s, 'n, 'm, 'w, 'x) session_task \<Rightarrow> ('n, 'm, 'x) ext_effect list \<Rightarrow> 'w \<Rightarrow> ('s, 'n, 'm, 'w, 'x) session_task" where
  "apply_effects t effs w = foldl apply_effect (t\<lparr>rt_world := w\<rparr>) effs"

fun dispatch_unknown_message ::
  "extension_ctx \<Rightarrow> message_type \<Rightarrow> ('n, 'm) data_item list \<Rightarrow> ('n, 'm, 'w, 'x) dlep_extension list \<Rightarrow>
     ('s, 'n, 'm, 'w, 'x) session_task \<Rightarrow> ('s, 'n, 'm, 'w, 'x) session_task \<times> bool" where
  "dispatch_unknown_message ctx mt items [] t = (t, False)"
| "dispatch_unknown_message ctx mt items (ext # exts) t =
     (let (handled, effs, w) = on_unknown_message ext mt items ctx (rt_world t);
          t = apply_effects t effs w in
      case handled of Handled \<Rightarrow> (t, True) | Passthrough \<Rightarrow> dispatch_unknown_message ctx mt items exts t)"

fun any_handles ::
  "extension_ctx \<Rightarrow> message_type \<Rightarrow> raw_data_item \<Rightarrow> ('n, 'm, 'w, 'x) dlep_extension list \<Rightarrow>
     ('s, 'n, 'm, 'w, 'x) session_task \<Rightarrow> ('s, 'n, 'm, 'w, 'x) session_task \<times> bool" where
  "any_handles ctx mt raw [] t = (t, False)"
| "any_handles ctx mt raw (ext # exts) t =
     (let (handled, effs, w) = on_unknown_data_item ext mt raw ctx (rt_world t);
          t = apply_effects t effs w in
      case handled of Handled \<Rightarrow> (t, True) | Passthrough \<Rightarrow> any_handles ctx mt raw exts t)"

fun filter_unknown_items ::
  "extension_ctx \<Rightarrow> message_type \<Rightarrow> ('n, 'm, 'w, 'x) dlep_extension list \<Rightarrow> ('n, 'm) data_item list \<Rightarrow>
     ('s, 'n, 'm, 'w, 'x) session_task \<Rightarrow> ('s, 'n, 'm, 'w, 'x) session_task \<times> ('n, 'm) data_item list" where
  "filter_unknown_items ctx mt exts [] t = (t, [])"
| "filter_unknown_items ctx mt exts (item # items) t =
     (let (t, claimed) = (case item of Unknown raw \<Rightarrow> any_handles ctx mt raw exts t | _ \<Rightarrow> (t, False));
          (t, rest) = filter_unknown_items ctx mt exts items t in
      (t, if claimed then rest else item # rest))"

fun dispatch_session_state ::
  "extension_ctx \<Rightarrow> bool \<Rightarrow> ('n, 'm, 'w, 'x) dlep_extension list \<Rightarrow> ('s, 'n, 'm, 'w, 'x) session_task \<Rightarrow>
     ('s, 'n, 'm, 'w, 'x) session_task" where
  "dispatch_session_state ctx up [] t = t"
| "dispatch_session_state ctx up (ext # exts) t =
     (let (effs, w) = on_session_state ext \<lparr>ss_up = up\<rparr> ctx (rt_world t) in
      dispatch_session_state ctx up exts (apply_effects t effs w))"

fun dispatch_destination_state ::
  "extension_ctx \<Rightarrow> mac_address \<Rightarrow> destination_state_snapshot \<Rightarrow> ('n, 'm, 'w, 'x) dlep_extension list \<Rightarrow>
     ('s, 'n, 'm, 'w, 'x) session_task \<Rightarrow> ('s, 'n, 'm, 'w, 'x) session_task" where
  "dispatch_destination_state ctx mac snap [] t = t"
| "dispatch_destination_state ctx mac snap (ext # exts) t =
     (let (effs, w) = on_destination_state ext mac snap ctx (rt_world t) in
      dispatch_destination_state ctx mac snap exts (apply_effects t effs w))"

section \<open>Executing actions\<close>

fun translate_emitted ::
  "session_id \<Rightarrow> peer_info \<Rightarrow> ('n, 'm, 'w, 'x) dlep_extension list \<Rightarrow> ('n, 'm) emitted_event \<Rightarrow>
     ('n, 'm, 'x) daemon_event option" where
  "translate_emitted sid peer exts (EvSessionUp peer_extensions) =
     Some (DmSessionUp sid peer (negotiated_from_active exts peer_extensions))"
| "translate_emitted sid peer exts (EvSessionDown reason) = Some (DmSessionDown sid peer reason)"
| "translate_emitted sid peer exts (EvPeerDiscovered _ _) = None"
| "translate_emitted sid peer exts (EvDestinationUp mac metrics addrs) =
     Some (DmDestination sid peer (DeUp mac metrics (v4 addrs) (v6 addrs) (v4_subnets addrs) (v6_subnets addrs)))"
| "translate_emitted sid peer exts (EvCommandRejected rejection) = Some (DmCommandRejected sid peer rejection)"
| "translate_emitted sid peer exts (EvDestinationUpdate mac metrics) =
     Some (DmDestination sid peer (DeUpdate mac metrics))"
| "translate_emitted sid peer exts (EvDestinationDown mac reason) =
     Some (DmDestination sid peer (DeDown mac reason))"
| "translate_emitted sid peer exts (EvLinkCharacteristicsResponse mac status reason metrics) =
     Some (DmDestination sid peer (DeLinkCharacteristicsResponse mac status reason metrics))"
| "translate_emitted sid peer exts (EvSessionAddressesUpdate changes addresses) =
     Some (DmSessionAddresses sid peer changes addresses)"
| "translate_emitted sid peer exts (EvDestinationAddressesUpdate mac changes addresses) =
     Some (DmDestination sid peer (DeAddressesChanged mac changes addresses))"
| "translate_emitted sid peer exts (EvDestinationAnnounced mac requested) =
     Some (DmDestination sid peer (DeAnnounced mac requested))"
| "translate_emitted sid peer exts (EvLinkCharacteristicsRequested mac requested _ _) =
     Some (DmDestination sid peer (DeLinkCharacteristicsRequested mac requested))"
| "translate_emitted sid peer exts (EvSessionMetricsUpdate metrics) =
     Some (DmMetrics sid peer \<lparr>me_session_wide = metrics\<rparr>)"

text \<open>The bookkeeping before an event is broadcast, and the hooks that run after it.\<close>

fun note_emitted ::
  "('s, 'n, 'm, 'w, 'x) session_env \<Rightarrow> ('n, 'm) emitted_event \<Rightarrow> ('s, 'n, 'm, 'w, 'x) session_task \<Rightarrow>
     ('s, 'n, 'm, 'w, 'x) session_task" where
  "note_emitted env (EvSessionDown _) t = update_lifecycle (\<lambda>l. l\<lparr>lf_down_emitted := True\<rparr>) t"
| "note_emitted env (EvSessionUp peer_extensions) t =
     (let t = update_lifecycle (\<lambda>l. l\<lparr>lf_active_exts := ext_negotiate (en_extensions env) peer_extensions\<rparr>) t in
      if lf_connection (rt_lifecycle t) then emit_out OutEstablished t else t)"
| "note_emitted env _ t = t"

fun hook_emitted ::
  "('s, 'n, 'm, 'w, 'x) session_env \<Rightarrow> ('n, 'm) emitted_event \<Rightarrow> ('s, 'n, 'm, 'w, 'x) session_task \<Rightarrow>
     ('s, 'n, 'm, 'w, 'x) session_task" where
  "hook_emitted env (EvSessionUp _) t =
     dispatch_session_state (session_ctx env) True (lf_active_exts (rt_lifecycle t)) t"
| "hook_emitted env (EvSessionDown _) t =
     update_lifecycle (\<lambda>l. l\<lparr>lf_active_exts := []\<rparr>)
       (dispatch_session_state (session_ctx env) False (lf_active_exts (rt_lifecycle t)) t)"
| "hook_emitted env (EvDestinationUp mac metrics _) t =
     dispatch_destination_state (session_ctx env) mac
       \<lparr>ds_up = True, ds_last_status = SUCCESS, ds_metrics = Some metrics\<rparr> (lf_active_exts (rt_lifecycle t)) t"
| "hook_emitted env (EvLinkCharacteristicsRequested mac requested metrics pending) t =
     (if pending
      then update_lifecycle (\<lambda>l. l\<lparr>lf_link_jobs := link_jobs_start (lf_link_jobs l)
        \<lparr>lrq_session_id = en_session_id env, lrq_peer = rt_peer t, lrq_id = mac, lrq_requested = requested,
          lrq_current = metrics\<rparr>\<rparr>) t
      else t)"
| "hook_emitted env (EvDestinationDown mac reason) t =
     dispatch_destination_state (session_ctx env) mac
       \<lparr>ds_up = False, ds_last_status = reason, ds_metrics = None\<rparr> (lf_active_exts (rt_lifecycle t)) t"
| "hook_emitted env _ t = t"

definition broadcast_emitted ::
  "('s, 'n, 'm, 'w, 'x) session_env \<Rightarrow> ('n, 'm) emitted_event \<Rightarrow> ('s, 'n, 'm, 'w, 'x) session_task \<Rightarrow>
     ('s, 'n, 'm, 'w, 'x) session_task" where
  "broadcast_emitted env e t =
     (case translate_emitted (en_session_id env) (rt_peer t) (lf_active_exts (rt_lifecycle t)) e of
        Some daemon_event \<Rightarrow> emit_out (OutBroadcast daemon_event) t
      | None \<Rightarrow> t)"

definition process_emit ::
  "('s, 'n, 'm, 'w, 'x) session_env \<Rightarrow> ('s, 'n, 'm, 'w, 'x) session_task \<Rightarrow> ('n, 'm) emitted_event \<Rightarrow>
     ('s, 'n, 'm, 'w, 'x) session_task \<times> (session_failure + unit)" where
  "process_emit env t e =
     flush_pending_sends env (hook_emitted env e (broadcast_emitted env e (note_emitted env e t)))"

definition arm_timer ::
  "timer_id \<Rightarrow> timer_kind \<Rightarrow> bool \<Rightarrow> ('s, 'n, 'm, 'w, 'x) session_task \<Rightarrow> ('s, 'n, 'm, 'w, 'x) session_task" where
  "arm_timer tid kind periodic t =
     (let (ts, tasks) = start_timer (rt_timers t) (rt_tasks t) tid kind periodic in
      t\<lparr>rt_timers := ts, rt_tasks := tasks\<rparr>)"

text \<open>One action; the result says whether it asks to close the connection.\<close>

fun process_action ::
  "('s, 'n, 'm, 'w, 'x) session_env \<Rightarrow> ('s, 'n, 'm, 'w, 'x) session_task \<Rightarrow> ('n, 'm) fsm_action \<Rightarrow>
     ('s, 'n, 'm, 'w, 'x) session_task \<times> (session_failure + bool)" where
  "process_action env t (SendMessage msg) = and_then (write_message env t msg) (\<lambda>t _. (t, Inr False))"
| "process_action env t (SendSignal _ _) = (t, Inr False)"
| "process_action env t (StartTimer tid kind duration periodic) = (arm_timer tid kind periodic t, Inr False)"
| "process_action env t (CancelTimer tid) =
     (let (ts, tasks) = timer_cancel (rt_timers t) (rt_tasks t) tid in
      (t\<lparr>rt_timers := ts, rt_tasks := tasks\<rparr>, Inr False))"
| "process_action env t (ResetHeartbeat tid missed_deadline) =
     (arm_timer tid TkHeartbeatMissed False t, Inr False)"
| "process_action env t CloseTcp = (t, Inr True)"
| "process_action env t (Emit emitted) = and_then (process_emit env t emitted) (\<lambda>t _. (t, Inr False))"

fun process_loop ::
  "('s, 'n, 'm, 'w, 'x) session_env \<Rightarrow> ('s, 'n, 'm, 'w, 'x) session_task \<Rightarrow> ('n, 'm) fsm_action list \<Rightarrow> bool \<Rightarrow>
     ('s, 'n, 'm, 'w, 'x) session_task \<times> (session_failure + bool)" where
  "process_loop env t [] close = (t, Inr close)"
| "process_loop env t (action # actions) close =
     and_then (process_action env t action) (\<lambda>t c. process_loop env t actions (close \<or> c))"

definition process_actions ::
  "('s, 'n, 'm, 'w, 'x) session_env \<Rightarrow> ('s, 'n, 'm, 'w, 'x) session_task \<Rightarrow> ('n, 'm) fsm_action list \<Rightarrow>
     ('s, 'n, 'm, 'w, 'x) session_task \<times> (session_failure + bool)" where
  "process_actions env t actions =
     and_then (process_loop env t actions False) (\<lambda>t close.
       (if close then t\<lparr>rt_world := en_shutdown env (rt_world t)\<rparr> else t, Inr close))"

definition step_fsm ::
  "('s, 'n, 'm, 'w, 'x) session_env \<Rightarrow> ('s, 'n, 'm, 'w, 'x) session_task \<Rightarrow> ('n, 'm) fsm_event \<Rightarrow>
     ('s, 'n, 'm, 'w, 'x) session_task \<times> (session_failure + ('n, 'm) fsm_action list)" where
  "step_fsm env t e =
     (case sf_step (en_fsm env) (rt_fsm t) e of
        Inl p \<Rightarrow> (t, Inl (Panicked p))
      | Inr (s, actions) \<Rightarrow> (t\<lparr>rt_fsm := s\<rparr>, Inr actions))"

definition step_and_process ::
  "('s, 'n, 'm, 'w, 'x) session_env \<Rightarrow> ('s, 'n, 'm, 'w, 'x) session_task \<Rightarrow> ('n, 'm) fsm_event \<Rightarrow>
     ('s, 'n, 'm, 'w, 'x) session_task \<times> (session_failure + bool)" where
  "step_and_process env t e = and_then (step_fsm env t e) (process_actions env)"

section \<open>The branches of the loop\<close>

definition is_known_message_type :: "message_type \<Rightarrow> bool" where
  "is_known_message_type mt \<longleftrightarrow> mt \<in>
     {SESSION_INITIALIZATION, SESSION_INITIALIZATION_RESPONSE, SESSION_UPDATE, SESSION_UPDATE_RESPONSE,
      SESSION_TERMINATION, SESSION_TERMINATION_RESPONSE, DESTINATION_UP, DESTINATION_UP_RESPONSE,
      DESTINATION_ANNOUNCE, DESTINATION_ANNOUNCE_RESPONSE, DESTINATION_DOWN, DESTINATION_DOWN_RESPONSE,
      DESTINATION_UPDATE, HEARTBEAT}"

text \<open>\<open>read_frame\<close> with what the transport delivers while it is polled; no further delivery leaves
  it pending.\<close>

datatype read_result = ReadOk bytes | ReadErr io_error

datatype ('n, 'm) frame_read =
    FrameMessage "('n, 'm) message"
  | FrameEof
  | FrameError daemon_error
  | FramePending
  | FrameDiverged

fun read_frame :: "('n, 'm) packages \<Rightarrow> bytes \<Rightarrow> read_result list \<Rightarrow> ('n, 'm) frame_read \<times> bytes" where
  "read_frame P buf rs =
     (case codec_decode P buf of
        None \<Rightarrow> (FrameDiverged, buf)
      | Some (Inl e, buf) \<Rightarrow> (FrameError (ErrCodec e), buf)
      | Some (Inr (Some msg), buf) \<Rightarrow> (FrameMessage msg, buf)
      | Some (Inr None, buf) \<Rightarrow>
          (case rs of
             [] \<Rightarrow> (FramePending, buf)
           | ReadErr e # _ \<Rightarrow> (FrameError (ErrIo e), buf)
           | ReadOk bs # rs \<Rightarrow> if bs = [] then (FrameEof, buf) else read_frame P (buf @ bs) rs))"

declare read_frame.simps [simp del]

definition note_peer_description ::
  "('s, 'n, 'm, 'w, 'x) session_task \<Rightarrow> ('n, 'm) message \<Rightarrow> ('s, 'n, 'm, 'w, 'x) session_task" where
  "note_peer_description t msg =
     (if message_type msg \<in> {SESSION_INITIALIZATION, SESSION_INITIALIZATION_RESPONSE}
      then
        (let peer = (rt_peer t)\<lparr>pi_peer_description :=
             find_map (\<lambda>i. case i of PeerType _ description \<Rightarrow> Some description | _ \<Rightarrow> None) (data_items msg)\<rparr> in
         update_lifecycle (\<lambda>l. l\<lparr>lf_peer := peer\<rparr>) (t\<lparr>rt_peer := peer\<rparr>))
      else t)"

definition session_message ::
  "('s, 'n, 'm, 'w, 'x) session_env \<Rightarrow> ('s, 'n, 'm, 'w, 'x) session_task \<Rightarrow> ('n, 'm) message \<Rightarrow>
     ('s, 'n, 'm, 'w, 'x) session_task \<times> (session_failure + bool)" where
  "session_message env t msg =
     (let t = note_peer_description t msg;
          live = sf_in_session (en_fsm env) (rt_fsm t);
          private = live \<and> \<not> is_known_message_type (message_type msg);
          exts = lf_active_exts (rt_lifecycle t) in
      if private \<and> \<not> is_ok (validate_mac_format msg (lf_mac_address_format (rt_lifecycle t)))
      then step_and_process env t (ProtocolError INVALID_DATA)
      else
        (let (t, handled) =
               (if private
                then dispatch_unknown_message (session_ctx env) (message_type msg) (data_items msg) exts t
                else (t, False));
             (t, items) =
               (if \<not> handled \<and> live
                then filter_unknown_items (session_ctx env) (message_type msg) exts (data_items msg) t
                else (t, data_items msg));
             event = (if handled then RecvExtensionMessage else RecvMessage (msg\<lparr>data_items := items\<rparr>)) in
         and_then (step_and_process env t event) (\<lambda>t close.
           if close then (t, Inr True)
           else and_then (flush_pending_sends env t) (\<lambda>t _. (t, Inr False)))))"

definition session_read ::
  "('s, 'n, 'm, 'w, 'x) session_env \<Rightarrow> ('s, 'n, 'm, 'w, 'x) session_task \<Rightarrow> read_result list \<Rightarrow>
     ('s, 'n, 'm, 'w, 'x) session_task \<times> (session_failure + bool)" where
  "session_read env t rs =
     (let (frame, buf) = read_frame (en_packages env) (rt_read_buf t) rs;
          t = t\<lparr>rt_read_buf := buf\<rparr> in
      case frame of
        FrameMessage msg \<Rightarrow> session_message env t msg
      | FrameEof \<Rightarrow> and_then (step_and_process env t TcpClosed) (\<lambda>t _. (t, Inr True))
      | FrameError (ErrCodec _) \<Rightarrow> step_and_process env t (ProtocolError INVALID_DATA)
      | FrameError e \<Rightarrow> (t, Inl (Failed e))
      | FramePending \<Rightarrow> (t, Inr False)
      | FrameDiverged \<Rightarrow> (t, Inl Diverged))"

fun command_event :: "('n, 'm) session_command \<Rightarrow> ('n, 'm) fsm_event" where
  "command_event (CmdShutdown reason) = AppShutdown reason"
| "command_event (CmdAddDestination mac metrics addrs) = AppAddDestination mac metrics addrs"
| "command_event (CmdUpdateDestination mac metrics) = AppUpdateMetrics mac metrics"
| "command_event (CmdUpdateDestinationAddresses mac changes) = AppUpdateAddresses mac changes"
| "command_event (CmdUpdateSessionAddresses _ changes) = AppSessionAddresses changes"
| "command_event (CmdDropDestination mac reason) = AppDropDestination mac reason"
| "command_event (CmdDropDestinationForSession _ mac) = AppDropDestination mac SUCCESS"
| "command_event (CmdSessionUpdate metrics) = AppSessionUpdate metrics"
| "command_event (CmdAnnounceDestination mac) = AppAnnounceDestination mac"
| "command_event (CmdRequestLinkCharacteristics _ mac requested) = AppRequestLinkCharacteristics mac requested"

definition command_outcome :: "('n, 'm) fsm_action list \<Rightarrow> command_rejection + unit" where
  "command_outcome actions =
     (case find_map (\<lambda>a. case a of Emit (EvCommandRejected rejection) \<Rightarrow> Some rejection | _ \<Rightarrow> None) actions of
        Some rejection \<Rightarrow> Inl rejection
      | None \<Rightarrow> Inr ())"

definition send_receipt ::
  "nat option \<Rightarrow> command_receipt \<Rightarrow> ('s, 'n, 'm, 'w, 'x) session_task \<Rightarrow> ('s, 'n, 'm, 'w, 'x) session_task" where
  "send_receipt receipt answer t =
     (case receipt of Some r \<Rightarrow> emit_out (OutReceipt r answer) t | None \<Rightarrow> t)"

definition serve_command ::
  "('s, 'n, 'm, 'w, 'x) session_env \<Rightarrow> ('s, 'n, 'm, 'w, 'x) session_task \<Rightarrow> ('n, 'm) session_request option \<Rightarrow>
     ('s, 'n, 'm, 'w, 'x) session_task \<times> (session_failure + bool)" where
  "serve_command env t request =
     (if \<not> rt_commands_open t then (t, Inr False)
      else
        case request of
          Some r \<Rightarrow>
            if (case sr_target r of Some target \<Rightarrow> target \<noteq> en_session_id env | None \<Rightarrow> False)
            then (send_receipt (sr_receipt r) None t, Inr False)
            else
              and_then (step_fsm env t (command_event (sr_command r))) (\<lambda>t actions.
              and_then (process_actions env t actions) (\<lambda>t closed.
                (send_receipt (sr_receipt r) (Some (en_session_id env, command_outcome actions)) t, Inr closed)))
        | None \<Rightarrow> step_and_process env (t\<lparr>rt_commands_open := False\<rparr>) (AppShutdown SHUTTING_DOWN))"

text \<open>A completed backend call. An answer the machine refuses is replaced by a denial.\<close>

definition rejects_input :: "('n, 'm) fsm_action list \<Rightarrow> bool" where
  "rejects_input actions =
     list_ex (\<lambda>a. case a of Emit (EvCommandRejected r) \<Rightarrow> cr_reason r = InvalidInput | _ \<Rightarrow> False) actions"

definition session_link ::
  "('s, 'n, 'm, 'w, 'x) session_env \<Rightarrow> ('s, 'n, 'm, 'w, 'x) session_task \<Rightarrow> nat \<Rightarrow> link_response option \<Rightarrow>
     ('s, 'n, 'm, 'w, 'x) session_task \<times> (session_failure + bool)" where
  "session_link env t handle outcome =
     (case link_jobs_next (lf_link_jobs (rt_lifecycle t)) handle outcome of
        Inl p \<Rightarrow> (t, Inl (Panicked p))
      | Inr (None, _) \<Rightarrow> (t, Inr False)
      | Inr (Some event, jobs) \<Rightarrow>
          (let t = update_lifecycle (\<lambda>l. l\<lparr>lf_link_jobs := jobs\<rparr>) t in
           and_then (step_fsm env t event) (\<lambda>t actions.
           if rejects_input actions
           then
             (case fallback_denial event of
                None \<Rightarrow> (t, Inl (Panicked ''link-control response''))
              | Some fallback \<Rightarrow>
                  and_then (step_fsm env t fallback) (\<lambda>t denial. process_actions env t (actions @ denial)))
           else process_actions env t actions)))"

definition session_timer ::
  "('s, 'n, 'm, 'w, 'x) session_env \<Rightarrow> ('s, 'n, 'm, 'w, 'x) session_task \<Rightarrow>
     ('s, 'n, 'm, 'w, 'x) session_task \<times> (session_failure + bool)" where
  "session_timer env t =
     (case rt_queue t of
        [] \<Rightarrow> (t, Inr False)
      | (tid, kind, generation) # queue \<Rightarrow>
          (let t = t\<lparr>rt_queue := queue\<rparr> in
           if \<not> is_current_generation (rt_timers t) tid generation then (t, Inr False)
           else step_and_process env (t\<lparr>rt_timers := timer_forget (rt_timers t) tid\<rparr>) (TimerExpired tid kind)))"

text \<open>What can happen next. \<open>SleeperWakes\<close> is a step of a timer task, the others are the branches of
  \<open>select!\<close>; \<open>True\<close> leaves the loop.\<close>

datatype ('n, 'm) session_input =
    SelRead "read_result list"
  | SelCommand "('n, 'm) session_request option"
  | SelLink nat "link_response option"
  | SelTimer
  | SleeperWakes nat

fun session_select ::
  "('s, 'n, 'm, 'w, 'x) session_env \<Rightarrow> ('s, 'n, 'm, 'w, 'x) session_task \<Rightarrow> ('n, 'm) session_input \<Rightarrow>
     ('s, 'n, 'm, 'w, 'x) session_task \<times> (session_failure + bool)" where
  "session_select env t (SelRead rs) = session_read env t rs"
| "session_select env t (SelCommand request) = serve_command env t request"
| "session_select env t (SelLink handle outcome) = session_link env t handle outcome"
| "session_select env t SelTimer = session_timer env t"
| "session_select env t (SleeperWakes h) =
     (let (tasks, queue) = sleeper_fires (rt_tasks t) (rt_queue t) h in
      (t\<lparr>rt_tasks := tasks, rt_queue := queue\<rparr>, Inr False))"

section \<open>A session from start to end\<close>

definition session_new ::
  "('s, 'n, 'm, 'w, 'x) session_env \<Rightarrow> 's \<Rightarrow> peer_info \<Rightarrow> bool \<Rightarrow> bool \<Rightarrow> 'w \<Rightarrow> ('s, 'n, 'm, 'w, 'x) session_task" where
  "session_new env fsm peer connection link_control w =
     \<lparr>rt_fsm = fsm, rt_timers = default_timer_set, rt_tasks = [], rt_queue = [], rt_read_buf = [],
      rt_peer = peer,
      rt_lifecycle = \<lparr>lf_connection = connection, lf_peer = peer, lf_active_exts = [], lf_down_emitted = False,
        lf_mac_address_format = sf_mac_address_format (en_fsm env) fsm, lf_link_jobs = link_jobs_new link_control\<rparr>,
      rt_pending_sends = [], rt_commands_open = True, rt_world = w, rt_out = []\<rparr>"

text \<open>What happens when the locals go out of scope, on every way out: the timers are dropped, then the
  life-cycle guard and its fields. Messages queued by the last hooks are discarded.\<close>

definition lifecycle_drop ::
  "('s, 'n, 'm, 'w, 'x) session_env \<Rightarrow> ('s, 'n, 'm, 'w, 'x) session_task \<Rightarrow> ('s, 'n, 'm, 'w, 'x) session_task" where
  "lifecycle_drop env t =
     (let l = rt_lifecycle t in
      if lf_down_emitted l then t
      else
        (dispatch_session_state (session_ctx env) False (lf_active_exts l)
          (emit_out (OutBroadcast (DmSessionDown (en_session_id env) (lf_peer l) TIMED_OUT)) t))
        \<lparr>rt_pending_sends := rt_pending_sends t\<rparr>)"

definition session_drop ::
  "('s, 'n, 'm, 'w, 'x) session_env \<Rightarrow> ('s, 'n, 'm, 'w, 'x) session_task \<Rightarrow> ('s, 'n, 'm, 'w, 'x) session_task" where
  "session_drop env t =
     (let (ts, tasks) = timer_set_drop (rt_timers t) (rt_tasks t);
          t = lifecycle_drop env (t\<lparr>rt_timers := ts, rt_tasks := tasks\<rparr>);
          t = (if lf_connection (rt_lifecycle t) then emit_out OutReleased t else t) in
      update_lifecycle (\<lambda>l. l\<lparr>lf_link_jobs := link_jobs_drop (lf_link_jobs l)\<rparr>) t)"

fun session_loop ::
  "('s, 'n, 'm, 'w, 'x) session_env \<Rightarrow> ('s, 'n, 'm, 'w, 'x) session_task \<Rightarrow> ('n, 'm) session_input list \<Rightarrow>
     ('s, 'n, 'm, 'w, 'x) session_task \<times> (session_failure + unit) option" where
  "session_loop env t [] = (t, None)"
| "session_loop env t (i # is) =
     (case session_select env t i of
        (t, Inl e) \<Rightarrow> (session_drop env t, Some (Inl e))
      | (t, Inr True) \<Rightarrow> (session_drop env t, Some (Inr ()))
      | (t, Inr False) \<Rightarrow> session_loop env t is)"

text \<open>\<open>None\<close> as result says that the session is still running after the given inputs.\<close>

definition run_session ::
  "('s, 'n, 'm, 'w, 'x) session_env \<Rightarrow> ('s, 'n, 'm, 'w, 'x) session_task \<Rightarrow> ('n, 'm) fsm_event \<Rightarrow>
     ('n, 'm) session_input list \<Rightarrow> ('s, 'n, 'm, 'w, 'x) session_task \<times> (session_failure + unit) option" where
  "run_session env t initial_event is =
     (case step_and_process env t initial_event of
        (t, Inl e) \<Rightarrow> (session_drop env t, Some (Inl e))
      | (t, Inr True) \<Rightarrow> (session_drop env t, Some (Inr ()))
      | (t, Inr False) \<Rightarrow> session_loop env t is)"

definition next_session_id :: "u64 \<Rightarrow> session_id \<times> u64" where
  "next_session_id counter = (counter, counter + 1)"

end
