(* ===== verification/Session_Task_Correct.thy ===== *)
theory Session_Task_Correct
  imports Session_Task
begin

text \<open>
  What the session task guarantees around any machine that keeps the contract \<open>session_machine\<close>: its
  state is that of a run of the machine, the machine is driven by the timers it armed, the life-cycle
  notices reach the application, and the task never panics.
\<close>

section \<open>What others see of the life cycle\<close>

fun out_notice :: "('n, 'm, 'x) session_output \<Rightarrow> notice list" where
  "out_notice (OutBroadcast (DmSessionUp _ _ _)) = [UpNotice]"
| "out_notice (OutBroadcast (DmSessionDown _ _ _)) = [DownNotice]"
| "out_notice _ = []"

definition announced :: "('n, 'm, 'x) session_output list \<Rightarrow> notice list" where
  "announced out = concat (map out_notice out)"

lemma announced_simps [simp]:
  "announced [] = []" "announced (xs @ ys) = announced xs @ announced ys" "announced (x # xs) = out_notice x @ announced xs"
  by (simp_all add: announced_def)

text \<open>The part of the task that writing and the hooks of extensions leave alone.\<close>

definition view where
  "view t = (rt_fsm t, rt_timers t, rt_tasks t, rt_queue t, rt_read_buf t, rt_peer t, rt_lifecycle t,
     rt_commands_open t, announced (rt_out t))"

lemma viewD:
  assumes "view t' = view t"
  shows "rt_fsm t' = rt_fsm t" "rt_timers t' = rt_timers t" "rt_tasks t' = rt_tasks t" "rt_queue t' = rt_queue t"
    "rt_read_buf t' = rt_read_buf t" "rt_peer t' = rt_peer t" "rt_lifecycle t' = rt_lifecycle t"
    "rt_commands_open t' = rt_commands_open t" "announced (rt_out t') = announced (rt_out t)"
  using assms by (simp_all add: view_def)

lemma view_update [simp]:
  "view (t\<lparr>rt_world := w\<rparr>) = view t" "view (t\<lparr>rt_pending_sends := ms\<rparr>) = view t"
  by (simp_all add: view_def)

lemma view_emit_out: "out_notice x = [] \<Longrightarrow> view (emit_out x t) = view t"
  by (simp add: view_def emit_out_def)

lemma view_write_message [simp]: "view (fst (write_message env t msg)) = view t"
  by (auto simp: write_message_def view_emit_out split: sum.splits prod.splits option.splits)

lemma view_and_then:
  assumes "view (fst r) = view t" "\<And>t' x. view t' = view t \<Longrightarrow> view (fst (f t' x)) = view t"
  shows "view (fst (and_then r f)) = view t"
  using assms by (cases r; cases "snd r") auto

lemma view_write_pending: "view (fst (write_pending env format t msgs)) = view t"
proof (induction msgs arbitrary: t)
  case (Cons msg msgs)
  then show ?case by (auto split: sum.splits intro!: view_and_then)
qed simp

lemma view_flush [simp]: "view (fst (flush_pending_sends env t)) = view t"
  by (simp add: flush_pending_sends_def view_write_pending)

lemma view_apply_effects [simp]: "view (apply_effects t effs w) = view t"
proof -
  have step: "view (apply_effect t e) = view t" for t :: "('a, 'b, 'c, 'd, 'e) session_task" and e
    by (cases e) (simp_all add: view_emit_out)
  have "view (foldl apply_effect t effs) = view t" for t :: "('a, 'b, 'c, 'd, 'e) session_task"
    by (induction effs arbitrary: t) (simp_all add: step)
  then show ?thesis by (simp add: apply_effects_def)
qed

lemma view_dispatch_unknown_message [simp]:
  "view (fst (dispatch_unknown_message ctx mt items exts t)) = view t"
  by (induction exts arbitrary: t) (simp_all split: prod.splits ext_handled.splits add: Let_def)

lemma view_any_handles [simp]: "view (fst (any_handles ctx mt raw exts t)) = view t"
  by (induction exts arbitrary: t) (simp_all split: prod.splits ext_handled.splits add: Let_def)

lemma view_filter_unknown_items [simp]: "view (fst (filter_unknown_items ctx mt exts items t)) = view t"
proof (induction items arbitrary: t)
  case (Cons item items)
  show ?case
  proof (cases item)
    case (Unknown raw)
    then show ?thesis
      using Cons.IH [of "fst (any_handles ctx mt raw exts t)"] by (simp add: case_prod_beta Let_def)
  qed (use Cons in \<open>simp_all add: case_prod_beta Let_def\<close>)
qed simp

lemma view_dispatch_session_state [simp]: "view (dispatch_session_state ctx up exts t) = view t"
  by (induction exts arbitrary: t) (simp_all split: prod.splits add: Let_def)

lemma view_dispatch_destination_state [simp]: "view (dispatch_destination_state ctx mac snap exts t) = view t"
  by (induction exts arbitrary: t) (simp_all split: prod.splits add: Let_def)

lemmas dispatch_announces = viewD(9) [OF view_dispatch_session_state]
lemmas dispatch_keeps = viewD(1-8) [OF view_dispatch_session_state]

section \<open>Executing actions\<close>

definition sound :: "('s, 'n, 'm, 'w, 'x) session_task \<Rightarrow> bool" where
  "sound t =
     ((length (rt_tasks t) < 2 ^ 64 \<longrightarrow> timers_ok (rt_timers t) (rt_tasks t) (rt_queue t)) \<and>
      jobs_ok (lf_link_jobs (rt_lifecycle t)))"

text \<open>What executing some actions does to the part of the task that matters.\<close>

definition executed ::
  "('n, 'm) fsm_action list \<Rightarrow> ('s, 'n, 'm, 'w, 'x) session_task \<Rightarrow> ('s, 'n, 'm, 'w, 'x) session_task \<Rightarrow> bool" where
  "executed acts t t' =
     (sound t' \<and> rt_fsm t' = rt_fsm t \<and>
      (length (rt_tasks t') < 2 ^ 64 \<longrightarrow>
        armed_timers (rt_timers t') = armed_after (armed_timers (rt_timers t)) acts) \<and>
      announced (rt_out t') = announced (rt_out t) @ notices acts \<and>
      lf_down_emitted (rt_lifecycle t') = (lf_down_emitted (rt_lifecycle t) \<or> DownNotice \<in> set (notices acts)) \<and>
      length (rt_tasks t) \<le> length (rt_tasks t'))"

lemma executed_refl: "sound t \<Longrightarrow> executed [] t t"
  by (simp add: executed_def)

lemma executed_trans: "executed as t t' \<Longrightarrow> executed bs t' t'' \<Longrightarrow> executed (as @ bs) t t''"
  by (auto simp: executed_def)

lemma executed_view:
  assumes "view t'' = view t'" "executed as t t'"
  shows "executed as t t''"
  using assms(2) viewD [OF assms(1)] by (simp add: executed_def sound_def)

lemma sound_view:
  assumes "view t' = view t" "sound t"
  shows "sound t'"
  using assms(2) viewD [OF assms(1)] by (simp add: sound_def)

lemma executed_arm_timer:
  assumes "sound t" "timer_kind_of tid = Some kind" "periodic = (kind = TkHeartbeat)" "notice_of a = []"
    and "\<And>T. arm T a = insert tid T"
  shows "executed [a] t (arm_timer tid kind periodic t)"
proof -
  obtain ts tasks where start: "start_timer (rt_timers t) (rt_tasks t) tid kind periodic = (ts, tasks)"
    by (cases "start_timer (rt_timers t) (rt_tasks t) tid kind periodic")
  then have len: "length tasks = Suc (length (rt_tasks t))"
    by (auto simp: start_timer_def next_generation_for_def timer_arm_def Let_def split: option.splits)
  have "timers_ok ts tasks (rt_queue t) \<and> armed_timers ts = insert tid (armed_timers (rt_timers t))"
    if "length tasks < 2 ^ 64"
    using timers_ok_start [OF _ start assms(2,3), of "rt_queue t"] assms(1) that len by (simp add: sound_def)
  with assms start len show ?thesis
    by (simp add: executed_def sound_def arm_timer_def)
qed

lemma executed_emit:
  assumes "sound t"
  shows "executed [Emit e] t (fst (process_emit env t e))"
proof -
  let ?t1 = "note_emitted env e t" let ?t2 = "broadcast_emitted env e ?t1"
  have "executed [Emit e] t (hook_emitted env e ?t2)"
  proof (cases e)
    case (EvLinkCharacteristicsRequested mac requested metrics pending)
    then show ?thesis
      using assms by (simp add: executed_def sound_def broadcast_emitted_def emit_out_def update_lifecycle_def
          jobs_ok_start)
  next
    case (EvSessionUp exts)
    let ?t = "update_lifecycle (\<lambda>l. l\<lparr>lf_active_exts := ext_negotiate (en_extensions env) exts\<rparr>) t"
    have "executed [Emit e] t ?t2"
      using assms EvSessionUp
      by (simp add: executed_def sound_def broadcast_emitted_def emit_out_def update_lifecycle_def Let_def)
    then show ?thesis
      by (rule executed_view [rotated]) (simp add: EvSessionUp)
  next
    case (EvSessionDown reason)
    let ?t3 = "dispatch_session_state (session_ctx env) False (lf_active_exts (rt_lifecycle ?t2)) ?t2"
    have "executed [Emit e] t ?t2"
      using assms EvSessionDown
      by (simp add: executed_def sound_def broadcast_emitted_def emit_out_def update_lifecycle_def)
    then have "executed [Emit e] t ?t3" by (rule executed_view [rotated]) simp
    then show ?thesis
      by (simp add: EvSessionDown executed_def sound_def update_lifecycle_def)
  next
    case (EvDestinationUp mac metrics addrs)
    have "executed [Emit e] t ?t2"
      using assms EvDestinationUp by (simp add: executed_def sound_def broadcast_emitted_def emit_out_def)
    then show ?thesis by (rule executed_view [rotated]) (simp add: EvDestinationUp)
  next
    case (EvDestinationDown mac reason)
    have "executed [Emit e] t ?t2"
      using assms EvDestinationDown by (simp add: executed_def sound_def broadcast_emitted_def emit_out_def)
    then show ?thesis by (rule executed_view [rotated]) (simp add: EvDestinationDown)
  qed (use assms in \<open>simp_all add: executed_def sound_def broadcast_emitted_def emit_out_def\<close>)
  then show ?thesis
    unfolding process_emit_def by (rule executed_view [rotated]) simp
qed

definition ordinary :: "session_failure + 'a \<Rightarrow> bool" where
  "ordinary r = (\<forall>e. r = Inl e \<longrightarrow> (\<exists>d. e = Failed d))"

lemma ordinary_simps [simp]: "ordinary (Inr x)" "ordinary (Inl e) \<longleftrightarrow> (\<exists>d. e = Failed d)"
  by (simp_all add: ordinary_def)

lemma ordinary_and_then: "ordinary (snd r) \<Longrightarrow> (\<And>t x. ordinary (snd (f t x))) \<Longrightarrow> ordinary (snd (and_then r f))"
  by (cases r; cases "snd r") auto

lemma ordinary_write: "ordinary (snd (write_message env t msg))"
  by (auto simp: write_message_def split: sum.splits prod.splits option.splits)

lemma ordinary_flush: "ordinary (snd (flush_pending_sends env t))"
proof -
  have "ordinary (snd (write_pending env format t msgs))" for format t msgs
    by (induction msgs arbitrary: t) (auto split: sum.splits intro!: ordinary_and_then ordinary_write)
  then show ?thesis by (simp add: flush_pending_sends_def)
qed

lemma fst_and_then_return: "fst (and_then r (\<lambda>t _. (t, Inr c))) = fst r"
  by (cases r; cases "snd r") auto

lemma ordinary_and_then_return: "ordinary (snd r) \<Longrightarrow> ordinary (snd (and_then r (\<lambda>t _. (t, Inr c))))"
  by (rule ordinary_and_then) simp_all

lemma process_action_executed:
  assumes "sound t" "kinded a"
  shows "executed [a] t (fst (process_action env t a)) \<and> ordinary (snd (process_action env t a))"
proof (cases a)
  case (SendMessage msg)
  have "executed [a] t (fst (write_message env t msg))"
    by (rule executed_view [OF view_write_message]) (use assms(1) in \<open>simp add: SendMessage executed_def\<close>)
  then show ?thesis
    by (simp add: SendMessage fst_and_then_return ordinary_and_then_return ordinary_write)
next
  case (StartTimer tid kind d periodic)
  have k: "timer_kind_of tid = Some kind" "periodic = (kind = TkHeartbeat)"
    using assms(2) unfolding StartTimer kinded.simps(1) by blast+
  have "executed [a] t (arm_timer tid kind periodic t)"
    by (rule executed_arm_timer [OF assms(1) k]) (simp_all add: StartTimer)
  then show ?thesis by (simp add: StartTimer)
next
  case (CancelTimer tid)
  obtain ts tasks where cancel: "timer_cancel (rt_timers t) (rt_tasks t) tid = (ts, tasks)"
    by (cases "timer_cancel (rt_timers t) (rt_tasks t) tid")
  then have "length tasks = length (rt_tasks t)"
    by (auto simp: timer_cancel_def split: option.splits)
  with assms(1) timers_ok_cancel [OF _ cancel, of "rt_queue t"] show ?thesis
    by (simp add: CancelTimer cancel executed_def sound_def)
next
  case (ResetHeartbeat tid d)
  have "executed [a] t (arm_timer tid TkHeartbeatMissed False t)"
    by (rule executed_arm_timer [OF assms(1)])
      (use assms(2) in \<open>simp_all add: ResetHeartbeat timer_kind_of_iff del: timer_kind_of.simps\<close>)
  then show ?thesis by (simp add: ResetHeartbeat)
next
  case (Emit e)
  have "ordinary (snd (process_emit env t e))" by (simp add: process_emit_def ordinary_flush)
  with executed_emit [OF assms(1), of e env] show ?thesis
    by (simp add: Emit fst_and_then_return ordinary_and_then_return)
qed (use assms in \<open>simp_all add: executed_def\<close>)

lemma process_loop_executed:
  assumes "sound t" "list_all kinded acts" "process_loop env t acts close = (t', r)"
  shows "\<exists>ran. prefix ran acts \<and> executed ran t t' \<and> (\<forall>c. r = Inr c \<longrightarrow> ran = acts) \<and> ordinary r"
  using assms
proof (induction acts arbitrary: t close)
  case Nil
  then have "t' = t" "r = Inr close" by simp_all
  then show ?case using executed_refl [OF Nil.prems(1)] by simp
next
  case (Cons a acts)
  obtain t1 r1 where 1: "process_action env t a = (t1, r1)" by (cases "process_action env t a")
  have kinds: "kinded a" "list_all kinded acts" using Cons.prems(2) by simp_all
  have ex: "executed [a] t t1" "ordinary r1"
    using process_action_executed [OF Cons.prems(1) kinds(1), of env] by (simp_all add: 1)
  show ?case
  proof (cases r1)
    case (Inl e)
    then have "t' = t1" "r = Inl e" using 1 Cons.prems(3) by simp_all
    with ex Inl show ?thesis by (intro exI [of _ "[a]"]) simp
  next
    case (Inr c)
    then have "process_loop env t1 acts (close \<or> c) = (t', r)" using 1 Cons.prems(3) by simp
    moreover have "sound t1" using ex by (simp add: executed_def)
    ultimately obtain ran where ran: "prefix ran acts" "executed ran t1 t'" "\<forall>c. r = Inr c \<longrightarrow> ran = acts" "ordinary r"
      using Cons.IH [OF _ kinds(2)] by blast
    have "executed (a # ran) t t'" using executed_trans [OF ex(1) ran(2)] by simp
    with ran show ?thesis by (intro exI [of _ "a # ran"]) simp
  qed
qed

lemma process_actions_executed:
  assumes "sound t" "list_all kinded acts" "process_actions env t acts = (t', r)"
  shows "\<exists>ran. prefix ran acts \<and> executed ran t t' \<and> (\<forall>c. r = Inr c \<longrightarrow> ran = acts) \<and> ordinary r"
proof -
  obtain t1 r1 where 1: "process_loop env t acts False = (t1, r1)" by (cases "process_loop env t acts False")
  from process_loop_executed [OF assms(1,2) this] obtain ran where
    d: "prefix ran acts" "executed ran t t1" "\<forall>c. r1 = Inr c \<longrightarrow> ran = acts" "ordinary r1" by blast
  have "view t' = view t1 \<and> ordinary r \<and> (\<forall>c. r = Inr c \<longrightarrow> r1 = Inr c)"
  proof (cases r1)
    case (Inr c)
    then have "t' = (if c then t1\<lparr>rt_world := en_shutdown env (rt_world t1)\<rparr> else t1)" "r = Inr c"
      using assms(3) 1 by (simp_all add: process_actions_def)
    then show ?thesis using Inr by simp
  qed (use assms(3) 1 d(4) in \<open>simp add: process_actions_def\<close>)
  with d executed_view [of t' t1 ran t] show ?thesis by blast
qed

section \<open>The task follows a run of the machine\<close>

text \<open>
  \<open>trace\<close> relates the task between two branches of the loop to the events its machine has processed
  and the actions of this run. \<open>ending\<close> is what remains of it when the task leaves the loop, possibly
  in the middle of the actions of the last step.
\<close>

definition trace ::
  "('s \<Rightarrow> ('n, 'm) fsm_event \<Rightarrow> panic + ('s \<times> ('n, 'm) fsm_action list)) \<Rightarrow> 's \<Rightarrow>
     ('n, 'm) fsm_event list \<Rightarrow> ('n, 'm) fsm_action list \<Rightarrow> ('s, 'n, 'm, 'w, 'x) session_task \<Rightarrow> bool" where
  "trace step s0 es acts t =
     (sound t \<and> run_events step s0 es = Inr (rt_fsm t, acts) \<and> announced (rt_out t) = notices acts \<and>
      lf_down_emitted (rt_lifecycle t) = (DownNotice \<in> set (notices acts)) \<and>
      (length (rt_tasks t) < 2 ^ 64 \<longrightarrow> driven step s0 (rt_fsm t) (armed_timers (rt_timers t))))"

definition ending ::
  "('s \<Rightarrow> ('n, 'm) fsm_event \<Rightarrow> panic + ('s \<times> ('n, 'm) fsm_action list)) \<Rightarrow> 's \<Rightarrow>
     ('n, 'm) fsm_event list \<Rightarrow> ('n, 'm) fsm_action list \<Rightarrow> ('s, 'n, 'm, 'w, 'x) session_task \<Rightarrow> bool" where
  "ending step s0 es acts t =
     (sound t \<and> run_events step s0 es = Inr (rt_fsm t, acts) \<and>
      (\<exists>ran. prefix ran acts \<and> announced (rt_out t) = notices ran \<and>
        lf_down_emitted (rt_lifecycle t) = (DownNotice \<in> set (notices ran))))"

lemma trace_ending: "trace step s0 es acts t \<Longrightarrow> ending step s0 es acts t"
  by (auto simp: trace_def ending_def)

lemma trace_view:
  assumes "view t' = view t" "trace step s0 es acts t"
  shows "trace step s0 es acts t'"
  using assms(2) sound_view [OF assms(1)] viewD [OF assms(1)] by (simp add: trace_def)

lemma ending_view:
  assumes "view t' = view t" "ending step s0 es acts t"
  shows "ending step s0 es acts t'"
  using assms(2) sound_view [OF assms(1)] viewD [OF assms(1)] by (simp add: ending_def)

definition follows ::
  "('s \<Rightarrow> ('n, 'm) fsm_event \<Rightarrow> panic + ('s \<times> ('n, 'm) fsm_action list)) \<Rightarrow> 's \<Rightarrow>
     ('n, 'm) fsm_event list \<Rightarrow> ('n, 'm) fsm_action list \<Rightarrow>
     ('s, 'n, 'm, 'w, 'x) session_task \<times> (session_failure + bool) \<Rightarrow> bool" where
  "follows step s0 es acts r =
     (ordinary (snd r) \<and> (\<exists>es' acts'. ending step s0 (es @ es') (acts @ acts') (fst r) \<and>
        (snd r = Inr False \<longrightarrow> trace step s0 (es @ es') (acts @ acts') (fst r))))"

text \<open>The actions of some further events are executed.\<close>

lemma process_follows:
  assumes "sound t" "list_all kinded acts2"
    and run: "run_events step s0 es = Inr (s1, acts)" "run_events step s1 es2 = Inr (s2, acts2)"
    and told: "announced (rt_out t) = notices acts"
      "lf_down_emitted (rt_lifecycle t) = (DownNotice \<in> set (notices acts))"
    and drv: "length (rt_tasks t) < 2 ^ 64 \<Longrightarrow>
      driven step s0 s2 (armed_after (armed_timers (rt_timers t)) acts2)"
    and fsm: "rt_fsm t = s2"
  shows "follows step s0 es acts (process_actions env t acts2)"
proof -
  obtain t' r where p: "process_actions env t acts2 = (t', r)" by (cases "process_actions env t acts2")
  from process_actions_executed [OF assms(1,2) p] obtain ran where
    ran: "prefix ran acts2" "executed ran t t'" "\<forall>c. r = Inr c \<longrightarrow> ran = acts2" "ordinary r" by blast
  have run': "run_events step s0 (es @ es2) = Inr (rt_fsm t', acts @ acts2)"
    using run ran(2) fsm by (simp add: run_events_append executed_def)
  have "ending step s0 (es @ es2) (acts @ acts2) t'"
    unfolding ending_def using ran(1,2) run' told
    by (intro conjI exI [of _ "acts @ ran"]) (auto simp: executed_def)
  moreover have "trace step s0 (es @ es2) (acts @ acts2) t'" if "r = Inr False"
    using ran run' told drv fsm that by (auto simp: trace_def executed_def)
  ultimately show ?thesis
    unfolding follows_def using p ran(4) by auto
qed

lemma follows_trace:
  assumes "trace step s0 es acts t" "ordinary r"
  shows "follows step s0 es acts (t, r)"
  using assms trace_ending [OF assms(1)] unfolding follows_def by (metis append_Nil2 fst_conv snd_conv)

text \<open>Afterwards the task only does what does not show in its view, or decides to leave the loop.\<close>

lemma follows_and_then:
  assumes "follows step s0 es acts r"
    and "\<And>t c. view (fst (f t c)) = view t" "\<And>t c. ordinary (snd (f t c))"
    and "\<And>t c. snd (f t c) = Inr False \<Longrightarrow> c = False"
  shows "follows step s0 es acts (and_then r f)"
proof (cases r)
  case (Pair t r')
  show ?thesis
  proof (cases r')
    case (Inr c)
    from assms(1) obtain es' acts' where "ending step s0 (es @ es') (acts @ acts') t"
      "c = False \<longrightarrow> trace step s0 (es @ es') (acts @ acts') t"
      by (auto simp: follows_def Pair Inr)
    then have "ending step s0 (es @ es') (acts @ acts') (fst (f t c))"
      "snd (f t c) = Inr False \<longrightarrow> trace step s0 (es @ es') (acts @ acts') (fst (f t c))"
      using assms(2,4) by (auto intro: ending_view trace_view)
    then show ?thesis using assms(3) by (auto simp: follows_def Pair Inr)
  qed (use assms(1) in \<open>simp add: Pair follows_def\<close>)
qed

text \<open>An event that is no expiry.\<close>

fun untimed :: "('n, 'm) fsm_event \<Rightarrow> bool" where
  "untimed (TimerExpired _ _) = False"
| "untimed _ = True"

lemma untimed_event: "untimed e \<Longrightarrow> timer_event T e \<and> expire T e = T"
  by (cases e) simp_all

context session_machine
begin

abbreviation live_trace where
  "live_trace s0 es acts t \<equiv> inv s0 \<and> trace step s0 es acts t"

lemma step_follows:
  assumes env: "sf_step (en_fsm env) = step" and inv: "inv s0"
    and run: "run_events step s0 es = Inr (rt_fsm t, acts)" and "sound t"
    and told: "announced (rt_out t) = notices acts"
      "lf_down_emitted (rt_lifecycle t) = (DownNotice \<in> set (notices acts))"
    and drv: "length (rt_tasks t) < 2 ^ 64 \<Longrightarrow> \<exists>T. driven step s0 (rt_fsm t) T \<and> timer_event T e \<and>
      armed_timers (rt_timers t) = expire T e"
  shows "follows step s0 es acts (step_and_process env t e)"
proof -
  obtain s' acts2 where s': "step (rt_fsm t) e = Inr (s', acts2)"
    using step_total [OF run_inv [OF inv run]] by blast
  have "follows step s0 es acts (process_actions env (t\<lparr>rt_fsm := s'\<rparr>) acts2)"
  proof (rule process_follows [OF _ step_kinded [OF s'] run, of _ "[e]"])
    show "run_events step (rt_fsm t) [e] = Inr (s', acts2)" by (simp add: s')
    assume "length (rt_tasks (t\<lparr>rt_fsm := s'\<rparr>)) < 2 ^ 64"
    with drv obtain T where "driven step s0 (rt_fsm t) T" "timer_event T e" "armed_timers (rt_timers t) = expire T e"
      by auto
    with driven.event [OF this(1,2) s'] show "driven step s0 s' (armed_after (armed_timers (rt_timers (t\<lparr>rt_fsm := s'\<rparr>))) acts2)"
      by simp
  qed (use assms(4) told in \<open>simp_all add: sound_def\<close>)
  then show ?thesis by (simp add: step_and_process_def step_fsm_def env s')
qed

lemma untimed_follows:
  assumes "sf_step (en_fsm env) = step" "live_trace s0 es acts t" "untimed e"
  shows "follows step s0 es acts (step_and_process env t e)"
  using assms untimed_event [OF assms(3)]
  by (intro step_follows) (auto simp: trace_def)

lemma message_follows:
  assumes env: "sf_step (en_fsm env) = step" and tr: "live_trace s0 es acts t"
  shows "follows step s0 es acts (session_message env t msg)"
proof -
  define t1 where "t1 = note_peer_description t msg"
  have tr1: "live_trace s0 es acts t1"
    using tr by (simp add: t1_def note_peer_description_def update_lifecycle_def trace_def sound_def Let_def)
  define live where "live = sf_in_session (en_fsm env) (rt_fsm t1)"
  define foreign where "foreign = (live \<and> \<not> is_known_message_type (message_type msg))"
  define exts where "exts = lf_active_exts (rt_lifecycle t1)"
  define r2 where "r2 = (if foreign
    then dispatch_unknown_message (session_ctx env) (message_type msg) (data_items msg) exts t1 else (t1, False))"
  define r3 where "r3 = (if \<not> snd r2 \<and> live
    then filter_unknown_items (session_ctx env) (message_type msg) exts (data_items msg) (fst r2)
    else (fst r2, data_items msg))"
  define event where "event = (if snd r2 then RecvExtensionMessage else RecvMessage (msg\<lparr>data_items := snd r3\<rparr>))"
  have "view (fst r3) = view t1" by (simp add: r3_def r2_def)
  from trace_view [OF this] tr1 have tr3: "live_trace s0 es acts (fst r3)" by simp
  have "follows step s0 es acts (and_then (step_and_process env (fst r3) event) (\<lambda>t close.
      if close then (t, Inr True) else and_then (flush_pending_sends env t) (\<lambda>t _. (t, Inr False))))"
    by (rule follows_and_then [OF untimed_follows [OF env tr3]])
      (auto simp: event_def fst_and_then_return ordinary_and_then_return ordinary_flush split: if_splits)
  moreover have "follows step s0 es acts (step_and_process env t1 (ProtocolError INVALID_DATA))"
    by (rule untimed_follows [OF env tr1]) simp
  moreover have "session_message env t msg =
      (if foreign \<and> \<not> is_ok (validate_mac_format msg (lf_mac_address_format (rt_lifecycle t1)))
       then step_and_process env t1 (ProtocolError INVALID_DATA)
       else and_then (step_and_process env (fst r3) event) (\<lambda>t close.
         if close then (t, Inr True) else and_then (flush_pending_sends env t) (\<lambda>t _. (t, Inr False))))"
    unfolding session_message_def
    by (simp only: Let_def case_prod_beta t1_def [symmetric] live_def [symmetric] foreign_def [symmetric]
        exts_def [symmetric] r2_def [symmetric] r3_def [symmetric] event_def [symmetric])
  ultimately show ?thesis by simp
qed

lemma read_follows:
  assumes env: "sf_step (en_fsm env) = step" and tr: "live_trace s0 es acts t"
    and dec: "\<And>buf. codec_decode (en_packages env) buf \<noteq> None"
  shows "follows step s0 es acts (session_read env t rs)"
proof -
  have total: "fst (read_frame P buf rs) \<noteq> FrameDiverged" if "\<And>buf. codec_decode P buf \<noteq> None" for P buf
    using that
    by (induction P buf rs rule: read_frame.induct) (subst read_frame.simps, auto split: option.splits sum.splits list.splits read_result.splits)
  obtain frame buf where r: "read_frame (en_packages env) (rt_read_buf t) rs = (frame, buf)"
    by (cases "read_frame (en_packages env) (rt_read_buf t) rs")
  let ?t = "t\<lparr>rt_read_buf := buf\<rparr>"
  have tr': "live_trace s0 es acts ?t" using tr by (simp add: trace_def sound_def)
  have eof: "follows step s0 es acts (and_then (step_and_process env ?t TcpClosed) (\<lambda>t _. (t, Inr True)))"
    by (rule follows_and_then [OF untimed_follows [OF env tr']]) simp_all
  show ?thesis
  proof (cases frame)
    case (FrameError e)
    then show ?thesis
      by (cases e) (use tr' in \<open>simp_all add: session_read_def r follows_trace untimed_follows [OF env tr']\<close>)
  next
    case FrameDiverged
    with total [OF dec, of "rt_read_buf t"] r show ?thesis by simp
  qed (use tr' eof in \<open>simp_all add: session_read_def r message_follows [OF env tr'] follows_trace\<close>)
qed

lemma command_follows:
  assumes env: "sf_step (en_fsm env) = step" and tr: "live_trace s0 es acts t"
  shows "follows step s0 es acts (serve_command env t request)"
proof (cases "rt_commands_open t")
  case True
  have receipt: "view (send_receipt n answer t) = view t" for n answer and t :: "('s, 'n, 'm, 'w, 'x) session_task"
    by (simp add: send_receipt_def view_emit_out split: option.splits)
  show ?thesis
  proof (cases request)
    case None
    have "live_trace s0 es acts (t\<lparr>rt_commands_open := False\<rparr>)" using tr by (simp add: trace_def sound_def)
    from untimed_follows [OF env this] show ?thesis by (simp add: serve_command_def True None)
  next
    case (Some r)
    let ?e = "command_event (sr_command r)"
    have fol: "follows step s0 es acts (step_and_process env t ?e)"
      by (rule untimed_follows [OF env tr]) (cases "sr_command r"; simp)
    have eq: "and_then (step_fsm env t ?e) (\<lambda>t actions. and_then (process_actions env t actions) (\<lambda>t closed.
          (send_receipt n (Some (sid, command_outcome actions)) t, Inr closed))) =
        and_then (step_and_process env t ?e) (\<lambda>t closed.
          (send_receipt n (Some (sid, command_outcome (projr (snd (step_fsm env t0 ?e))))) t, Inr closed))"
      if "t0 = t" for n sid t0
      using that by (cases "step_fsm env t ?e"; cases "snd (step_fsm env t ?e)") (simp_all add: step_and_process_def)
    have "follows step s0 es acts (and_then (step_and_process env t ?e) (\<lambda>t closed.
          (send_receipt n (Some (sid, command_outcome (projr (snd (step_fsm env t0 ?e))))) t, Inr closed)))" for n sid t0
      by (rule follows_and_then [OF fol]) (simp_all add: receipt)
    moreover have "follows step s0 es acts (send_receipt (sr_receipt r) None t, Inr False)"
      using tr trace_view [OF receipt] by (intro follows_trace) auto
    ultimately show ?thesis by (auto simp: serve_command_def True Some eq [OF refl])
  qed
qed (use tr in \<open>simp add: serve_command_def follows_trace\<close>)

lemma link_follows:
  assumes env: "sf_step (en_fsm env) = step" and tr: "live_trace s0 es acts t"
  shows "follows step s0 es acts (session_link env t h outcome)"
proof -
  let ?jobs = "lf_link_jobs (rt_lifecycle t)"
  have "jobs_ok ?jobs" using tr by (simp add: trace_def sound_def)
  from jobs_ok_next [OF this, of h outcome] obtain e :: "('n, 'm) fsm_event option" and jobs where
    e: "link_jobs_next ?jobs h outcome = Inr (e, jobs)" "jobs_ok jobs" "\<forall>ev. e = Some ev \<longrightarrow> fallback_denial ev \<noteq> None"
    by blast
  show ?thesis
  proof (cases e)
    case None
    then show ?thesis using tr e(1) by (simp add: session_link_def follows_trace)
  next
    case (Some ev)
    define t1 where "t1 = update_lifecycle (\<lambda>l. l\<lparr>lf_link_jobs := jobs\<rparr>) t"
    have tr1: "live_trace s0 es acts t1"
      using tr e(2) by (simp add: t1_def update_lifecycle_def trace_def sound_def)
    have ev: "untimed ev" using e(1) Some
      by (auto simp: link_jobs_next_def into_event_def try_then_eq_Inr Let_def split: option.splits)
    from e(3) Some obtain fb where fb: "fallback_denial ev = Some fb" by auto
    then have fbu: "untimed fb" by (cases ev) (auto simp: into_event_def)
    have run: "run_events step s0 es = Inr (rt_fsm t1, acts)" and "sound t1" using tr1 by (simp_all add: trace_def)
    note inv1 = run_inv [OF conjunct1 [OF tr1] run]
    obtain s2 a2 where s2: "step (rt_fsm t1) ev = Inr (s2, a2)" using step_total [OF inv1] by blast
    obtain s3 a3 where s3: "step s2 fb = Inr (s3, a3)" using step_total [OF step_inv [OF inv1 s2]] by blast
    have eq: "session_link env t h outcome =
        (if rejects_input a2 then process_actions env (t1\<lparr>rt_fsm := s3\<rparr>) (a2 @ a3)
         else process_actions env (t1\<lparr>rt_fsm := s2\<rparr>) a2)"
      by (simp add: session_link_def e(1) Some t1_def [symmetric] step_fsm_def env s2 s3 fb)
    have "follows step s0 es acts (process_actions env (t1\<lparr>rt_fsm := s2\<rparr>) a2)"
      using untimed_follows [OF env tr1 ev] by (simp add: step_and_process_def step_fsm_def env s2)
    moreover have "follows step s0 es acts (process_actions env (t1\<lparr>rt_fsm := s3\<rparr>) (a2 @ a3))"
    proof (rule process_follows [OF _ _ run, of _ _ "[ev, fb]" s3])
      show "list_all kinded (a2 @ a3)" using step_kinded [OF s2] step_kinded [OF s3] by simp
      show "run_events step (rt_fsm t1) [ev, fb] = Inr (s3, a2 @ a3)" by (simp add: s2 s3)
      assume "length (rt_tasks (t1\<lparr>rt_fsm := s3\<rparr>)) < 2 ^ 64"
      then have "driven step s0 (rt_fsm t1) (armed_timers (rt_timers t1))" using tr1 by (simp add: trace_def)
      from driven.event [OF driven.event [OF this _ s2] _ s3] untimed_event [OF ev] untimed_event [OF fbu]
      show "driven step s0 s3 (armed_after (armed_timers (rt_timers (t1\<lparr>rt_fsm := s3\<rparr>))) (a2 @ a3))" by simp
    qed (use tr1 in \<open>simp_all add: trace_def sound_def\<close>)
    ultimately show ?thesis by (simp add: eq)
  qed
qed

lemma timer_follows:
  assumes env: "sf_step (en_fsm env) = step" and tr: "live_trace s0 es acts t"
  shows "follows step s0 es acts (session_timer env t)"
proof (cases "rt_queue t")
  case (Cons x queue)
  obtain i k g where x: "x = (i, k, g)" by (cases x)
  have ok: "timers_ok (rt_timers t) (rt_tasks t) ((i, k, g) # queue)" if "length (rt_tasks t) < 2 ^ 64"
    using tr Cons x that by (simp add: trace_def sound_def)
  show ?thesis
  proof (cases "is_current_generation (rt_timers t) i g")
    case True
    let ?t = "t\<lparr>rt_queue := queue, rt_timers := timer_forget (rt_timers t) i\<rparr>"
    have "follows step s0 es acts (step_and_process env ?t (TimerExpired i k))"
    proof (rule step_follows [OF env])
      show "sound ?t"
        using tr timers_ok_expiry(3) [OF ok _ True] by (simp add: trace_def sound_def)
      assume "length (rt_tasks ?t) < 2 ^ 64"
      then show "\<exists>T. driven step s0 (rt_fsm ?t) T \<and> timer_event T (TimerExpired i k) \<and>
          armed_timers (rt_timers ?t) = expire T (TimerExpired i k)"
        using tr timers_ok_expiry(1,2) [OF ok _ True]
        by (intro exI [of _ "armed_timers (rt_timers t)"]) (simp add: trace_def del: timer_event.simps expire.simps)
    qed (use tr in \<open>simp_all add: trace_def\<close>)
    then show ?thesis by (simp add: session_timer_def Cons x True Let_def)
  next
    case False
    have "trace step s0 es acts (t\<lparr>rt_queue := queue\<rparr>)"
      using tr timers_ok_stale [OF ok] by (simp add: trace_def sound_def)
    then show ?thesis using False by (simp add: session_timer_def Cons x Let_def follows_trace)
  qed
qed (use tr in \<open>simp add: session_timer_def follows_trace\<close>)

lemma select_follows:
  assumes env: "sf_step (en_fsm env) = step" and tr: "live_trace s0 es acts t"
    and dec: "\<And>buf. codec_decode (en_packages env) buf \<noteq> None"
  shows "follows step s0 es acts (session_select env t i)"
proof (cases i)
  case (SleeperWakes h)
  obtain tasks queue where f: "sleeper_fires (rt_tasks t) (rt_queue t) h = (tasks, queue)"
    by (cases "sleeper_fires (rt_tasks t) (rt_queue t) h")
  then have "length tasks = length (rt_tasks t)"
    by (auto simp: sleeper_fires_def Let_def split: if_splits)
  with tr timers_ok_fires [OF _ f, of "rt_timers t"] have "trace step s0 es acts (t\<lparr>rt_tasks := tasks, rt_queue := queue\<rparr>)"
    by (auto simp: trace_def sound_def)
  then show ?thesis by (simp add: SleeperWakes f follows_trace)
qed (use read_follows [OF env tr dec] command_follows [OF env tr] link_follows [OF env tr]
    timer_follows [OF env tr] in simp_all)

text \<open>Leaving the loop: the machine has run, what it emitted was announced up to the action at which the
  task stopped, and the guard adds the end of the session if it is missing.\<close>

lemma drop_announces:
  assumes "inv s0" "phase_of s0 = Idle" "ending step s0 es acts t"
  shows "announced (rt_out (session_drop env t)) \<in> {[DownNotice], [UpNotice, DownNotice]}"
proof -
  from assms(3) obtain ran where ran: "prefix ran acts" "announced (rt_out t) = notices ran"
    "lf_down_emitted (rt_lifecycle t) = (DownNotice \<in> set (notices ran))"
    and run: "run_events step s0 es = Inr (rt_fsm t, acts)" by (auto simp: ending_def)
  have acts: "notices acts \<in> {[], [UpNotice], [DownNotice], [UpNotice, DownNotice]}"
    using run_notices [OF assms(2) run] by blast
  from ran(1) obtain ys where "acts = ran @ ys" by (auto simp: prefix_def)
  with acts have ns: "notices ran \<in> {[], [UpNotice], [DownNotice], [UpNotice, DownNotice]}"
    by (auto simp: append_eq_Cons_conv)
  obtain ts tasks where d: "timer_set_drop (rt_timers t) (rt_tasks t) = (ts, tasks)"
    by (cases "timer_set_drop (rt_timers t) (rt_tasks t)")
  define t1 where "t1 = t\<lparr>rt_timers := ts, rt_tasks := tasks\<rparr>"
  have "announced (rt_out (lifecycle_drop env t1)) =
      notices ran @ (if lf_down_emitted (rt_lifecycle t) then [] else [DownNotice])"
    using ran(2) by (simp add: lifecycle_drop_def t1_def Let_def emit_out_def dispatch_announces)
  moreover have "announced (rt_out (session_drop env t)) = announced (rt_out (lifecycle_drop env t1))"
    by (simp add: session_drop_def d t1_def [symmetric] Let_def emit_out_def update_lifecycle_def)
  ultimately show ?thesis using ns ran(3) by auto
qed

lemma loop_follows:
  assumes env: "sf_step (en_fsm env) = step" and dec: "\<And>buf. codec_decode (en_packages env) buf \<noteq> None"
    and "live_trace s0 es acts t" "session_loop env t is = (t', r)"
  shows "(r = None \<longrightarrow> (\<exists>es' acts'. trace step s0 (es @ es') (acts @ acts') t')) \<and>
    (\<forall>res. r = Some res \<longrightarrow> ordinary res \<and>
      (\<exists>es' acts' t1. ending step s0 (es @ es') (acts @ acts') t1 \<and> t' = session_drop env t1))"
  using assms(3,4)
proof (induction "is" arbitrary: es acts t)
  case Nil
  then have "trace step s0 (es @ []) (acts @ []) t'" "r = None" by simp_all
  then show ?case by blast
next
  case (Cons i "is")
  obtain t1 r1 where 1: "session_select env t i = (t1, r1)" by (cases "session_select env t i")
  from select_follows [OF env Cons.prems(1) dec, of i] obtain es1 acts1 where
    e: "ending step s0 (es @ es1) (acts @ acts1) t1" and ord: "ordinary r1"
    and tr: "r1 = Inr False \<longrightarrow> trace step s0 (es @ es1) (acts @ acts1) t1"
    by (auto simp: follows_def 1)
  consider (more) "r1 = Inr False" | (stop) "r1 = Inr True" | (fail) f where "r1 = Inl f" by (cases r1) auto
  then show ?case
  proof cases
    case more
    with tr Cons.prems(1) have "live_trace s0 (es @ es1) (acts @ acts1) t1" by simp
    moreover have "session_loop env t1 is = (t', r)" using Cons.prems(2) by (simp add: 1 more)
    ultimately show ?thesis
      using Cons.IH [of "es @ es1" "acts @ acts1" t1] by (metis append_assoc)
  next
    case stop
    then have "t' = session_drop env t1" "r = Some (Inr ())" using Cons.prems(2) by (simp_all add: 1)
    with e show ?thesis by auto
  next
    case fail
    then have "t' = session_drop env t1" "r = Some (Inl f)" using Cons.prems(2) by (simp_all add: 1)
    with e ord fail show ?thesis by auto
  qed
qed

lemma trace_new: "trace step s0 [] [] (session_new env s0 peer connection link_control w)"
  by (simp add: trace_def sound_def session_new_def timers_ok_initial jobs_ok_new)
    (simp add: default_timer_set_def driven.start)

lemma run_follows:
  assumes env: "sf_step (en_fsm env) = step" and dec: "\<And>buf. codec_decode (en_packages env) buf \<noteq> None"
    and "inv s0" "untimed e"
    and run: "run_session env (session_new env s0 peer connection link_control w) e is = (t', r)"
  shows "(r = None \<longrightarrow> (\<exists>es acts. trace step s0 es acts t')) \<and>
    (\<forall>res. r = Some res \<longrightarrow> ordinary res \<and> (\<exists>es acts t1. ending step s0 es acts t1 \<and> t' = session_drop env t1))"
proof -
  let ?t = "session_new env s0 peer connection link_control w"
  have live: "live_trace s0 [] [] ?t" using assms(3) trace_new by simp
  obtain t1 r1 where 1: "step_and_process env ?t e = (t1, r1)" by (cases "step_and_process env ?t e")
  from untimed_follows [OF env live assms(4)] obtain es1 acts1 where
    e: "ending step s0 es1 acts1 t1" and ord: "ordinary r1"
    and tr: "r1 = Inr False \<longrightarrow> trace step s0 es1 acts1 t1"
    by (auto simp: follows_def 1)
  consider (more) "r1 = Inr False" | (stop) "r1 = Inr True" | (fail) f where "r1 = Inl f" by (cases r1) auto
  then show ?thesis
  proof cases
    case more
    with tr assms(3) have "live_trace s0 es1 acts1 t1" by simp
    moreover have "session_loop env t1 is = (t', r)" using run by (simp add: run_session_def 1 more)
    ultimately show ?thesis using loop_follows [OF env dec] by blast
  next
    case stop
    then have "t' = session_drop env t1" "r = Some (Inr ())" using run by (simp_all add: run_session_def 1)
    with e show ?thesis by auto
  next
    case fail
    then have "t' = session_drop env t1" "r = Some (Inl f)" using run by (simp_all add: run_session_def 1)
    with e ord fail show ?thesis by auto
  qed
qed

end

end
