(* ===== verification/Session_Router.thy ===== *)
theory Session_Router
  imports Session_Machine
begin

text \<open>
  The session state machine of the router (\<open>session_router.rs\<close>): its state, the gates at the start
  of \<open>step\<close> (command check, validation of received messages, protocol errors), and one definition
  per arm of its match. The map of destinations is an association list; \<open>insert\<close>, \<open>remove\<close> and
  \<open>get\<close> are \<open>AList.update\<close>, \<open>AList.delete\<close> and \<open>map_of\<close>. Every \<open>expect\<close> of the source is a
  possible panic of the model.
\<close>

section \<open>State\<close>

datatype router_session_state =
  RClosed | RSessionInitPending | RInSession | RTerminating | RTerminated

record ('n, 'm) router_destination =
  rd_up :: bool
  rd_metrics :: link_metrics
  rd_addrs :: "('n, 'm) destination_addrs"

record ('n, 'm) router_session_fsm =
  r_state :: router_session_state
  r_tx :: transaction_tracker
  r_destinations :: "(mac_address \<times> ('n, 'm) router_destination) list"
  r_session_metrics :: link_metrics
  r_session_metric_types :: "data_item_type set"
  r_peer_addresses :: "('n, 'm) destination_addrs"
  r_local_addresses :: "('n, 'm) destination_addrs"
  r_config :: session_config
  r_termination_reason :: status_code
  r_peer_heartbeat_interval :: "duration option"
  r_peer_extensions :: "extension_id list"

type_synonym ('n, 'm) router_result =
  "panic + (('n, 'm) router_session_fsm \<times> ('n, 'm) fsm_action list)"

definition router_with_config :: "session_config \<Rightarrow> ('n, 'm) router_session_fsm" where
  "router_with_config config = \<lparr>
     r_state = RClosed,
     r_tx = default_tracker,
     r_destinations = [],
     r_session_metrics = default_metrics,
     r_session_metric_types = {},
     r_peer_addresses = no_addrs,
     r_local_addresses = no_addrs,
     r_config = config,
     r_termination_reason = SUCCESS,
     r_peer_heartbeat_interval = None,
     r_peer_extensions = []\<rparr>"

section \<open>Helpers\<close>

definition build_session_initialization :: "session_config \<Rightarrow> ('n, 'm) message" where
  "build_session_initialization config =
     push_extensions_supported
       (with_item
         (with_item (message_new SESSION_INITIALIZATION)
           (HeartbeatInterval (local_heartbeat_interval config)))
         (PeerType \<lparr>smi = False\<rparr> (cfg_peer_description config)))
       (cfg_advertised_extensions config)"

definition retain_family ::
  "mac_address \<Rightarrow> ('n, 'm) router_session_fsm \<Rightarrow> (('n, 'm) destination_addrs \<Rightarrow> 'a list) \<Rightarrow>
     'a list \<Rightarrow> 'a list \<Rightarrow> 'a list" where
  "retain_family mac fsm family rem add =
     filter (\<lambda>a. a \<in> set rem \<or>
         (a \<notin> set (family (r_peer_addresses fsm)) \<and>
          \<not> list_ex (\<lambda>(m, d). m \<noteq> mac \<and> a \<in> set (family (rd_addrs d))) (r_destinations fsm)))
       add"

definition destination_address_changes ::
  "('n, 'm) packages \<Rightarrow> ('n, 'm) router_session_fsm \<Rightarrow> mac_address \<Rightarrow> ('n, 'm) message \<Rightarrow>
     ('n, 'm) address_changes" where
  "destination_address_changes P fsm mac msg =
     (let changes = from_message P msg; a = added changes; r = removed changes in
      changes\<lparr>added := \<lparr>
        v4 = retain_family mac fsm v4 (v4 r) (v4 a),
        v6 = retain_family mac fsm v6 (v6 r) (v6 a),
        v4_subnets = retain_family mac fsm v4_subnets (v4_subnets r) (v4_subnets a),
        v6_subnets = retain_family mac fsm v6_subnets (v6_subnets r) (v6_subnets a)\<rparr>\<rparr>)"

definition router_up :: "('n, 'm) router_session_fsm \<Rightarrow> mac_address \<Rightarrow> bool" where
  "router_up fsm mac =
     (case map_of (r_destinations fsm) mac of None \<Rightarrow> False | Some d \<Rightarrow> rd_up d)"

definition router_check_command ::
  "('n, 'm) packages \<Rightarrow> ('n, 'm) router_session_fsm \<Rightarrow> ('n, 'm) fsm_event \<Rightarrow>
     panic + (command_error + unit)" where
  "router_check_command P fsm event =
     (if r_state fsm \<noteq> RInSession then Inr (Inl NotReady)
      else if \<not> (case event of AppDropDestination _ _ \<Rightarrow> True | AppAnnounceDestination _ \<Rightarrow> True
          | AppRequestLinkCharacteristics _ _ \<Rightarrow> True | AppSessionAddresses _ \<Rightarrow> True | _ \<Rightarrow> False)
      then Inr (Inl Unsupported)
      else
        try_then (expect ''application command'' (command event)) (\<lambda>info.
        let busy =
          (case ci_destination info of
             Some mac \<Rightarrow>
               if \<not> accepts (cfg_mac_address_format (r_config fsm)) mac then Some MacAddressFormatMismatch
               else if destination_busy (r_tx fsm) mac then Some Busy else None
           | None \<Rightarrow> if session_busy (r_tx fsm) then Some Busy else None) in
        case busy of
          Some e \<Rightarrow> Inr (Inl e)
        | None \<Rightarrow>
            Inr (case event of
              AppDropDestination mac _ \<Rightarrow>
                if \<not> router_up fsm mac then Inl UnknownDestination else Inr ()
            | AppRequestLinkCharacteristics mac requested \<Rightarrow>
                if \<not> router_up fsm mac then Inl UnknownDestination
                else if lc_is_empty requested then Inl InvalidInput
                else map_err (\<lambda>_. InvalidInput)
                  (try_then (message_encode P (build_link_characteristics_request mac requested))
                    (\<lambda>_. Inr ()))
            | AppAnnounceDestination mac \<Rightarrow>
                if router_up fsm mac then Inl AlreadyExists else Inr ()
            | AppSessionAddresses changes \<Rightarrow>
                validate_local_address_update P (r_local_addresses fsm) changes
            | _ \<Rightarrow> Inl Unsupported)))"

definition router_protocol_error ::
  "('n, 'm) router_session_fsm \<Rightarrow> ('n, 'm) data_item \<Rightarrow> ('n, 'm) router_result" where
  "router_protocol_error fsm status =
     (case status of
        Status code _ \<Rightarrow>
          if r_state fsm \<in> {RTerminating, RTerminated} then Inr (fsm, [])
          else Inr (fsm\<lparr>r_state := RTerminating, r_termination_reason := code\<rparr>,
            [CancelTimer TIMER_SESSION_INIT, CancelTimer TIMER_HEARTBEAT,
             CancelTimer TIMER_HEARTBEAT_MISSED,
             SendMessage (with_item (message_new SESSION_TERMINATION) status),
             StartTimer TIMER_TERMINATION TkTermination (termination_timeout (r_config fsm)) False])
      | _ \<Rightarrow> Inl ''unreachable'')"

definition router_reset :: "('n, 'm) router_session_fsm \<Rightarrow> ('n, 'm) fsm_action list" where
  "router_reset fsm =
     (case heartbeat_reset_action TIMER_HEARTBEAT_MISSED (r_peer_heartbeat_interval fsm) of
        None \<Rightarrow> [] | Some a \<Rightarrow> [a])"

section \<open>The gate for received messages\<close>

definition router_check_message ::
  "('n, 'm) packages \<Rightarrow> ('n, 'm) router_session_fsm \<Rightarrow> ('n, 'm) message \<Rightarrow> status_code + unit" where
  "router_check_message P fsm msg =
     (let initializing = (r_state fsm = RSessionInitPending) in
      try_then (validate_message P msg True initializing (cfg_advertised_extensions (r_config fsm))) (\<lambda>_.
      try_then (validate_mac_format msg (cfg_mac_address_format (r_config fsm))) (\<lambda>_.
      try_then
        (if initializing \<or> message_type msg = SESSION_UPDATE
         then try_then (apply_strict P (from_message P msg) (r_peer_addresses fsm)) (\<lambda>_. Inr ())
         else Inr ()) (\<lambda>_.
      if initializing then Inr ()
      else if list_ex (\<lambda>t. metric_type t \<and> t \<notin> r_session_metric_types fsm) (map type_id (data_items msg))
      then Inl INVALID_DATA
      else if message_type msg = LINK_CHARACTERISTICS_RESPONSE
          \<and> metric_types msg \<noteq> r_session_metric_types fsm
      then Inl INVALID_DATA
      else
        validate_transaction msg (r_tx fsm)
          (case extract_destination_mac msg of None \<Rightarrow> False | Some mac \<Rightarrow> router_up fsm mac)))))"

section \<open>Initialization\<close>

definition router_tcp_connected :: "('n, 'm) router_session_fsm \<Rightarrow> ('n, 'm) router_result" where
  "router_tcp_connected fsm =
     Inr (fsm\<lparr>r_state := RSessionInitPending\<rparr>,
       [SendMessage (build_session_initialization (r_config fsm)),
        StartTimer TIMER_SESSION_INIT TkSessionInit (cfg_session_init_timeout (r_config fsm)) False])"

definition router_established ::
  "('n, 'm) packages \<Rightarrow> ('n, 'm) router_session_fsm \<Rightarrow> ('n, 'm) message \<Rightarrow> ('n, 'm) router_session_fsm" where
  "router_established P fsm msg = fsm\<lparr>
     r_peer_addresses := added (from_message P msg),
     r_session_metrics := snd (merge_link_metrics msg (r_session_metrics fsm)),
     r_session_metric_types := metric_types msg,
     r_peer_heartbeat_interval := extract_heartbeat_interval msg,
     r_peer_extensions := (case extract_extensions_supported msg of Some ids \<Rightarrow> ids | None \<Rightarrow> []),
     r_state := RInSession\<rparr>"

definition router_established_actions ::
  "('n, 'm) router_session_fsm \<Rightarrow> ('n, 'm) fsm_action list" where
  "router_established_actions fsm =
     [CancelTimer TIMER_SESSION_INIT,
      StartTimer TIMER_HEARTBEAT TkHeartbeat (local_heartbeat_interval (r_config fsm)) True]
     @ router_reset fsm
     @ [Emit (EvSessionUp (r_peer_extensions fsm)),
        Emit (EvSessionMetricsUpdate (r_session_metrics fsm))]
     @ (if addrs_is_empty (r_peer_addresses fsm) then []
        else [Emit (EvSessionAddressesUpdate
          \<lparr>added = r_peer_addresses fsm, removed = no_addrs\<rparr> (r_peer_addresses fsm))])"

definition router_initialization_response ::
  "('n, 'm) packages \<Rightarrow> ('n, 'm) router_session_fsm \<Rightarrow> ('n, 'm) message \<Rightarrow> ('n, 'm) router_result" where
  "router_initialization_response P fsm msg =
     (let status = (case extract_status msg of None \<Rightarrow> SUCCESS | Some s \<Rightarrow> s) in
      if status \<noteq> SUCCESS then
        router_protocol_error fsm
          (Status UNEXPECTED_MESSAGE (str ''initialization did not succeed''))
      else
        (let fsm = router_established P fsm msg in Inr (fsm, router_established_actions fsm)))"

definition router_init_timeout :: "('n, 'm) router_session_fsm \<Rightarrow> ('n, 'm) router_result" where
  "router_init_timeout fsm =
     Inr (fsm\<lparr>r_state := RTerminated\<rparr>, [CloseTcp, Emit (EvSessionDown TIMED_OUT)])"

definition router_init_tcp_closed :: "('n, 'm) router_session_fsm \<Rightarrow> ('n, 'm) router_result" where
  "router_init_tcp_closed fsm =
     Inr (fsm\<lparr>r_state := RTerminated\<rparr>, [Emit (EvSessionDown TIMED_OUT)])"

definition router_init_shutdown ::
  "('n, 'm) router_session_fsm \<Rightarrow> status_code \<Rightarrow> ('n, 'm) router_result" where
  "router_init_shutdown fsm reason =
     Inr (fsm\<lparr>r_state := RTerminated\<rparr>,
       [CancelTimer TIMER_SESSION_INIT, CloseTcp, Emit (EvSessionDown reason)])"

definition router_init_other_message :: "('n, 'm) router_session_fsm \<Rightarrow> ('n, 'm) router_result" where
  "router_init_other_message fsm =
     Inr (fsm\<lparr>r_state := RTerminated\<rparr>,
       [CancelTimer TIMER_SESSION_INIT, CloseTcp, Emit (EvSessionDown INVALID_DATA)])"

section \<open>Messages of an established session\<close>

definition router_session_termination ::
  "('n, 'm) router_session_fsm \<Rightarrow> ('n, 'm) message \<Rightarrow> ('n, 'm) router_result" where
  "router_session_termination fsm msg =
     (let status = (case extract_status msg of None \<Rightarrow> SHUTTING_DOWN | Some s \<Rightarrow> s) in
      Inr (fsm\<lparr>r_state := RTerminated\<rparr>,
        [CancelTimer TIMER_HEARTBEAT, CancelTimer TIMER_HEARTBEAT_MISSED,
         SendMessage build_session_termination_response, CloseTcp, Emit (EvSessionDown status)]))"

definition router_destination_up ::
  "('n, 'm) packages \<Rightarrow> ('n, 'm) router_session_fsm \<Rightarrow> ('n, 'm) message \<Rightarrow> ('n, 'm) router_result" where
  "router_destination_up P fsm msg =
     try_then (expect ''validated MAC'' (extract_destination_mac msg)) (\<lambda>mac.
     let metrics = snd (merge_link_metrics msg (r_session_metrics fsm));
         addrs = apply_lenient P (destination_address_changes P fsm mac msg) no_addrs in
     Inr (fsm\<lparr>r_destinations := AList.update mac
           \<lparr>rd_up = True, rd_metrics = metrics, rd_addrs = addrs\<rparr> (r_destinations fsm)\<rparr>,
       [SendMessage (build_destination_up_response mac SUCCESS),
        Emit (EvDestinationUp mac metrics addrs)] @ router_reset fsm))"

definition router_destination_update ::
  "('n, 'm) packages \<Rightarrow> ('n, 'm) router_session_fsm \<Rightarrow> ('n, 'm) message \<Rightarrow> ('n, 'm) router_result" where
  "router_destination_update P fsm msg =
     try_then (expect ''validated MAC'' (extract_destination_mac msg)) (\<lambda>mac.
     let changes = destination_address_changes P fsm mac msg in
     try_then (expect ''validated destination'' (map_of (r_destinations fsm) mac)) (\<lambda>destination.
     let old = rd_addrs destination;
         new = apply_lenient P changes old;
         changes = between old new;
         (found, metrics) = merge_link_metrics msg (rd_metrics destination) in
     Inr (fsm\<lparr>r_destinations := AList.update mac
           (destination\<lparr>rd_metrics := metrics, rd_addrs := new\<rparr>) (r_destinations fsm)\<rparr>,
       (if found then [Emit (EvDestinationUpdate mac metrics)] else [])
       @ (if changes_is_empty changes then []
          else [Emit (EvDestinationAddressesUpdate mac changes new)])
       @ router_reset fsm)))"

definition router_destination_down ::
  "('n, 'm) router_session_fsm \<Rightarrow> ('n, 'm) message \<Rightarrow> ('n, 'm) router_result" where
  "router_destination_down fsm msg =
     try_then (expect ''validated MAC'' (extract_destination_mac msg)) (\<lambda>mac.
     let reason = (case extract_status msg of None \<Rightarrow> SUCCESS | Some s \<Rightarrow> s) in
     Inr (fsm\<lparr>r_destinations := AList.delete mac (r_destinations fsm)\<rparr>,
       [SendMessage (build_destination_down_response mac SUCCESS),
        Emit (EvDestinationDown mac reason)] @ router_reset fsm))"

definition router_destination_down_response ::
  "('n, 'm) router_session_fsm \<Rightarrow> ('n, 'm) message \<Rightarrow> ('n, 'm) router_result" where
  "router_destination_down_response fsm msg =
     try_then (expect ''validated MAC'' (extract_destination_mac msg)) (\<lambda>mac.
     try_then (expect ''validated status'' (extract_status msg)) (\<lambda>reason.
     let tx = snd (close_destination (r_tx fsm) mac) in
     Inr (fsm\<lparr>r_tx := tx, r_destinations := AList.delete mac (r_destinations fsm)\<rparr>,
       [Emit (EvDestinationDown mac reason)] @ router_reset fsm)))"

definition router_session_update ::
  "('n, 'm) packages \<Rightarrow> ('n, 'm) router_session_fsm \<Rightarrow> ('n, 'm) message \<Rightarrow> ('n, 'm) router_result" where
  "router_session_update P fsm msg =
     (let changes = from_message P msg in
      try_then (expect_ok ''validated peer addresses'' (apply_strict P changes (r_peer_addresses fsm))) (\<lambda>addresses.
      let (found, metrics) = merge_link_metrics msg (r_session_metrics fsm);
          destinations =
            (if found
             then map (\<lambda>(m, d). (m, d\<lparr>rd_metrics := snd (merge_link_metrics msg (rd_metrics d))\<rparr>))
               (r_destinations fsm)
             else r_destinations fsm) in
      Inr (fsm\<lparr>r_peer_addresses := addresses, r_session_metrics := metrics,
            r_destinations := destinations\<rparr>,
        [SendMessage (build_session_update_response SUCCESS)]
        @ (if changes_is_empty changes then []
           else [Emit (EvSessionAddressesUpdate changes addresses)])
        @ (if found then [Emit (EvSessionMetricsUpdate metrics)] else [])
        @ router_reset fsm)))"

definition router_session_update_response ::
  "('n, 'm) router_session_fsm \<Rightarrow> ('n, 'm) router_result" where
  "router_session_update_response fsm =
     Inr (fsm\<lparr>r_tx := snd (close_session (r_tx fsm))\<rparr>, router_reset fsm)"

definition router_announce_response ::
  "('n, 'm) packages \<Rightarrow> ('n, 'm) router_session_fsm \<Rightarrow> ('n, 'm) message \<Rightarrow> ('n, 'm) router_result" where
  "router_announce_response P fsm msg =
     try_then (expect ''validated MAC'' (extract_destination_mac msg)) (\<lambda>mac.
     let fsm = fsm\<lparr>r_tx := snd (close_destination (r_tx fsm) mac)\<rparr> in
     if extract_status msg = Some SUCCESS then
       (let metrics = snd (merge_link_metrics msg (r_session_metrics fsm));
            addrs = apply_lenient P (destination_address_changes P fsm mac msg) no_addrs in
        Inr (fsm\<lparr>r_destinations := AList.update mac
              \<lparr>rd_up = True, rd_metrics = metrics, rd_addrs = addrs\<rparr> (r_destinations fsm)\<rparr>,
          [Emit (EvDestinationUp mac metrics addrs)] @ router_reset fsm))
     else Inr (fsm, router_reset fsm))"

definition router_link_characteristics_response ::
  "('n, 'm) router_session_fsm \<Rightarrow> ('n, 'm) message \<Rightarrow> ('n, 'm) router_result" where
  "router_link_characteristics_response fsm msg =
     try_then (expect ''validated MAC'' (extract_destination_mac msg)) (\<lambda>mac.
     try_then (expect ''pending destination'' (map_of (r_destinations fsm) mac)) (\<lambda>destination.
     let metrics = snd (merge_link_metrics msg (rd_metrics destination)) in
     try_then
       (expect ''validated status''
         (find_map (\<lambda>item. case item of Status code text \<Rightarrow> Some (code, text) | _ \<Rightarrow> None)
           (data_items msg))) (\<lambda>(status, text).
     Inr (fsm\<lparr>
         r_destinations := AList.update mac (destination\<lparr>rd_metrics := metrics\<rparr>) (r_destinations fsm),
         r_tx := snd (close_destination (r_tx fsm) mac)\<rparr>,
       [Emit (EvLinkCharacteristicsResponse mac status text metrics)] @ router_reset fsm))))"

definition router_in_session_message ::
  "('n, 'm) packages \<Rightarrow> ('n, 'm) router_session_fsm \<Rightarrow> ('n, 'm) message \<Rightarrow> ('n, 'm) router_result" where
  "router_in_session_message P fsm msg =
     (let mt = message_type msg in
      if mt = SESSION_TERMINATION then router_session_termination fsm msg
      else if mt = DESTINATION_UP then router_destination_up P fsm msg
      else if mt = DESTINATION_UPDATE then router_destination_update P fsm msg
      else if mt = DESTINATION_DOWN then router_destination_down fsm msg
      else if mt = DESTINATION_DOWN_RESPONSE then router_destination_down_response fsm msg
      else if mt = SESSION_UPDATE then router_session_update P fsm msg
      else if mt = SESSION_UPDATE_RESPONSE then router_session_update_response fsm
      else if mt = DESTINATION_ANNOUNCE_RESPONSE then router_announce_response P fsm msg
      else if mt = LINK_CHARACTERISTICS_RESPONSE then router_link_characteristics_response fsm msg
      else if mt = HEARTBEAT then Inr (fsm, router_reset fsm)
      else router_protocol_error fsm (Status UNEXPECTED_MESSAGE []))"

section \<open>Commands and timers of an established session\<close>

definition router_drop_destination ::
  "('n, 'm) router_session_fsm \<Rightarrow> mac_address \<Rightarrow> ('n, 'm) router_result" where
  "router_drop_destination fsm mac =
     (let (opened, tx) = open_destination (r_tx fsm) mac ReqDestinationDown in
      try_then (expect_ok ''checked idle destination'' opened) (\<lambda>_.
      Inr (fsm\<lparr>r_tx := tx\<rparr>, [SendMessage (build_destination_down mac SUCCESS)])))"

definition router_request_link_characteristics ::
  "('n, 'm) router_session_fsm \<Rightarrow> mac_address \<Rightarrow> link_characteristics \<Rightarrow> ('n, 'm) router_result" where
  "router_request_link_characteristics fsm mac requested =
     (let message = build_link_characteristics_request mac requested;
          (opened, tx) = open_destination (r_tx fsm) mac ReqLinkCharacteristics in
      try_then (expect_ok ''checked idle transaction'' opened) (\<lambda>_.
      Inr (fsm\<lparr>r_tx := tx\<rparr>, [SendMessage message])))"

definition router_session_addresses ::
  "('n, 'm) packages \<Rightarrow> ('n, 'm) router_session_fsm \<Rightarrow> ('n, 'm) address_changes \<Rightarrow> ('n, 'm) router_result" where
  "router_session_addresses P fsm changes =
     try_then (apply_local_address_update P (r_tx fsm) (r_local_addresses fsm) changes)
       (\<lambda>(tx, local, actions). Inr (fsm\<lparr>r_tx := tx, r_local_addresses := local\<rparr>, actions))"

definition router_announce_destination ::
  "('n, 'm) router_session_fsm \<Rightarrow> mac_address \<Rightarrow> ('n, 'm) router_result" where
  "router_announce_destination fsm mac =
     (let (opened, tx) = open_destination (r_tx fsm) mac ReqDestinationAnnounce in
      try_then (expect_ok ''checked idle destination'' opened) (\<lambda>_.
      Inr (fsm\<lparr>r_tx := tx\<rparr>, [SendMessage (build_destination_announce mac)])))"

definition router_heartbeat_missed :: "('n, 'm) router_session_fsm \<Rightarrow> ('n, 'm) router_result" where
  "router_heartbeat_missed fsm =
     Inr (fsm\<lparr>r_termination_reason := TIMED_OUT, r_state := RTerminating\<rparr>,
       [CancelTimer TIMER_HEARTBEAT, SendMessage (build_session_termination TIMED_OUT),
        StartTimer TIMER_TERMINATION TkTermination (termination_timeout (r_config fsm)) False])"

definition router_shutdown ::
  "('n, 'm) router_session_fsm \<Rightarrow> status_code \<Rightarrow> ('n, 'm) router_result" where
  "router_shutdown fsm reason =
     Inr (fsm\<lparr>r_termination_reason := reason, r_state := RTerminating\<rparr>,
       [CancelTimer TIMER_HEARTBEAT, CancelTimer TIMER_HEARTBEAT_MISSED,
        SendMessage (build_session_termination reason),
        StartTimer TIMER_TERMINATION TkTermination (termination_timeout (r_config fsm)) False])"

definition router_tcp_closed :: "('n, 'm) router_session_fsm \<Rightarrow> ('n, 'm) router_result" where
  "router_tcp_closed fsm =
     Inr (fsm\<lparr>r_state := RTerminated\<rparr>,
       [CancelTimer TIMER_HEARTBEAT, CancelTimer TIMER_HEARTBEAT_MISSED,
        Emit (EvSessionDown TIMED_OUT)])"

section \<open>Termination\<close>

definition router_termination_response :: "('n, 'm) router_session_fsm \<Rightarrow> ('n, 'm) router_result" where
  "router_termination_response fsm =
     Inr (fsm\<lparr>r_state := RTerminated\<rparr>,
       [CancelTimer TIMER_TERMINATION, CloseTcp, Emit (EvSessionDown (r_termination_reason fsm))])"

definition router_termination_timeout :: "('n, 'm) router_session_fsm \<Rightarrow> ('n, 'm) router_result" where
  "router_termination_timeout fsm =
     Inr (fsm\<lparr>r_state := RTerminated\<rparr>, [CloseTcp, Emit (EvSessionDown TIMED_OUT)])"

definition router_terminating_tcp_closed :: "('n, 'm) router_session_fsm \<Rightarrow> ('n, 'm) router_result" where
  "router_terminating_tcp_closed fsm =
     Inr (fsm\<lparr>r_state := RTerminated\<rparr>,
       [CancelTimer TIMER_TERMINATION, Emit (EvSessionDown (r_termination_reason fsm))])"

section \<open>The step\<close>

definition router_closed_event ::
  "('n, 'm) router_session_fsm \<Rightarrow> ('n, 'm) fsm_event \<Rightarrow> ('n, 'm) router_result" where
  "router_closed_event fsm event =
     (case event of
        TcpConnected \<Rightarrow> router_tcp_connected fsm
      | AppShutdown _ \<Rightarrow> Inr (fsm\<lparr>r_state := RTerminated\<rparr>, [])
      | TcpClosed \<Rightarrow> Inr (fsm\<lparr>r_state := RTerminated\<rparr>, [])
      | _ \<Rightarrow> Inr (fsm, []))"

definition router_init_event ::
  "('n, 'm) packages \<Rightarrow> ('n, 'm) router_session_fsm \<Rightarrow> ('n, 'm) fsm_event \<Rightarrow> ('n, 'm) router_result" where
  "router_init_event P fsm event =
     (case event of
        RecvMessage msg \<Rightarrow>
          if message_type msg = SESSION_INITIALIZATION_RESPONSE
          then router_initialization_response P fsm msg
          else router_init_other_message fsm
      | TimerExpired _ kind \<Rightarrow>
          if kind = TkSessionInit then router_init_timeout fsm else Inr (fsm, [])
      | TcpClosed \<Rightarrow> router_init_tcp_closed fsm
      | AppShutdown reason \<Rightarrow> router_init_shutdown fsm reason
      | _ \<Rightarrow> Inr (fsm, []))"

definition router_in_session_event ::
  "('n, 'm) packages \<Rightarrow> ('n, 'm) router_session_fsm \<Rightarrow> ('n, 'm) fsm_event \<Rightarrow> ('n, 'm) router_result" where
  "router_in_session_event P fsm event =
     (case event of
        RecvMessage msg \<Rightarrow> router_in_session_message P fsm msg
      | AppDropDestination mac _ \<Rightarrow> router_drop_destination fsm mac
      | AppRequestLinkCharacteristics mac requested \<Rightarrow>
          router_request_link_characteristics fsm mac requested
      | AppSessionAddresses changes \<Rightarrow> router_session_addresses P fsm changes
      | RecvExtensionMessage \<Rightarrow> Inr (fsm, router_reset fsm)
      | TimerExpired _ kind \<Rightarrow>
          if kind = TkHeartbeat then Inr (fsm, [SendMessage build_heartbeat])
          else if kind = TkHeartbeatMissed then router_heartbeat_missed fsm
          else Inr (fsm, [])
      | AppSessionUpdate _ \<Rightarrow> Inr (fsm, [])
      | AppAnnounceDestination mac \<Rightarrow> router_announce_destination fsm mac
      | AppShutdown reason \<Rightarrow> router_shutdown fsm reason
      | TcpClosed \<Rightarrow> router_tcp_closed fsm
      | _ \<Rightarrow> Inr (fsm, []))"

definition router_terminating_event ::
  "('n, 'm) router_session_fsm \<Rightarrow> ('n, 'm) fsm_event \<Rightarrow> ('n, 'm) router_result" where
  "router_terminating_event fsm event =
     (case event of
        RecvMessage msg \<Rightarrow>
          if message_type msg = SESSION_TERMINATION_RESPONSE
          then router_termination_response fsm else Inr (fsm, [])
      | TimerExpired _ kind \<Rightarrow>
          if kind = TkTermination then router_termination_timeout fsm else Inr (fsm, [])
      | TcpClosed \<Rightarrow> router_terminating_tcp_closed fsm
      | _ \<Rightarrow> Inr (fsm, []))"

definition router_match ::
  "('n, 'm) packages \<Rightarrow> ('n, 'm) router_session_fsm \<Rightarrow> ('n, 'm) fsm_event \<Rightarrow> ('n, 'm) router_result" where
  "router_match P fsm event =
     (case r_state fsm of
        RClosed \<Rightarrow> router_closed_event fsm event
      | RSessionInitPending \<Rightarrow> router_init_event P fsm event
      | RInSession \<Rightarrow> router_in_session_event P fsm event
      | RTerminating \<Rightarrow> router_terminating_event fsm event
      | RTerminated \<Rightarrow> Inr (fsm, []))"

definition router_receive ::
  "('n, 'm) packages \<Rightarrow> ('n, 'm) router_session_fsm \<Rightarrow> ('n, 'm) fsm_event \<Rightarrow> ('n, 'm) router_result" where
  "router_receive P fsm event =
     (case event of
        RecvMessage msg \<Rightarrow>
          if r_state fsm \<in> {RSessionInitPending, RInSession} then
            case fatal_status msg of
              Some item \<Rightarrow> router_protocol_error fsm item
            | None \<Rightarrow>
                (case router_check_message P fsm msg of
                   Inl code \<Rightarrow> router_protocol_error fsm (Status code [])
                 | Inr _ \<Rightarrow> router_match P fsm event)
          else router_match P fsm event
      | ProtocolError code \<Rightarrow> router_protocol_error fsm (Status code [])
      | _ \<Rightarrow> router_match P fsm event)"

definition router_step ::
  "('n, 'm) packages \<Rightarrow> ('n, 'm) router_session_fsm \<Rightarrow> ('n, 'm) fsm_event \<Rightarrow> ('n, 'm) router_result" where
  "router_step P fsm event =
     (case command event of
        Some c \<Rightarrow>
          try_then (router_check_command P fsm event) (\<lambda>checked.
          case checked of
            Inl reason \<Rightarrow>
              Inr (fsm, [Emit (EvCommandRejected \<lparr>cr_command = c, cr_reason = reason\<rparr>)])
          | Inr _ \<Rightarrow> router_receive P fsm event)
      | None \<Rightarrow> router_receive P fsm event)"

end
