(* ===== verification/Router_Life.thy ===== *)
theory Router_Life
  imports Session_Router
begin

text \<open>
  The life cycle of the router's session state machine: how each event moves it between the phases
  of a session, which notices it emits and which timers it leaves armed. None of this needs the
  invariant of the machine; \<open>router_tame_step\<close> sums it up for every state and event.
\<close>

section \<open>Life cycle and timers\<close>

fun router_phase :: "router_session_state \<Rightarrow> phase" where
  "router_phase RClosed = Idle"
| "router_phase RSessionInitPending = Initializing"
| "router_phase RInSession = Established"
| "router_phase RTerminating = Closing"
| "router_phase RTerminated = Ended"

text \<open>The timers that may be armed in a state. A connection lost while the initialization is
  pending leaves its timer armed.\<close>

fun router_timers :: "router_session_state \<Rightarrow> timer_id set" where
  "router_timers RClosed = {}"
| "router_timers RSessionInitPending = {TIMER_SESSION_INIT}"
| "router_timers RInSession = {TIMER_HEARTBEAT, TIMER_HEARTBEAT_MISSED}"
| "router_timers RTerminating = {TIMER_TERMINATION}"
| "router_timers RTerminated = {TIMER_SESSION_INIT}"

abbreviation router_quiet :: "('n, 'm) router_session_fsm \<Rightarrow> ('n, 'm) router_result \<Rightarrow> bool" where
  "router_quiet \<equiv> quiet (\<lambda>fsm. (r_state fsm, r_config fsm))"

abbreviation router_tame ::
  "('n, 'm) fsm_event \<Rightarrow> ('n, 'm) router_session_fsm \<Rightarrow> ('n, 'm) router_result \<Rightarrow> bool" where
  "router_tame \<equiv> tame r_config (\<lambda>fsm. router_phase (r_state fsm)) (\<lambda>fsm. router_timers (r_state fsm))"

lemma router_phase_Ended [simp]: "router_phase st = Ended \<longleftrightarrow> st = RTerminated"
  by (cases st) auto

lemma router_reset_calm [simp]: "list_all calm (router_reset fsm)"
  by (auto simp: router_reset_def heartbeat_reset_action_def split: option.splits)

lemmas router_message_defs =
  router_destination_up_def router_destination_update_def router_destination_down_def
  router_destination_down_response_def router_session_update_def router_session_update_response_def
  router_announce_response_def router_link_characteristics_response_def

lemmas router_command_defs =
  router_drop_destination_def router_request_link_characteristics_def router_session_addresses_def
  router_announce_destination_def

lemma router_messages_quiet:
  "router_quiet fsm (router_destination_up P fsm msg)"
  "router_quiet fsm (router_destination_update P fsm msg)"
  "router_quiet fsm (router_destination_down fsm msg)"
  "router_quiet fsm (router_destination_down_response fsm msg)"
  "router_quiet fsm (router_session_update P fsm msg)"
  "router_quiet fsm (router_session_update_response fsm)"
  "router_quiet fsm (router_announce_response P fsm msg)"
  "router_quiet fsm (router_link_characteristics_response fsm msg)"
  by (auto simp: router_message_defs Let_def split: prod.splits intro!: quiet_try)

lemma router_commands_quiet:
  "router_quiet fsm (router_drop_destination fsm mac)"
  "router_quiet fsm (router_request_link_characteristics fsm mac requested)"
  "router_quiet fsm (router_session_addresses P fsm changes)"
  "router_quiet fsm (router_announce_destination fsm mac)"
  by (auto simp: router_command_defs Let_def split: prod.splits intro!: quiet_try
      dest: local_update_calm)

lemma router_in_session_message_quiet:
  assumes "message_type msg \<noteq> SESSION_TERMINATION"
  shows "router_quiet fsm (router_in_session_message P fsm msg) \<or>
    router_in_session_message P fsm msg = router_protocol_error fsm (Status UNEXPECTED_MESSAGE [])"
  using assms by (simp add: router_in_session_message_def Let_def router_messages_quiet)


text \<open>The laws of one step that do not need the invariant.\<close>

lemma router_tame_quiet:
  "router_quiet fsm r \<Longrightarrow> r_state fsm = RInSession \<Longrightarrow> router_tame e fsm r"
  by (rule tame_quiet) auto

lemma router_tame_protocol_error: "router_tame e fsm (router_protocol_error fsm status)"
  using expire_subset [of _ e]
  by (cases status; cases "r_state fsm")
    (force simp: tame_def router_protocol_error_def phase_step_iff)+

lemma router_tame_closed: "r_state fsm = RClosed \<Longrightarrow> router_tame e fsm (router_closed_event fsm e)"
  by (cases e)
    (auto simp: router_closed_event_def router_tcp_connected_def tame_def phase_step_iff kinded.simps(1) timer_ids)

lemma router_established_facts:
  "notices (router_established_actions fsm) = [UpNotice]"
  "armed_after T (router_established_actions fsm) \<subseteq>
     insert TIMER_HEARTBEAT_MISSED (insert TIMER_HEARTBEAT (T - {TIMER_SESSION_INIT}))"
  "list_all kinded (router_established_actions fsm)"
proof -
  show "notices (router_established_actions fsm) = [UpNotice]"
    by (simp add: router_established_actions_def calm_actions(1))
  show "list_all kinded (router_established_actions fsm)"
    by (simp add: router_established_actions_def calm_kinded)
  show "armed_after T (router_established_actions fsm) \<subseteq>
     insert TIMER_HEARTBEAT_MISSED (insert TIMER_HEARTBEAT (T - {TIMER_SESSION_INIT}))"
    using calm_actions(2) [OF router_reset_calm, of "insert TIMER_HEARTBEAT (T - {TIMER_SESSION_INIT})" fsm]
    by (simp add: router_established_actions_def)
qed

lemma router_tame_initialization_response:
  assumes "r_state fsm = RSessionInitPending"
  shows "router_tame (RecvMessage msg) fsm (router_initialization_response P fsm msg)"
proof (cases "(case extract_status msg of None \<Rightarrow> SUCCESS | Some s \<Rightarrow> s) = SUCCESS")
  case True
  show ?thesis
  proof (rule tame_step)
    show "router_initialization_response P fsm msg =
        Inr (router_established P fsm msg, router_established_actions (router_established P fsm msg))"
      using True by (simp add: router_initialization_response_def Let_def)
    fix T assume "T \<subseteq> router_timers (r_state fsm)"
    with router_established_facts(2) [of T "router_established P fsm msg"] assms
    show "armed_after (expire T (RecvMessage msg)) (router_established_actions (router_established P fsm msg))
        \<subseteq> router_timers (r_state (router_established P fsm msg))"
      by (auto simp: router_established_def)
  qed (use assms in \<open>simp_all add: router_established_def router_established_facts(1,3) phase_step_iff\<close>)
qed (simp add: router_initialization_response_def Let_def router_tame_protocol_error)

lemma router_tame_init: "r_state fsm = RSessionInitPending \<Longrightarrow> router_tame e fsm (router_init_event P fsm e)"
proof (cases e)
  case (RecvMessage msg)
  assume "r_state fsm = RSessionInitPending"
  then show ?thesis
    by (auto simp: RecvMessage router_init_event_def router_tame_initialization_response
        router_init_other_message_def phase_step_iff intro!: tame_step)
qed (auto simp: router_init_event_def router_init_timeout_def router_init_tcp_closed_def
    router_init_shutdown_def phase_step_iff intro!: tame_step)

lemma router_tame_terminating: "r_state fsm = RTerminating \<Longrightarrow> router_tame e fsm (router_terminating_event fsm e)"
  by (cases e) (auto simp: router_terminating_event_def router_termination_response_def
    router_termination_timeout_def router_terminating_tcp_closed_def phase_step_iff timer_kind_of_iff
    simp del: timer_kind_of.simps intro!: tame_step)

lemma router_tame_terminators:
  assumes st: "r_state fsm = RInSession"
  shows "router_tame (RecvMessage msg) fsm (router_session_termination fsm msg)"
    and "router_tame (AppShutdown reason) fsm (router_shutdown fsm reason)"
    and "router_tame TcpClosed fsm (router_tcp_closed fsm)"
    and "router_tame (TimerExpired i TkHeartbeatMissed) fsm (router_heartbeat_missed fsm)"
proof -
  show "router_tame (RecvMessage msg) fsm (router_session_termination fsm msg)"
    using st by (intro tame_step [OF router_session_termination_def [unfolded Let_def]])
      (auto simp: phase_step_iff)
  show "router_tame (AppShutdown reason) fsm (router_shutdown fsm reason)"
    using st by (intro tame_step [OF router_shutdown_def]) (auto simp: phase_step_iff)
  show "router_tame TcpClosed fsm (router_tcp_closed fsm)"
    using st by (intro tame_step [OF router_tcp_closed_def]) (auto simp: phase_step_iff)
  show "router_tame (TimerExpired i TkHeartbeatMissed) fsm (router_heartbeat_missed fsm)"
    using st by (intro tame_step [OF router_heartbeat_missed_def])
      (auto simp: phase_step_iff timer_kind_of_iff simp del: timer_kind_of.simps)
qed

lemma router_tame_in_session:
  assumes st: "r_state fsm = RInSession"
  shows "router_tame e fsm (router_in_session_event P fsm e)"
proof (cases e)
  case (RecvMessage msg)
  show ?thesis
  proof (cases "message_type msg = SESSION_TERMINATION")
    case True
    then show ?thesis
      by (simp add: RecvMessage router_in_session_event_def router_in_session_message_def Let_def
          router_tame_terminators [OF st])
  next
    case False
    then show ?thesis
      using router_in_session_message_quiet [OF False, of fsm P] router_tame_quiet [OF _ st] router_tame_protocol_error
      by (auto simp: RecvMessage router_in_session_event_def)
  qed
next
  case (TimerExpired i k)
  then show ?thesis
    by (cases k) (simp_all add: router_in_session_event_def router_tame_terminators [OF st] router_tame_quiet [OF _ st])
qed (simp_all add: router_in_session_event_def router_tame_terminators [OF st] router_tame_quiet [OF _ st]
    router_commands_quiet)

lemma router_tame_match: "router_tame e fsm (router_match P fsm e)"
  by (cases "r_state fsm")
    (simp_all add: router_match_def router_tame_closed router_tame_init router_tame_in_session router_tame_terminating)

lemma router_tame_receive: "router_tame e fsm (router_receive P fsm e)"
  by (auto simp: router_receive_def router_tame_match router_tame_protocol_error
      split: fsm_event.splits option.splits sum.splits)

lemma router_tame_step: "router_tame e fsm (router_step P fsm e)"
  by (auto simp: router_step_def router_tame_receive tame_rejection intro!: tame_try
      split: option.splits sum.splits)

end
