(* ===== verification/Router_Correct.thy ===== *)
theory Router_Correct
  imports Router_Life
begin

text \<open>
  The invariant of the router's session state machine. The handlers keep it and never panic on a
  validated message or an accepted command, so that the machine is a \<open>session_machine\<close>, for every
  implementation of the packages (the sublocale \<open>router\<close>).
\<close>

section \<open>Metrics covered by the declared types\<close>

definition covers :: "data_item_type set \<Rightarrow> link_metrics \<Rightarrow> bool" where
  "covers types m =
     ((resources m \<noteq> None \<longrightarrow> RESOURCES \<in> types) \<and>
      (rlq_rx m \<noteq> None \<longrightarrow> RELATIVE_LINK_QUALITY_RECEIVE \<in> types) \<and>
      (rlq_tx m \<noteq> None \<longrightarrow> RELATIVE_LINK_QUALITY_TRANSMIT \<in> types) \<and>
      (mtu m \<noteq> None \<longrightarrow> MTU \<in> types))"

lemma covers_default [simp]: "covers types default_metrics"
  by (simp add: covers_def default_metrics_def)

lemma covers_merge_item:
  assumes "covers types m" "metric_type (type_id i) \<Longrightarrow> type_id i \<in> types"
  shows "covers types (snd (merge_item (found, m) i))"
  using assms by (cases i) (auto simp: covers_def metric_type_def)

lemma covers_merge:
  fixes msg :: "('n, 'm) message"
  assumes "covers types m" "metric_types msg \<subseteq> types"
  shows "covers types (snd (merge_link_metrics msg m))"
proof -
  have fold: "covers types (snd (foldl merge_item (found, m) is))"
    if "covers types m" "\<And>i. i \<in> set is \<Longrightarrow> metric_type (type_id i) \<Longrightarrow> type_id i \<in> types"
    for found m and "is" :: "('n, 'm) data_item list"
    using that
  proof (induction "is" arbitrary: found m)
    case (Cons i "is")
    obtain f' m' where "merge_item (found, m) i = (f', m')" by (cases "merge_item (found, m) i")
    with covers_merge_item [OF Cons.prems(1), of i found] Cons show ?case by simp
  qed simp
  from assms(2) have "type_id i \<in> types" if "i \<in> set (data_items msg)" "metric_type (type_id i)" for i
    using that by (auto simp: metric_types_def)
  with fold [OF assms(1)] show ?thesis by (simp add: merge_link_metrics_def)
qed

section \<open>Address ownership\<close>

context ip_nets
begin

lemma canonical_address_changes:
  "addrs_canonical P (added (destination_address_changes P fsm mac msg)) =
     added (destination_address_changes P fsm mac msg)"
  "addrs_canonical P (removed (destination_address_changes P fsm mac msg)) =
     removed (destination_address_changes P fsm mac msg)"
proof -
  let ?c = "from_message P msg"
  have "addrs_canonical P (added ?c) = added ?c" "addrs_canonical P (removed ?c) = removed ?c"
    using arg_cong [OF canonical_from_message [of msg], of added]
      arg_cong [OF canonical_from_message [of msg], of removed]
    by (simp_all add: changes_canonical_def)
  then show "addrs_canonical P (added (destination_address_changes P fsm mac msg)) =
     added (destination_address_changes P fsm mac msg)"
    "addrs_canonical P (removed (destination_address_changes P fsm mac msg)) =
     removed (destination_address_changes P fsm mac msg)"
    by (cases "added ?c"; simp add: destination_address_changes_def Let_def addrs_canonical_def
        retain_family_def map_filter_id)+
qed

lemma address_changes_free:
  assumes "x \<in> addr_set (added (destination_address_changes P fsm mac msg))"
    and "x \<notin> addr_set (removed (destination_address_changes P fsm mac msg))"
  shows "x \<notin> addr_set (r_peer_addresses fsm)"
    and "(m, d) \<in> set (r_destinations fsm) \<Longrightarrow> m \<noteq> mac \<Longrightarrow> x \<notin> addr_set (rd_addrs d)"
proof -
  have "x \<notin> addr_set (r_peer_addresses fsm) \<and>
    ((m, d) \<in> set (r_destinations fsm) \<longrightarrow> m \<noteq> mac \<longrightarrow> x \<notin> addr_set (rd_addrs d))"
    using assms
    by (cases x) (fastforce simp: destination_address_changes_def Let_def retain_family_def list_ex_iff)+
  then show "x \<notin> addr_set (r_peer_addresses fsm)"
    and "(m, d) \<in> set (r_destinations fsm) \<Longrightarrow> m \<noteq> mac \<Longrightarrow> x \<notin> addr_set (rd_addrs d)"
    by blast+
qed

text \<open>What a destination holds after a message that names it: what it held, or values that no other
  destination and not the peer hold.\<close>

lemma applied_addresses:
  assumes "x \<in> addr_set (apply_lenient P (destination_address_changes P fsm mac msg) cur)"
  shows "x \<in> addr_set cur \<or>
    (x \<notin> addr_set (r_peer_addresses fsm) \<and>
     (\<forall>(m, d) \<in> set (r_destinations fsm). m \<noteq> mac \<longrightarrow> x \<notin> addr_set (rd_addrs d)))"
  using assms address_changes_free [of x fsm mac msg]
  by (auto simp: addr_set_lenient canonical_address_changes)

end

section \<open>Pending transactions\<close>

text \<open>
  The tracker of an established session: the session scope holds a Session Update at most, and the
  pending request of a destination fits what the role knows of it.
\<close>

definition pending_ok :: "(mac_address \<Rightarrow> request_kind \<Rightarrow> bool) \<Rightarrow> transaction_tracker \<Rightarrow> bool" where
  "pending_ok fits tx =
     (session_pending tx \<in> {None, Some \<lparr>req_kind = ReqSessionUpdate\<rparr>} \<and>
      (\<forall>m q. per_destination tx m = Some q \<longrightarrow> fits m (req_kind q)))"

lemma pending_ok_default [simp]: "pending_ok fits default_tracker"
  by (simp add: pending_ok_def default_tracker_def)

lemma pending_ok_fits: "pending_ok fits tx \<Longrightarrow> per_destination tx m = Some q \<Longrightarrow> fits m (req_kind q)"
  by (simp add: pending_ok_def)

lemma pending_ok_idle:
  assumes "pending_ok fits tx" "per_destination tx mac = None"
    and "\<And>m k. m \<noteq> mac \<Longrightarrow> fits m k \<Longrightarrow> fits' m k"
  shows "pending_ok fits' tx"
  using assms unfolding pending_ok_def by (metis option.distinct(1))

lemma pending_ok_close:
  assumes "pending_ok fits tx" "\<And>m k. m \<noteq> mac \<Longrightarrow> fits m k \<Longrightarrow> fits' m k"
  shows "pending_ok fits' (snd (close_destination tx mac))"
  using assms by (simp add: pending_ok_def close_destination_def)

lemma pending_ok_open:
  assumes "pending_ok fits tx" "fits mac k"
  shows "pending_ok fits (tx\<lparr>per_destination := (per_destination tx)(mac \<mapsto> \<lparr>req_kind = k\<rparr>)\<rparr>)"
  using assms by (simp add: pending_ok_def)

lemma pending_ok_session:
  assumes "pending_ok fits tx" "s \<in> {None, Some \<lparr>req_kind = ReqSessionUpdate\<rparr>}"
  shows "pending_ok fits (tx\<lparr>session_pending := s\<rparr>)"
  using assms by (simp add: pending_ok_def)

section \<open>The invariant\<close>

text \<open>
  The table of destinations: every entry is up, fits the configured address format, holds no address
  twice and only declared metrics, and no two entries share an address.
\<close>

definition table_ok ::
  "data_item_type set \<Rightarrow> mac_address_format \<Rightarrow> (mac_address \<rightharpoonup> ('n, 'm) router_destination) \<Rightarrow> bool" where
  "table_ok types format M =
     ((\<forall>m d. M m = Some d \<longrightarrow> rd_up d \<and> accepts format m \<and> addrs_distinct (rd_addrs d) \<and>
         covers types (rd_metrics d)) \<and>
      (\<forall>m d m' d'. M m = Some d \<longrightarrow> M m' = Some d' \<longrightarrow> m \<noteq> m' \<longrightarrow>
         addr_set (rd_addrs d) \<inter> addr_set (rd_addrs d') = {}))"

text \<open>
  The pending transactions: a pending Destination Down or Link Characteristics Request belongs to a
  known destination, a pending Announce to an unknown one.
\<close>

definition pending_fits :: "mac_address set \<Rightarrow> mac_address \<Rightarrow> request_kind \<Rightarrow> bool" where
  "pending_fits D m k =
     (if m \<in> D then k \<in> {ReqDestinationDown, ReqLinkCharacteristics} else k = ReqDestinationAnnounce)"

definition router_inv :: "('n, 'm) packages \<Rightarrow> ('n, 'm) router_session_fsm \<Rightarrow> bool" where
  "router_inv P fsm =
     (distinct (map fst (r_destinations fsm)) \<and>
      table_ok (r_session_metric_types fsm) (cfg_mac_address_format (r_config fsm))
        (map_of (r_destinations fsm)) \<and>
      pending_ok (pending_fits (dom (map_of (r_destinations fsm)))) (r_tx fsm) \<and>
      covers (r_session_metric_types fsm) (r_session_metrics fsm) \<and>
      addrs_canonical P (r_local_addresses fsm) = r_local_addresses fsm \<and>
      addrs_distinct (r_local_addresses fsm) \<and>
      (r_state fsm \<in> {RClosed, RSessionInitPending} \<longrightarrow>
         r_destinations fsm = [] \<and> r_session_metrics fsm = default_metrics) \<and>
      (r_state fsm = RInSession \<longrightarrow>
         (\<exists>d. r_peer_heartbeat_interval fsm = Some d \<and> 10 ^ 9 \<le> d \<and> d < 2 ^ 32 * 10 ^ 6)))"

abbreviation router_ok :: "('n, 'm) packages \<Rightarrow> ('n, 'm) router_result \<Rightarrow> bool" where
  "router_ok P \<equiv> keeps (router_inv P)"

lemma table_ok_insert:
  assumes "table_ok types format M" "rd_up d" "accepts format mac" "addrs_distinct (rd_addrs d)"
    and "covers types (rd_metrics d)"
    and "\<And>m d'. M m = Some d' \<Longrightarrow> m \<noteq> mac \<Longrightarrow> addr_set (rd_addrs d) \<inter> addr_set (rd_addrs d') = {}"
  shows "table_ok types format (M(mac \<mapsto> d))"
  using assms unfolding table_ok_def by (auto simp: Int_commute split: if_splits)

lemma table_ok_remove:
  "table_ok types format M \<Longrightarrow> table_ok types format (M(mac := None))"
  unfolding table_ok_def by (auto split: if_splits)

lemma table_ok_map:
  assumes "table_ok types format M"
    and "\<And>d. rd_up (f d) = rd_up d \<and> rd_addrs (f d) = rd_addrs d"
    and "\<And>d. covers types (rd_metrics d) \<Longrightarrow> covers types (rd_metrics (f d))"
  shows "table_ok types format (map_option f \<circ> M)"
  using assms unfolding table_ok_def by (auto simp: assms(2) map_option_case split: option.splits)

section \<open>Handlers keep the invariant\<close>

lemma router_invD:
  assumes "router_inv P fsm"
  shows "distinct (map fst (r_destinations fsm))"
    and "table_ok (r_session_metric_types fsm) (cfg_mac_address_format (r_config fsm))
      (map_of (r_destinations fsm))"
    and "pending_ok (pending_fits (dom (map_of (r_destinations fsm)))) (r_tx fsm)"
    and "covers (r_session_metric_types fsm) (r_session_metrics fsm)"
  using assms by (simp_all add: router_inv_def)

lemma router_inv_change:
  assumes "router_inv P fsm" "r_state fsm = RInSession"
    and "distinct (map fst D)" "pending_ok (pending_fits (dom (map_of D))) tx"
    and "table_ok (r_session_metric_types fsm) (cfg_mac_address_format (r_config fsm)) (map_of D)"
  shows "router_inv P (fsm\<lparr>r_destinations := D, r_tx := tx\<rparr>)"
  using assms by (simp add: router_inv_def)

lemma router_swap:
  "fsm\<lparr>r_tx := tx, r_destinations := D\<rparr> = fsm\<lparr>r_destinations := D, r_tx := tx\<rparr>"
  by (cases fsm) simp

lemma address_changes_tx [simp]:
  "destination_address_changes P (fsm\<lparr>r_tx := tx\<rparr>) mac msg = destination_address_changes P fsm mac msg"
  by (simp add: destination_address_changes_def retain_family_def)

lemma router_inv_tx:
  assumes "router_inv P fsm" "pending_ok (pending_fits (dom (map_of (r_destinations fsm)))) tx"
  shows "router_inv P (fsm\<lparr>r_tx := tx\<rparr>)"
  using assms by (simp add: router_inv_def)

lemma router_inv_end:
  assumes "router_inv P fsm" "s \<in> {RTerminating, RTerminated}"
  shows "router_inv P (fsm\<lparr>r_state := s\<rparr>)" "router_inv P (fsm\<lparr>r_termination_reason := c, r_state := s\<rparr>)"
    "router_inv P (fsm\<lparr>r_state := s, r_termination_reason := c\<rparr>)"
  using assms by (auto simp: router_inv_def)

lemma router_inv_start:
  "router_inv P fsm \<Longrightarrow> r_state fsm = RClosed \<Longrightarrow> router_inv P (fsm\<lparr>r_state := RSessionInitPending\<rparr>)"
  by (auto simp: router_inv_def)

lemma router_up_iff:
  "router_inv P fsm \<Longrightarrow> router_up fsm mac \<longleftrightarrow> mac \<in> dom (map_of (r_destinations fsm))"
  by (auto simp: router_inv_def table_ok_def router_up_def split: option.splits)

lemma dom_update_other:
  "dom (M(mac \<mapsto> d)) - {mac} = dom M - {mac}" "dom (M(mac := None)) - {mac} = dom M - {mac}"
  by auto

lemma checked_message:
  assumes "router_check_message P fsm msg = Inr ()" "r_state fsm = RInSession"
  shows "validate_message P msg True False (cfg_advertised_extensions (r_config fsm)) = Inr ()"
    and "validate_mac_format msg (cfg_mac_address_format (r_config fsm)) = Inr ()"
    and "metric_types msg \<subseteq> r_session_metric_types fsm"
    and "validate_transaction msg (r_tx fsm)
      (case extract_destination_mac msg of None \<Rightarrow> False | Some mac \<Rightarrow> router_up fsm mac) = Inr ()"
    and "message_type msg = SESSION_UPDATE \<Longrightarrow>
      \<exists>a. apply_strict P (from_message P msg) (r_peer_addresses fsm) = Inr a"
  using assms
  by (auto simp: router_check_message_def Let_def try_then_eq_Inr metric_types_def list_ex_iff
      split: if_splits)

context dlep_packages
begin

lemma router_new_destination:
  assumes inv: "router_inv P fsm" and st: "r_state fsm = RInSession"
    and types: "metric_types msg \<subseteq> r_session_metric_types fsm"
    and mac: "accepts (cfg_mac_address_format (r_config fsm)) mac"
    and tx: "pending_ok (pending_fits (insert mac (dom (map_of (r_destinations fsm))))) tx"
  shows "router_inv P (fsm\<lparr>
    r_destinations := AList.update mac
      \<lparr>rd_up = True, rd_metrics = snd (merge_link_metrics msg (r_session_metrics fsm)),
       rd_addrs = apply_lenient P (destination_address_changes P fsm mac msg) no_addrs\<rparr>
      (r_destinations fsm), r_tx := tx\<rparr>)"
proof (rule router_inv_change [OF inv st])
  show "distinct (map fst (AList.update mac d (r_destinations fsm)))" for d
    using router_invD(1) [OF inv] by (simp add: distinct_update)
  show "pending_ok (pending_fits (dom (map_of (AList.update mac d (r_destinations fsm))))) tx" for d
    using tx by (simp add: update_conv')
  show "table_ok (r_session_metric_types fsm) (cfg_mac_address_format (r_config fsm))
     (map_of (AList.update mac
      \<lparr>rd_up = True, rd_metrics = snd (merge_link_metrics msg (r_session_metrics fsm)),
       rd_addrs = apply_lenient P (destination_address_changes P fsm mac msg) no_addrs\<rparr>
      (r_destinations fsm)))"
    unfolding update_conv'
  proof (rule table_ok_insert [OF router_invD(2) [OF inv]])
    fix m d' assume "map_of (r_destinations fsm) m = Some d'" "m \<noteq> mac"
    then show "addr_set (rd_addrs
        \<lparr>rd_up = True, rd_metrics = snd (merge_link_metrics msg (r_session_metrics fsm)),
         rd_addrs = apply_lenient P (destination_address_changes P fsm mac msg) no_addrs\<rparr>)
        \<inter> addr_set (rd_addrs d') = {}"
      using applied_addresses [of _ fsm mac msg no_addrs] by (force dest: map_of_SomeD)
  qed (simp_all add: mac addrs_distinct_lenient covers_merge [OF router_invD(4) [OF inv] types])
qed

lemma router_destination_up_ok:
  assumes inv: "router_inv P fsm" and st: "r_state fsm = RInSession"
    and chk: "router_check_message P fsm msg = Inr ()" and mt: "message_type msg = DESTINATION_UP"
  shows "router_ok P (router_destination_up P fsm msg)"
proof -
  note c = checked_message [OF chk st]
  obtain mac where mac: "extract_destination_mac msg = Some mac"
    using validated_mac [OF c(1)] by (auto simp: mt required_items_def)
  have idle: "per_destination (r_tx fsm) mac = None"
    by (rule transaction_idle [OF c(4) mac]) (simp add: mt)
  have "pending_ok (pending_fits (insert mac (dom (map_of (r_destinations fsm))))) (r_tx fsm)"
    by (rule pending_ok_idle [OF router_invD(3) [OF inv] idle]) (simp add: pending_fits_def split: if_splits)
  from router_new_destination [OF inv st c(3) validate_mac_format_accepts [OF c(2) mac] this]
  show ?thesis by (simp add: router_destination_up_def mac Let_def)
qed

lemma router_announce_response_ok:
  assumes inv: "router_inv P fsm" and st: "r_state fsm = RInSession"
    and chk: "router_check_message P fsm msg = Inr ()"
    and mt: "message_type msg = DESTINATION_ANNOUNCE_RESPONSE"
  shows "router_ok P (router_announce_response P fsm msg)"
proof -
  note c = checked_message [OF chk st]
  obtain mac where mac: "extract_destination_mac msg = Some mac"
    using validated_mac [OF c(1)] by (auto simp: mt required_items_def)
  let ?tx = "snd (close_destination (r_tx fsm) mac)"
  have "pending_ok (pending_fits (insert mac (dom (map_of (r_destinations fsm))))) ?tx"
    by (rule pending_ok_close [OF router_invD(3) [OF inv]]) (simp add: pending_fits_def split: if_splits)
  from router_new_destination [OF inv st c(3) validate_mac_format_accepts [OF c(2) mac] this]
  have "router_ok P (Inr (fsm\<lparr>r_tx := ?tx, r_destinations := AList.update mac
      \<lparr>rd_up = True, rd_metrics = snd (merge_link_metrics msg (r_session_metrics fsm)),
       rd_addrs = apply_lenient P (destination_address_changes P fsm mac msg) no_addrs\<rparr>
      (r_destinations fsm)\<rparr>, acts))" for acts
    by (simp add: router_swap)
  moreover have "router_inv P (fsm\<lparr>r_tx := ?tx\<rparr>)"
    by (rule router_inv_tx [OF inv]) (rule pending_ok_close [OF router_invD(3) [OF inv]])
  ultimately show ?thesis by (simp add: router_announce_response_def mac Let_def router_swap)
qed

lemma router_replace_destination:
  assumes inv: "router_inv P fsm" and st: "r_state fsm = RInSession"
    and d: "map_of (r_destinations fsm) mac = Some d"
    and tx: "pending_ok (pending_fits (dom (map_of (r_destinations fsm)))) tx"
    and d': "rd_up d' = rd_up d" "covers (r_session_metric_types fsm) (rd_metrics d')"
      "addrs_distinct (rd_addrs d')"
    and free: "\<And>x. x \<in> addr_set (rd_addrs d') \<Longrightarrow> x \<in> addr_set (rd_addrs d) \<or>
      (\<forall>(m, e) \<in> set (r_destinations fsm). m \<noteq> mac \<longrightarrow> x \<notin> addr_set (rd_addrs e))"
  shows "router_inv P (fsm\<lparr>r_destinations := AList.update mac d' (r_destinations fsm), r_tx := tx\<rparr>)"
proof (rule router_inv_change [OF inv st])
  note tab = router_invD(2) [OF inv]
  show "distinct (map fst (AList.update mac d' (r_destinations fsm)))"
    using router_invD(1) [OF inv] by (simp add: distinct_update)
  have "insert mac (dom (map_of (r_destinations fsm))) = dom (map_of (r_destinations fsm))"
    using d by auto
  then show "pending_ok (pending_fits (dom (map_of (AList.update mac d' (r_destinations fsm))))) tx"
    using tx by (simp add: update_conv')
  show "table_ok (r_session_metric_types fsm) (cfg_mac_address_format (r_config fsm))
      (map_of (AList.update mac d' (r_destinations fsm)))"
    unfolding update_conv'
  proof (rule table_ok_insert [OF tab])
    show "rd_up d'" "accepts (cfg_mac_address_format (r_config fsm)) mac"
      using tab d d'(1) by (auto simp: table_ok_def)
    fix m e assume e: "map_of (r_destinations fsm) m = Some e" "m \<noteq> mac"
    have "addr_set (rd_addrs d) \<inter> addr_set (rd_addrs e) = {}"
      using tab d e unfolding table_ok_def by blast
    with free e show "addr_set (rd_addrs d') \<inter> addr_set (rd_addrs e) = {}"
      by (force dest: map_of_SomeD)
  qed (use d' in auto)
qed

lemma router_destination_update_ok:
  assumes inv: "router_inv P fsm" and st: "r_state fsm = RInSession"
    and chk: "router_check_message P fsm msg = Inr ()"
    and mt: "message_type msg = DESTINATION_UPDATE"
  shows "router_ok P (router_destination_update P fsm msg)"
proof -
  note c = checked_message [OF chk st]
  obtain mac where mac: "extract_destination_mac msg = Some mac"
    using validated_mac [OF c(1)] by (auto simp: mt required_items_def)
  have "router_up fsm mac" using transaction_known [OF c(4) mac] by (simp add: mt mac)
  then obtain d where d: "map_of (r_destinations fsm) mac = Some d"
    using router_up_iff [OF inv] by auto
  have dok: "covers (r_session_metric_types fsm) (rd_metrics d)" "addrs_distinct (rd_addrs d)"
    using router_invD(2) [OF inv] d by (auto simp: table_ok_def)
  obtain f m where m: "merge_link_metrics msg (rd_metrics d) = (f, m)"
    by (cases "merge_link_metrics msg (rd_metrics d)")
  let ?d = "d\<lparr>rd_metrics := m,
    rd_addrs := apply_lenient P (destination_address_changes P fsm mac msg) (rd_addrs d)\<rparr>"
  have "router_inv P (fsm\<lparr>r_destinations := AList.update mac ?d (r_destinations fsm), r_tx := r_tx fsm\<rparr>)"
  proof (rule router_replace_destination [OF inv st d router_invD(3) [OF inv]])
    fix x assume "x \<in> addr_set (rd_addrs ?d)"
    then show "x \<in> addr_set (rd_addrs d) \<or>
      (\<forall>(m, e) \<in> set (r_destinations fsm). m \<noteq> mac \<longrightarrow> x \<notin> addr_set (rd_addrs e))"
      using applied_addresses [of x fsm mac msg "rd_addrs d"] by auto
  qed (use covers_merge [OF dok(1) c(3)] m dok(2) in \<open>simp_all add: addrs_distinct_lenient\<close>)
  then show ?thesis by (simp add: router_destination_update_def mac d m Let_def)
qed

lemma router_remove_destination:
  assumes inv: "router_inv P fsm" and st: "r_state fsm = RInSession"
    and tx: "pending_ok (pending_fits (dom (map_of (r_destinations fsm)) - {mac})) tx"
  shows "router_inv P (fsm\<lparr>r_destinations := AList.delete mac (r_destinations fsm), r_tx := tx\<rparr>)"
proof (rule router_inv_change [OF inv st])
  show "distinct (map fst (AList.delete mac (r_destinations fsm)))"
    using router_invD(1) [OF inv] by (simp add: distinct_delete)
  show "pending_ok (pending_fits (dom (map_of (AList.delete mac (r_destinations fsm))))) tx"
    using tx by (simp add: delete_conv')
  show "table_ok (r_session_metric_types fsm) (cfg_mac_address_format (r_config fsm))
      (map_of (AList.delete mac (r_destinations fsm)))"
    unfolding delete_conv' by (rule table_ok_remove [OF router_invD(2) [OF inv]])
qed

lemma router_destination_down_ok:
  assumes inv: "router_inv P fsm" and st: "r_state fsm = RInSession"
    and chk: "router_check_message P fsm msg = Inr ()"
    and mt: "message_type msg = DESTINATION_DOWN"
  shows "router_ok P (router_destination_down fsm msg)"
proof -
  note c = checked_message [OF chk st]
  obtain mac where mac: "extract_destination_mac msg = Some mac"
    using validated_mac [OF c(1)] by (auto simp: mt required_items_def)
  have idle: "per_destination (r_tx fsm) mac = None"
    by (rule transaction_idle [OF c(4) mac]) (simp add: mt)
  have "pending_ok (pending_fits (dom (map_of (r_destinations fsm)) - {mac})) (r_tx fsm)"
    by (rule pending_ok_idle [OF router_invD(3) [OF inv] idle]) (simp add: pending_fits_def split: if_splits)
  from router_remove_destination [OF inv st this]
  show ?thesis by (simp add: router_destination_down_def mac Let_def)
qed

lemma router_destination_down_response_ok:
  assumes inv: "router_inv P fsm" and st: "r_state fsm = RInSession"
    and chk: "router_check_message P fsm msg = Inr ()"
    and mt: "message_type msg = DESTINATION_DOWN_RESPONSE"
  shows "router_ok P (router_destination_down_response fsm msg)"
proof -
  note c = checked_message [OF chk st]
  obtain mac where mac: "extract_destination_mac msg = Some mac"
    using validated_mac [OF c(1)] by (auto simp: mt required_items_def)
  obtain s where s: "extract_status msg = Some s"
    using validated_status [OF c(1)] by (auto simp: mt required_items_def)
  have "pending_ok (pending_fits (dom (map_of (r_destinations fsm)) - {mac})) (snd (close_destination (r_tx fsm) mac))"
    by (rule pending_ok_close [OF router_invD(3) [OF inv]]) (simp add: pending_fits_def split: if_splits)
  from router_remove_destination [OF inv st this]
  show ?thesis by (simp add: router_destination_down_response_def mac s Let_def router_swap)
qed

lemma router_link_characteristics_response_ok:
  assumes inv: "router_inv P fsm" and st: "r_state fsm = RInSession"
    and chk: "router_check_message P fsm msg = Inr ()"
    and mt: "message_type msg = LINK_CHARACTERISTICS_RESPONSE"
  shows "router_ok P (router_link_characteristics_response fsm msg)"
proof -
  note c = checked_message [OF chk st]
  obtain mac where mac: "extract_destination_mac msg = Some mac"
    using validated_mac [OF c(1)] by (auto simp: mt required_items_def)
  obtain code t where s: "find_map (\<lambda>item. case item of Status code text \<Rightarrow> Some (code, text) | _ \<Rightarrow> None)
      (data_items msg) = Some (code, t)"
    using validated_status [OF c(1)] by (auto simp: mt required_items_def)
  have "per_destination (r_tx fsm) mac = Some \<lparr>req_kind = ReqLinkCharacteristics\<rparr>"
    by (rule transaction_response [OF c(4) mac]) (simp add: mt response_kind_def)
  then have "pending_fits (dom (map_of (r_destinations fsm))) mac ReqLinkCharacteristics"
    using router_invD(3) [OF inv] unfolding pending_ok_def by force
  then obtain d where d: "map_of (r_destinations fsm) mac = Some d"
    by (auto simp: pending_fits_def split: if_splits)
  let ?d = "d\<lparr>rd_metrics := snd (merge_link_metrics msg (rd_metrics d))\<rparr>"
  have dok: "covers (r_session_metric_types fsm) (rd_metrics d)" "addrs_distinct (rd_addrs d)"
    using router_invD(2) [OF inv] d by (auto simp: table_ok_def)
  have "router_inv P (fsm\<lparr>r_destinations := AList.update mac ?d (r_destinations fsm),
      r_tx := snd (close_destination (r_tx fsm) mac)\<rparr>)"
  proof (rule router_replace_destination [OF inv st d])
    show "pending_ok (pending_fits (dom (map_of (r_destinations fsm)))) (snd (close_destination (r_tx fsm) mac))"
      by (rule pending_ok_close [OF router_invD(3) [OF inv]])
  qed (use covers_merge [OF dok(1) c(3)] dok(2) in simp_all)
  then show ?thesis by (simp add: router_link_characteristics_response_def mac d s Let_def)
qed

lemma router_session_update_ok:
  assumes inv: "router_inv P fsm" and st: "r_state fsm = RInSession"
    and chk: "router_check_message P fsm msg = Inr ()"
    and mt: "message_type msg = SESSION_UPDATE"
  shows "router_ok P (router_session_update P fsm msg)"
proof -
  note c = checked_message [OF chk st]
  obtain a where a: "apply_strict P (from_message P msg) (r_peer_addresses fsm) = Inr a"
    using c(5) [OF mt] by blast
  obtain f m where m: "merge_link_metrics msg (r_session_metrics fsm) = (f, m)"
    by (cases "merge_link_metrics msg (r_session_metrics fsm)")
  let ?f = "\<lambda>d. d\<lparr>rd_metrics := snd (merge_link_metrics msg (rd_metrics d))\<rparr>"
  have cov: "covers (r_session_metric_types fsm) m"
    using covers_merge [OF router_invD(4) [OF inv] c(3)] m by simp
  have tab: "table_ok (r_session_metric_types fsm) (cfg_mac_address_format (r_config fsm))
      (map_option ?f \<circ> map_of (r_destinations fsm))"
    by (rule table_ok_map [OF router_invD(2) [OF inv]]) (use covers_merge [OF _ c(3)] in auto)
  have dom: "dom (map_option ?f \<circ> map_of (r_destinations fsm)) = dom (map_of (r_destinations fsm))"
    by auto
  show ?thesis
    using inv st cov tab
    by (cases f) (simp_all add: router_session_update_def a m Let_def router_inv_def map_of_map_values dom)
qed

lemma router_initialization_response_ok:
  assumes inv: "router_inv P fsm" and st: "r_state fsm = RSessionInitPending"
    and chk: "router_check_message P fsm msg = Inr ()"
    and mt: "message_type msg = SESSION_INITIALIZATION_RESPONSE"
  shows "router_inv P (router_established P fsm msg)"
proof -
  have v: "validate_message P msg True True (cfg_advertised_extensions (r_config fsm)) = Inr ()"
    using chk st by (auto simp: router_check_message_def Let_def try_then_eq_Inr)
  obtain d where d: "extract_heartbeat_interval msg = Some d" "10 ^ 9 \<le> d" "d < 2 ^ 32 * 10 ^ 6"
    using validated_heartbeat [OF v] by (auto simp: mt required_items_def)
  have "r_destinations fsm = []" "r_session_metrics fsm = default_metrics"
    using inv st by (simp_all add: router_inv_def)
  moreover have "covers (metric_types msg) (snd (merge_link_metrics msg default_metrics))"
    by (rule covers_merge) simp_all
  ultimately show ?thesis using inv d
    by (simp add: router_established_def router_inv_def table_ok_def)
qed

lemma router_protocol_error_ok:
  "router_inv P fsm \<Longrightarrow> router_ok P (router_protocol_error fsm (Status code text))"
  by (simp add: router_protocol_error_def router_inv_end)

lemma router_in_session_message_ok:
  assumes inv: "router_inv P fsm" and st: "r_state fsm = RInSession"
    and chk: "router_check_message P fsm msg = Inr ()"
  shows "router_ok P (router_in_session_message P fsm msg)"
proof -
  have "pending_ok (pending_fits (dom (map_of (r_destinations fsm)))) (snd (close_session (r_tx fsm)))"
    unfolding close_session_def snd_conv by (rule pending_ok_session [OF router_invD(3) [OF inv]]) simp
  then have "router_ok P (router_session_update_response fsm)"
    using router_inv_tx [OF inv] by (simp add: router_session_update_response_def)
  then show ?thesis
    using inv st
    by (simp add: router_in_session_message_def Let_def router_protocol_error_ok
        router_destination_up_ok [OF inv st chk] router_destination_update_ok [OF inv st chk]
        router_destination_down_ok [OF inv st chk] router_destination_down_response_ok [OF inv st chk]
        router_session_update_ok [OF inv st chk] router_announce_response_ok [OF inv st chk]
        router_link_characteristics_response_ok [OF inv st chk]
        router_session_termination_def router_inv_end)
qed

lemma router_open_ok:
  assumes inv: "router_inv P fsm" and idle: "per_destination (r_tx fsm) mac = None"
    and fits: "pending_fits (dom (map_of (r_destinations fsm))) mac k"
  shows "router_inv P (fsm\<lparr>r_tx := snd (open_destination (r_tx fsm) mac k)\<rparr>)"
  using router_inv_tx [OF inv pending_ok_open [OF router_invD(3) [OF inv] fits]] idle by simp

lemma router_session_addresses_ok:
  assumes inv: "router_inv P fsm"
  shows "router_ok P (router_session_addresses P fsm changes)"
proof -
  have can: "addrs_canonical P (r_local_addresses fsm) = r_local_addresses fsm"
    and dist: "addrs_distinct (r_local_addresses fsm)"
    using inv by (simp_all add: router_inv_def)
  from local_address_update [OF can dist refl, of "r_tx fsm" changes]
  obtain tx' local' acts where u: "apply_local_address_update P (r_tx fsm) (r_local_addresses fsm) changes =
      Inr (tx', local', acts)"
    and tx': "tx' = r_tx fsm \<or> tx' = (r_tx fsm)\<lparr>session_pending := Some \<lparr>req_kind = ReqSessionUpdate\<rparr>\<rparr>"
    and local': "local' = r_local_addresses fsm \<or> local' = apply_lenient P changes (r_local_addresses fsm)"
    by auto
  have "pending_ok (pending_fits (dom (map_of (r_destinations fsm)))) tx'"
    using tx' router_invD(3) [OF inv] pending_ok_session [OF router_invD(3) [OF inv]] by auto
  moreover have "addrs_canonical P local' = local' \<and> addrs_distinct local'"
    using local' can dist canonical_lenient [OF can] addrs_distinct_lenient [OF dist] by auto
  ultimately show ?thesis using inv by (simp add: router_session_addresses_def u router_inv_def)
qed

lemma router_command_ok:
  assumes inv: "router_inv P fsm" and c: "command e = Some c"
    and chk: "router_check_command P fsm e = Inr (Inr ())"
  shows "router_ok P (router_receive P fsm e)"
proof -
  from chk have st: "r_state fsm = RInSession" by (auto simp: router_check_command_def split: if_splits)
  note up = router_up_iff [OF inv]
  show ?thesis
  proof (cases e)
    case (AppDropDestination mac reason)
    with chk st have "per_destination (r_tx fsm) mac = None" "router_up fsm mac"
      by (auto simp: router_check_command_def destination_busy_def Let_def split: if_splits)
    then show ?thesis
      using router_open_ok [OF inv, of mac ReqDestinationDown] up st
      by (simp add: AppDropDestination router_receive_def router_match_def router_in_session_event_def
          router_drop_destination_def pending_fits_def)
  next
    case (AppAnnounceDestination mac)
    with chk st have "per_destination (r_tx fsm) mac = None" "\<not> router_up fsm mac"
      by (auto simp: router_check_command_def destination_busy_def Let_def split: if_splits)
    then show ?thesis
      using router_open_ok [OF inv, of mac ReqDestinationAnnounce] up st
      by (simp add: AppAnnounceDestination router_receive_def router_match_def router_in_session_event_def
          router_announce_destination_def pending_fits_def)
  next
    case (AppRequestLinkCharacteristics mac requested)
    with chk st have "per_destination (r_tx fsm) mac = None" "router_up fsm mac"
      by (auto simp: router_check_command_def destination_busy_def Let_def split: if_splits)
    then show ?thesis
      using router_open_ok [OF inv, of mac ReqLinkCharacteristics] up st
      by (simp add: AppRequestLinkCharacteristics router_receive_def router_match_def
          router_in_session_event_def router_request_link_characteristics_def pending_fits_def)
  next
    case (AppSessionAddresses changes)
    then show ?thesis using st router_session_addresses_ok [OF inv]
      by (simp add: router_receive_def router_match_def router_in_session_event_def)
  qed (use c chk st in \<open>simp_all add: router_check_command_def\<close>)
qed

lemma router_receive_message_ok:
  assumes inv: "router_inv P fsm"
  shows "router_ok P (router_receive P fsm (RecvMessage msg))"
proof (cases "r_state fsm \<in> {RSessionInitPending, RInSession}")
  case True
  have fatal: "\<exists>code t. item = Status code t" if "fatal_status msg = Some item" for item
    using fatal_status_Some [OF that] by blast
  have "router_ok P (router_match P fsm (RecvMessage msg))"
    if chk: "router_check_message P fsm msg = Inr ()"
    using True inv chk router_initialization_response_ok [OF inv _ chk] router_in_session_message_ok [OF inv _ chk]
    by (auto simp: router_match_def router_init_event_def router_in_session_event_def
        router_initialization_response_def Let_def router_protocol_error_ok router_init_other_message_def
        router_inv_end)
  with True fatal inv show ?thesis
    by (auto simp: router_receive_def router_protocol_error_ok split: option.splits sum.splits)
next
  case False
  then show ?thesis using inv
    by (cases "r_state fsm") (auto simp: router_receive_def router_match_def router_closed_event_def
        router_terminating_event_def router_termination_response_def router_inv_end)
qed

lemma router_receive_ok:
  assumes inv: "router_inv P fsm" and c: "command e = None"
  shows "router_ok P (router_receive P fsm e)"
proof (cases e)
  case (RecvMessage msg)
  then show ?thesis by (simp add: router_receive_message_ok [OF inv])
next
  case (ProtocolError code)
  then show ?thesis using inv by (simp add: router_receive_def router_protocol_error_ok)
qed (use inv c in \<open>auto simp: router_receive_def router_match_def router_closed_event_def
    router_tcp_connected_def router_init_event_def router_init_timeout_def router_init_tcp_closed_def
    router_init_shutdown_def router_in_session_event_def router_heartbeat_missed_def router_shutdown_def
    router_tcp_closed_def router_terminating_event_def router_termination_timeout_def
    router_terminating_tcp_closed_def router_inv_end router_inv_start split: router_session_state.splits\<close>)

lemma router_step_ok:
  assumes "router_inv P fsm"
  shows "router_ok P (router_step P fsm e)"
proof (cases "command e")
  case None
  then show ?thesis by (simp add: router_step_def router_receive_ok [OF assms])
next
  case (Some c)
  have "\<exists>r. router_check_command P fsm e = Inr r"
    using Some by (cases e) (auto simp: router_check_command_def Let_def split: option.splits)
  then obtain r where r: "router_check_command P fsm e = Inr r" by blast
  show ?thesis
    using assms Some router_command_ok [OF assms Some] r
    by (cases r) (simp_all add: router_step_def)
qed

end

lemma router_inv_initial: "router_inv P (router_with_config config)"
  by (simp add: router_inv_def router_with_config_def table_ok_def
      addrs_canonical_def no_addrs_def addrs_distinct_def)


sublocale dlep_packages \<subseteq> router:
  session_machine "router_step P" "router_inv P" "\<lambda>fsm. router_phase (r_state fsm)"
    "\<lambda>fsm. router_timers (r_state fsm)"
proof unfold_locales
  fix fsm fsm' :: "('n, 'm) router_session_fsm" and e acts T
  show "router_inv P fsm \<Longrightarrow> \<exists>fsm' acts. router_step P fsm e = Inr (fsm', acts)"
    using router_step_ok [of fsm e] by (auto simp: keeps_def)
  show "router_inv P fsm \<Longrightarrow> router_step P fsm e = Inr (fsm', acts) \<Longrightarrow> router_inv P fsm'"
    using router_step_ok [of fsm e] by (simp add: keeps_def)
  show "router_step P fsm e = Inr (fsm', acts) \<Longrightarrow>
      phase_step (router_phase (r_state fsm)) (notices acts) (router_phase (r_state fsm'))"
    using router_tame_step [of e fsm P] by (simp add: tame_def)
  have "router_phase s = Ended \<longleftrightarrow> s = RTerminated" for s by (cases s) auto
  then show "router_phase (r_state fsm) = Ended \<Longrightarrow> router_step P fsm e = Inr (fsm', acts) \<Longrightarrow>
      fsm' = fsm \<and> list_all is_rejection acts"
    using router_tame_step [of e fsm P] by (simp add: tame_def)
  show "T \<subseteq> router_timers (r_state fsm) \<Longrightarrow> timer_event T e \<Longrightarrow> router_step P fsm e = Inr (fsm', acts) \<Longrightarrow>
      armed_after (expire T e) acts \<subseteq> router_timers (r_state fsm')"
    using router_tame_step [of e fsm P] by (simp add: tame_def)
  show "router_step P fsm e = Inr (fsm', acts) \<Longrightarrow> list_all kinded acts"
    using router_tame_step [of e fsm P] by (simp add: tame_def)
qed

context dlep_packages
begin

lemma router_run_total:
  "\<exists>fsm acts. run_events (router_step P) (router_with_config config) es = Inr (fsm, acts) \<and> router_inv P fsm"
  by (rule router.run_total [OF router_inv_initial])

lemma router_run_inv:
  "run_events (router_step P) (router_with_config config) es = Inr (fsm, acts) \<Longrightarrow> router_inv P fsm"
  by (rule router.run_inv [OF router_inv_initial])

lemma router_run_notices:
  assumes "run_events (router_step P) (router_with_config config) es = Inr (fsm, acts)"
  shows "notices acts \<in> {[], [UpNotice], [DownNotice], [UpNotice, DownNotice]} \<and>
    (r_state fsm = RInSession \<longrightarrow> notices acts = [UpNotice]) \<and>
    (DownNotice \<in> set (notices acts) \<longrightarrow> r_state fsm = RTerminated)"
  using router.run_notices [OF _ assms]
  by (cases "r_state fsm") (auto simp: router_with_config_def)

lemma router_run_ended:
  assumes "r_state fsm = RTerminated" "run_events (router_step P) fsm es = Inr (fsm', acts)"
  shows "fsm' = fsm \<and> list_all is_rejection acts"
  by (rule router.run_ended) (use assms in simp_all)

lemma router_driven_timers:
  "driven (router_step P) (router_with_config config) fsm T \<Longrightarrow> T \<subseteq> router_timers (r_state fsm)"
  using router.driven_timers [of "router_with_config config" fsm T] .

end

end
