(* ===== verification/Session_Modem.thy ===== *)
theory Session_Modem
  imports Session_Machine
begin

text \<open>
  The session state machine of the modem (\<open>session_modem.rs\<close>): its state, the gates at the start of
  \<open>step\<close>, and one definition per arm of its match, as in \<open>Session_Router\<close>. Indexing the map of
  destinations (\<open>self.destinations[&mac]\<close>) is a lookup that panics on a missing key.
\<close>

section \<open>State\<close>

datatype modem_session_state =
  MListening | MAwaitingSessionInit | MInSession | MTerminating | MTerminated

record ('n, 'm) modem_destination =
  md_announced :: bool
  md_pending_metrics :: bool
  md_metrics :: link_metrics
  md_addrs :: "('n, 'm) destination_addrs"
  md_advertised_addrs :: "('n, 'm) destination_addrs"

record ('n, 'm) modem_session_fsm =
  m_state :: modem_session_state
  m_tx :: transaction_tracker
  m_destinations :: "(mac_address \<times> ('n, 'm) modem_destination) list"
  m_peer_addresses :: "('n, 'm) destination_addrs"
  m_local_addresses :: "('n, 'm) destination_addrs"
  m_session_metrics :: link_metrics
  m_config :: session_config
  m_termination_reason :: status_code
  m_peer_heartbeat_interval :: "duration option"
  m_peer_extensions :: "extension_id list"
  m_pending_link_requests :: "mac_address set"

type_synonym ('n, 'm) modem_result =
  "panic + (('n, 'm) modem_session_fsm \<times> ('n, 'm) fsm_action list)"

definition modem_with_config :: "session_config \<Rightarrow> ('n, 'm) modem_session_fsm" where
  "modem_with_config config = \<lparr>
     m_state = MListening,
     m_tx = default_tracker,
     m_destinations = [],
     m_peer_addresses = no_addrs,
     m_local_addresses = no_addrs,
     m_session_metrics = cfg_initial_metrics config,
     m_config = config,
     m_termination_reason = SUCCESS,
     m_peer_heartbeat_interval = None,
     m_peer_extensions = [],
     m_pending_link_requests = {}\<rparr>"

definition modem_default :: "('n, 'm) modem_session_fsm" where
  "modem_default = modem_with_config (default_config\<lparr>cfg_peer_description := str ''dlep-modem''\<rparr>)"

section \<open>Helpers\<close>

fun set_status_text :: "rstring \<Rightarrow> ('n, 'm) data_item list \<Rightarrow> ('n, 'm) data_item list" where
  "set_status_text t [] = []"
| "set_status_text t (Status code _ # items) = Status code t # items"
| "set_status_text t (item # items) = item # set_status_text t items"

definition build_link_characteristics_reply ::
  "mac_address \<Rightarrow> status_code \<Rightarrow> rstring \<Rightarrow> link_metrics \<Rightarrow> ('n, 'm) message" where
  "build_link_characteristics_reply mac status t metrics =
     (let message = build_link_characteristics_response mac status metrics in
      message\<lparr>data_items := set_status_text t (data_items message)\<rparr>)"

definition build_session_initialization_response :: "session_config \<Rightarrow> ('n, 'm) message" where
  "build_session_initialization_response config =
     push_metric_items
       (push_extensions_supported
         (with_item
           (with_item
             (with_item (message_new SESSION_INITIALIZATION_RESPONSE) (Status SUCCESS []))
             (HeartbeatInterval (local_heartbeat_interval config)))
           (PeerType \<lparr>smi = False\<rparr> (cfg_peer_description config)))
         (cfg_advertised_extensions config))
       (cfg_initial_metrics config)"

definition modem_valid_metrics ::
  "('n, 'm) packages \<Rightarrow> ('n, 'm) modem_session_fsm \<Rightarrow> link_metrics \<Rightarrow> bool" where
  "modem_valid_metrics P fsm metrics =
     (supported_by metrics (cfg_initial_metrics (m_config fsm)) \<and>
      is_ok (message_encode P (build_session_update metrics)))"

definition merge_update :: "link_metrics \<Rightarrow> link_metrics \<Rightarrow> link_metrics" where
  "merge_update metrics m =
     snd (merge_link_metrics (build_session_update metrics :: (unit, unit) message) m)"

definition encodes :: "('n, 'm) packages \<Rightarrow> ('n, 'm) message \<Rightarrow> command_error + unit" where
  "encodes P msg = map_err (\<lambda>_. InvalidInput) (try_then (message_encode P msg) (\<lambda>_. Inr ()))"

definition modem_announced :: "('n, 'm) modem_session_fsm \<Rightarrow> mac_address \<Rightarrow> bool" where
  "modem_announced fsm mac =
     (case map_of (m_destinations fsm) mac of None \<Rightarrow> False | Some d \<Rightarrow> md_announced d)"

definition modem_known :: "('n, 'm) modem_session_fsm \<Rightarrow> mac_address \<Rightarrow> bool" where
  "modem_known fsm mac = (map_of (m_destinations fsm) mac \<noteq> None)"

section \<open>Checking commands\<close>

definition modem_check_scope ::
  "('n, 'm) modem_session_fsm \<Rightarrow> ('n, 'm) fsm_event \<Rightarrow> mac_address option \<Rightarrow> command_error option" where
  "modem_check_scope fsm event destination =
     (case destination of
        Some mac \<Rightarrow>
          if \<not> accepts (cfg_mac_address_format (m_config fsm)) mac then Some MacAddressFormatMismatch
          else
            let response = (case event of AppLinkCharacteristicsResponse _ _ _ _ \<Rightarrow> True | _ \<Rightarrow> False);
                drop = (case event of AppDropDestination _ _ \<Rightarrow> True | _ \<Rightarrow> False);
                update = (case event of AppUpdateMetrics _ _ \<Rightarrow> True
                  | AppUpdateAddresses _ _ \<Rightarrow> True | _ \<Rightarrow> False) in
            if response \<and> mac \<notin> m_pending_link_requests fsm then Some NoPendingRequest
            else if \<not> response \<and> mac \<in> m_pending_link_requests fsm \<and> drop then Some Busy
            else
              (case per_destination (m_tx fsm) mac of
                 Some pending \<Rightarrow>
                   if update \<and> req_kind pending = ReqDestinationUp then None else Some Busy
               | None \<Rightarrow> None)
      | None \<Rightarrow> if session_busy (m_tx fsm) then Some Busy else None)"

definition modem_check_values ::
  "('n, 'm) packages \<Rightarrow> ('n, 'm) modem_session_fsm \<Rightarrow> ('n, 'm) fsm_event \<Rightarrow>
     panic + (command_error + unit)" where
  "modem_check_values P fsm event =
     (case event of
        AppAddDestination mac metrics addrs \<Rightarrow>
          Inr (if modem_known fsm mac then Inl AlreadyExists
            else if \<not> modem_valid_metrics P fsm metrics then Inl InvalidInput
            else
              try_then (map_err (\<lambda>_. InvalidInput)
                (changes_validate P \<lparr>added = addrs, removed = no_addrs\<rparr>)) (\<lambda>_.
              encodes P
                (build_destination_up mac (merge_update metrics (m_session_metrics fsm)) addrs)))
      | AppDropDestination mac _ \<Rightarrow>
          Inr (if \<not> modem_known fsm mac then Inl UnknownDestination else Inr ())
      | AppUpdateMetrics mac metrics \<Rightarrow>
          Inr (if \<not> modem_known fsm mac then Inl UnknownDestination
            else if \<not> modem_valid_metrics P fsm metrics then Inl InvalidInput else Inr ())
      | AppUpdateAddresses mac changes \<Rightarrow>
          Inr (case map_of (m_destinations fsm) mac of
            None \<Rightarrow> Inl UnknownDestination
          | Some destination \<Rightarrow>
              try_then (map_err (\<lambda>_. InvalidInput) (changes_validate P changes)) (\<lambda>_.
              let desired = apply_lenient P changes (md_addrs destination) in
              encodes P (build_destination_up mac (md_metrics destination) desired)))
      | AppSessionUpdate metrics \<Rightarrow>
          Inr (if \<not> modem_valid_metrics P fsm metrics then Inl InvalidInput else Inr ())
      | AppLinkCharacteristicsResponse mac status t metrics \<Rightarrow>
          if terminates_session status then Inr (Inl InvalidInput)
          else
            try_then (expect ''index'' (map_of (m_destinations fsm) mac)) (\<lambda>destination.
            Inr (case metrics of
              Some m \<Rightarrow>
                if \<not> modem_valid_metrics P fsm m then Inl InvalidInput
                else encodes P (build_link_characteristics_reply mac status t
                  (merge_update m (md_metrics destination)))
            | None \<Rightarrow>
                encodes P (build_link_characteristics_reply mac status t (md_metrics destination))))
      | AppSessionAddresses changes \<Rightarrow>
          Inr (validate_local_address_update P (m_local_addresses fsm) changes)
      | _ \<Rightarrow> Inr (Inl Unsupported))"

definition modem_check_command ::
  "('n, 'm) packages \<Rightarrow> ('n, 'm) modem_session_fsm \<Rightarrow> ('n, 'm) fsm_event \<Rightarrow>
     panic + (command_error + unit)" where
  "modem_check_command P fsm event =
     (if m_state fsm \<noteq> MInSession then Inr (Inl NotReady)
      else
        try_then (expect ''application command'' (command event)) (\<lambda>info.
        if (case event of AppAnnounceDestination _ \<Rightarrow> True | AppRequestLinkCharacteristics _ _ \<Rightarrow> True
            | _ \<Rightarrow> False)
        then Inr (Inl Unsupported)
        else
          case modem_check_scope fsm event (ci_destination info) of
            Some e \<Rightarrow> Inr (Inl e)
          | None \<Rightarrow> modem_check_values P fsm event))"

definition modem_protocol_error ::
  "('n, 'm) modem_session_fsm \<Rightarrow> ('n, 'm) data_item \<Rightarrow> ('n, 'm) modem_result" where
  "modem_protocol_error fsm status =
     (case status of
        Status code _ \<Rightarrow>
          if m_state fsm \<in> {MTerminating, MTerminated} then Inr (fsm, [])
          else if m_state fsm = MAwaitingSessionInit then
            Inr (fsm\<lparr>m_state := MTerminated\<rparr>,
              [CancelTimer TIMER_SESSION_INIT, CloseTcp, Emit (EvSessionDown code)])
          else Inr (fsm\<lparr>m_state := MTerminating, m_termination_reason := code\<rparr>,
            [CancelTimer TIMER_SESSION_INIT, CancelTimer TIMER_HEARTBEAT,
             CancelTimer TIMER_HEARTBEAT_MISSED,
             SendMessage (with_item (message_new SESSION_TERMINATION) status),
             StartTimer TIMER_TERMINATION TkTermination (termination_timeout (m_config fsm)) False])
      | _ \<Rightarrow> Inl ''unreachable'')"

definition modem_reset :: "('n, 'm) modem_session_fsm \<Rightarrow> ('n, 'm) fsm_action list" where
  "modem_reset fsm =
     (case heartbeat_reset_action TIMER_HEARTBEAT_MISSED (m_peer_heartbeat_interval fsm) of
        None \<Rightarrow> [] | Some a \<Rightarrow> [a])"

section \<open>The gate for received messages\<close>

definition modem_check_message ::
  "('n, 'm) packages \<Rightarrow> ('n, 'm) modem_session_fsm \<Rightarrow> ('n, 'm) message \<Rightarrow> status_code + unit" where
  "modem_check_message P fsm msg =
     (let initializing = (m_state fsm = MAwaitingSessionInit) in
      try_then (validate_message P msg False initializing (cfg_advertised_extensions (m_config fsm))) (\<lambda>_.
      try_then (validate_mac_format msg (cfg_mac_address_format (m_config fsm))) (\<lambda>_.
      try_then
        (if initializing \<or> message_type msg = SESSION_UPDATE
         then try_then (apply_strict P (from_message P msg) (m_peer_addresses fsm)) (\<lambda>_. Inr ())
         else Inr ()) (\<lambda>_.
      if initializing then Inr ()
      else
        let mac = extract_destination_mac msg;
            known = (case mac of None \<Rightarrow> False | Some mac \<Rightarrow> modem_announced fsm mac) in
        if (case mac of None \<Rightarrow> False | Some mac \<Rightarrow> mac \<in> m_pending_link_requests fsm)
            \<and> message_type msg \<in> {DESTINATION_DOWN, LINK_CHARACTERISTICS_REQUEST}
        then Inl UNEXPECTED_MESSAGE
        else validate_transaction msg (m_tx fsm) known))))"

section \<open>Initialization\<close>

definition modem_tcp_accepted :: "('n, 'm) modem_session_fsm \<Rightarrow> ('n, 'm) modem_result" where
  "modem_tcp_accepted fsm =
     Inr (fsm\<lparr>m_state := MAwaitingSessionInit\<rparr>,
       [StartTimer TIMER_SESSION_INIT TkSessionInit (cfg_session_init_timeout (m_config fsm)) False])"

definition modem_established ::
  "('n, 'm) packages \<Rightarrow> ('n, 'm) modem_session_fsm \<Rightarrow> ('n, 'm) message \<Rightarrow> ('n, 'm) modem_session_fsm" where
  "modem_established P fsm msg = fsm\<lparr>
     m_peer_addresses := added (from_message P msg),
     m_peer_heartbeat_interval := extract_heartbeat_interval msg,
     m_peer_extensions := (case extract_extensions_supported msg of Some ids \<Rightarrow> ids | None \<Rightarrow> []),
     m_state := MInSession\<rparr>"

definition modem_established_actions ::
  "('n, 'm) modem_session_fsm \<Rightarrow> ('n, 'm) fsm_action list" where
  "modem_established_actions fsm =
     [CancelTimer TIMER_SESSION_INIT,
      SendMessage (build_session_initialization_response (m_config fsm)),
      StartTimer TIMER_HEARTBEAT TkHeartbeat (local_heartbeat_interval (m_config fsm)) True]
     @ modem_reset fsm
     @ [Emit (EvSessionUp (m_peer_extensions fsm))]
     @ (if addrs_is_empty (m_peer_addresses fsm) then []
        else [Emit (EvSessionAddressesUpdate
          \<lparr>added = m_peer_addresses fsm, removed = no_addrs\<rparr> (m_peer_addresses fsm))])"

definition modem_session_initialization ::
  "('n, 'm) packages \<Rightarrow> ('n, 'm) modem_session_fsm \<Rightarrow> ('n, 'm) message \<Rightarrow> ('n, 'm) modem_result" where
  "modem_session_initialization P fsm msg =
     (let fsm = modem_established P fsm msg in Inr (fsm, modem_established_actions fsm))"

definition modem_init_timeout :: "('n, 'm) modem_session_fsm \<Rightarrow> ('n, 'm) modem_result" where
  "modem_init_timeout fsm =
     Inr (fsm\<lparr>m_state := MTerminated\<rparr>, [CloseTcp, Emit (EvSessionDown TIMED_OUT)])"

definition modem_init_tcp_closed :: "('n, 'm) modem_session_fsm \<Rightarrow> ('n, 'm) modem_result" where
  "modem_init_tcp_closed fsm =
     Inr (fsm\<lparr>m_state := MTerminated\<rparr>,
       [CancelTimer TIMER_SESSION_INIT, Emit (EvSessionDown TIMED_OUT)])"

definition modem_init_shutdown ::
  "('n, 'm) modem_session_fsm \<Rightarrow> status_code \<Rightarrow> ('n, 'm) modem_result" where
  "modem_init_shutdown fsm reason =
     Inr (fsm\<lparr>m_state := MTerminated\<rparr>,
       [CancelTimer TIMER_SESSION_INIT, CloseTcp, Emit (EvSessionDown reason)])"

definition modem_init_other_message :: "('n, 'm) modem_session_fsm \<Rightarrow> ('n, 'm) modem_result" where
  "modem_init_other_message fsm =
     Inr (fsm\<lparr>m_state := MTerminated\<rparr>,
       [CancelTimer TIMER_SESSION_INIT, CloseTcp, Emit (EvSessionDown INVALID_DATA)])"

section \<open>Messages of an established session\<close>

definition modem_session_termination ::
  "('n, 'm) modem_session_fsm \<Rightarrow> ('n, 'm) message \<Rightarrow> ('n, 'm) modem_result" where
  "modem_session_termination fsm msg =
     (let status = (case extract_status msg of None \<Rightarrow> SHUTTING_DOWN | Some s \<Rightarrow> s) in
      Inr (fsm\<lparr>m_state := MTerminated\<rparr>,
        [CancelTimer TIMER_HEARTBEAT, CancelTimer TIMER_HEARTBEAT_MISSED,
         SendMessage build_session_termination_response, CloseTcp, Emit (EvSessionDown status)]))"

definition modem_announce_accepted ::
  "('n, 'm) packages \<Rightarrow> mac_address \<Rightarrow> ('n, 'm) modem_destination \<Rightarrow>
     ('n, 'm) modem_destination \<times> ('n, 'm) fsm_action list" where
  "modem_announce_accepted P mac d =
     (let d = d\<lparr>md_announced := True\<rparr>;
          changes = between (md_advertised_addrs d) (md_addrs d) in
      if md_pending_metrics d \<or> \<not> changes_is_empty changes then
        (let message =
           (if md_pending_metrics d then build_destination_update mac (md_metrics d)
            else with_item (message_new DESTINATION_UPDATE) (MacAddress mac)) in
         (d\<lparr>md_pending_metrics := False, md_advertised_addrs := md_addrs d\<rparr>,
          [SendMessage (append_to P changes message)]))
      else (d, []))"

definition modem_destination_up_response ::
  "('n, 'm) packages \<Rightarrow> ('n, 'm) modem_session_fsm \<Rightarrow> ('n, 'm) message \<Rightarrow> ('n, 'm) modem_result" where
  "modem_destination_up_response P fsm msg =
     (let status = (case extract_status msg of None \<Rightarrow> SUCCESS | Some s \<Rightarrow> s) in
      case extract_destination_mac msg of
        None \<Rightarrow> Inr (fsm, modem_reset fsm)
      | Some mac \<Rightarrow>
          (let fsm = fsm\<lparr>m_tx := snd (close_destination (m_tx fsm) mac)\<rparr> in
           case map_of (m_destinations fsm) mac of
             None \<Rightarrow> Inr (fsm, modem_reset fsm)
           | Some d \<Rightarrow>
               if status = SUCCESS then
                 (let (d, actions) = modem_announce_accepted P mac d in
                  Inr (fsm\<lparr>m_destinations := AList.update mac d (m_destinations fsm)\<rparr>,
                    actions @ modem_reset fsm))
               else
                 Inr (fsm\<lparr>m_destinations :=
                     AList.update mac (d\<lparr>md_announced := False\<rparr>) (m_destinations fsm)\<rparr>,
                   modem_reset fsm)))"

definition modem_destination_down ::
  "('n, 'm) modem_session_fsm \<Rightarrow> ('n, 'm) message \<Rightarrow> ('n, 'm) modem_result" where
  "modem_destination_down fsm msg =
     try_then (expect ''validated MAC'' (extract_destination_mac msg)) (\<lambda>mac.
     try_then (expect ''validated destination'' (map_of (m_destinations fsm) mac)) (\<lambda>d.
     Inr (fsm\<lparr>m_destinations := AList.update mac
           (d\<lparr>md_announced := False, md_pending_metrics := False\<rparr>) (m_destinations fsm)\<rparr>,
       [SendMessage (build_destination_down_response mac SUCCESS),
        Emit (EvDestinationDown mac SUCCESS)] @ modem_reset fsm)))"

definition modem_destination_down_response ::
  "('n, 'm) modem_session_fsm \<Rightarrow> ('n, 'm) message \<Rightarrow> ('n, 'm) modem_result" where
  "modem_destination_down_response fsm msg =
     (case extract_destination_mac msg of
        None \<Rightarrow> Inr (fsm, modem_reset fsm)
      | Some mac \<Rightarrow>
          Inr (fsm\<lparr>m_tx := snd (close_destination (m_tx fsm) mac),
              m_destinations := AList.delete mac (m_destinations fsm)\<rparr>,
            modem_reset fsm))"

definition modem_session_update ::
  "('n, 'm) packages \<Rightarrow> ('n, 'm) modem_session_fsm \<Rightarrow> ('n, 'm) message \<Rightarrow> ('n, 'm) modem_result" where
  "modem_session_update P fsm msg =
     (let changes = from_message P msg in
      try_then (expect_ok ''validated peer addresses'' (apply_strict P changes (m_peer_addresses fsm))) (\<lambda>addresses.
      Inr (fsm\<lparr>m_peer_addresses := addresses\<rparr>,
        [SendMessage (build_session_update_response SUCCESS)]
        @ (if changes_is_empty changes then []
           else [Emit (EvSessionAddressesUpdate changes addresses)])
        @ modem_reset fsm)))"

definition modem_session_update_response ::
  "('n, 'm) modem_session_fsm \<Rightarrow> ('n, 'm) modem_result" where
  "modem_session_update_response fsm =
     Inr (fsm\<lparr>m_tx := snd (close_session (m_tx fsm))\<rparr>, modem_reset fsm)"

definition modem_announce_reply ::
  "mac_address \<Rightarrow> ('n, 'm) modem_destination \<Rightarrow> ('n, 'm) message" where
  "modem_announce_reply mac d =
     (let response = build_destination_up mac (md_metrics d) (md_addrs d);
          response = response\<lparr>message_type := DESTINATION_ANNOUNCE_RESPONSE\<rparr> in
      with_item response (Status SUCCESS []))"

definition modem_destination_announce ::
  "('n, 'm) packages \<Rightarrow> ('n, 'm) modem_session_fsm \<Rightarrow> ('n, 'm) message \<Rightarrow> ('n, 'm) modem_result" where
  "modem_destination_announce P fsm msg =
     try_then (expect ''validated MAC'' (extract_destination_mac msg)) (\<lambda>mac.
     let (fsm, response) =
       (case map_of (m_destinations fsm) mac of
          None \<Rightarrow> (fsm, build_destination_announce_response mac REQUEST_DENIED)
        | Some d \<Rightarrow>
            (fsm\<lparr>m_destinations := AList.update mac
                (d\<lparr>md_announced := True, md_pending_metrics := False, md_advertised_addrs := md_addrs d\<rparr>)
                (m_destinations fsm)\<rparr>,
             modem_announce_reply mac d)) in
     Inr (fsm,
       [SendMessage response, Emit (EvDestinationAnnounced mac (from_message P msg))]
       @ modem_reset fsm))"

definition modem_link_characteristics_request ::
  "('n, 'm) modem_session_fsm \<Rightarrow> ('n, 'm) message \<Rightarrow> ('n, 'm) modem_result" where
  "modem_link_characteristics_request fsm msg =
     try_then (expect ''validated MAC'' (extract_destination_mac msg)) (\<lambda>mac.
     try_then (expect ''index'' (map_of (m_destinations fsm) mac)) (\<lambda>d.
     let metrics = md_metrics d;
         pending = cfg_defer_link_characteristics (m_config fsm) in
     Inr (if pending
          then fsm\<lparr>m_pending_link_requests := insert mac (m_pending_link_requests fsm)\<rparr> else fsm,
       (if pending then []
        else [SendMessage (build_link_characteristics_response mac REQUEST_DENIED metrics)])
       @ [Emit (EvLinkCharacteristicsRequested mac (extract_link_characteristics msg) metrics pending)]
       @ modem_reset fsm)))"

definition modem_in_session_message ::
  "('n, 'm) packages \<Rightarrow> ('n, 'm) modem_session_fsm \<Rightarrow> ('n, 'm) message \<Rightarrow> ('n, 'm) modem_result" where
  "modem_in_session_message P fsm msg =
     (let mt = message_type msg in
      if mt = SESSION_TERMINATION then modem_session_termination fsm msg
      else if mt = DESTINATION_UP_RESPONSE then modem_destination_up_response P fsm msg
      else if mt = DESTINATION_DOWN then modem_destination_down fsm msg
      else if mt = DESTINATION_DOWN_RESPONSE then modem_destination_down_response fsm msg
      else if mt = SESSION_UPDATE then modem_session_update P fsm msg
      else if mt = SESSION_UPDATE_RESPONSE then modem_session_update_response fsm
      else if mt = DESTINATION_ANNOUNCE then modem_destination_announce P fsm msg
      else if mt = LINK_CHARACTERISTICS_REQUEST then modem_link_characteristics_request fsm msg
      else if mt = HEARTBEAT then Inr (fsm, modem_reset fsm)
      else modem_protocol_error fsm (Status UNEXPECTED_MESSAGE []))"

section \<open>Commands and timers of an established session\<close>

definition modem_add_destination ::
  "('n, 'm) packages \<Rightarrow> ('n, 'm) modem_session_fsm \<Rightarrow> mac_address \<Rightarrow> link_metrics \<Rightarrow>
     ('n, 'm) destination_addrs \<Rightarrow> ('n, 'm) modem_result" where
  "modem_add_destination P fsm mac metrics addrs =
     (let metrics = merge_update metrics (m_session_metrics fsm);
          addrs = addrs_canonical P addrs;
          (opened, tx) = open_destination (m_tx fsm) mac ReqDestinationUp in
      try_then (expect_ok ''checked idle destination'' opened) (\<lambda>_.
      Inr (fsm\<lparr>m_tx := tx, m_destinations := AList.update mac
            \<lparr>md_announced = False, md_pending_metrics = False, md_metrics = metrics,
             md_addrs = addrs_canonical P addrs, md_advertised_addrs = addrs_canonical P addrs\<rparr>
            (m_destinations fsm)\<rparr>,
        [SendMessage (build_destination_up mac metrics addrs)])))"

definition modem_update_metrics ::
  "('n, 'm) modem_session_fsm \<Rightarrow> mac_address \<Rightarrow> link_metrics \<Rightarrow> ('n, 'm) modem_result" where
  "modem_update_metrics fsm mac metrics =
     try_then (expect ''checked destination'' (map_of (m_destinations fsm) mac)) (\<lambda>d.
     let d = d\<lparr>md_metrics := merge_update metrics (md_metrics d)\<rparr> in
     if \<not> md_announced d \<or> destination_busy (m_tx fsm) mac then
       Inr (fsm\<lparr>m_destinations :=
           AList.update mac (d\<lparr>md_pending_metrics := True\<rparr>) (m_destinations fsm)\<rparr>, [])
     else
       Inr (fsm\<lparr>m_destinations := AList.update mac d (m_destinations fsm)\<rparr>,
         [SendMessage (build_destination_update mac metrics)]))"

definition modem_update_addresses ::
  "('n, 'm) packages \<Rightarrow> ('n, 'm) modem_session_fsm \<Rightarrow> mac_address \<Rightarrow> ('n, 'm) address_changes \<Rightarrow>
     ('n, 'm) modem_result" where
  "modem_update_addresses P fsm mac changes =
     try_then (expect ''checked destination'' (map_of (m_destinations fsm) mac)) (\<lambda>d.
     let d = d\<lparr>md_addrs := apply_lenient P changes (md_addrs d)\<rparr>;
         effective = between (md_advertised_addrs d) (md_addrs d) in
     if \<not> md_announced d \<or> destination_busy (m_tx fsm) mac \<or> changes_is_empty effective then
       Inr (fsm\<lparr>m_destinations := AList.update mac d (m_destinations fsm)\<rparr>, [])
     else
       Inr (fsm\<lparr>m_destinations :=
           AList.update mac (d\<lparr>md_advertised_addrs := md_addrs d\<rparr>) (m_destinations fsm)\<rparr>,
         [SendMessage (append_to P effective
           (with_item (message_new DESTINATION_UPDATE) (MacAddress mac)))]))"

definition modem_drop_destination ::
  "('n, 'm) modem_session_fsm \<Rightarrow> mac_address \<Rightarrow> status_code \<Rightarrow> ('n, 'm) modem_result" where
  "modem_drop_destination fsm mac reason =
     try_then (expect ''index'' (map_of (m_destinations fsm) mac)) (\<lambda>d.
     if \<not> md_announced d \<and> \<not> destination_busy (m_tx fsm) mac then
       Inr (fsm\<lparr>m_destinations := AList.delete mac (m_destinations fsm)\<rparr>, [])
     else
       (let (opened, tx) = open_destination (m_tx fsm) mac ReqDestinationDown in
        try_then (expect_ok ''checked idle destination'' opened) (\<lambda>_.
        Inr (fsm\<lparr>m_tx := tx\<rparr>, [SendMessage (build_destination_down mac reason)]))))"

definition modem_link_characteristics_answer ::
  "('n, 'm) modem_session_fsm \<Rightarrow> mac_address \<Rightarrow> status_code \<Rightarrow> rstring \<Rightarrow> link_metrics option \<Rightarrow>
     ('n, 'm) modem_result" where
  "modem_link_characteristics_answer fsm mac status t metrics =
     (let fsm = fsm\<lparr>m_pending_link_requests := m_pending_link_requests fsm - {mac}\<rparr> in
      try_then (expect ''checked destination'' (map_of (m_destinations fsm) mac)) (\<lambda>d.
      let d = (case metrics of
                 Some m \<Rightarrow> d\<lparr>md_metrics := merge_update m (md_metrics d)\<rparr>
               | None \<Rightarrow> d) in
      Inr (fsm\<lparr>m_destinations := AList.update mac d (m_destinations fsm)\<rparr>,
        [SendMessage (build_link_characteristics_reply mac status t (md_metrics d))])))"

definition modem_session_addresses ::
  "('n, 'm) packages \<Rightarrow> ('n, 'm) modem_session_fsm \<Rightarrow> ('n, 'm) address_changes \<Rightarrow> ('n, 'm) modem_result" where
  "modem_session_addresses P fsm changes =
     try_then (apply_local_address_update P (m_tx fsm) (m_local_addresses fsm) changes)
       (\<lambda>(tx, local, actions). Inr (fsm\<lparr>m_tx := tx, m_local_addresses := local\<rparr>, actions))"

definition modem_heartbeat_missed :: "('n, 'm) modem_session_fsm \<Rightarrow> ('n, 'm) modem_result" where
  "modem_heartbeat_missed fsm =
     Inr (fsm\<lparr>m_termination_reason := TIMED_OUT, m_state := MTerminating\<rparr>,
       [CancelTimer TIMER_HEARTBEAT, SendMessage (build_session_termination TIMED_OUT),
        StartTimer TIMER_TERMINATION TkTermination (termination_timeout (m_config fsm)) False])"

definition modem_push_session_metrics ::
  "('n, 'm) modem_session_fsm \<Rightarrow> link_metrics \<Rightarrow> ('n, 'm) modem_result" where
  "modem_push_session_metrics fsm metrics =
     (let (opened, tx) = open_session (m_tx fsm) ReqSessionUpdate in
      try_then (expect_ok ''checked idle session'' opened) (\<lambda>_.
      let message = build_session_update metrics in
      Inr (fsm\<lparr>m_tx := tx,
          m_session_metrics := merge_update metrics (m_session_metrics fsm),
          m_destinations := map (\<lambda>(m, d). (m, d\<lparr>md_metrics := merge_update metrics (md_metrics d)\<rparr>))
            (m_destinations fsm)\<rparr>,
        [SendMessage message])))"

definition modem_shutdown ::
  "('n, 'm) modem_session_fsm \<Rightarrow> status_code \<Rightarrow> ('n, 'm) modem_result" where
  "modem_shutdown fsm reason =
     Inr (fsm\<lparr>m_termination_reason := reason, m_state := MTerminating\<rparr>,
       [CancelTimer TIMER_HEARTBEAT, CancelTimer TIMER_HEARTBEAT_MISSED,
        SendMessage (build_session_termination reason),
        StartTimer TIMER_TERMINATION TkTermination (termination_timeout (m_config fsm)) False])"

definition modem_tcp_closed :: "('n, 'm) modem_session_fsm \<Rightarrow> ('n, 'm) modem_result" where
  "modem_tcp_closed fsm =
     Inr (fsm\<lparr>m_state := MTerminated\<rparr>,
       [CancelTimer TIMER_HEARTBEAT, CancelTimer TIMER_HEARTBEAT_MISSED,
        Emit (EvSessionDown TIMED_OUT)])"

section \<open>Termination\<close>

definition modem_termination_response :: "('n, 'm) modem_session_fsm \<Rightarrow> ('n, 'm) modem_result" where
  "modem_termination_response fsm =
     Inr (fsm\<lparr>m_state := MTerminated\<rparr>,
       [CancelTimer TIMER_TERMINATION, CloseTcp, Emit (EvSessionDown (m_termination_reason fsm))])"

definition modem_termination_timeout :: "('n, 'm) modem_session_fsm \<Rightarrow> ('n, 'm) modem_result" where
  "modem_termination_timeout fsm =
     Inr (fsm\<lparr>m_state := MTerminated\<rparr>, [CloseTcp, Emit (EvSessionDown TIMED_OUT)])"

definition modem_terminating_tcp_closed :: "('n, 'm) modem_session_fsm \<Rightarrow> ('n, 'm) modem_result" where
  "modem_terminating_tcp_closed fsm =
     Inr (fsm\<lparr>m_state := MTerminated\<rparr>,
       [CancelTimer TIMER_TERMINATION, Emit (EvSessionDown (m_termination_reason fsm))])"

section \<open>The step\<close>

definition modem_listening_event ::
  "('n, 'm) modem_session_fsm \<Rightarrow> ('n, 'm) fsm_event \<Rightarrow> ('n, 'm) modem_result" where
  "modem_listening_event fsm event =
     (case event of
        TcpAccepted \<Rightarrow> modem_tcp_accepted fsm
      | AppShutdown _ \<Rightarrow> Inr (fsm\<lparr>m_state := MTerminated\<rparr>, [])
      | TcpClosed \<Rightarrow> Inr (fsm\<lparr>m_state := MTerminated\<rparr>, [])
      | _ \<Rightarrow> Inr (fsm, []))"

definition modem_init_event ::
  "('n, 'm) packages \<Rightarrow> ('n, 'm) modem_session_fsm \<Rightarrow> ('n, 'm) fsm_event \<Rightarrow> ('n, 'm) modem_result" where
  "modem_init_event P fsm event =
     (case event of
        RecvMessage msg \<Rightarrow>
          if message_type msg = SESSION_INITIALIZATION
          then modem_session_initialization P fsm msg
          else modem_init_other_message fsm
      | TimerExpired _ kind \<Rightarrow>
          if kind = TkSessionInit then modem_init_timeout fsm else Inr (fsm, [])
      | TcpClosed \<Rightarrow> modem_init_tcp_closed fsm
      | AppShutdown reason \<Rightarrow> modem_init_shutdown fsm reason
      | _ \<Rightarrow> Inr (fsm, []))"

definition modem_in_session_event ::
  "('n, 'm) packages \<Rightarrow> ('n, 'm) modem_session_fsm \<Rightarrow> ('n, 'm) fsm_event \<Rightarrow> ('n, 'm) modem_result" where
  "modem_in_session_event P fsm event =
     (case event of
        RecvMessage msg \<Rightarrow> modem_in_session_message P fsm msg
      | AppAddDestination mac metrics addrs \<Rightarrow> modem_add_destination P fsm mac metrics addrs
      | AppUpdateMetrics mac metrics \<Rightarrow> modem_update_metrics fsm mac metrics
      | AppUpdateAddresses mac changes \<Rightarrow> modem_update_addresses P fsm mac changes
      | AppDropDestination mac reason \<Rightarrow> modem_drop_destination fsm mac reason
      | AppLinkCharacteristicsResponse mac status t metrics \<Rightarrow>
          modem_link_characteristics_answer fsm mac status t metrics
      | AppSessionAddresses changes \<Rightarrow> modem_session_addresses P fsm changes
      | RecvExtensionMessage \<Rightarrow> Inr (fsm, modem_reset fsm)
      | TimerExpired _ kind \<Rightarrow>
          if kind = TkHeartbeat then Inr (fsm, [SendMessage build_heartbeat])
          else if kind = TkHeartbeatMissed then modem_heartbeat_missed fsm
          else Inr (fsm, [])
      | AppSessionUpdate metrics \<Rightarrow> modem_push_session_metrics fsm metrics
      | AppShutdown reason \<Rightarrow> modem_shutdown fsm reason
      | TcpClosed \<Rightarrow> modem_tcp_closed fsm
      | _ \<Rightarrow> Inr (fsm, []))"

definition modem_terminating_event ::
  "('n, 'm) modem_session_fsm \<Rightarrow> ('n, 'm) fsm_event \<Rightarrow> ('n, 'm) modem_result" where
  "modem_terminating_event fsm event =
     (case event of
        RecvMessage msg \<Rightarrow>
          if message_type msg = SESSION_TERMINATION_RESPONSE
          then modem_termination_response fsm else Inr (fsm, [])
      | TimerExpired _ kind \<Rightarrow>
          if kind = TkTermination then modem_termination_timeout fsm else Inr (fsm, [])
      | TcpClosed \<Rightarrow> modem_terminating_tcp_closed fsm
      | _ \<Rightarrow> Inr (fsm, []))"

definition modem_match ::
  "('n, 'm) packages \<Rightarrow> ('n, 'm) modem_session_fsm \<Rightarrow> ('n, 'm) fsm_event \<Rightarrow> ('n, 'm) modem_result" where
  "modem_match P fsm event =
     (case m_state fsm of
        MListening \<Rightarrow> modem_listening_event fsm event
      | MAwaitingSessionInit \<Rightarrow> modem_init_event P fsm event
      | MInSession \<Rightarrow> modem_in_session_event P fsm event
      | MTerminating \<Rightarrow> modem_terminating_event fsm event
      | MTerminated \<Rightarrow> Inr (fsm, []))"

definition modem_receive ::
  "('n, 'm) packages \<Rightarrow> ('n, 'm) modem_session_fsm \<Rightarrow> ('n, 'm) fsm_event \<Rightarrow> ('n, 'm) modem_result" where
  "modem_receive P fsm event =
     (case event of
        RecvMessage msg \<Rightarrow>
          if m_state fsm \<in> {MAwaitingSessionInit, MInSession} then
            case fatal_status msg of
              Some item \<Rightarrow> modem_protocol_error fsm item
            | None \<Rightarrow>
                (case modem_check_message P fsm msg of
                   Inl code \<Rightarrow> modem_protocol_error fsm (Status code [])
                 | Inr _ \<Rightarrow> modem_match P fsm event)
          else modem_match P fsm event
      | ProtocolError code \<Rightarrow> modem_protocol_error fsm (Status code [])
      | _ \<Rightarrow> modem_match P fsm event)"

definition modem_step ::
  "('n, 'm) packages \<Rightarrow> ('n, 'm) modem_session_fsm \<Rightarrow> ('n, 'm) fsm_event \<Rightarrow> ('n, 'm) modem_result" where
  "modem_step P fsm event =
     (case command event of
        Some c \<Rightarrow>
          try_then (modem_check_command P fsm event) (\<lambda>checked.
          case checked of
            Inl reason \<Rightarrow>
              Inr (fsm, [Emit (EvCommandRejected \<lparr>cr_command = c, cr_reason = reason\<rparr>)])
          | Inr _ \<Rightarrow> modem_receive P fsm event)
      | None \<Rightarrow> modem_receive P fsm event)"

end
