(* ===== verification/Modem_Life.thy ===== *)
theory Modem_Life
  imports Session_Modem
begin

text \<open>
  The life cycle of the modem's session state machine: phases, notices and timers of every step,
  as \<open>Router_Life\<close> has them for the router.
\<close>

section \<open>Life cycle and timers\<close>

fun modem_phase :: "modem_session_state \<Rightarrow> phase" where
  "modem_phase MListening = Idle"
| "modem_phase MAwaitingSessionInit = Initializing"
| "modem_phase MInSession = Established"
| "modem_phase MTerminating = Closing"
| "modem_phase MTerminated = Ended"

text \<open>The timers that may be armed in a state. Unlike the router, the modem ends with none.\<close>

fun modem_timers :: "modem_session_state \<Rightarrow> timer_id set" where
  "modem_timers MListening = {}"
| "modem_timers MAwaitingSessionInit = {TIMER_SESSION_INIT}"
| "modem_timers MInSession = {TIMER_HEARTBEAT, TIMER_HEARTBEAT_MISSED}"
| "modem_timers MTerminating = {TIMER_TERMINATION}"
| "modem_timers MTerminated = {}"

abbreviation modem_quiet :: "('n, 'm) modem_session_fsm \<Rightarrow> ('n, 'm) modem_result \<Rightarrow> bool" where
  "modem_quiet \<equiv> quiet (\<lambda>fsm. (m_state fsm, m_config fsm))"

abbreviation modem_tame ::
  "('n, 'm) fsm_event \<Rightarrow> ('n, 'm) modem_session_fsm \<Rightarrow> ('n, 'm) modem_result \<Rightarrow> bool" where
  "modem_tame \<equiv> tame m_config (\<lambda>fsm. modem_phase (m_state fsm)) (\<lambda>fsm. modem_timers (m_state fsm))"

lemma modem_phase_Ended [simp]: "modem_phase st = Ended \<longleftrightarrow> st = MTerminated"
  by (cases st) auto

lemma modem_reset_calm [simp]: "list_all calm (modem_reset fsm)"
  by (auto simp: modem_reset_def heartbeat_reset_action_def split: option.splits)

lemmas modem_message_defs =
  modem_destination_up_response_def modem_announce_accepted_def modem_destination_down_def
  modem_destination_down_response_def modem_session_update_def modem_session_update_response_def
  modem_destination_announce_def modem_link_characteristics_request_def

lemmas modem_command_defs =
  modem_add_destination_def modem_update_metrics_def modem_update_addresses_def
  modem_drop_destination_def modem_link_characteristics_answer_def modem_session_addresses_def
  modem_push_session_metrics_def

lemma modem_messages_quiet:
  "modem_quiet fsm (modem_destination_up_response P fsm msg)"
  "modem_quiet fsm (modem_destination_down fsm msg)"
  "modem_quiet fsm (modem_destination_down_response fsm msg)"
  "modem_quiet fsm (modem_session_update P fsm msg)"
  "modem_quiet fsm (modem_session_update_response fsm)"
  "modem_quiet fsm (modem_destination_announce P fsm msg)"
  "modem_quiet fsm (modem_link_characteristics_request fsm msg)"
  by (auto simp: modem_message_defs Let_def split: prod.splits option.splits intro!: quiet_try)

lemma modem_commands_quiet:
  "modem_quiet fsm (modem_add_destination P fsm mac metrics addrs)"
  "modem_quiet fsm (modem_update_metrics fsm mac metrics)"
  "modem_quiet fsm (modem_update_addresses P fsm mac changes)"
  "modem_quiet fsm (modem_drop_destination fsm mac reason)"
  "modem_quiet fsm (modem_link_characteristics_answer fsm mac status t answered)"
  "modem_quiet fsm (modem_session_addresses P fsm changes)"
  "modem_quiet fsm (modem_push_session_metrics fsm metrics)"
  by (auto simp: modem_command_defs Let_def split: prod.splits intro!: quiet_try
      dest: local_update_calm)

lemma modem_in_session_message_quiet:
  assumes "message_type msg \<noteq> SESSION_TERMINATION"
  shows "modem_quiet fsm (modem_in_session_message P fsm msg) \<or>
    modem_in_session_message P fsm msg = modem_protocol_error fsm (Status UNEXPECTED_MESSAGE [])"
  using assms by (simp add: modem_in_session_message_def Let_def modem_messages_quiet)

lemma modem_tame_quiet:
  "modem_quiet fsm r \<Longrightarrow> m_state fsm = MInSession \<Longrightarrow> modem_tame e fsm r"
  by (rule tame_quiet) auto

lemma modem_tame_protocol_error: "modem_tame e fsm (modem_protocol_error fsm status)"
  using expire_subset [of _ e]
  by (cases status; cases "m_state fsm")
    (force simp: tame_def modem_protocol_error_def phase_step_iff)+

lemma modem_tame_listening: "m_state fsm = MListening \<Longrightarrow> modem_tame e fsm (modem_listening_event fsm e)"
  by (cases e)
    (auto simp: modem_listening_event_def modem_tcp_accepted_def tame_def phase_step_iff kinded.simps(1) timer_ids)

lemma modem_established_facts:
  "notices (modem_established_actions fsm) = [UpNotice]"
  "armed_after T (modem_established_actions fsm) \<subseteq>
     insert TIMER_HEARTBEAT_MISSED (insert TIMER_HEARTBEAT (T - {TIMER_SESSION_INIT}))"
  "list_all kinded (modem_established_actions fsm)"
  using calm_actions(2) [OF modem_reset_calm, of "insert TIMER_HEARTBEAT (T - {TIMER_SESSION_INIT})" fsm]
  by (simp_all add: modem_established_actions_def calm_actions(1) calm_kinded)

lemma modem_tame_initialization:
  assumes "m_state fsm = MAwaitingSessionInit"
  shows "modem_tame (RecvMessage msg) fsm (modem_session_initialization P fsm msg)"
proof (rule tame_step)
  show "modem_session_initialization P fsm msg =
      Inr (modem_established P fsm msg, modem_established_actions (modem_established P fsm msg))"
    by (simp add: modem_session_initialization_def Let_def)
  fix T assume "T \<subseteq> modem_timers (m_state fsm)"
  with modem_established_facts(2) [of T "modem_established P fsm msg"] assms
  show "armed_after (expire T (RecvMessage msg)) (modem_established_actions (modem_established P fsm msg))
      \<subseteq> modem_timers (m_state (modem_established P fsm msg))"
    by (auto simp: modem_established_def)
qed (use assms in \<open>simp_all add: modem_established_def modem_established_facts(1,3) phase_step_iff\<close>)

lemma modem_tame_init: "m_state fsm = MAwaitingSessionInit \<Longrightarrow> modem_tame e fsm (modem_init_event P fsm e)"
  by (cases e)
    (auto simp: modem_init_event_def modem_tame_initialization modem_init_other_message_def
      modem_init_timeout_def modem_init_tcp_closed_def modem_init_shutdown_def phase_step_iff
      timer_kind_of_iff simp del: timer_kind_of.simps intro!: tame_step)

lemma modem_tame_terminating: "m_state fsm = MTerminating \<Longrightarrow> modem_tame e fsm (modem_terminating_event fsm e)"
  by (cases e) (auto simp: modem_terminating_event_def modem_termination_response_def
    modem_termination_timeout_def modem_terminating_tcp_closed_def phase_step_iff timer_kind_of_iff
    simp del: timer_kind_of.simps intro!: tame_step)

lemma modem_tame_terminators:
  assumes st: "m_state fsm = MInSession"
  shows "modem_tame (RecvMessage msg) fsm (modem_session_termination fsm msg)"
    and "modem_tame (AppShutdown reason) fsm (modem_shutdown fsm reason)"
    and "modem_tame TcpClosed fsm (modem_tcp_closed fsm)"
    and "modem_tame (TimerExpired i TkHeartbeatMissed) fsm (modem_heartbeat_missed fsm)"
proof -
  show "modem_tame (RecvMessage msg) fsm (modem_session_termination fsm msg)"
    using st by (intro tame_step [OF modem_session_termination_def [unfolded Let_def]])
      (auto simp: phase_step_iff)
  show "modem_tame (AppShutdown reason) fsm (modem_shutdown fsm reason)"
    using st by (intro tame_step [OF modem_shutdown_def]) (auto simp: phase_step_iff)
  show "modem_tame TcpClosed fsm (modem_tcp_closed fsm)"
    using st by (intro tame_step [OF modem_tcp_closed_def]) (auto simp: phase_step_iff)
  show "modem_tame (TimerExpired i TkHeartbeatMissed) fsm (modem_heartbeat_missed fsm)"
    using st by (intro tame_step [OF modem_heartbeat_missed_def])
      (auto simp: phase_step_iff timer_kind_of_iff simp del: timer_kind_of.simps)
qed

lemma modem_tame_in_session:
  assumes st: "m_state fsm = MInSession"
  shows "modem_tame e fsm (modem_in_session_event P fsm e)"
proof (cases e)
  case (RecvMessage msg)
  show ?thesis
  proof (cases "message_type msg = SESSION_TERMINATION")
    case True
    then show ?thesis
      by (simp add: RecvMessage modem_in_session_event_def modem_in_session_message_def Let_def
          modem_tame_terminators [OF st])
  next
    case False
    then show ?thesis
      using modem_in_session_message_quiet [OF False, of fsm P] modem_tame_quiet [OF _ st]
        modem_tame_protocol_error
      by (auto simp: RecvMessage modem_in_session_event_def)
  qed
next
  case (TimerExpired i k)
  then show ?thesis
    by (cases k) (simp_all add: modem_in_session_event_def modem_tame_terminators [OF st]
        modem_tame_quiet [OF _ st])
qed (simp_all add: modem_in_session_event_def modem_tame_terminators [OF st] modem_tame_quiet [OF _ st]
    modem_commands_quiet)

lemma modem_tame_match: "modem_tame e fsm (modem_match P fsm e)"
  by (cases "m_state fsm")
    (simp_all add: modem_match_def modem_tame_listening modem_tame_init modem_tame_in_session
      modem_tame_terminating)

lemma modem_tame_receive: "modem_tame e fsm (modem_receive P fsm e)"
  by (auto simp: modem_receive_def modem_tame_match modem_tame_protocol_error
      split: fsm_event.splits option.splits sum.splits)

lemma modem_tame_step: "modem_tame e fsm (modem_step P fsm e)"
  by (auto simp: modem_step_def modem_tame_receive tame_rejection intro!: tame_try
      split: option.splits sum.splits)

end
