(* ===== verification/Modem_Correct.thy ===== *)
theory Modem_Correct
  imports Modem_Life
begin

text \<open>
  The invariant of the modem's session state machine. It is stated scope by scope: what the machine
  knows of one destination, its pending transaction and its unanswered Link Characteristics Request
  fit together. The handlers keep it and never panic, so that the machine is a \<open>session_machine\<close> for
  every implementation of the packages (the sublocale \<open>modem\<close>).
\<close>

section \<open>Metric support\<close>

definition same_support :: "link_metrics \<Rightarrow> link_metrics \<Rightarrow> bool" where
  "same_support m initial = (supported_by m initial \<and> supported_by initial m)"

lemma same_support_refl [simp]: "same_support m m"
  by (auto simp: same_support_def supported_by_def)

lemma merge_update_overlay: "merge_update new old = overlay new old"
  by (simp add: merge_update_def build_session_update_def merge_push_metric_items)

lemma same_support_overlay:
  "same_support old initial \<Longrightarrow> supported_by new initial \<Longrightarrow> same_support (overlay new old) initial"
proof -
  have "(case n of None \<Rightarrow> x | Some v \<Rightarrow> Some v) = None \<longleftrightarrow> n = None \<and> x = None" for n x :: "'a option"
    by (cases n) auto
  note or_else = this
  show "same_support old initial \<Longrightarrow> supported_by new initial \<Longrightarrow> same_support (overlay new old) initial"
    unfolding same_support_def supported_by_def by (simp add: overlay_def or_else) blast
qed

section \<open>The invariant\<close>

text \<open>
  A destination holds canonical addresses without duplicates and metrics of exactly the declared
  types. The router of a session in which it is announced has been told all of it: the advertised
  addresses are the current ones and no metric update waits.
\<close>

definition destination_ok ::
  "('n, 'm) packages \<Rightarrow> session_config \<Rightarrow> ('n, 'm) modem_destination \<Rightarrow> bool" where
  "destination_ok P config d =
     (same_support (md_metrics d) (cfg_initial_metrics config) \<and>
      addrs_canonical P (md_addrs d) = md_addrs d \<and> addrs_distinct (md_addrs d) \<and>
      addrs_canonical P (md_advertised_addrs d) = md_advertised_addrs d \<and>
      addrs_distinct (md_advertised_addrs d) \<and>
      (md_announced d \<longrightarrow> addr_set (md_advertised_addrs d) = addr_set (md_addrs d) \<and> \<not> md_pending_metrics d))"

text \<open>
  One scope: an unknown destination has no transaction of any kind; a pending Destination Up belongs
  to a destination not yet announced, a pending Destination Down to an announced one, and a request
  of the router waits only for an announced destination without a transaction of its own.
\<close>

definition modem_scope_ok ::
  "('n, 'm) packages \<Rightarrow> session_config \<Rightarrow> mac_address \<Rightarrow> pending_request option \<Rightarrow> bool \<Rightarrow>
     ('n, 'm) modem_destination option \<Rightarrow> bool" where
  "modem_scope_ok P config mac pending asked known =
     (case known of
        None \<Rightarrow> pending = None \<and> \<not> asked
      | Some d \<Rightarrow>
          accepts (cfg_mac_address_format config) mac \<and> destination_ok P config d \<and>
          (\<forall>q. pending = Some q \<longrightarrow>
             req_kind q = (if md_announced d then ReqDestinationDown else ReqDestinationUp)) \<and>
          (asked \<longrightarrow> pending = None \<and> md_announced d))"

abbreviation modem_scopes_ok ::
  "('n, 'm) packages \<Rightarrow> ('n, 'm) modem_session_fsm \<Rightarrow> mac_address \<Rightarrow> bool" where
  "modem_scopes_ok P fsm m \<equiv>
     modem_scope_ok P (m_config fsm) m (per_destination (m_tx fsm) m) (m \<in> m_pending_link_requests fsm)
       (map_of (m_destinations fsm) m)"

definition modem_inv :: "('n, 'm) packages \<Rightarrow> ('n, 'm) modem_session_fsm \<Rightarrow> bool" where
  "modem_inv P fsm =
     (distinct (map fst (m_destinations fsm)) \<and>
      session_pending (m_tx fsm) \<in> {None, Some \<lparr>req_kind = ReqSessionUpdate\<rparr>} \<and>
      (\<forall>m. modem_scopes_ok P fsm m) \<and>
      same_support (m_session_metrics fsm) (cfg_initial_metrics (m_config fsm)) \<and>
      addrs_canonical P (m_local_addresses fsm) = m_local_addresses fsm \<and>
      addrs_distinct (m_local_addresses fsm) \<and>
      (m_state fsm \<in> {MListening, MAwaitingSessionInit} \<longrightarrow> m_destinations fsm = []) \<and>
      (m_state fsm = MInSession \<longrightarrow>
         (\<exists>d. m_peer_heartbeat_interval fsm = Some d \<and> 10 ^ 9 \<le> d \<and> d < 2 ^ 32 * 10 ^ 6)))"

abbreviation modem_ok :: "('n, 'm) packages \<Rightarrow> ('n, 'm) modem_result \<Rightarrow> bool" where
  "modem_ok P \<equiv> keeps (modem_inv P)"

lemma modem_invD:
  assumes "modem_inv P fsm"
  shows "distinct (map fst (m_destinations fsm))" "modem_scopes_ok P fsm m"
    and "same_support (m_session_metrics fsm) (cfg_initial_metrics (m_config fsm))"
  using assms by (simp_all add: modem_inv_def)

lemma modem_scope_known:
  assumes "modem_inv P fsm" "map_of (m_destinations fsm) m = Some d"
  shows "accepts (cfg_mac_address_format (m_config fsm)) m" "destination_ok P (m_config fsm) d"
    and "per_destination (m_tx fsm) m = Some q \<Longrightarrow>
      req_kind q = (if md_announced d then ReqDestinationDown else ReqDestinationUp)"
    and "m \<in> m_pending_link_requests fsm \<Longrightarrow> per_destination (m_tx fsm) m = None \<and> md_announced d"
  using modem_invD(2) [OF assms(1), of m] assms(2) by (simp_all add: modem_scope_ok_def)

lemma modem_scope_busy:
  assumes "modem_inv P fsm" "per_destination (m_tx fsm) m \<noteq> None \<or> m \<in> m_pending_link_requests fsm"
  obtains d where "map_of (m_destinations fsm) m = Some d"
  using modem_invD(2) [OF assms(1), of m] assms(2) by (auto simp: modem_scope_ok_def split: option.splits)

text \<open>A step that touches one scope only.\<close>

lemma modem_inv_at:
  assumes "modem_inv P fsm"
    and "m_state fsm' = m_state fsm" "m_config fsm' = m_config fsm"
    and "m_session_metrics fsm' = m_session_metrics fsm" "m_local_addresses fsm' = m_local_addresses fsm"
    and "m_peer_heartbeat_interval fsm' = m_peer_heartbeat_interval fsm"
    and "session_pending (m_tx fsm') = session_pending (m_tx fsm)"
    and "m_state fsm = MInSession" "distinct (map fst (m_destinations fsm'))"
    and "\<And>m. m \<noteq> mac \<Longrightarrow> map_of (m_destinations fsm') m = map_of (m_destinations fsm) m \<and>
      per_destination (m_tx fsm') m = per_destination (m_tx fsm) m \<and>
      (m \<in> m_pending_link_requests fsm' \<longleftrightarrow> m \<in> m_pending_link_requests fsm)"
    and "modem_scopes_ok P fsm' mac"
  shows "modem_inv P fsm'"
proof -
  have "modem_scopes_ok P fsm' m" for m
    using assms(3,10,11) modem_invD(2) [OF assms(1), of m] by (cases "m = mac") simp_all
  with assms show ?thesis by (simp add: modem_inv_def)
qed

lemma modem_inv_update:
  assumes inv: "modem_inv P fsm" and st: "m_state fsm = MInSession"
    and "modem_scope_ok P (m_config fsm) mac (per_destination tx mac) (mac \<in> L) (Some d)"
    and "session_pending tx = session_pending (m_tx fsm)"
    and "\<And>m. m \<noteq> mac \<Longrightarrow> per_destination tx m = per_destination (m_tx fsm) m"
    and "\<And>m. m \<noteq> mac \<Longrightarrow> m \<in> L \<longleftrightarrow> m \<in> m_pending_link_requests fsm"
  shows "modem_inv P (fsm\<lparr>m_tx := tx, m_pending_link_requests := L,
    m_destinations := AList.update mac d (m_destinations fsm)\<rparr>)"
  by (rule modem_inv_at [OF inv, where mac = mac])
    (use st modem_invD(1) [OF inv] assms(3-) in \<open>simp_all add: distinct_update update_conv'\<close>)

lemma modem_inv_replace:
  assumes "modem_inv P fsm" "m_state fsm = MInSession"
    and "modem_scope_ok P (m_config fsm) mac (per_destination (m_tx fsm) mac)
      (mac \<in> m_pending_link_requests fsm) (Some d)"
  shows "modem_inv P (fsm\<lparr>m_destinations := AList.update mac d (m_destinations fsm)\<rparr>)"
  using modem_inv_update [OF assms(1,2,3) refl] by simp

lemma modem_inv_end:
  assumes "modem_inv P fsm" "s \<in> {MTerminating, MTerminated}"
  shows "modem_inv P (fsm\<lparr>m_state := s\<rparr>)" "modem_inv P (fsm\<lparr>m_termination_reason := c, m_state := s\<rparr>)"
    "modem_inv P (fsm\<lparr>m_state := s, m_termination_reason := c\<rparr>)"
  using assms by (auto simp: modem_inv_def)

lemma modem_inv_start:
  "modem_inv P fsm \<Longrightarrow> m_state fsm = MListening \<Longrightarrow> modem_inv P (fsm\<lparr>m_state := MAwaitingSessionInit\<rparr>)"
  by (auto simp: modem_inv_def)

lemma modem_inv_initial: "modem_inv P (modem_with_config config)"
  by (simp add: modem_inv_def modem_with_config_def modem_scope_ok_def default_tracker_def
      addrs_canonical_def no_addrs_def addrs_distinct_def)

section \<open>Messages keep the invariant\<close>

lemma modem_checked_message:
  assumes "modem_check_message P fsm msg = Inr ()" "m_state fsm = MInSession"
  shows "validate_message P msg False False (cfg_advertised_extensions (m_config fsm)) = Inr ()"
    and "validate_transaction msg (m_tx fsm)
      (case extract_destination_mac msg of None \<Rightarrow> False | Some mac \<Rightarrow> modem_announced fsm mac) = Inr ()"
    and "message_type msg = SESSION_UPDATE \<Longrightarrow>
      \<exists>a. apply_strict P (from_message P msg) (m_peer_addresses fsm) = Inr a"
    and "extract_destination_mac msg = Some mac \<Longrightarrow>
      message_type msg \<in> {DESTINATION_DOWN, LINK_CHARACTERISTICS_REQUEST} \<Longrightarrow>
      mac \<notin> m_pending_link_requests fsm"
  using assms
  by (auto simp: modem_check_message_def Let_def try_then_eq_Inr split: if_splits option.splits)

lemma destination_ok_metrics:
  assumes "destination_ok P config d" "supported_by m (cfg_initial_metrics config)"
  shows "destination_ok P config (d\<lparr>md_metrics := merge_update m (md_metrics d)\<rparr>)"
  using assms by (simp add: destination_ok_def merge_update_overlay same_support_overlay)

context dlep_packages
begin

text \<open>What the gate gives a handler of its scope, for a response of the router and for its requests.\<close>

lemma modem_response_scope:
  assumes inv: "modem_inv P fsm" and st: "m_state fsm = MInSession"
    and chk: "modem_check_message P fsm msg = Inr ()"
    and mt: "message_type msg \<in> {DESTINATION_UP_RESPONSE, DESTINATION_DOWN_RESPONSE}"
  obtains mac d where "extract_destination_mac msg = Some mac" "map_of (m_destinations fsm) mac = Some d"
    and "per_destination (m_tx fsm) mac \<noteq> None" "mac \<notin> m_pending_link_requests fsm"
    and "message_type msg = DESTINATION_UP_RESPONSE \<longleftrightarrow> \<not> md_announced d"
proof -
  note c = modem_checked_message [OF chk st]
  obtain mac where mac: "extract_destination_mac msg = Some mac"
    using validated_mac [OF c(1)] mt by (auto simp: required_items_def)
  let ?k = "if message_type msg = DESTINATION_UP_RESPONSE then ReqDestinationUp else ReqDestinationDown"
  have q: "per_destination (m_tx fsm) mac = Some \<lparr>req_kind = ?k\<rparr>"
    by (rule transaction_response [OF c(2) mac]) (use mt in \<open>auto simp: response_kind_def\<close>)
  then obtain d where d: "map_of (m_destinations fsm) mac = Some d"
    using modem_scope_busy [OF inv] by blast
  from mac d show thesis
    by (rule that) (use modem_scope_known(3,4) [OF inv d] q mt in \<open>auto split: if_splits\<close>)
qed

lemma modem_request_scope:
  assumes inv: "modem_inv P fsm" and st: "m_state fsm = MInSession"
    and chk: "modem_check_message P fsm msg = Inr ()"
    and mt: "message_type msg \<in> {DESTINATION_DOWN, LINK_CHARACTERISTICS_REQUEST}"
  obtains mac d where "extract_destination_mac msg = Some mac" "map_of (m_destinations fsm) mac = Some d"
    and "md_announced d" "per_destination (m_tx fsm) mac = None" "mac \<notin> m_pending_link_requests fsm"
proof -
  note c = modem_checked_message [OF chk st]
  obtain mac where mac: "extract_destination_mac msg = Some mac"
    using validated_mac [OF c(1)] mt by (auto simp: required_items_def)
  have "modem_announced fsm mac" using transaction_known [OF c(2) mac] mt by (auto simp: mac)
  then obtain d where d: "map_of (m_destinations fsm) mac = Some d" "md_announced d"
    by (auto simp: modem_announced_def split: option.splits)
  from mac d show thesis
    by (rule that) (use transaction_idle [OF c(2) mac] c(4) [OF mac] mt in auto)
qed

lemma modem_announce_scope:
  assumes "m_state fsm = MInSession" and chk: "modem_check_message P fsm msg = Inr ()"
    and mt: "message_type msg = DESTINATION_ANNOUNCE"
  obtains mac where "extract_destination_mac msg = Some mac" "per_destination (m_tx fsm) mac = None"
    and "\<not> modem_announced fsm mac"
proof -
  note c = modem_checked_message [OF chk assms(1)]
  obtain mac where mac: "extract_destination_mac msg = Some mac"
    using validated_mac [OF c(1)] by (auto simp: mt required_items_def)
  then show thesis
    by (rule that) (use transaction_idle [OF c(2) mac] transaction_unknown [OF c(2) mac]
      in \<open>simp_all add: mt mac\<close>)
qed

lemma announce_accepted_ok:
  assumes "destination_ok P config d"
  shows "destination_ok P config (fst (modem_announce_accepted P mac d))"
    and "md_announced (fst (modem_announce_accepted P mac d))"
  using assms
  by (auto simp: modem_announce_accepted_def Let_def destination_ok_def between_empty_iff)

lemma modem_up_response_ok:
  assumes inv: "modem_inv P fsm" and st: "m_state fsm = MInSession"
    and chk: "modem_check_message P fsm msg = Inr ()" and mt: "message_type msg = DESTINATION_UP_RESPONSE"
  shows "modem_ok P (modem_destination_up_response P fsm msg)"
proof -
  obtain mac d where mac: "extract_destination_mac msg = Some mac"
    and d: "map_of (m_destinations fsm) mac = Some d" and idle: "mac \<notin> m_pending_link_requests fsm"
    by (rule modem_response_scope [OF inv st chk]) (use mt in \<open>auto intro: that\<close>)
  note k = modem_scope_known [OF inv d]
  let ?tx = "snd (close_destination (m_tx fsm) mac)"
  have "modem_inv P (fsm\<lparr>m_tx := ?tx, m_destinations := AList.update mac d' (m_destinations fsm)\<rparr>)"
    if "destination_ok P (m_config fsm) d'" for d'
    using modem_inv_update [OF inv st, of mac ?tx "m_pending_link_requests fsm" d'] k(1) that idle
    by (simp add: modem_scope_ok_def close_destination_def)
  moreover have "destination_ok P (m_config fsm) (d\<lparr>md_announced := False\<rparr>)"
    using k(2) by (simp add: destination_ok_def)
  moreover obtain d' acts where a: "modem_announce_accepted P mac d = (d', acts)"
    by (cases "modem_announce_accepted P mac d")
  ultimately show ?thesis
    using announce_accepted_ok(1) [OF k(2), of mac]
    by (simp add: modem_destination_up_response_def mac d Let_def)
qed

lemma modem_destination_down_ok:
  assumes inv: "modem_inv P fsm" and st: "m_state fsm = MInSession"
    and chk: "modem_check_message P fsm msg = Inr ()" and mt: "message_type msg = DESTINATION_DOWN"
  shows "modem_ok P (modem_destination_down fsm msg)"
proof -
  obtain mac d where mac: "extract_destination_mac msg = Some mac"
    and d: "map_of (m_destinations fsm) mac = Some d"
    and idle: "per_destination (m_tx fsm) mac = None" "mac \<notin> m_pending_link_requests fsm"
    by (rule modem_request_scope [OF inv st chk]) (use mt in \<open>auto intro: that\<close>)
  have "modem_inv P (fsm\<lparr>m_destinations := AList.update mac
      (d\<lparr>md_announced := False, md_pending_metrics := False\<rparr>) (m_destinations fsm)\<rparr>)"
    by (rule modem_inv_replace [OF inv st])
      (use modem_scope_known(1,2) [OF inv d] idle in \<open>simp add: modem_scope_ok_def destination_ok_def\<close>)
  then show ?thesis by (simp add: modem_destination_down_def mac d)
qed

lemma modem_forget:
  assumes inv: "modem_inv P fsm" and st: "m_state fsm = MInSession"
    and "mac \<notin> m_pending_link_requests fsm" "per_destination tx mac = None"
    and "session_pending tx = session_pending (m_tx fsm)"
    and "\<And>m. m \<noteq> mac \<Longrightarrow> per_destination tx m = per_destination (m_tx fsm) m"
  shows "modem_inv P (fsm\<lparr>m_tx := tx, m_destinations := AList.delete mac (m_destinations fsm)\<rparr>)"
  by (rule modem_inv_at [OF inv, where mac = mac])
    (use st modem_invD(1) [OF inv] assms(3-)
      in \<open>simp_all add: distinct_delete delete_conv' modem_scope_ok_def\<close>)

lemma modem_down_response_ok:
  assumes inv: "modem_inv P fsm" and st: "m_state fsm = MInSession"
    and chk: "modem_check_message P fsm msg = Inr ()" and mt: "message_type msg = DESTINATION_DOWN_RESPONSE"
  shows "modem_ok P (modem_destination_down_response fsm msg)"
proof -
  obtain mac where mac: "extract_destination_mac msg = Some mac"
    and "mac \<notin> m_pending_link_requests fsm"
    by (rule modem_response_scope [OF inv st chk]) (use mt in \<open>auto intro: that\<close>)
  from modem_forget [OF inv st this(2), of "snd (close_destination (m_tx fsm) mac)"]
  show ?thesis by (simp add: modem_destination_down_response_def mac close_destination_def)
qed

lemma modem_announce_ok:
  assumes inv: "modem_inv P fsm" and st: "m_state fsm = MInSession"
    and chk: "modem_check_message P fsm msg = Inr ()" and mt: "message_type msg = DESTINATION_ANNOUNCE"
  shows "modem_ok P (modem_destination_announce P fsm msg)"
proof -
  obtain mac where mac: "extract_destination_mac msg = Some mac"
    and idle: "per_destination (m_tx fsm) mac = None"
    using modem_announce_scope [OF st chk mt] by blast
  show ?thesis
  proof (cases "map_of (m_destinations fsm) mac")
    case (Some d)
    have "modem_inv P (fsm\<lparr>m_destinations := AList.update mac
        (d\<lparr>md_announced := True, md_pending_metrics := False, md_advertised_addrs := md_addrs d\<rparr>)
        (m_destinations fsm)\<rparr>)"
      by (rule modem_inv_replace [OF inv st])
        (use modem_scope_known(1,2) [OF inv Some] idle in \<open>simp add: modem_scope_ok_def destination_ok_def\<close>)
    then show ?thesis by (simp add: modem_destination_announce_def mac Some)
  qed (use inv in \<open>simp add: modem_destination_announce_def mac\<close>)
qed

lemma modem_link_request_ok:
  assumes inv: "modem_inv P fsm" and st: "m_state fsm = MInSession"
    and chk: "modem_check_message P fsm msg = Inr ()"
    and mt: "message_type msg = LINK_CHARACTERISTICS_REQUEST"
  shows "modem_ok P (modem_link_characteristics_request fsm msg)"
proof -
  obtain mac d where mac: "extract_destination_mac msg = Some mac"
    and d: "map_of (m_destinations fsm) mac = Some d" "md_announced d"
    and idle: "per_destination (m_tx fsm) mac = None"
    by (rule modem_request_scope [OF inv st chk]) (use mt in \<open>auto intro: that\<close>)
  have "modem_inv P (fsm\<lparr>m_pending_link_requests := insert mac (m_pending_link_requests fsm)\<rparr>)"
    by (rule modem_inv_at [OF inv, where mac = mac])
      (use st modem_invD(1) [OF inv] modem_scope_known(1,2) [OF inv d(1)] d idle
        in \<open>simp_all add: modem_scope_ok_def\<close>)
  with inv show ?thesis by (simp add: modem_link_characteristics_request_def mac d Let_def)
qed

lemma modem_session_update_ok:
  assumes inv: "modem_inv P fsm" and st: "m_state fsm = MInSession"
    and chk: "modem_check_message P fsm msg = Inr ()" and mt: "message_type msg = SESSION_UPDATE"
  shows "modem_ok P (modem_session_update P fsm msg)"
proof -
  obtain a where "apply_strict P (from_message P msg) (m_peer_addresses fsm) = Inr a"
    using modem_checked_message(3) [OF chk st mt] by blast
  with inv show ?thesis by (simp add: modem_session_update_def Let_def modem_inv_def)
qed

lemma modem_initialization_ok:
  assumes inv: "modem_inv P fsm" and st: "m_state fsm = MAwaitingSessionInit"
    and chk: "modem_check_message P fsm msg = Inr ()" and mt: "message_type msg = SESSION_INITIALIZATION"
  shows "modem_inv P (modem_established P fsm msg)"
proof -
  have v: "validate_message P msg False True (cfg_advertised_extensions (m_config fsm)) = Inr ()"
    using chk st by (auto simp: modem_check_message_def Let_def try_then_eq_Inr)
  obtain d where "extract_heartbeat_interval msg = Some d" "10 ^ 9 \<le> d" "d < 2 ^ 32 * 10 ^ 6"
    using validated_heartbeat [OF v] by (auto simp: mt required_items_def)
  with inv show ?thesis by (simp add: modem_established_def modem_inv_def)
qed

lemma modem_protocol_error_ok:
  "modem_inv P fsm \<Longrightarrow> modem_ok P (modem_protocol_error fsm (Status code t))"
  by (simp add: modem_protocol_error_def modem_inv_end)

lemma modem_in_session_message_ok:
  assumes inv: "modem_inv P fsm" and st: "m_state fsm = MInSession"
    and chk: "modem_check_message P fsm msg = Inr ()"
  shows "modem_ok P (modem_in_session_message P fsm msg)"
proof -
  have "modem_ok P (modem_session_update_response fsm)"
    using inv by (simp add: modem_session_update_response_def close_session_def modem_inv_def)
  then show ?thesis
    using inv st
    by (simp add: modem_in_session_message_def Let_def modem_protocol_error_ok
        modem_up_response_ok [OF inv st chk] modem_destination_down_ok [OF inv st chk]
        modem_down_response_ok [OF inv st chk] modem_session_update_ok [OF inv st chk]
        modem_announce_ok [OF inv st chk] modem_link_request_ok [OF inv st chk]
        modem_session_termination_def modem_inv_end)
qed

section \<open>Commands keep the invariant\<close>

lemma modem_add_ok:
  assumes inv: "modem_inv P fsm" and st: "m_state fsm = MInSession"
    and mac: "accepts (cfg_mac_address_format (m_config fsm)) mac" "\<not> modem_known fsm mac"
    and metrics: "supported_by metrics (cfg_initial_metrics (m_config fsm))"
    and addrs: "changes_validate P \<lparr>added = addrs, removed = no_addrs\<rparr> = Inr ()"
  shows "modem_ok P (modem_add_destination P fsm mac metrics addrs)"
proof -
  have new: "map_of (m_destinations fsm) mac = None" using mac(2) by (simp add: modem_known_def)
  have idle: "per_destination (m_tx fsm) mac = None" "mac \<notin> m_pending_link_requests fsm"
    using modem_scope_busy [OF inv, of mac] new by force+
  let ?d = "\<lparr>md_announced = False, md_pending_metrics = False,
    md_metrics = merge_update metrics (m_session_metrics fsm), md_addrs = addrs_canonical P addrs,
    md_advertised_addrs = addrs_canonical P addrs\<rparr>"
  have "destination_ok P (m_config fsm) ?d"
    using addrs modem_invD(3) [OF inv] metrics
    by (simp add: destination_ok_def changes_validate_iff merge_update_overlay same_support_overlay)
  then have "modem_inv P (fsm\<lparr>m_tx := (m_tx fsm)\<lparr>per_destination :=
      (per_destination (m_tx fsm))(mac \<mapsto> \<lparr>req_kind = ReqDestinationUp\<rparr>)\<rparr>,
      m_destinations := AList.update mac ?d (m_destinations fsm)\<rparr>)"
    using modem_inv_update [OF inv st, of mac "(m_tx fsm)\<lparr>per_destination :=
      (per_destination (m_tx fsm))(mac \<mapsto> \<lparr>req_kind = ReqDestinationUp\<rparr>)\<rparr>" "m_pending_link_requests fsm" ?d]
      mac(1) idle
    by (simp add: modem_scope_ok_def)
  then show ?thesis using idle by (simp add: modem_add_destination_def Let_def open_destination_def)
qed

text \<open>An update is let through while a Destination Up is pending, and then the destination is not
  announced.\<close>

lemma modem_update_idle:
  assumes "modem_inv P fsm" "map_of (m_destinations fsm) mac = Some d" "md_announced d"
    and "\<And>q. per_destination (m_tx fsm) mac = Some q \<Longrightarrow> req_kind q = ReqDestinationUp"
  shows "\<not> destination_busy (m_tx fsm) mac"
  using modem_scope_known(3) [OF assms(1,2)] assms(3,4) by (fastforce simp: destination_busy_def)

lemma modem_inv_refresh:
  assumes inv: "modem_inv P fsm" and st: "m_state fsm = MInSession"
    and d: "map_of (m_destinations fsm) mac = Some d"
    and "destination_ok P (m_config fsm) d'" "md_announced d' = md_announced d"
  shows "modem_inv P (fsm\<lparr>m_destinations := AList.update mac d' (m_destinations fsm)\<rparr>)"
  by (rule modem_inv_replace [OF inv st])
    (use modem_scope_known [OF inv d] assms(4,5) in \<open>simp add: modem_scope_ok_def\<close>)

lemma modem_update_metrics_ok:
  assumes inv: "modem_inv P fsm" and st: "m_state fsm = MInSession"
    and known: "modem_known fsm mac"
    and metrics: "supported_by metrics (cfg_initial_metrics (m_config fsm))"
    and up: "\<And>q. per_destination (m_tx fsm) mac = Some q \<Longrightarrow> req_kind q = ReqDestinationUp"
  shows "modem_ok P (modem_update_metrics fsm mac metrics)"
proof -
  obtain d where d: "map_of (m_destinations fsm) mac = Some d" using known by (auto simp: modem_known_def)
  let ?d = "d\<lparr>md_metrics := merge_update metrics (md_metrics d)\<rparr>"
  have ok: "destination_ok P (m_config fsm) ?d"
    by (rule destination_ok_metrics [OF modem_scope_known(2) [OF inv d] metrics])
  then have "destination_ok P (m_config fsm) (?d\<lparr>md_pending_metrics := True\<rparr>)" if "\<not> md_announced d"
    using that by (simp add: destination_ok_def)
  with ok show ?thesis
    using modem_inv_refresh [OF inv st d] modem_update_idle [OF inv d _ up]
    by (simp add: modem_update_metrics_def d Let_def)
qed

lemma modem_update_addresses_ok:
  assumes inv: "modem_inv P fsm" and st: "m_state fsm = MInSession" and known: "modem_known fsm mac"
    and up: "\<And>q. per_destination (m_tx fsm) mac = Some q \<Longrightarrow> req_kind q = ReqDestinationUp"
  shows "modem_ok P (modem_update_addresses P fsm mac changes)"
proof -
  obtain d where d: "map_of (m_destinations fsm) mac = Some d" using known by (auto simp: modem_known_def)
  let ?new = "apply_lenient P changes (md_addrs d)"
  let ?d = "d\<lparr>md_addrs := ?new\<rparr>"
  have ok: "destination_ok P (m_config fsm) d" by (rule modem_scope_known(2) [OF inv d])
  then have new: "addrs_canonical P ?new = ?new" "addrs_distinct ?new"
    by (simp_all add: destination_ok_def canonical_lenient addrs_distinct_lenient)
  have "destination_ok P (m_config fsm) ?d"
    if "\<not> md_announced d \<or> changes_is_empty (between (md_advertised_addrs d) ?new)"
    using ok new that by (auto simp: destination_ok_def between_empty_iff)
  moreover have "destination_ok P (m_config fsm) (?d\<lparr>md_advertised_addrs := ?new\<rparr>)"
    using ok new by (simp add: destination_ok_def)
  ultimately show ?thesis
    using modem_inv_refresh [OF inv st d] modem_update_idle [OF inv d _ up]
    by (simp add: modem_update_addresses_def d Let_def)
qed

lemma modem_drop_ok:
  assumes inv: "modem_inv P fsm" and st: "m_state fsm = MInSession" and known: "modem_known fsm mac"
    and idle: "per_destination (m_tx fsm) mac = None" "mac \<notin> m_pending_link_requests fsm"
  shows "modem_ok P (modem_drop_destination fsm mac reason)"
proof -
  obtain d where d: "map_of (m_destinations fsm) mac = Some d" using known by (auto simp: modem_known_def)
  let ?tx = "(m_tx fsm)\<lparr>per_destination :=
    (per_destination (m_tx fsm))(mac \<mapsto> \<lparr>req_kind = ReqDestinationDown\<rparr>)\<rparr>"
  have "modem_inv P (fsm\<lparr>m_tx := ?tx\<rparr>)" if "md_announced d"
    by (rule modem_inv_at [OF inv, where mac = mac])
      (use st modem_invD(1) [OF inv] modem_scope_known(1,2) [OF inv d] d idle that
        in \<open>simp_all add: modem_scope_ok_def\<close>)
  then show ?thesis
    using modem_forget [OF inv st idle(2) idle(1) refl refl] idle(1)
    by (simp add: modem_drop_destination_def d destination_busy_def open_destination_def)
qed

lemma modem_answer_ok:
  assumes inv: "modem_inv P fsm" and st: "m_state fsm = MInSession"
    and asked: "mac \<in> m_pending_link_requests fsm"
    and metrics: "\<And>m. metrics = Some m \<Longrightarrow> supported_by m (cfg_initial_metrics (m_config fsm))"
  shows "modem_ok P (modem_link_characteristics_answer fsm mac status t metrics)"
proof -
  obtain d where d: "map_of (m_destinations fsm) mac = Some d"
    using modem_scope_busy [OF inv, of mac] asked by blast
  note k = modem_scope_known [OF inv d]
  have "modem_inv P (fsm\<lparr>m_pending_link_requests := m_pending_link_requests fsm - {mac},
      m_destinations := AList.update mac d' (m_destinations fsm)\<rparr>)"
    if "destination_ok P (m_config fsm) d'" for d'
    using modem_inv_update [OF inv st, of mac "m_tx fsm" "m_pending_link_requests fsm - {mac}" d']
      k(1) k(4) [OF asked] that
    by (simp add: modem_scope_ok_def)
  with metrics k(2) show ?thesis
    by (auto simp: modem_link_characteristics_answer_def d Let_def destination_ok_metrics split: option.splits)
qed

lemma modem_push_ok:
  assumes inv: "modem_inv P fsm" and idle: "\<not> session_busy (m_tx fsm)" and st: "m_state fsm = MInSession"
    and metrics: "supported_by metrics (cfg_initial_metrics (m_config fsm))"
  shows "modem_ok P (modem_push_session_metrics fsm metrics)"
proof -
  let ?f = "\<lambda>d. d\<lparr>md_metrics := merge_update metrics (md_metrics d)\<rparr>"
  have "modem_scope_ok P (m_config fsm) m q l (map_option ?f known)"
    if "modem_scope_ok P (m_config fsm) m q l known" for m q l known
    using that destination_ok_metrics [OF _ metrics]
    by (auto simp: modem_scope_ok_def split: option.splits)
  then show ?thesis
    using inv idle st same_support_overlay [OF modem_invD(3) [OF inv] metrics]
    by (simp add: modem_push_session_metrics_def open_session_def session_busy_def Let_def modem_inv_def
        map_of_map_values merge_update_overlay)
qed

lemma modem_local_ok:
  assumes inv: "modem_inv P fsm"
  shows "modem_ok P (modem_session_addresses P fsm changes)"
proof -
  have can: "addrs_canonical P (m_local_addresses fsm) = m_local_addresses fsm"
    and dist: "addrs_distinct (m_local_addresses fsm)"
    using inv by (simp_all add: modem_inv_def)
  from local_address_update [OF can dist refl, of "m_tx fsm" changes]
  obtain tx' local' acts where u: "apply_local_address_update P (m_tx fsm) (m_local_addresses fsm) changes =
      Inr (tx', local', acts)"
    and tx': "tx' = m_tx fsm \<or> tx' = (m_tx fsm)\<lparr>session_pending := Some \<lparr>req_kind = ReqSessionUpdate\<rparr>\<rparr>"
    and local': "local' = m_local_addresses fsm \<or> local' = apply_lenient P changes (m_local_addresses fsm)"
    by auto
  have "addrs_canonical P local' = local' \<and> addrs_distinct local'"
    using local' can dist canonical_lenient [OF can] addrs_distinct_lenient [OF dist] by auto
  with tx' inv show ?thesis by (auto simp: modem_session_addresses_def u modem_inv_def)
qed

lemma modem_command_scope:
  assumes "modem_check_command P fsm e = Inr (Inr ())" "command e = Some c"
  shows "m_state fsm = MInSession" "modem_check_scope fsm e (ci_destination c) = None"
    and "modem_check_values P fsm e = Inr (Inr ())"
  using assms by (auto simp: modem_check_command_def split: if_splits option.splits)

lemma modem_scope_accepts:
  assumes "modem_check_scope fsm e (Some mac) = None"
  shows "accepts (cfg_mac_address_format (m_config fsm)) mac"
    and "\<And>m a. e = AppUpdateMetrics mac m \<or> e = AppUpdateAddresses mac a \<Longrightarrow>
      per_destination (m_tx fsm) mac = Some q \<Longrightarrow> req_kind q = ReqDestinationUp"
    and "e = AppDropDestination mac reason \<Longrightarrow>
      per_destination (m_tx fsm) mac = None \<and> mac \<notin> m_pending_link_requests fsm"
    and "e = AppLinkCharacteristicsResponse mac status t answered \<Longrightarrow>
      mac \<in> m_pending_link_requests fsm"
  using assms by (auto simp: modem_check_scope_def Let_def split: if_splits option.splits)

lemma modem_command_ok:
  assumes inv: "modem_inv P fsm" and c: "command e = Some c"
    and chk: "modem_check_command P fsm e = Inr (Inr ())"
  shows "modem_ok P (modem_receive P fsm e)"
proof -
  note st = modem_command_scope(1) [OF chk c]
  note sc = modem_command_scope(2) [OF chk c] and v = modem_command_scope(3) [OF chk c]
  note defs = modem_receive_def modem_match_def modem_in_session_event_def
  note sups = modem_check_values_def modem_valid_metrics_def try_then_eq_Inr
  show ?thesis
  proof (cases e)
    case (AppAddDestination mac metrics addrs)
    with v c sc st show ?thesis
      using modem_add_ok [OF inv st modem_scope_accepts(1)]
      by (auto simp: defs sups map_err_def split: if_splits sum.splits)
  next
    case (AppDropDestination mac reason)
    with v c sc st show ?thesis
      using modem_drop_ok [OF inv st] modem_scope_accepts(3) [of fsm e mac reason]
      by (auto simp: defs sups split: if_splits)
  next
    case (AppUpdateMetrics mac metrics)
    with c sc have up: "per_destination (m_tx fsm) mac = Some q \<Longrightarrow> req_kind q = ReqDestinationUp" for q
      using modem_scope_accepts(2) [of fsm e mac] by auto
    from AppUpdateMetrics v st show ?thesis
      using modem_update_metrics_ok [OF inv st _ _ up] by (auto simp: defs sups split: if_splits)
  next
    case (AppUpdateAddresses mac changes)
    with c sc have up: "per_destination (m_tx fsm) mac = Some q \<Longrightarrow> req_kind q = ReqDestinationUp" for q
      using modem_scope_accepts(2) [of fsm e mac] by auto
    from AppUpdateAddresses v st show ?thesis
      using modem_update_addresses_ok [OF inv st _ up]
      by (auto simp: defs sups modem_known_def split: option.splits)
  next
    case (AppSessionUpdate metrics)
    with v c sc st show ?thesis
      using modem_push_ok [OF inv _ st]
      by (auto simp: defs sups modem_check_scope_def split: if_splits)
  next
    case (AppLinkCharacteristicsResponse mac status t answered)
    with c sc have asked: "mac \<in> m_pending_link_requests fsm"
      using modem_scope_accepts(4) [of fsm e mac status t answered] by auto
    have "supported_by m (cfg_initial_metrics (m_config fsm))" if "answered = Some m" for m
      using v that by (auto simp: AppLinkCharacteristicsResponse sups split: if_splits)
    with st show ?thesis using modem_answer_ok [OF inv st asked]
      by (simp add: AppLinkCharacteristicsResponse defs)
  next
    case (AppSessionAddresses changes)
    then show ?thesis using st modem_local_ok [OF inv] by (simp add: defs)
  qed (use c v in \<open>simp_all add: modem_check_values_def\<close>)
qed

lemma modem_check_total:
  assumes inv: "modem_inv P fsm" and c: "command e = Some c"
  shows "\<exists>r. modem_check_command P fsm e = Inr r"
proof (cases "\<exists>mac status t answered. e = AppLinkCharacteristicsResponse mac status t answered")
  case True
  then obtain mac status t answered where e: "e = AppLinkCharacteristicsResponse mac status t answered"
    by blast
  show ?thesis
  proof (cases "modem_check_scope fsm e (Some mac)")
    case None
    then have "mac \<in> m_pending_link_requests fsm" using modem_scope_accepts(4) e by blast
    then obtain d where "map_of (m_destinations fsm) mac = Some d"
      using modem_scope_busy [OF inv, of mac] by blast
    with None show ?thesis by (simp add: e modem_check_command_def modem_check_values_def)
  qed (simp add: e modem_check_command_def)
next
  case False
  with c show ?thesis
    by (cases e) (auto simp: modem_check_command_def modem_check_values_def split: option.splits)
qed

section \<open>Every step\<close>

lemma modem_receive_message_ok:
  assumes inv: "modem_inv P fsm"
  shows "modem_ok P (modem_receive P fsm (RecvMessage msg))"
proof (cases "m_state fsm \<in> {MAwaitingSessionInit, MInSession}")
  case True
  have fatal: "\<exists>code t. item = Status code t" if "fatal_status msg = Some item" for item
    using fatal_status_Some [OF that] by blast
  have "modem_ok P (modem_match P fsm (RecvMessage msg))"
    if chk: "modem_check_message P fsm msg = Inr ()"
    using True inv chk modem_initialization_ok [OF inv _ chk] modem_in_session_message_ok [OF inv _ chk]
    by (auto simp: modem_match_def modem_init_event_def modem_in_session_event_def
        modem_session_initialization_def Let_def modem_init_other_message_def modem_inv_end)
  with True fatal inv show ?thesis
    by (auto simp: modem_receive_def modem_protocol_error_ok split: option.splits sum.splits)
next
  case False
  then show ?thesis using inv
    by (cases "m_state fsm") (auto simp: modem_receive_def modem_match_def modem_listening_event_def
        modem_terminating_event_def modem_termination_response_def modem_inv_end)
qed

lemma modem_receive_ok:
  assumes inv: "modem_inv P fsm" and c: "command e = None"
  shows "modem_ok P (modem_receive P fsm e)"
proof (cases e)
  case (RecvMessage msg)
  then show ?thesis by (simp add: modem_receive_message_ok [OF inv])
next
  case (ProtocolError code)
  then show ?thesis using inv by (simp add: modem_receive_def modem_protocol_error_ok)
qed (use inv c in \<open>auto simp: modem_receive_def modem_match_def modem_listening_event_def
    modem_tcp_accepted_def modem_init_event_def modem_init_timeout_def modem_init_tcp_closed_def
    modem_init_shutdown_def modem_in_session_event_def modem_heartbeat_missed_def modem_shutdown_def
    modem_tcp_closed_def modem_terminating_event_def modem_termination_timeout_def
    modem_terminating_tcp_closed_def modem_inv_end modem_inv_start split: modem_session_state.splits\<close>)

lemma modem_step_ok:
  assumes "modem_inv P fsm"
  shows "modem_ok P (modem_step P fsm e)"
proof (cases "command e")
  case None
  then show ?thesis by (simp add: modem_step_def modem_receive_ok [OF assms])
next
  case (Some c)
  obtain r where r: "modem_check_command P fsm e = Inr r" using modem_check_total [OF assms Some] by blast
  show ?thesis
    using assms Some modem_command_ok [OF assms Some] r by (cases r) (simp_all add: modem_step_def)
qed

end

sublocale dlep_packages \<subseteq> modem:
  session_machine "modem_step P" "modem_inv P" "\<lambda>fsm. modem_phase (m_state fsm)"
    "\<lambda>fsm. modem_timers (m_state fsm)"
proof unfold_locales
  fix fsm fsm' :: "('n, 'm) modem_session_fsm" and e acts T
  show "modem_inv P fsm \<Longrightarrow> \<exists>fsm' acts. modem_step P fsm e = Inr (fsm', acts)"
    using modem_step_ok [of fsm e] by (auto simp: keeps_def)
  show "modem_inv P fsm \<Longrightarrow> modem_step P fsm e = Inr (fsm', acts) \<Longrightarrow> modem_inv P fsm'"
    using modem_step_ok [of fsm e] by (simp add: keeps_def)
  show "modem_step P fsm e = Inr (fsm', acts) \<Longrightarrow>
      phase_step (modem_phase (m_state fsm)) (notices acts) (modem_phase (m_state fsm'))"
    using modem_tame_step [of e fsm P] by (simp add: tame_def)
  show "modem_phase (m_state fsm) = Ended \<Longrightarrow> modem_step P fsm e = Inr (fsm', acts) \<Longrightarrow>
      fsm' = fsm \<and> list_all is_rejection acts"
    using modem_tame_step [of e fsm P] by (simp add: tame_def)
  show "T \<subseteq> modem_timers (m_state fsm) \<Longrightarrow> timer_event T e \<Longrightarrow> modem_step P fsm e = Inr (fsm', acts) \<Longrightarrow>
      armed_after (expire T e) acts \<subseteq> modem_timers (m_state fsm')"
    using modem_tame_step [of e fsm P] by (simp add: tame_def)
  show "modem_step P fsm e = Inr (fsm', acts) \<Longrightarrow> list_all kinded acts"
    using modem_tame_step [of e fsm P] by (simp add: tame_def)
qed

context dlep_packages
begin

lemma modem_run_total:
  "\<exists>fsm acts. run_events (modem_step P) (modem_with_config config) es = Inr (fsm, acts) \<and> modem_inv P fsm"
  by (rule modem.run_total [OF modem_inv_initial])

lemma modem_run_inv:
  "run_events (modem_step P) (modem_with_config config) es = Inr (fsm, acts) \<Longrightarrow> modem_inv P fsm"
  by (rule modem.run_inv [OF modem_inv_initial])

lemma modem_run_notices:
  assumes "run_events (modem_step P) (modem_with_config config) es = Inr (fsm, acts)"
  shows "notices acts \<in> {[], [UpNotice], [DownNotice], [UpNotice, DownNotice]} \<and>
    (m_state fsm = MInSession \<longrightarrow> notices acts = [UpNotice]) \<and>
    (DownNotice \<in> set (notices acts) \<longrightarrow> m_state fsm = MTerminated)"
  using modem.run_notices [OF _ assms]
  by (cases "m_state fsm") (auto simp: modem_with_config_def)

lemma modem_run_ended:
  assumes "m_state fsm = MTerminated" "run_events (modem_step P) fsm es = Inr (fsm', acts)"
  shows "fsm' = fsm \<and> list_all is_rejection acts"
  by (rule modem.run_ended) (use assms in simp_all)

lemma modem_driven_timers:
  "driven (modem_step P) (modem_with_config config) fsm T \<Longrightarrow> T \<subseteq> modem_timers (m_state fsm)"
  by (rule modem.driven_timers)

end

end
