(* ===== verification/Session_Typing.thy ===== *)
theory Session_Typing
  imports Router_Correct Modem_Correct Codec_Correct
begin

text \<open>
  Types of the source that the lists of the model do not carry by themselves: a \<open>String\<close> is valid UTF-8,
  a MAC address has six or eight octets, an \<open>Unknown\<close> item has no known type. \<open>wf_event\<close> and
  \<open>wf_action\<close> state them for what goes into and comes out of a session state machine. Both machines
  keep them: fed with well-formed events, they only send messages that survive the wire. The contract
  \<open>typed_machine\<close> extends \<open>session_machine\<close> by this law, and both roles implement it for every
  implementation of the packages.
\<close>

section \<open>Well-formed events and actions\<close>

fun wf_event :: "('n, 'm) fsm_event \<Rightarrow> bool" where
  "wf_event (RecvMessage msg) = list_all wf_item (data_items msg)"
| "wf_event (AppAddDestination mac _ _) = mac_wf mac"
| "wf_event (AppDropDestination mac _) = mac_wf mac"
| "wf_event (AppUpdateMetrics mac _) = mac_wf mac"
| "wf_event (AppUpdateAddresses mac _) = mac_wf mac"
| "wf_event (AppAnnounceDestination mac) = mac_wf mac"
| "wf_event (AppRequestLinkCharacteristics mac _) = mac_wf mac"
| "wf_event (AppLinkCharacteristicsResponse mac _ t _) = (mac_wf mac \<and> utf8_valid t)"
| "wf_event _ = True"

fun wf_action :: "('n, 'm) fsm_action \<Rightarrow> bool" where
  "wf_action (SendMessage msg) = list_all wf_item (data_items msg)"
| "wf_action (Emit (EvLinkCharacteristicsRequested mac _ _ _)) = mac_wf mac"
| "wf_action _ = True"

definition wf_result :: "panic + ('s \<times> ('n, 'm) fsm_action list) \<Rightarrow> bool" where
  "wf_result r = (\<forall>s acts. r = Inr (s, acts) \<longrightarrow> list_all wf_action acts)"

lemma wf_result_simps [simp]: "wf_result (Inl p)" "wf_result (Inr (s, acts)) = list_all wf_action acts"
  by (simp_all add: wf_result_def)

lemma wf_result_try: "(\<And>x. r = Inr x \<Longrightarrow> wf_result (f x)) \<Longrightarrow> wf_result (try_then r f)"
  by (cases r) simp_all

section \<open>Messages\<close>

lemma wf_metric_items [simp]: "list_all wf_item (metric_items m)"
  by (auto simp: metric_items_def opt_item_def split: option.splits)

lemma wf_up_items [simp]: "list_all wf_item (up_items a)"
  by (auto simp: up_items_def list_all_iff)

lemma wf_append_to [simp]:
  "list_all wf_item (data_items (append_to P c msg)) = list_all wf_item (data_items msg)"
  by (auto simp: append_to_def addrs_items_def list_all_iff)

lemma wf_set_status_text [simp]:
  "utf8_valid t \<Longrightarrow> list_all wf_item items \<Longrightarrow> list_all wf_item (set_status_text t items)"
  by (induction t items rule: set_status_text.induct) simp_all

lemma wf_builders [simp]:
  "list_all wf_item (data_items (build_session_termination reason))"
  "list_all wf_item (data_items build_session_termination_response)"
  "list_all wf_item (data_items (build_session_update metrics))"
  "list_all wf_item (data_items (build_session_update_response status))"
  "mac_wf mac \<Longrightarrow> list_all wf_item (data_items (build_link_characteristics_request mac requested))"
  "mac_wf mac \<Longrightarrow> list_all wf_item (data_items (build_link_characteristics_response mac status metrics))"
  "mac_wf mac \<Longrightarrow> utf8_valid t \<Longrightarrow>
     list_all wf_item (data_items (build_link_characteristics_reply mac status t metrics))"
  "mac_wf mac \<Longrightarrow> list_all wf_item (data_items (build_destination_announce mac))"
  "mac_wf mac \<Longrightarrow> list_all wf_item (data_items (build_destination_announce_response mac status))"
  "list_all wf_item (data_items build_heartbeat)"
  "mac_wf mac \<Longrightarrow> list_all wf_item (data_items (build_destination_up mac metrics addrs))"
  "mac_wf mac \<Longrightarrow> list_all wf_item (data_items (build_destination_up_response mac status))"
  "mac_wf mac \<Longrightarrow> list_all wf_item (data_items (build_destination_update mac metrics))"
  "mac_wf mac \<Longrightarrow> list_all wf_item (data_items (build_destination_down mac status))"
  "mac_wf mac \<Longrightarrow> list_all wf_item (data_items (build_destination_down_response mac status))"
  "mac_wf mac \<Longrightarrow> list_all wf_item (data_items (modem_announce_reply mac d))"
  "utf8_valid (cfg_peer_description config) \<Longrightarrow> list_all wf_item (data_items (build_session_initialization config))"
  "utf8_valid (cfg_peer_description config) \<Longrightarrow>
     list_all wf_item (data_items (build_session_initialization_response config))"
  by (simp_all add: build_session_termination_def build_session_termination_response_def build_session_update_def
      build_session_update_response_def build_link_characteristics_request_def build_link_characteristics_response_def
      build_link_characteristics_reply_def build_destination_announce_def build_destination_announce_response_def
      build_heartbeat_def build_destination_up_response_def build_destination_update_def build_destination_down_def
      build_destination_down_response_def modem_announce_reply_def build_session_initialization_def
      build_session_initialization_response_def push_extensions_supported_def Let_def split: option.splits)

lemma wf_extract_mac: "list_all wf_item (data_items msg) \<Longrightarrow> extract_destination_mac msg = Some mac \<Longrightarrow> mac_wf mac"
  by (fastforce simp: extract_destination_mac_def list_all_iff split: data_item.splits dest!: find_map_SomeD)

lemma wf_fatal_status:
  assumes "list_all wf_item (data_items msg)" "fatal_status msg = Some item"
  shows "wf_item item"
  using assms by (auto simp: fatal_status_def list_all_iff find_Some_iff split: if_splits)

lemma wf_local_addresses:
  "apply_local_address_update P tx local changes = Inr (tx', local', acts) \<Longrightarrow> list_all wf_action acts"
  by (auto simp: apply_local_address_update_def Let_def try_then_eq_Inr split: sum.splits if_splits prod.splits)

lemma wf_resets [simp]: "list_all wf_action (router_reset fsm)" "list_all wf_action (modem_reset mfsm)"
  by (auto simp: router_reset_def modem_reset_def heartbeat_reset_action_def split: option.splits)

section \<open>The router\<close>

lemma wf_router_error: "wf_item item \<Longrightarrow> wf_result (router_protocol_error fsm item)"
  by (auto simp: router_protocol_error_def split: data_item.splits)

lemma wf_router_message:
  assumes "list_all wf_item (data_items msg)"
  shows "wf_result (router_in_session_message P fsm msg)"
  using wf_extract_mac [OF assms]
  by (auto simp: router_in_session_message_def router_session_termination_def router_destination_up_def
      router_destination_update_def router_destination_down_def router_destination_down_response_def
      router_session_update_def router_session_update_response_def router_announce_response_def
      router_link_characteristics_response_def Let_def expect_eq_Inr split_beta
      intro!: wf_result_try wf_router_error)

lemma wf_router_init:
  assumes "utf8_valid (cfg_peer_description (r_config fsm))"
  shows "wf_result (router_init_event P fsm e)" "wf_result (router_closed_event fsm e)"
    "wf_result (router_terminating_event fsm e)"
  using assms
  by (simp_all add: router_init_event_def router_initialization_response_def router_established_actions_def
      router_init_other_message_def router_init_timeout_def router_init_tcp_closed_def router_init_shutdown_def
      router_closed_event_def router_tcp_connected_def router_terminating_event_def router_termination_response_def
      router_termination_timeout_def router_terminating_tcp_closed_def wf_router_error Let_def str_def
      split: fsm_event.splits)

lemma wf_router_session:
  assumes "wf_event e"
  shows "wf_result (router_in_session_event P fsm e)"
proof (cases e)
  case (AppSessionAddresses changes)
  then show ?thesis
    by (auto simp: router_in_session_event_def router_session_addresses_def intro!: wf_result_try
        dest: wf_local_addresses)
qed (use assms in \<open>auto simp: router_in_session_event_def wf_router_message router_drop_destination_def
    router_request_link_characteristics_def router_announce_destination_def router_heartbeat_missed_def
    router_shutdown_def router_tcp_closed_def Let_def split_beta intro!: wf_result_try\<close>)

lemma wf_router_step:
  assumes "utf8_valid (cfg_peer_description (r_config fsm))" "wf_event e"
  shows "wf_result (router_step P fsm e)"
proof -
  have m: "wf_result (router_match P fsm e)"
    using wf_router_init [OF assms(1)] wf_router_session [OF assms(2)]
    by (simp add: router_match_def split: router_session_state.splits)
  have "wf_result (router_receive P fsm e)"
  proof (cases e)
    case (RecvMessage msg)
    with assms(2) have "wf_item item" if "fatal_status msg = Some item" for item
      using wf_fatal_status [OF _ that] by simp
    with m RecvMessage show ?thesis
      by (simp add: router_receive_def wf_router_error split: option.splits sum.splits)
  qed (use m in \<open>simp_all add: router_receive_def wf_router_error\<close>)
  then show ?thesis
    by (auto simp: router_step_def split: option.splits sum.splits intro!: wf_result_try)
qed

section \<open>The modem\<close>

lemma wf_modem_error: "wf_item item \<Longrightarrow> wf_result (modem_protocol_error fsm item)"
  by (auto simp: modem_protocol_error_def split: data_item.splits)

lemma wf_announce_accepted:
  "mac_wf mac \<Longrightarrow> list_all wf_action (snd (modem_announce_accepted P mac d))"
  by (simp add: modem_announce_accepted_def Let_def)

lemma wf_modem_message:
  assumes "list_all wf_item (data_items msg)"
  shows "wf_result (modem_in_session_message P fsm msg)"
  using wf_extract_mac [OF assms] wf_announce_accepted
  by (auto simp: modem_in_session_message_def modem_session_termination_def modem_destination_up_response_def
      modem_destination_down_def modem_destination_down_response_def modem_session_update_def
      modem_session_update_response_def modem_destination_announce_def modem_link_characteristics_request_def
      Let_def expect_eq_Inr split_beta split: option.splits intro!: wf_result_try wf_modem_error)

lemma wf_modem_init:
  assumes "utf8_valid (cfg_peer_description (m_config fsm))"
  shows "wf_result (modem_init_event P fsm e)" "wf_result (modem_listening_event fsm e)"
    "wf_result (modem_terminating_event fsm e)"
  using assms
  by (simp_all add: modem_init_event_def modem_session_initialization_def modem_established_actions_def
      modem_established_def modem_init_other_message_def modem_init_timeout_def modem_init_tcp_closed_def
      modem_init_shutdown_def modem_listening_event_def modem_tcp_accepted_def modem_terminating_event_def
      modem_termination_response_def modem_termination_timeout_def modem_terminating_tcp_closed_def Let_def
      split: fsm_event.splits)

lemma wf_modem_session:
  assumes "wf_event e"
  shows "wf_result (modem_in_session_event P fsm e)"
proof (cases e)
  case (AppSessionAddresses changes)
  then show ?thesis
    by (auto simp: modem_in_session_event_def modem_session_addresses_def intro!: wf_result_try
        dest: wf_local_addresses)
qed (use assms in \<open>auto simp: modem_in_session_event_def wf_modem_message modem_add_destination_def
    modem_update_metrics_def modem_update_addresses_def modem_drop_destination_def
    modem_link_characteristics_answer_def modem_push_session_metrics_def modem_heartbeat_missed_def
    modem_shutdown_def modem_tcp_closed_def Let_def split_beta intro!: wf_result_try\<close>)

lemma wf_modem_step:
  assumes "utf8_valid (cfg_peer_description (m_config fsm))" "wf_event e"
  shows "wf_result (modem_step P fsm e)"
proof -
  have m: "wf_result (modem_match P fsm e)"
    using wf_modem_init [OF assms(1)] wf_modem_session [OF assms(2)]
    by (simp add: modem_match_def split: modem_session_state.splits)
  have "wf_result (modem_receive P fsm e)"
  proof (cases e)
    case (RecvMessage msg)
    with assms(2) have "wf_item item" if "fatal_status msg = Some item" for item
      using wf_fatal_status [OF _ that] by simp
    with m RecvMessage show ?thesis
      by (simp add: modem_receive_def wf_modem_error split: option.splits sum.splits)
  qed (use m in \<open>simp_all add: modem_receive_def wf_modem_error\<close>)
  then show ?thesis
    by (auto simp: modem_step_def split: option.splits sum.splits intro!: wf_result_try)
qed

section \<open>The contract\<close>

text \<open>Besides the law on types, that a reported protocol error ends an established session.\<close>

locale typed_machine = session_machine step inv phase_of timers_of
  for step :: "'s \<Rightarrow> ('n, 'm) fsm_event \<Rightarrow> panic + ('s \<times> ('n, 'm) fsm_action list)"
    and inv :: "'s \<Rightarrow> bool"
    and phase_of :: "'s \<Rightarrow> phase"
    and timers_of :: "'s \<Rightarrow> timer_id set" +
  fixes typed :: "'s \<Rightarrow> bool"
  assumes step_typed: "typed s \<Longrightarrow> wf_event e \<Longrightarrow> step s e = Inr (s', acts) \<Longrightarrow>
      typed s' \<and> list_all wf_action acts"
    and step_error: "phase_of s = Established \<Longrightarrow> step s (ProtocolError code) = Inr (s', acts) \<Longrightarrow>
      phase_of s' = Closing"
begin

lemma run_typed:
  "typed s \<Longrightarrow> list_all wf_event es \<Longrightarrow> run_events step s es = Inr (s', acts) \<Longrightarrow>
     typed s' \<and> list_all wf_action acts"
proof (induction es arbitrary: s acts)
  case (Cons e es)
  then obtain s1 a1 a2 where 1: "step s e = Inr (s1, a1)" "run_events step s1 es = Inr (s', a2)" "acts = a1 @ a2"
    by (auto simp: try_then_eq_Inr)
  with Cons.IH [of s1 a2] step_typed [OF Cons.prems(1) _ 1(1)] Cons.prems(2) show ?case by simp
qed simp

end

lemma router_phase_iff [simp]: "router_phase s = Established \<longleftrightarrow> s = RInSession"
  by (cases s) auto

lemma modem_phase_iff [simp]: "modem_phase s = Established \<longleftrightarrow> s = MInSession"
  by (cases s) auto

sublocale dlep_packages \<subseteq> typed_router:
  typed_machine "router_step P" "router_inv P" "\<lambda>fsm. router_phase (r_state fsm)"
    "\<lambda>fsm. router_timers (r_state fsm)" "\<lambda>fsm. utf8_valid (cfg_peer_description (r_config fsm))"
proof unfold_locales
  fix s s' :: "('n, 'm) router_session_fsm" and e acts code
  show "utf8_valid (cfg_peer_description (r_config s)) \<Longrightarrow> wf_event e \<Longrightarrow> router_step P s e = Inr (s', acts) \<Longrightarrow>
      utf8_valid (cfg_peer_description (r_config s')) \<and> list_all wf_action acts"
    using router_tame_step [of e s P] wf_router_step [of s e P] by (simp add: tame_def)
  show "router_phase (r_state s) = Established \<Longrightarrow> router_step P s (ProtocolError code) = Inr (s', acts) \<Longrightarrow>
      router_phase (r_state s') = Closing"
    by (auto simp: router_step_def router_receive_def router_protocol_error_def)
qed

sublocale dlep_packages \<subseteq> typed_modem:
  typed_machine "modem_step P" "modem_inv P" "\<lambda>fsm. modem_phase (m_state fsm)"
    "\<lambda>fsm. modem_timers (m_state fsm)" "\<lambda>fsm. utf8_valid (cfg_peer_description (m_config fsm))"
proof unfold_locales
  fix s s' :: "('n, 'm) modem_session_fsm" and e acts code
  show "utf8_valid (cfg_peer_description (m_config s)) \<Longrightarrow> wf_event e \<Longrightarrow> modem_step P s e = Inr (s', acts) \<Longrightarrow>
      utf8_valid (cfg_peer_description (m_config s')) \<and> list_all wf_action acts"
    using modem_tame_step [of e s P] wf_modem_step [of s e P] by (simp add: tame_def)
  show "modem_phase (m_state s) = Established \<Longrightarrow> modem_step P s (ProtocolError code) = Inr (s', acts) \<Longrightarrow>
      modem_phase (m_state s') = Closing"
    by (auto simp: modem_step_def modem_receive_def modem_protocol_error_def)
qed

end
