(* ===== verification/Listener.thy ===== *)
theory Listener
  imports Session_Machine
begin

text \<open>
  What a message of a modem says. A \<open>listener\<close> is the abstract receiver of these messages: it keeps
  the metrics of the session and, for every destination, its metrics and its set of addresses, and
  applies each message as RFC 8175 reads it. It stands between the two roles: the modem keeps every
  listener informed (\<open>Modem_Sync\<close>), and the router is a listener that may leave out addresses
  others hold (\<open>Router_Sync\<close>).
\<close>

section \<open>The listener\<close>

record ('n, 'm) listener =
  heard_session :: link_metrics
  heard :: "mac_address \<rightharpoonup> link_metrics \<times> ('n, 'm) addr_value set"

definition deaf :: "('n, 'm) listener" where
  "deaf = \<lparr>heard_session = default_metrics, heard = Map.empty\<rparr>"

definition hear :: "('n, 'm) packages \<Rightarrow> ('n, 'm) listener \<Rightarrow> ('n, 'm) message \<Rightarrow> ('n, 'm) listener" where
  "hear P l msg =
     (let mt = message_type msg; merge = (\<lambda>m. snd (merge_link_metrics msg m)); c = from_message P msg in
      if mt = SESSION_INITIALIZATION_RESPONSE then l\<lparr>heard_session := merge default_metrics\<rparr>
      else if mt = SESSION_UPDATE then
        l\<lparr>heard_session := merge (heard_session l),
          heard := map_option (\<lambda>(m, A). (merge m, A)) \<circ> heard l\<rparr>
      else
        case extract_destination_mac msg of
          None \<Rightarrow> l
        | Some mac \<Rightarrow>
            if mt = DESTINATION_UP \<or>
                mt = DESTINATION_ANNOUNCE_RESPONSE \<and> extract_status msg = Some SUCCESS
            then l\<lparr>heard := (heard l)(mac \<mapsto> (merge (heard_session l), addr_set (added c)))\<rparr>
            else if mt \<in> {DESTINATION_DOWN, DESTINATION_DOWN_RESPONSE}
            then l\<lparr>heard := (heard l)(mac := None)\<rparr>
            else if mt = DESTINATION_UPDATE
            then l\<lparr>heard := (heard l)(mac := map_option (\<lambda>(m, A).
                (merge m, A - addr_set (removed c) \<union> addr_set (added c))) (heard l mac))\<rparr>
            else if mt = LINK_CHARACTERISTICS_RESPONSE
            then l\<lparr>heard := (heard l)(mac := map_option (\<lambda>(m, A). (merge m, A)) (heard l mac))\<rparr>
            else l)"

definition hears ::
  "('n, 'm) packages \<Rightarrow> ('n, 'm) listener \<Rightarrow> ('n, 'm) fsm_action list \<Rightarrow> ('n, 'm) listener" where
  "hears P l acts = foldl (hear P) l (sent acts)"

lemma hears_simps [simp]:
  "hears P l [] = l"
  "hears P l (a # acts) = hears P (case a of SendMessage m \<Rightarrow> hear P l m | _ \<Rightarrow> l) acts"
  "hears P l (xs @ ys) = hears P (hears P l xs) ys"
  by (auto simp: hears_def split: fsm_action.splits)

lemma merge_no_metrics: "list_all (\<lambda>i. \<not> is_metric i) (data_items msg) \<Longrightarrow> merge_link_metrics msg m = (False, m)"
  by (simp add: merge_link_metrics_def foldl_merge_other)

text \<open>The messages among a list of events.\<close>

definition received :: "('n, 'm) fsm_event list \<Rightarrow> ('n, 'm) message list" where
  "received es = concat (map (\<lambda>e. case e of RecvMessage m \<Rightarrow> [m] | _ \<Rightarrow> []) es)"

lemma received_simps [simp]:
  "received [] = []"
  "received (e # es) = (case e of RecvMessage m \<Rightarrow> [m] | _ \<Rightarrow> []) @ received es"
  by (simp_all add: received_def)

end
