(* ===== verification/Session_Wire.thy ===== *)
theory Session_Wire
  imports Session_Task_Correct Session_Typing Listener
begin

text \<open>
  Session tasks as ends of a byte stream. For a session without extensions, what a task writes is the
  encoding of what its machine sends, and what its machine receives is what the bytes it has read
  decode to, however they were cut into reads. The laws are proved for every machine that keeps
  \<open>typed_machine\<close>.
\<close>

section \<open>What a task reads and writes\<close>

fun out_wire :: "('n, 'm, 'x) session_output \<Rightarrow> bytes list" where
  "out_wire (OutWire bytes) = [bytes]"
| "out_wire _ = []"

definition wires :: "('n, 'm, 'x) session_output list \<Rightarrow> bytes list" where
  "wires out = concat (map out_wire out)"

lemma wires_simps [simp]: "wires [] = []" "wires (xs @ ys) = wires xs @ wires ys" "wires (x # xs) = out_wire x @ wires xs"
  by (simp_all add: wires_def)

text \<open>The bytes \<open>read_frame\<close> takes from the transport.\<close>

fun read_bytes :: "('n, 'm) packages \<Rightarrow> bytes \<Rightarrow> read_result list \<Rightarrow> bytes" where
  "read_bytes P buf rs =
     (case codec_decode P buf of
        Some (Inr None, buf) \<Rightarrow>
          (case rs of ReadOk bs # rs \<Rightarrow> bs @ (if bs = [] then [] else read_bytes P (buf @ bs) rs) | _ \<Rightarrow> [])
      | _ \<Rightarrow> [])"

declare read_bytes.simps [simp del]

fun loop_reads ::
  "('s, 'n, 'm, 'w, 'x) session_env \<Rightarrow> ('s, 'n, 'm, 'w, 'x) session_task \<Rightarrow> ('n, 'm) session_input list \<Rightarrow> bytes" where
  "loop_reads env t [] = []"
| "loop_reads env t (i # is) =
     (case i of SelRead rs \<Rightarrow> read_bytes (en_packages env) (rt_read_buf t) rs | _ \<Rightarrow> []) @
     (case session_select env t i of (t, Inr False) \<Rightarrow> loop_reads env t is | _ \<Rightarrow> [])"

definition session_reads ::
  "('s, 'n, 'm, 'w, 'x) session_env \<Rightarrow> ('s, 'n, 'm, 'w, 'x) session_task \<Rightarrow> ('n, 'm) fsm_event \<Rightarrow>
     ('n, 'm) session_input list \<Rightarrow> bytes" where
  "session_reads env t initial_event is =
     (case step_and_process env t initial_event of (t, Inr False) \<Rightarrow> loop_reads env t is | _ \<Rightarrow> [])"

lemma codec_decode_waits: "codec_decode P buf = Some (Inr None, buf') \<Longrightarrow> buf' = buf"
  by (auto simp: codec_decode_def Let_def try_then_eq_Inr split: if_splits prod.splits)

definition frame_of :: "('n, 'm) packages \<Rightarrow> bytes \<Rightarrow> ('n, 'm) frame_read \<Rightarrow> bytes \<Rightarrow> bool" where
  "frame_of P bytes frame buf =
     (case frame of
        FrameMessage msg \<Rightarrow> codec_decode P bytes = Some (Inr (Some msg), buf)
      | FrameError (ErrCodec e) \<Rightarrow> codec_decode P bytes = Some (Inl e, buf)
      | FramePending \<Rightarrow> buf = bytes
      | _ \<Rightarrow> True)"

lemma read_frame_bytes:
  "read_frame P buf rs = (frame, buf') \<Longrightarrow> frame_of P (buf @ read_bytes P buf rs) frame buf'"
proof (induction P buf rs rule: read_frame.induct)
  case (1 P buf rs)
  show ?case
  proof (cases "codec_decode P buf")
    case None
    with 1(2) show ?thesis by (subst (asm) read_frame.simps) (auto simp: frame_of_def)
  next
    case (Some r)
    obtain d b where r: "r = (d, b)" by (cases r)
    consider e where "d = Inl e" | m where "d = Inr (Some m)" | "d = Inr None" by (cases d) auto
    then show ?thesis
    proof cases
      case 3
      with Some r have b: "b = buf" by (simp add: codec_decode_waits)
      with 1(2) 3 r Some show ?thesis
        using "1.IH" [of "(d, b)" d b None]
        by (subst (asm) read_frame.simps, subst read_bytes.simps)
          (auto simp: frame_of_def split: list.splits read_result.splits if_splits)
    qed (use 1(2) Some r in \<open>subst (asm) read_frame.simps, subst read_bytes.simps, auto simp: frame_of_def\<close>)+
  qed
qed

section \<open>Executing actions\<close>

text \<open>A session without extensions: nothing is queued by hooks. The calls of the backend in flight are for
  well-formed addresses.\<close>

definition plain :: "('s, 'n, 'm, 'w, 'x) session_task \<Rightarrow> bool" where
  "plain t =
     (lf_active_exts (rt_lifecycle t) = [] \<and> rt_pending_sends t = [] \<and>
      list_all (\<lambda>(h, mac). mac_wf mac) (lj_macs (lf_link_jobs (rt_lifecycle t))))"

definition written ::
  "('s, 'n, 'm, 'w, 'x) session_env \<Rightarrow> ('n, 'm) fsm_action list \<Rightarrow>
     ('s, 'n, 'm, 'w, 'x) session_task \<Rightarrow> ('s, 'n, 'm, 'w, 'x) session_task \<Rightarrow> bool" where
  "written env acts t t' =
     (plain t' \<and> rt_fsm t' = rt_fsm t \<and> rt_read_buf t' = rt_read_buf t \<and> rt_commands_open t' = rt_commands_open t \<and>
      (\<exists>frames. wires (rt_out t') = wires (rt_out t) @ frames \<and>
        list_all2 (\<lambda>msg frame. message_encode (en_packages env) msg = Inr frame) (sent acts) frames))"

lemma written_refl: "plain t \<Longrightarrow> written env [] t t"
  by (simp add: written_def)

lemma written_trans: "written env as t t' \<Longrightarrow> written env bs t' t'' \<Longrightarrow> written env (as @ bs) t t''"
  by (fastforce simp: written_def intro: list_all2_appendI)

lemma list_all_AList_update: "list_all P xs \<Longrightarrow> P (k, v) \<Longrightarrow> list_all P (AList.update k v xs)"
  by (induction xs) auto

lemma list_all_AList_delete: "list_all P xs \<Longrightarrow> list_all P (AList.delete k xs)"
  by (induction xs) auto

lemma flush_plain: "plain t \<Longrightarrow> flush_pending_sends env t = (t, Inr ())"
  by (simp add: flush_pending_sends_def plain_def)

lemma written_emit:
  assumes "plain t" "en_extensions env = []" "wf_action (Emit e)"
  shows "written env [Emit e] t (hook_emitted env e (broadcast_emitted env e (note_emitted env e t)))"
  using assms
  by (cases e) (auto simp: written_def plain_def broadcast_emitted_def update_lifecycle_def emit_out_def
      ext_negotiate_def Let_def link_jobs_start_def intro!: list_all_AList_update)

lemma written_action:
  assumes "plain t" "en_extensions env = []" "wf_action a" "process_action env t a = (t', Inr c)"
  shows "written env [a] t t'"
proof (cases a)
  case (Emit e)
  with assms(3) written_emit [OF assms(1,2)]
  have w: "written env [a] t (hook_emitted env e (broadcast_emitted env e (note_emitted env e t)))" by simp
  then have "t' = hook_emitted env e (broadcast_emitted env e (note_emitted env e t))"
    using assms(4) by (simp add: Emit process_emit_def flush_plain written_def)
  with w show ?thesis by simp
qed (use assms in \<open>auto simp: written_def plain_def write_message_def emit_out_def arm_timer_def
    split: sum.splits prod.splits option.splits\<close>)

lemma written_loop:
  assumes "plain t" "en_extensions env = []" "list_all wf_action acts" "process_loop env t acts close = (t', Inr c)"
  shows "written env acts t t'"
  using assms(1,3,4)
proof (induction acts arbitrary: t close)
  case (Cons a acts)
  then obtain t1 c1 where 1: "process_action env t a = (t1, Inr c1)" "process_loop env t1 acts (close \<or> c1) = (t', Inr c)"
    by (auto simp: and_then_def split: prod.splits sum.splits)
  with written_action [OF Cons.prems(1) assms(2) _ 1(1)] Cons.prems(2) have w: "written env [a] t t1" by simp
  with Cons.IH [OF _ _ 1(2)] Cons.prems(2) have "written env acts t1 t'" by (simp add: written_def)
  from written_trans [OF w this] show ?case by simp
qed (simp add: written_refl)

lemma written_actions:
  assumes "plain t" "en_extensions env = []" "list_all wf_action acts" "process_actions env t acts = (t', Inr c)"
  shows "written env acts t t'"
proof -
  from assms(4) obtain t1 c1 where "process_loop env t acts False = (t1, Inr c1)"
    "t' = (if c1 then t1\<lparr>rt_world := en_shutdown env (rt_world t1)\<rparr> else t1)"
    by (auto simp: process_actions_def and_then_def split: prod.splits sum.splits)
  with written_loop [OF assms(1-3)] show ?thesis by (auto simp: written_def plain_def)
qed

section \<open>Progress\<close>

text \<open>If the transport takes what is written and the messages can be encoded, the task carries out
  everything it is asked to.\<close>

definition reliable :: "('s, 'n, 'm, 'w, 'x) session_env \<Rightarrow> bool" where
  "reliable env = (en_extensions env = [] \<and> (\<forall>bytes w. fst (en_write env bytes w) = None))"

definition playable :: "('n, 'm) packages \<Rightarrow> ('n, 'm) fsm_action list \<Rightarrow> bool" where
  "playable P acts =
     (list_all wf_action acts \<and> CloseTcp \<notin> set acts \<and> list_all (\<lambda>m. is_ok (message_encode P m)) (sent acts))"

lemma playable_append [simp]: "playable P (xs @ ys) \<longleftrightarrow> playable P xs \<and> playable P ys"
  by (auto simp: playable_def)

lemma action_plays:
  assumes "reliable env" "plain t" "playable (en_packages env) [a]"
  shows "\<exists>t'. process_action env t a = (t', Inr False)"
proof (cases a)
  case (SendMessage msg)
  with assms(3) obtain out where "message_encode (en_packages env) msg = Inr out"
    by (auto simp: playable_def is_ok_def split: sum.splits)
  moreover obtain w where "en_write env out (rt_world t) = (None, w)"
    using assms(1) unfolding reliable_def by (metis prod.collapse)
  ultimately show ?thesis by (simp add: SendMessage write_message_def)
next
  case (Emit e)
  with written_emit [OF assms(2), of env e] assms(1,3) show ?thesis
    by (auto simp: process_emit_def flush_plain written_def reliable_def playable_def)
qed (use assms(3) in \<open>auto simp: playable_def split: prod.splits\<close>)

lemma process_plays:
  assumes "reliable env" "plain t" "playable (en_packages env) acts"
  obtains t' where "process_actions env t acts = (t', Inr False)" "written env acts t t'"
proof -
  have ext: "en_extensions env = []" using assms(1) by (simp add: reliable_def)
  have "\<exists>t'. process_loop env t acts False = (t', Inr False)"
    using assms(2,3)
  proof (induction acts arbitrary: t)
    case (Cons a acts)
    from Cons.prems(2) have a: "playable (en_packages env) [a]" "playable (en_packages env) acts"
      using playable_append [of _ "[a]" acts] by simp_all
    obtain t1 where 1: "process_action env t a = (t1, Inr False)" using action_plays [OF assms(1) Cons.prems(1) a(1)] by blast
    from written_action [OF Cons.prems(1) ext _ 1] a(1) have "plain t1" by (simp add: written_def playable_def)
    from Cons.IH [OF this a(2)] show ?case by (auto simp: 1)
  qed simp
  then obtain t' where p: "process_actions env t acts = (t', Inr False)" by (auto simp: process_actions_def)
  with written_actions [OF assms(2) ext _ p] assms(3) that show thesis by (simp add: playable_def)
qed

lemma step_plays:
  assumes "reliable env" "plain t" "playable (en_packages env) acts" "sf_step (en_fsm env) (rt_fsm t) e = Inr (s, acts)"
  obtains t' where "step_and_process env t e = (t', Inr False)" "written env acts (t\<lparr>rt_fsm := s\<rparr>) t'"
proof -
  obtain t' where "process_actions env (t\<lparr>rt_fsm := s\<rparr>) acts = (t', Inr False)" "written env acts (t\<lparr>rt_fsm := s\<rparr>) t'"
    using process_plays [OF assms(1) _ assms(3), of "t\<lparr>rt_fsm := s\<rparr>"] assms(2) by (auto simp: plain_def)
  with that assms(4) show thesis by (simp add: step_and_process_def step_fsm_def)
qed

section \<open>The branches of the loop\<close>

definition streamed ::
  "('s, 'n, 'm, 'w, 'x) session_env \<Rightarrow> 's \<Rightarrow> ('n, 'm) fsm_event list \<Rightarrow> ('n, 'm) fsm_action list \<Rightarrow>
     ('s, 'n, 'm, 'w, 'x) session_task \<Rightarrow> bool" where
  "streamed env s0 es acts t =
     (run_events (sf_step (en_fsm env)) s0 es = Inr (rt_fsm t, acts) \<and> list_all wf_event es \<and> plain t \<and>
      list_all2 (\<lambda>msg frame. message_encode (en_packages env) msg = Inr frame) (sent acts) (wires (rt_out t)))"

fun wf_input :: "('n, 'm) session_input \<Rightarrow> bool" where
  "wf_input (SelCommand (Some r)) = wf_event (command_event (sr_command r))"
| "wf_input (SelLink _ (Some response)) = utf8_valid (lrs_text response)"
| "wf_input _ = True"

text \<open>Of the messages \<open>msgs\<close> sent to the task those in \<open>got\<close> were taken from the buffer; what
  is left of their frames is in the buffer or still on its way.\<close>

definition caught ::
  "('n, 'm) packages \<Rightarrow> ('n, 'm) message list \<Rightarrow> bytes \<Rightarrow> bytes \<Rightarrow> ('n, 'm) message list \<Rightarrow> bool" where
  "caught P msgs buf net got =
     (\<exists>msgs1 msgs2 frames2. msgs = msgs1 @ msgs2 \<and> got = map (on_wire P) msgs1 \<and>
        list_all2 (sendable P) msgs2 frames2 \<and> buf @ net = concat frames2)"

lemma received_append [simp]: "received (es @ fs) = received es @ received fs"
  by (simp add: received_def)

lemma filter_unknown_items_plain [simp]: "filter_unknown_items ctx mt [] items t = (t, items)"
proof (induction items)
  case (Cons item items)
  then show ?case by (cases item) simp_all
qed simp

lemma command_plays:
  assumes "reliable env" "plain t" "playable (en_packages env) acts" "rt_commands_open t" "command_target c = None"
    and "sf_step (en_fsm env) (rt_fsm t) (command_event c) = Inr (s, acts)"
  obtains t' where "session_select env t (SelCommand (Some (request_from_command c))) = (t', Inr False)"
    "written env acts (t\<lparr>rt_fsm := s\<rparr>) t'"
proof -
  obtain t' where t': "step_and_process env t (command_event c) = (t', Inr False)" "written env acts (t\<lparr>rt_fsm := s\<rparr>) t'"
    by (rule step_plays [OF assms(1-3,6)])
  then have "session_select env t (SelCommand (Some (request_from_command c))) = (t', Inr False)"
    using assms(4-6)
    by (simp add: serve_command_def request_from_command_def step_and_process_def step_fsm_def send_receipt_def and_then_def
        split: prod.splits sum.splits)
  with t'(2) that show thesis by blast
qed

context dlep_packages
begin

lemma codec_decode_wf:
  assumes "codec_decode P buf = Some (Inr (Some msg), buf')"
  shows "list_all wf_item (data_items msg)"
proof -
  from assms obtain frame where "message_decode P frame = Some (Inr msg)"
    by (auto simp: codec_decode_def Let_def try_then_eq_Inr split: if_splits prod.splits)
  from message_reencode [OF this] show ?thesis by blast
qed

lemma message_plays:
  assumes env: "reliable env" "en_packages env = P" and t: "plain t" "rt_read_buf t = []" "playable P acts"
    and step: "sf_step (en_fsm env) (rt_fsm t) (RecvMessage msg) = Inr (s, acts)"
    and msg: "sendable P msg frame" "on_wire P msg = msg" "is_known_message_type (message_type msg)"
  obtains t' where "session_select env t (SelRead [ReadOk frame]) = (t', Inr False)"
    "written env acts (t\<lparr>rt_fsm := s\<rparr>) t'" "read_bytes P (rt_read_buf t) [ReadOk frame] = frame"
proof -
  have ne: "frame \<noteq> []" using frame_header(1) [of msg frame] msg(1) by (auto simp: sendable_def)
  have d: "codec_decode P frame = Some (Inr (Some msg), [])" using codec_decode_frame [OF msg(1), of "[]"] msg(2) by simp
  have e: "codec_decode P [] = Some (Inr None, [])" by (simp add: codec_decode_def)
  have r: "read_frame P [] [ReadOk frame] = (FrameMessage msg, [])" "read_bytes P [] [ReadOk frame] = frame"
    using ne by (simp add: read_frame.simps d e, simp add: read_bytes.simps d e)
  define t1 where "t1 = note_peer_description t msg"
  have t1: "plain t1" "rt_fsm t1 = rt_fsm t" "rt_read_buf t1 = []" "rt_commands_open t1 = rt_commands_open t"
    "rt_out t1 = rt_out t" "lf_active_exts (rt_lifecycle t1) = []"
    using t by (simp_all add: t1_def note_peer_description_def update_lifecycle_def plain_def Let_def)
  obtain t' where t': "step_and_process env t1 (RecvMessage msg) = (t', Inr False)" "written env acts (t1\<lparr>rt_fsm := s\<rparr>) t'"
    using step_plays [OF env(1) t1(1)] t(3) step t1(2) env(2) by metis
  have "session_message env t msg = (t', Inr False)"
    using t'(2) by (simp add: session_message_def t1_def [symmetric] msg(3) t1(6) t'(1) flush_plain written_def)
  moreover from t(2) have same: "t\<lparr>rt_read_buf := []\<rparr> = t" by (cases t) simp
  ultimately have "session_select env t (SelRead [ReadOk frame]) = (t', Inr False)"
    by (simp add: session_read_def t(2) env(2) r(1) same)
  moreover have "written env acts (t\<lparr>rt_fsm := s\<rparr>) t'"
    using t'(2) t1 t(2) by (simp add: written_def)
  ultimately show thesis using that r(2) t(2) by simp
qed

lemma caught_message:
  assumes "caught P msgs buf net got" "codec_decode P buf = Some (Inr (Some msg), buf')"
  shows "caught P msgs buf' net (got @ [msg])"
proof -
  from assms(1) obtain msgs1 msgs2 frames2 where c: "msgs = msgs1 @ msgs2" "got = map (on_wire P) msgs1"
    "list_all2 (sendable P) msgs2 frames2" "buf @ net = concat frames2" by (auto simp: caught_def)
  from c(3,4) show ?thesis
  proof (cases rule: next_frame)
    case (whole m msgs' frames' b)
    with assms(2) c(1,2) show ?thesis
      unfolding caught_def by (intro exI [of _ "msgs1 @ [m]"] exI [of _ msgs'] exI [of _ frames']) simp
  qed (use assms(2) in \<open>simp_all add: codec_decode_def\<close>)
qed

lemma caught_error: "caught P msgs buf net got \<Longrightarrow> codec_decode P buf \<noteq> Some (Inl e, buf')"
  unfolding caught_def by (elim exE conjE, erule (1) next_frame) (simp_all add: codec_decode_def)

end

definition over :: "phase \<Rightarrow> bool" where
  "over p = (p \<in> {Closing, Ended})"

lemma plain_fsm [simp]: "plain (t\<lparr>rt_fsm := s\<rparr>) = plain t"
  by (simp add: plain_def)

text \<open>The events \<open>es'\<close> with what they did to the task.\<close>

definition extended ::
  "('s, 'n, 'm, 'w, 'x) session_env \<Rightarrow> 's \<Rightarrow> ('n, 'm) fsm_event list \<Rightarrow> ('n, 'm) fsm_action list \<Rightarrow>
     ('s, 'n, 'm, 'w, 'x) session_task \<Rightarrow> ('n, 'm) fsm_event list \<Rightarrow> ('s, 'n, 'm, 'w, 'x) session_task \<Rightarrow> bool" where
  "extended env s0 es acts t es' t' =
     (rt_read_buf t' = rt_read_buf t \<and>
      (\<exists>acts'. streamed env s0 (es @ es') (acts @ acts') t' \<and>
        run_events (sf_step (en_fsm env)) (rt_fsm t) es' = Inr (rt_fsm t', acts')))"

lemma extended_refl: "streamed env s0 es acts t \<Longrightarrow> extended env s0 es acts t [] t"
  by (simp add: extended_def)

lemma extended_change:
  assumes "extended env s0 es acts t1 es' t2" "rt_read_buf t1 = rt_read_buf t" "rt_fsm t1 = rt_fsm t"
    and "plain t2 \<Longrightarrow> plain t'" "rt_fsm t' = rt_fsm t2" "rt_read_buf t' = rt_read_buf t2"
      "wires (rt_out t') = wires (rt_out t2)"
  shows "extended env s0 es acts t es' t'"
  using assms by (auto simp: extended_def streamed_def)

context typed_machine
begin

lemma over_run: "over (phase_of s) \<Longrightarrow> run_events step s es = Inr (s', acts) \<Longrightarrow> over (phase_of s')"
proof (induction es arbitrary: s acts)
  case (Cons e es)
  then obtain s1 a1 a2 where 1: "step s e = Inr (s1, a1)" "run_events step s1 es = Inr (s', a2)"
    by (auto simp: try_then_eq_Inr)
  from step_phase [OF 1(1)] Cons.prems(1) have "over (phase_of s1)" by (auto simp: over_def phase_step_iff)
  with Cons.IH 1(2) show ?case by blast
qed simp

lemma streamed_process:
  assumes "sf_step (en_fsm env) = step" "en_extensions env = []" "typed s0" "streamed env s0 es acts t"
    and "list_all wf_event es'" "run_events step (rt_fsm t) es' = Inr (s', acts')"
    and "process_actions env (t\<lparr>rt_fsm := s'\<rparr>) acts' = (t', Inr c)"
  shows "extended env s0 es acts t es' t'"
proof -
  have run: "run_events step s0 es = Inr (rt_fsm t, acts)" "list_all wf_event es" "plain t"
    "list_all2 (\<lambda>msg frame. message_encode (en_packages env) msg = Inr frame) (sent acts) (wires (rt_out t))"
    using assms(1,4) by (simp_all add: streamed_def)
  from run_typed [OF _ assms(5,6)] run_typed [OF assms(3) run(2,1)] have "list_all wf_action acts'" by simp
  from written_actions [OF _ assms(2) this assms(7)] run(3) have w: "written env acts' (t\<lparr>rt_fsm := s'\<rparr>) t'" by simp
  moreover from w run(4) have "list_all2 (\<lambda>msg frame. message_encode (en_packages env) msg = Inr frame)
      (sent (acts @ acts')) (wires (rt_out t'))"
    by (auto simp: written_def intro: list_all2_appendI)
  moreover have "run_events step s0 (es @ es') = Inr (s', acts @ acts')"
    using run(1) assms(6) by (simp add: run_events_append)
  ultimately show ?thesis
    using assms(1,5,6) run(2) by (auto simp: extended_def streamed_def written_def)
qed

lemma streamed_step:
  assumes "sf_step (en_fsm env) = step" "en_extensions env = []" "typed s0" "streamed env s0 es acts t"
    and "wf_event e" "step_and_process env t e = (t', Inr c)"
  shows "extended env s0 es acts t [e] t'"
proof -
  from assms(6) obtain s' acts' where 1: "step (rt_fsm t) e = Inr (s', acts')"
    "process_actions env (t\<lparr>rt_fsm := s'\<rparr>) acts' = (t', Inr c)"
    by (auto simp: step_and_process_def step_fsm_def assms(1) split: sum.splits)
  show ?thesis
    by (rule streamed_process [OF assms(1-4) _ _ 1(2)]) (simp_all add: assms(5) 1(1))
qed

lemma streamed_message:
  assumes env: "sf_step (en_fsm env) = step" "en_extensions env = []" "typed s0"
    "\<And>s. sf_in_session (en_fsm env) s \<Longrightarrow> phase_of s = Established"
    and t: "streamed env s0 es acts t" "list_all wf_item (data_items msg)" "session_message env t msg = (t', Inr False)"
  shows "\<exists>es'. extended env s0 es acts t es' t' \<and> (received es' = [msg] \<or> over (phase_of (rt_fsm t')))"
proof -
  define t1 where "t1 = note_peer_description t msg"
  have t1: "streamed env s0 es acts t1" "rt_read_buf t1 = rt_read_buf t" "rt_fsm t1 = rt_fsm t" "plain t1"
    using t(1) by (simp_all add: t1_def note_peer_description_def update_lifecycle_def streamed_def plain_def Let_def)
  then have exts: "lf_active_exts (rt_lifecycle t1) = []" by (simp add: plain_def)
  consider (error) "sf_in_session (en_fsm env) (rt_fsm t1)"
      "step_and_process env t1 (ProtocolError INVALID_DATA) = (t', Inr False)"
    | (message) t2 where "step_and_process env t1 (RecvMessage msg) = (t2, Inr False)"
      "flush_pending_sends env t2 = (t', Inr ())"
    using t(3)
    by (auto simp: session_message_def t1_def [symmetric] exts Let_def and_then_def split: if_splits prod.splits sum.splits)
  then show ?thesis
  proof cases
    case error
    from streamed_step [OF env(1-3) t1(1) _ error(2)] have x: "extended env s0 es acts t1 [ProtocolError INVALID_DATA] t'"
      by simp
    then obtain acts' where "step (rt_fsm t1) (ProtocolError INVALID_DATA) = Inr (rt_fsm t', acts')"
      by (auto simp: extended_def env(1) try_then_eq_Inr)
    from step_error [OF env(4) [OF error(1)] this] have "over (phase_of (rt_fsm t'))" by (simp add: over_def)
    with extended_change [OF x t1(2,3)] show ?thesis by blast
  next
    case message
    from streamed_step [OF env(1-3) t1(1) _ message(1)] t(2) have x: "extended env s0 es acts t1 [RecvMessage msg] t2"
      by simp
    then have "plain t2" by (auto simp: extended_def streamed_def)
    with message(2) have "t2 = t'" by (simp add: flush_plain)
    with extended_change [OF x t1(2,3)] show ?thesis by (intro exI [of _ "[RecvMessage msg]"]) simp
  qed
qed

lemma streamed_command:
  assumes env: "sf_step (en_fsm env) = step" "en_extensions env = []" "typed s0"
    and t: "streamed env s0 es acts t" "wf_input (SelCommand request)" "serve_command env t request = (t', Inr False)"
  shows "\<exists>es'. extended env s0 es acts t es' t' \<and> received es' = []"
proof (cases "rt_commands_open t")
  case True
  have receipt: "plain (send_receipt n answer t) = plain t" "rt_fsm (send_receipt n answer t) = rt_fsm t"
    "rt_read_buf (send_receipt n answer t) = rt_read_buf t" "wires (rt_out (send_receipt n answer t)) = wires (rt_out t)"
    for n answer and t :: "('s, 'n, 'm, 'w, 'x) session_task"
    by (simp_all add: send_receipt_def emit_out_def plain_def split: option.splits)
  show ?thesis
  proof (cases request)
    case None
    let ?t = "t\<lparr>rt_commands_open := False\<rparr>"
    have "streamed env s0 es acts ?t" using t(1) by (simp add: streamed_def plain_def)
    from streamed_step [OF env this, of "AppShutdown SHUTTING_DOWN" t' False] t(3)
    have "extended env s0 es acts ?t [AppShutdown SHUTTING_DOWN] t'" by (simp add: serve_command_def True None)
    from extended_change [OF this] show ?thesis by (intro exI [of _ "[AppShutdown SHUTTING_DOWN]"]) simp
  next
    case (Some r)
    let ?e = "command_event (sr_command r)"
    have e: "received [?e] = []" by (cases "sr_command r") simp_all
    consider "t' = send_receipt (sr_receipt r) None t"
      | acts' t1 t2 answer where "step_fsm env t ?e = (t1, Inr acts')" "process_actions env t1 acts' = (t2, Inr False)"
        "t' = send_receipt (sr_receipt r) answer t2"
      using t(3) by (auto simp: serve_command_def True Some and_then_def split: if_splits prod.splits sum.splits)
    then show ?thesis
    proof cases
      case 1
      from extended_change [OF extended_refl [OF t(1)]] show ?thesis
        by (intro exI [of _ "[]"]) (simp add: 1 receipt)
    next
      case 2
      then have "step_and_process env t ?e = (t2, Inr False)" by (simp add: step_and_process_def)
      from streamed_step [OF env t(1) _ this] t(2) Some have "extended env s0 es acts t [?e] t2" by simp
      from extended_change [OF this] e show ?thesis by (intro exI [of _ "[?e]"]) (simp add: 2(3) receipt)
    qed
  qed
qed (use t extended_refl [OF t(1)] in \<open>auto simp: serve_command_def intro!: exI [of _ "[]"]\<close>)

lemma streamed_link:
  assumes env: "sf_step (en_fsm env) = step" "en_extensions env = []" "typed s0"
    and t: "streamed env s0 es acts t" "wf_input (SelLink h outcome)" "session_link env t h outcome = (t', Inr False)"
  shows "\<exists>es'. extended env s0 es acts t es' t' \<and> received es' = []"
proof -
  let ?jobs = "lf_link_jobs (rt_lifecycle t)"
  have "plain t" using t(1) by (simp add: streamed_def)
  then have macs: "list_all (\<lambda>(h, mac). mac_wf mac) (lj_macs ?jobs)" by (simp add: plain_def)
  consider "t' = t"
    | e :: "('n, 'm) fsm_event" and jobs where "link_jobs_next ?jobs h outcome = Inr (Some e, jobs)"
    using t(3) by (auto simp: session_link_def split: sum.splits option.splits)
  then show ?thesis
  proof cases
    case 1
    with extended_refl [OF t(1)] show ?thesis by (intro exI [of _ "[]"]) simp
  next
    case (2 e jobs)
    then obtain mac response where e: "e = into_event response mac" "map_of (lj_macs ?jobs) h = Some mac"
      "utf8_valid (lrs_text response)" "lj_macs jobs = AList.delete h (lj_macs ?jobs)"
      using t(2) by (cases outcome) (auto simp: link_jobs_next_def Let_def try_then_eq_Inr expect_eq_Inr link_denied_def
          split: option.splits link_job.splits)
    have "mac_wf mac" using macs map_of_SomeD [OF e(2)] by (auto simp: list_all_iff)
    with e(1,3) have wf: "wf_event e" "\<And>fb. fallback_denial e = Some fb \<Longrightarrow> wf_event fb"
      "\<And>fb. fallback_denial e = Some fb \<Longrightarrow> received [e, fb] = []" "received [e] = []"
      by (auto simp: into_event_def link_denied_def)
    define t1 where "t1 = update_lifecycle (\<lambda>l. l\<lparr>lf_link_jobs := jobs\<rparr>) t"
    have t1: "streamed env s0 es acts t1" "rt_read_buf t1 = rt_read_buf t" "rt_fsm t1 = rt_fsm t"
      using t(1) macs e(4)
      by (simp_all add: t1_def update_lifecycle_def streamed_def plain_def list_all_AList_delete)
    obtain s2 a2 where s2: "step (rt_fsm t1) e = Inr (s2, a2)" and
      "(if rejects_input a2
        then (case fallback_denial e of None \<Rightarrow> (t1\<lparr>rt_fsm := s2\<rparr>, Inl (Panicked ''link-control response''))
          | Some fb \<Rightarrow> and_then (step_fsm env (t1\<lparr>rt_fsm := s2\<rparr>) fb) (\<lambda>t denial. process_actions env t (a2 @ denial)))
        else process_actions env (t1\<lparr>rt_fsm := s2\<rparr>) a2) = (t', Inr False)"
      using t(3) by (auto simp: session_link_def 2 t1_def [symmetric] step_fsm_def env(1) split: sum.splits)
    then consider "process_actions env (t1\<lparr>rt_fsm := s2\<rparr>) a2 = (t', Inr False)"
      | fb s3 a3 where "fallback_denial e = Some fb" "step s2 fb = Inr (s3, a3)"
        "process_actions env (t1\<lparr>rt_fsm := s3\<rparr>) (a2 @ a3) = (t', Inr False)"
      by (auto simp: step_fsm_def env(1) split: if_splits option.splits sum.splits)
    then show ?thesis
    proof cases
      case 1
      have "extended env s0 es acts t1 [e] t'"
        by (rule streamed_process [OF env t1(1) _ _ 1]) (simp_all add: wf s2)
      from extended_change [OF this t1(2,3)] wf(4) show ?thesis by blast
    next
      case (2 fb s3 a3)
      have "extended env s0 es acts t1 [e, fb] t'"
        by (rule streamed_process [OF env t1(1) _ _ 2(3)]) (simp_all add: wf 2(1,2) s2)
      from extended_change [OF this t1(2,3)] wf(3) [OF 2(1)] show ?thesis by blast
    qed
  qed
qed

lemma streamed_timer:
  assumes env: "sf_step (en_fsm env) = step" "en_extensions env = []" "typed s0"
    and t: "streamed env s0 es acts t" "session_timer env t = (t', Inr False)"
  shows "\<exists>es'. extended env s0 es acts t es' t' \<and> received es' = []"
proof (cases "rt_queue t")
  case Nil
  then show ?thesis using t extended_refl [OF t(1)] by (intro exI [of _ "[]"]) (simp add: session_timer_def)
next
  case (Cons x queue)
  obtain i k g where x: "x = (i, k, g)" by (cases x)
  let ?t = "t\<lparr>rt_queue := queue, rt_timers := timer_forget (rt_timers t) i\<rparr>"
  show ?thesis
  proof (cases "is_current_generation (rt_timers t) i g")
    case False
    then have 1: "t' = t\<lparr>rt_queue := queue\<rparr>" using t(2) by (simp add: session_timer_def Cons x Let_def)
    have "extended env s0 es acts t [] t'"
      by (rule extended_change [OF extended_refl [OF t(1)]]) (simp_all add: 1 plain_def)
    then show ?thesis by (intro exI [of _ "[]"]) simp
  next
    case True
    then have 2: "step_and_process env ?t (TimerExpired i k) = (t', Inr False)"
      using t(2) by (simp add: session_timer_def Cons x Let_def)
    have "streamed env s0 es acts ?t" using t(1) by (simp add: streamed_def plain_def)
    from streamed_step [OF env this _ 2] have "extended env s0 es acts ?t [TimerExpired i k] t'" by simp
    then have "extended env s0 es acts t [TimerExpired i k] t'" by (rule extended_change) simp_all
    then show ?thesis by (intro exI [of _ "[TimerExpired i k]"]) simp
  qed
qed

lemma streamed_read:
  assumes env: "sf_step (en_fsm env) = step" "en_extensions env = []" "typed s0"
    "\<And>s. sf_in_session (en_fsm env) s \<Longrightarrow> phase_of s = Established"
    and pk: "dlep_packages (en_packages env)" and t: "streamed env s0 es acts t" "session_read env t rs = (t', Inr False)"
  shows "\<exists>es' acts'. streamed env s0 (es @ es') (acts @ acts') t' \<and>
    run_events step (rt_fsm t) es' = Inr (rt_fsm t', acts') \<and>
    (\<forall>msgs got net.
      caught (en_packages env) msgs (rt_read_buf t @ read_bytes (en_packages env) (rt_read_buf t) rs) net got \<longrightarrow>
      over (phase_of (rt_fsm t')) \<or> caught (en_packages env) msgs (rt_read_buf t') net (got @ received es'))"
proof -
  let ?P = "en_packages env" and ?buf = "rt_read_buf t @ read_bytes (en_packages env) (rt_read_buf t) rs"
  obtain frame buf where r: "read_frame ?P (rt_read_buf t) rs = (frame, buf)"
    by (cases "read_frame ?P (rt_read_buf t) rs")
  note fr = read_frame_bytes [OF r]
  let ?t = "t\<lparr>rt_read_buf := buf\<rparr>"
  have st: "streamed env s0 es acts ?t" using t(1) by (simp add: streamed_def plain_def)
  show ?thesis
  proof (cases frame)
    case (FrameMessage m)
    with fr have d: "codec_decode ?P ?buf = Some (Inr (Some m), buf)" by (simp add: frame_of_def)
    have "session_message env ?t m = (t', Inr False)" using t(2) by (simp add: session_read_def r FrameMessage)
    from streamed_message [OF env st dlep_packages.codec_decode_wf [OF pk d] this] obtain es' where
      x: "extended env s0 es acts ?t es' t'" "received es' = [m] \<or> over (phase_of (rt_fsm t'))" by blast
    then obtain acts' where "streamed env s0 (es @ es') (acts @ acts') t'" "rt_read_buf t' = buf"
      "run_events step (rt_fsm t) es' = Inr (rt_fsm t', acts')" by (auto simp: extended_def env(1))
    with dlep_packages.caught_message [OF pk _ d] x(2) show ?thesis
      by (intro exI [of _ es'] exI [of _ acts']) auto
  next
    case (FrameError e)
    then obtain ce where e: "e = ErrCodec ce" and s: "step_and_process env ?t (ProtocolError INVALID_DATA) = (t', Inr False)"
      using t(2) by (cases e) (simp_all add: session_read_def r)
    with fr FrameError have "codec_decode ?P ?buf = Some (Inl ce, buf)" by (simp add: frame_of_def)
    moreover from streamed_step [OF env(1-3) st _ s] obtain acts' where
      "streamed env s0 (es @ [ProtocolError INVALID_DATA]) (acts @ acts') t'"
      "run_events step (rt_fsm t) [ProtocolError INVALID_DATA] = Inr (rt_fsm t', acts')"
      by (auto simp: extended_def env(1))
    ultimately show ?thesis using dlep_packages.caught_error [OF pk] by blast
  next
    case FramePending
    with t(2) have "t' = ?t" by (simp add: session_read_def r)
    with st fr FramePending show ?thesis
      by (intro exI [of _ "[]"]) (simp add: frame_of_def)
  qed (use t(2) in \<open>auto simp: session_read_def r and_then_def split: prod.splits sum.splits\<close>)
qed

lemma streamed_select:
  assumes env: "sf_step (en_fsm env) = step" "en_extensions env = []" "typed s0"
    "\<And>s. sf_in_session (en_fsm env) s \<Longrightarrow> phase_of s = Established"
    and pk: "dlep_packages (en_packages env)"
    and t: "streamed env s0 es acts t" "wf_input i" "session_select env t i = (t', Inr False)"
  defines "new \<equiv> case i of SelRead rs \<Rightarrow> read_bytes (en_packages env) (rt_read_buf t) rs | _ \<Rightarrow> []"
  obtains es' acts' where "streamed env s0 (es @ es') (acts @ acts') t'"
    "run_events step (rt_fsm t) es' = Inr (rt_fsm t', acts')"
    "\<And>msgs got net. caught (en_packages env) msgs (rt_read_buf t) (new @ net) got \<Longrightarrow>
      over (phase_of (rt_fsm t')) \<or> caught (en_packages env) msgs (rt_read_buf t') net (got @ received es')"
proof -
  have "\<exists>es' acts'. streamed env s0 (es @ es') (acts @ acts') t' \<and>
    run_events step (rt_fsm t) es' = Inr (rt_fsm t', acts') \<and>
    (\<forall>msgs got net. caught (en_packages env) msgs (rt_read_buf t @ new) net got \<longrightarrow>
      over (phase_of (rt_fsm t')) \<or> caught (en_packages env) msgs (rt_read_buf t') net (got @ received es'))"
  proof (cases "\<exists>rs. i = SelRead rs")
    case True
    then obtain rs where i: "i = SelRead rs" by blast
    with streamed_read [OF env pk t(1)] t(3) show ?thesis by (simp add: new_def)
  next
    case False
    then have "new = []" by (auto simp: new_def split: session_input.splits)
    have "\<exists>es'. extended env s0 es acts t es' t' \<and> received es' = []"
    proof (cases i)
      case (SleeperWakes h)
      have "extended env s0 es acts t [] t'"
        by (rule extended_change [OF extended_refl [OF t(1)]])
          (use t(3) SleeperWakes in \<open>auto simp: plain_def split: prod.splits\<close>)
      then show ?thesis by (intro exI [of _ "[]"]) simp
    qed (use False t streamed_command [OF env(1-3) t(1)] streamed_link [OF env(1-3) t(1)]
        streamed_timer [OF env(1-3) t(1)] in auto)
    then obtain es' acts' where "streamed env s0 (es @ es') (acts @ acts') t'" "received es' = []"
      "run_events step (rt_fsm t) es' = Inr (rt_fsm t', acts')" "rt_read_buf t' = rt_read_buf t"
      by (auto simp: extended_def env(1))
    with \<open>new = []\<close> show ?thesis by (intro exI [of _ es'] exI [of _ acts']) simp
  qed
  moreover have "caught (en_packages env) msgs (rt_read_buf t) (new @ net) got =
      caught (en_packages env) msgs (rt_read_buf t @ new) net got" for msgs net got
    by (simp add: caught_def)
  ultimately show thesis using that by blast
qed

lemma streamed_loop:
  assumes env: "sf_step (en_fsm env) = step" "en_extensions env = []" "typed s0"
    "\<And>s. sf_in_session (en_fsm env) s \<Longrightarrow> phase_of s = Established"
    and pk: "dlep_packages (en_packages env)"
    and "streamed env s0 es acts t" "list_all wf_input is" "session_loop env t is = (t', None)"
    and "framed \<longrightarrow> over (phase_of (rt_fsm t)) \<or>
      caught (en_packages env) msgs (rt_read_buf t) (loop_reads env t is @ net) (received es)"
  shows "\<exists>es' acts'. streamed env s0 (es @ es') (acts @ acts') t' \<and>
    (framed \<longrightarrow> over (phase_of (rt_fsm t')) \<or>
      caught (en_packages env) msgs (rt_read_buf t') net (received (es @ es')))"
  using assms(6-9)
proof (induction "is" arbitrary: es acts t)
  case Nil
  then show ?case by (intro exI [of _ "[]"]) simp
next
  case (Cons i "is")
  from Cons.prems(3) obtain t1 where 1: "session_select env t i = (t1, Inr False)" "session_loop env t1 is = (t', None)"
    by (auto split: prod.splits sum.splits bool.splits)
  have "wf_input i" "list_all wf_input is" using Cons.prems(2) by simp_all
  obtain es1 acts1 where s: "streamed env s0 (es @ es1) (acts @ acts1) t1"
    "run_events step (rt_fsm t) es1 = Inr (rt_fsm t1, acts1)"
    "\<And>msgs got net. caught (en_packages env) msgs (rt_read_buf t)
        ((case i of SelRead rs \<Rightarrow> read_bytes (en_packages env) (rt_read_buf t) rs | _ \<Rightarrow> []) @ net) got \<Longrightarrow>
      over (phase_of (rt_fsm t1)) \<or> caught (en_packages env) msgs (rt_read_buf t1) net (got @ received es1)"
    using streamed_select [OF env pk Cons.prems(1) \<open>wf_input i\<close> 1(1)] by blast
  have "framed \<longrightarrow> over (phase_of (rt_fsm t1)) \<or>
      caught (en_packages env) msgs (rt_read_buf t1) (loop_reads env t1 is @ net) (received (es @ es1))"
    using Cons.prems(4) over_run [OF _ s(2)] s(3) by (auto simp: 1(1))
  from Cons.IH [OF s(1) \<open>list_all wf_input is\<close> 1(2) this] show ?case by (metis append_assoc)
qed

lemma run_streams:
  assumes env: "sf_step (en_fsm env) = step" "en_extensions env = []" "typed s0"
    "\<And>s. sf_in_session (en_fsm env) s \<Longrightarrow> phase_of s = Established"
    and pk: "dlep_packages (en_packages env)" and e: "wf_event e" "received [e] = []"
    and "is": "list_all wf_input is" "run_session env (session_new env s0 peer connection link_control w) e is = (t, None)"
  shows "\<exists>es acts. streamed env s0 es acts t \<and>
    (list_all2 (sendable (en_packages env)) msgs frames \<and>
     session_reads env (session_new env s0 peer connection link_control w) e is @ net = concat frames \<longrightarrow>
     over (phase_of (rt_fsm t)) \<or> caught (en_packages env) msgs (rt_read_buf t) net (received es))"
proof -
  let ?t = "session_new env s0 peer connection link_control w"
  let ?framed = "list_all2 (sendable (en_packages env)) msgs frames \<and> session_reads env ?t e is @ net = concat frames"
  have new: "streamed env s0 [] [] ?t" by (simp add: streamed_def plain_def session_new_def link_jobs_new_def)
  from "is"(2) obtain t1 where 1: "step_and_process env ?t e = (t1, Inr False)" "session_loop env t1 is = (t, None)"
    by (auto simp: run_session_def split: prod.splits sum.splits bool.splits)
  from streamed_step [OF env(1-3) new e(1) 1(1)] obtain acts where
    2: "streamed env s0 [e] acts t1" "rt_read_buf t1 = []" by (auto simp: extended_def session_new_def)
  have "caught (en_packages env) msgs (rt_read_buf t1) (loop_reads env t1 is @ net) (received [e])" if ?framed
    unfolding caught_def using that
    by (intro exI [of _ "[]"] exI [of _ msgs] exI [of _ frames]) (simp add: e(2) 2(2) session_reads_def 1(1) del: received_simps)
  then have "?framed \<longrightarrow> over (phase_of (rt_fsm t1)) \<or>
      caught (en_packages env) msgs (rt_read_buf t1) (loop_reads env t1 is @ net) (received [e])" by blast
  from streamed_loop [OF env pk 2(1) "is"(1) 1(2) this] show ?thesis by blast
qed

lemma streamed_sendable:
  assumes "sf_step (en_fsm env) = step" "typed s0" "streamed env s0 es acts t"
  shows "list_all2 (sendable (en_packages env)) (sent acts) (wires (rt_out t))"
proof -
  have "list_all wf_action acts" using assms run_typed by (auto simp: streamed_def)
  then have "list_all (\<lambda>m. list_all wf_item (data_items m)) (sent acts)"
  proof (induction acts)
    case (Cons a acts)
    then show ?case by (cases a) simp_all
  qed simp
  with assms(3) show ?thesis
    by (auto simp: streamed_def sendable_def list_all2_conv_all_nth list_all_length)
qed

end

end
