(* ===== verification/Handshake.thy ===== *)
theory Handshake
  imports Session_Router Session_Modem
begin

text \<open>
  Initialization across the wire: what one role sends on a new connection, encoded and decoded again, is
  what the other accepts, for any two configurations whose messages can be encoded. The proof goes
  through the codec, the validator and both state machines.
\<close>

section \<open>The two messages\<close>

abbreviation extension_items :: "extension_id list \<Rightarrow> ('n, 'm) data_item list" where
  "extension_items ids \<equiv> (if ids = [] then [] else [ExtensionsSupported ids])"

lemma build_session_initialization_sel [simp]:
  "message_type (build_session_initialization config) = SESSION_INITIALIZATION"
  "data_items (build_session_initialization config) =
     [HeartbeatInterval (local_heartbeat_interval config),
      PeerType \<lparr>smi = False\<rparr> (cfg_peer_description config)]
     @ extension_items (cfg_advertised_extensions config)"
  by (simp_all add: build_session_initialization_def push_extensions_supported_def)

lemma build_session_initialization_response_sel [simp]:
  "message_type (build_session_initialization_response config) = SESSION_INITIALIZATION_RESPONSE"
  "data_items (build_session_initialization_response config) =
     [Status SUCCESS [], HeartbeatInterval (local_heartbeat_interval config),
      PeerType \<lparr>smi = False\<rparr> (cfg_peer_description config)]
     @ extension_items (cfg_advertised_extensions config) @ metric_items (cfg_initial_metrics config)"
  by (simp_all add: build_session_initialization_response_def push_extensions_supported_def)

definition wire_metrics :: "link_metrics \<Rightarrow> link_metrics" where
  "wire_metrics m = m\<lparr>latency := as_micros (latency m) * 10 ^ 3\<rparr>"

lemma canon_metric_items: "map (canon P) (metric_items m) = metric_items (wire_metrics m)"
  by (auto simp: metric_items_def wire_metrics_def opt_item_def split: option.splits)

lemma local_heartbeat_canon: "as_millis (local_heartbeat_interval config) * 10 ^ 6 = local_heartbeat_interval config"
  by (simp add: as_millis_def local_heartbeat_interval_def from_millis_def)

lemma canon_initialization:
  "build_session_initialization config\<lparr>data_items := map (canon P) (data_items (build_session_initialization config))\<rparr>
     = build_session_initialization config"
  by (simp add: message.equality local_heartbeat_canon [simplified])

lemma canon_initialization_response:
  "build_session_initialization_response config\<lparr>data_items :=
       map (canon P) (data_items (build_session_initialization_response config))\<rparr>
     = build_session_initialization_response
         (config\<lparr>cfg_initial_metrics := wire_metrics (cfg_initial_metrics config)\<rparr>)"
proof -
  have "local_heartbeat_interval (config\<lparr>cfg_initial_metrics := m\<rparr>) = local_heartbeat_interval config" for m
    by (simp add: local_heartbeat_interval_def)
  then show ?thesis
    by (auto intro!: message.equality simp: local_heartbeat_canon [simplified] canon_metric_items)
qed

lemma as_micros_whole [simp]: "as_micros (as_micros d * 1000) = as_micros d"
  by (simp add: as_micros_def)

lemma wire_metrics_fit:
  assumes "\<forall>i\<in>set (metric_items m). item_wire P i \<noteq> None" "i \<in> set (metric_items (wire_metrics m))"
  shows "item_wire P i \<noteq> None"
proof -
  obtain j where j: "j \<in> set (metric_items m)" "i = canon P j"
    using assms(2) by (auto simp: canon_metric_items [of P, symmetric])
  then have "item_value P i = item_value P j \<and> type_id i = type_id j"
    by (cases j) (auto simp: metric_items_def opt_item_def split: option.splits)
  then have "item_wire P i = item_wire P j" by (simp only: item_wire_def)
  with assms(1) j(1) show ?thesis by metis
qed

section \<open>Both are accepted\<close>

lemmas init_grammar = grammatical_def considered_def ignorable_def expected_message_def item_fits_def
  item_allowed_def required_items_def address_type_def metric_type_def Let_def word_le_nat_alt

lemma singles_append [simp]: "singles (xs @ ys) = singles xs @ singles ys"
  by (simp add: singles_def)

lemma metric_items_singles:
  "singles (metric_items m) = [MAXIMUM_DATA_RATE_RECEIVE, MAXIMUM_DATA_RATE_TRANSMIT,
     CURRENT_DATA_RATE_RECEIVE, CURRENT_DATA_RATE_TRANSMIT, LATENCY]
     @ opt_item (\<lambda>_. 17) (resources m) @ opt_item (\<lambda>_. 18) (rlq_rx m) @ opt_item (\<lambda>_. 19) (rlq_tx m)
     @ opt_item (\<lambda>_. 20) (mtu m)"
  by (auto simp: metric_items_def address_type_def word_le_nat_alt opt_item_def split: option.splits)

lemma metric_items_fits:
  "i \<in> set (metric_items m) \<Longrightarrow>
     \<not> is_unknown i \<and> \<not> is_removal i \<and> metric_type (type_id i) \<and> \<not> address_type (type_id i) \<and>
     (\<forall>mac. i \<noteq> MacAddress mac) \<and> (\<forall>code expl. i \<noteq> Status code expl)"
  by (auto simp: metric_items_def opt_item_def metric_type_def address_type_def word_le_nat_alt
      split: option.splits)

lemma metric_items_plain:
  "list_all wf_item (metric_items m)"
  "find_map (\<lambda>i. case i of ExtensionsSupported ids \<Rightarrow> Some ids | _ \<Rightarrow> None) (metric_items m) = None"
  by (auto simp: metric_items_def opt_item_def split: option.splits)

context dlep_packages
begin

lemma message_encode_fits: "message_encode P msg = Inr out \<Longrightarrow> i \<in> set (data_items msg) \<Longrightarrow> item_wire P i \<noteq> None"
  using items_wire_fits by (auto simp: message_encode_eq_Inr)

lemma initialization_valid:
  assumes "message_encode P (build_session_initialization config) = Inr out"
  shows "validate_message P (build_session_initialization config) False True exts = Inr ()"
  using message_encode_fits [OF assms]
  unfolding validate_message_iff by (auto simp: init_grammar)

lemma initialization_response_valid:
  assumes "message_encode P (build_session_initialization_response config) = Inr out"
  shows "validate_message P (build_session_initialization_response
    (config\<lparr>cfg_initial_metrics := wire_metrics (cfg_initial_metrics config)\<rparr>)) True True exts = Inr ()"
proof -
  let ?c = "config\<lparr>cfg_initial_metrics := wire_metrics (cfg_initial_metrics config)\<rparr>"
  let ?r = "build_session_initialization_response ?c"
  let ?items = "metric_items (wire_metrics (cfg_initial_metrics config)) :: ('n, 'm) data_item list"
  have hb: "local_heartbeat_interval ?c = local_heartbeat_interval config"
    by (simp add: local_heartbeat_interval_def)
  have fits: "item_wire P i \<noteq> None" if "i \<in> set (data_items ?r)" for i
    using that message_encode_fits [OF assms] wire_metrics_fit [of "cfg_initial_metrics config" P i]
    by (auto simp: hb split: if_splits)
  have known: "considered ?r True exts = data_items ?r"
    using metric_items_fits by (fastforce simp: considered_def ignorable_def filter_id_conv)
  have "list_all (item_fits P SESSION_INITIALIZATION_RESPONSE True True) (data_items ?r)"
    using fits metric_items_fits
    by (fastforce simp: list_all_iff item_fits_def item_allowed_def Let_def)
  moreover have "distinct (singles (data_items ?r))" "set (required_items SESSION_INITIALIZATION_RESPONSE)
      \<subseteq> set (singles (data_items ?r))"
    by (auto simp: metric_items_singles required_items_def address_type_def word_le_nat_alt opt_item_def
        split: option.splits)
  moreover have "address_wires P (data_items ?r) = []"
    using metric_items_fits by (fastforce simp: address_wires_def filter_empty_conv address_type_def word_le_nat_alt)
  ultimately show ?thesis
    unfolding validate_message_iff grammatical_def Let_def known
    by (simp add: expected_message_def word_le_nat_alt)
qed

end

section \<open>Both sessions start\<close>

lemma strict_no_changes: "apply_strict P no_changes no_addrs = Inr no_addrs"
  by (simp add: apply_strict_def changes_validate_def changes_canonical_def addrs_canonical_def
      no_changes_def no_addrs_def Let_def family_valid_def family_strict_def apply_lenient_def
      family_lenient_def)

lemma init_message_plain:
  assumes "msg = build_session_initialization config \<or> msg = build_session_initialization_response config"
  shows "fatal_status msg = None" "validate_mac_format msg fmt = Inr ()" "from_message P msg = no_changes"
    and "extract_heartbeat_interval msg = Some (local_heartbeat_interval config)"
    and "(case extract_extensions_supported msg of Some ids \<Rightarrow> ids | None \<Rightarrow> []) = cfg_advertised_extensions config"
proof -
  have plain: "i = Status SUCCESS [] \<or> (\<forall>code expl. i \<noteq> Status code expl) \<and> (\<forall>mac. i \<noteq> MacAddress mac) \<and>
      \<not> address_type (type_id i)" if "i \<in> set (data_items msg)" for i
    using that assms metric_items_fits [of i "cfg_initial_metrics config"]
    by (auto simp: address_type_def word_le_nat_alt split: if_splits)
  then have "\<not> terminates_session code" if "Status code expl \<in> set (data_items msg)" for code expl
    using that by (force simp: terminates_session_def word_le_nat_alt)
  then show "fatal_status msg = None"
    using fatal_status_Some [of msg] by (cases "fatal_status msg") auto
  show "validate_mac_format msg fmt = Inr ()"
    using plain by (fastforce simp: validate_mac_format_def list_ex_iff split: data_item.splits)
  have "note_item P no_changes i = no_changes" if "\<not> address_type (type_id i)" for i
    using that by (cases i) (simp_all add: address_type_def word_le_nat_alt)
  with plain show "from_message P msg = no_changes"
    by (intro from_message_no_addresses) (fastforce simp: address_type_def word_le_nat_alt)
  show "extract_heartbeat_interval msg = Some (local_heartbeat_interval config)"
    using assms by (auto simp: extract_heartbeat_interval_def)
  show "(case extract_extensions_supported msg of Some ids \<Rightarrow> ids | None \<Rightarrow> []) = cfg_advertised_extensions config"
  proof (cases "cfg_advertised_extensions config = []")
    case True
    with assms show ?thesis by (auto simp: extract_extensions_supported_def metric_items_plain)
  qed (use assms in \<open>auto simp: extract_extensions_supported_def\<close>)
qed

lemma initialization_response_metrics:
  "extract_status (build_session_initialization_response config) = Some SUCCESS"
  "snd (merge_link_metrics (build_session_initialization_response config) default_metrics) = cfg_initial_metrics config"
  by (simp_all add: extract_status_def merge_link_metrics_def foldl_merge_other foldl_merge_metric_items)

context dlep_packages
begin

lemma modem_accepts_initialization:
  assumes "message_encode P (build_session_initialization config) = Inr out"
  shows "run_events (modem_step P) (modem_with_config mc) [TcpAccepted, RecvMessage (build_session_initialization config)] =
    Inr (let fsm = modem_established P ((modem_with_config mc)\<lparr>m_state := MAwaitingSessionInit\<rparr>)
           (build_session_initialization config) in
         (fsm, StartTimer TIMER_SESSION_INIT TkSessionInit (cfg_session_init_timeout mc) False
           # modem_established_actions fsm))"
proof -
  let ?s = "(modem_with_config mc)\<lparr>m_state := MAwaitingSessionInit\<rparr> :: ('n, 'm) modem_session_fsm"
  let ?m = "build_session_initialization config :: ('n, 'm) message"
  note plain = init_message_plain [of ?m config, OF disjI1, OF refl]
  have "modem_check_message P ?s ?m = Inr ()"
    by (simp add: modem_check_message_def initialization_valid [OF assms] plain modem_with_config_def strict_no_changes)
  then have "modem_step P ?s (RecvMessage ?m) = Inr (modem_established P ?s ?m,
      modem_established_actions (modem_established P ?s ?m))"
    by (simp add: modem_step_def modem_receive_def plain modem_match_def modem_init_event_def
        modem_session_initialization_def Let_def)
  moreover have "modem_step P (modem_with_config mc) TcpAccepted =
      Inr (?s, [StartTimer TIMER_SESSION_INIT TkSessionInit (cfg_session_init_timeout mc) False])"
    by (simp add: modem_step_def modem_receive_def modem_match_def modem_listening_event_def
        modem_tcp_accepted_def modem_with_config_def)
  ultimately show ?thesis by (simp add: Let_def)
qed

lemma router_accepts_initialization_response:
  assumes "message_encode P (build_session_initialization_response config) = Inr out"
    and msg: "msg = build_session_initialization_response
      (config\<lparr>cfg_initial_metrics := wire_metrics (cfg_initial_metrics config)\<rparr>)"
  shows "run_events (router_step P) (router_with_config rc) [TcpConnected, RecvMessage msg] =
    Inr (let fsm = router_established P ((router_with_config rc)\<lparr>r_state := RSessionInitPending\<rparr>) msg in
         (fsm, [SendMessage (build_session_initialization rc),
            StartTimer TIMER_SESSION_INIT TkSessionInit (cfg_session_init_timeout rc) False]
           @ router_established_actions fsm))"
proof -
  let ?s = "(router_with_config rc)\<lparr>r_state := RSessionInitPending\<rparr> :: ('n, 'm) router_session_fsm"
  note plain = init_message_plain [of msg, OF disjI2, OF msg]
  have "router_check_message P ?s msg = Inr ()"
    using initialization_response_valid [OF assms(1)]
    by (simp add: router_check_message_def msg [symmetric] plain router_with_config_def strict_no_changes)
  moreover have "message_type msg = SESSION_INITIALIZATION_RESPONSE" "extract_status msg = Some SUCCESS"
    by (simp_all add: msg initialization_response_metrics)
  ultimately have "router_step P ?s (RecvMessage msg) = Inr (router_established P ?s msg,
      router_established_actions (router_established P ?s msg))"
    by (simp add: router_step_def router_receive_def plain router_match_def router_init_event_def
        router_initialization_response_def Let_def)
  moreover have "router_step P (router_with_config rc) TcpConnected =
      Inr (?s, [SendMessage (build_session_initialization rc),
        StartTimer TIMER_SESSION_INIT TkSessionInit (cfg_session_init_timeout rc) False])"
    by (simp add: router_step_def router_receive_def router_match_def router_closed_event_def
        router_tcp_connected_def router_with_config_def)
  ultimately show ?thesis by (simp add: Let_def)
qed

end

section \<open>The handshake\<close>

text \<open>
  C8: two fresh machines establish a session. If the configurations hold texts and values that can be
  encoded, the Session Initialization the router sends on connecting, decoded by the modem, puts the
  modem in session, and the response the modem sends, decoded by the router, puts the router in session.
  Afterwards each knows the other's heartbeat interval and extensions, and the router has the modem's
  metrics, at the resolution of the wire.
\<close>

theorem handshake_establishes:
  assumes "dlep_packages P"
    and "message_encode P (build_session_initialization rc) = Inr init" "utf8_valid (cfg_peer_description rc)"
    and "message_encode P (build_session_initialization_response mc) = Inr resp" "utf8_valid (cfg_peer_description mc)"
  shows "\<exists>m1 m2 rfsm racts mfsm macts.
    run_events (router_step P) (router_with_config rc) [TcpConnected, RecvMessage m2] = Inr (rfsm, racts) \<and>
    run_events (modem_step P) (modem_with_config mc) [TcpAccepted, RecvMessage m1] = Inr (mfsm, macts) \<and>
    sent racts = [build_session_initialization rc] \<and> message_decode P init = Some (Inr m1) \<and>
    sent macts = [build_session_initialization_response mc] \<and> message_decode P resp = Some (Inr m2) \<and>
    r_state rfsm = RInSession \<and> m_state mfsm = MInSession \<and>
    r_peer_heartbeat_interval rfsm = Some (local_heartbeat_interval mc) \<and>
    m_peer_heartbeat_interval mfsm = Some (local_heartbeat_interval rc) \<and>
    r_peer_extensions rfsm = cfg_advertised_extensions mc \<and>
    m_peer_extensions mfsm = cfg_advertised_extensions rc \<and>
    r_session_metrics rfsm = wire_metrics (m_session_metrics mfsm)"
proof -
  let ?m1 = "build_session_initialization rc :: ('a, 'b) message"
  let ?c = "mc\<lparr>cfg_initial_metrics := wire_metrics (cfg_initial_metrics mc)\<rparr>"
  let ?m2 = "build_session_initialization_response ?c :: ('a, 'b) message"
  have d1: "message_decode P init = Some (Inr ?m1)"
    using dlep_packages.message_roundtrip [OF assms(1,2), of "[]"] assms(3)
    by (simp only: canon_initialization append_Nil2) simp
  have d2: "message_decode P resp = Some (Inr ?m2)"
    using dlep_packages.message_roundtrip [OF assms(1,4), of "[]"] assms(5)
    by (simp only: canon_initialization_response append_Nil2) (simp add: metric_items_plain)
  have sent: "sent (modem_established_actions fsm) = [build_session_initialization_response (m_config fsm)]"
    "sent (router_established_actions fsm') = []" for fsm fsm'
    by (auto simp: modem_established_actions_def modem_reset_def router_established_actions_def
        router_reset_def heartbeat_reset_action_def split: option.splits)
  have hb: "local_heartbeat_interval ?c = local_heartbeat_interval mc"
    by (simp add: local_heartbeat_interval_def)
  note plain = init_message_plain [of ?m1, OF disjI1, OF refl] init_message_plain [of ?m2, OF disjI2, OF refl]
  show ?thesis
    by (intro exI conjI,
        rule dlep_packages.router_accepts_initialization_response [OF assms(1,4) refl, unfolded Let_def],
        rule dlep_packages.modem_accepts_initialization [OF assms(1,2), unfolded Let_def])
      (simp_all add: d1 d2 sent hb plain modem_established_def router_established_def modem_with_config_def
        router_with_config_def initialization_response_metrics)
qed

definition sample_modem_config :: session_config where
  "sample_modem_config = default_config\<lparr>cfg_peer_description := [0x6D]\<rparr>"

lemma local_heartbeat_default [simp]:
  "local_heartbeat_interval default_config = 60 * 10 ^ 9"
  "local_heartbeat_interval sample_modem_config = 60 * 10 ^ 9"
  by (simp_all add: local_heartbeat_interval_def default_config_def sample_modem_config_def from_millis_def)

lemma sample_configs_encode:
  "\<exists>out. message_encode std_packages (build_session_initialization default_config) = Inr out"
  "\<exists>out. message_encode std_packages (build_session_initialization_response sample_modem_config) = Inr out"
  by (simp_all add: std.message_encode_eq_Inr item_wire_def as_millis_def)
   (simp_all add: default_config_def sample_modem_config_def str_def default_metrics_def metric_items_def item_wire_def
      as_micros_def tlv_def)

theorem handshake_establishes_witness:
  "\<exists>m1 m2 rfsm racts mfsm macts.
    run_events (router_step std_packages) (router_with_config default_config) [TcpConnected, RecvMessage m2] =
      Inr (rfsm, racts) \<and>
    run_events (modem_step std_packages) (modem_with_config sample_modem_config) [TcpAccepted, RecvMessage m1] =
      Inr (mfsm, macts) \<and>
    r_state rfsm = RInSession \<and> m_state mfsm = MInSession \<and>
    m_peer_heartbeat_interval mfsm = Some (60 * 10 ^ 9)"
proof -
  obtain init resp where init: "message_encode std_packages (build_session_initialization default_config) = Inr init"
    and resp: "message_encode std_packages (build_session_initialization_response sample_modem_config) = Inr resp"
    using sample_configs_encode by blast
  have rc: "utf8_valid (cfg_peer_description default_config)"
    and mc: "utf8_valid (cfg_peer_description sample_modem_config)"
    by (simp_all add: default_config_def sample_modem_config_def str_def)
  show ?thesis
    using handshake_establishes [OF std.dlep_packages_axioms init rc resp mc]
    unfolding local_heartbeat_default by blast
qed

end
