(* ===== verification/Router_Properties.thy ===== *)
theory Router_Properties
  imports Router_Correct Handshake
begin

text \<open>
  The properties of the router's session state machine, over every sequence of events from a fresh
  machine: no panic, consistent destinations, notices at most once, timers, answers and liveness,
  and an application in sync with the destinations. A short run (connection, initialization,
  Destination Up) is evaluated as the witness of their hypotheses.
\<close>

section \<open>Answers and liveness\<close>

text \<open>The answer RFC 8175 prescribes for a request of the modem.\<close>

definition router_answer :: "('n, 'm) message \<Rightarrow> ('n, 'm) message list" where
  "router_answer msg =
     (if message_type msg = SESSION_UPDATE then [build_session_update_response SUCCESS]
      else case extract_destination_mac msg of
          None \<Rightarrow> []
        | Some mac \<Rightarrow>
            if message_type msg = DESTINATION_UP then [build_destination_up_response mac SUCCESS]
            else if message_type msg = DESTINATION_DOWN then [build_destination_down_response mac SUCCESS]
            else [])"

lemma sent_router_reset [simp]: "sent (router_reset fsm) = []"
  by (auto simp: router_reset_def heartbeat_reset_action_def split: option.splits)

lemma router_handlers_answering:
  assumes reset: "router_reset fsm = [ResetHeartbeat t d]"
  shows "message_type msg = DESTINATION_UP \<Longrightarrow>
      answering (ResetHeartbeat t d) (router_answer msg) (router_destination_up P fsm msg)"
    and "message_type msg = DESTINATION_UPDATE \<Longrightarrow>
      answering (ResetHeartbeat t d) (router_answer msg) (router_destination_update P fsm msg)"
    and "message_type msg = DESTINATION_DOWN \<Longrightarrow>
      answering (ResetHeartbeat t d) (router_answer msg) (router_destination_down fsm msg)"
    and "message_type msg = DESTINATION_DOWN_RESPONSE \<Longrightarrow>
      answering (ResetHeartbeat t d) (router_answer msg) (router_destination_down_response fsm msg)"
    and "message_type msg = SESSION_UPDATE \<Longrightarrow>
      answering (ResetHeartbeat t d) (router_answer msg) (router_session_update P fsm msg)"
    and "message_type msg = SESSION_UPDATE_RESPONSE \<Longrightarrow>
      answering (ResetHeartbeat t d) (router_answer msg) (router_session_update_response fsm)"
    and "message_type msg = DESTINATION_ANNOUNCE_RESPONSE \<Longrightarrow>
      answering (ResetHeartbeat t d) (router_answer msg) (router_announce_response P fsm msg)"
    and "message_type msg = LINK_CHARACTERISTICS_RESPONSE \<Longrightarrow>
      answering (ResetHeartbeat t d) (router_answer msg) (router_link_characteristics_response fsm msg)"
    and "message_type msg = HEARTBEAT \<Longrightarrow> answering (ResetHeartbeat t d) (router_answer msg) (Inr (fsm, router_reset fsm))"
proof -
  have [simp]: "router_reset (fsm\<lparr>r_tx := tx\<rparr>) = router_reset fsm" for tx
    by (simp add: router_reset_def)
  show "message_type msg = DESTINATION_UP \<Longrightarrow>
      answering (ResetHeartbeat t d) (router_answer msg) (router_destination_up P fsm msg)"
    "message_type msg = DESTINATION_UPDATE \<Longrightarrow>
      answering (ResetHeartbeat t d) (router_answer msg) (router_destination_update P fsm msg)"
    "message_type msg = DESTINATION_DOWN \<Longrightarrow>
      answering (ResetHeartbeat t d) (router_answer msg) (router_destination_down fsm msg)"
    "message_type msg = DESTINATION_DOWN_RESPONSE \<Longrightarrow>
      answering (ResetHeartbeat t d) (router_answer msg) (router_destination_down_response fsm msg)"
    "message_type msg = SESSION_UPDATE \<Longrightarrow>
      answering (ResetHeartbeat t d) (router_answer msg) (router_session_update P fsm msg)"
    "message_type msg = SESSION_UPDATE_RESPONSE \<Longrightarrow>
      answering (ResetHeartbeat t d) (router_answer msg) (router_session_update_response fsm)"
    "message_type msg = DESTINATION_ANNOUNCE_RESPONSE \<Longrightarrow>
      answering (ResetHeartbeat t d) (router_answer msg) (router_announce_response P fsm msg)"
    "message_type msg = LINK_CHARACTERISTICS_RESPONSE \<Longrightarrow>
      answering (ResetHeartbeat t d) (router_answer msg) (router_link_characteristics_response fsm msg)"
    "message_type msg = HEARTBEAT \<Longrightarrow> answering (ResetHeartbeat t d) (router_answer msg) (Inr (fsm, router_reset fsm))"
    by (auto simp: router_message_defs router_answer_def reset Let_def split: prod.splits option.splits
        intro!: answering_try)
qed

lemma router_in_session_message_answering:
  assumes "router_reset fsm = [ResetHeartbeat t d]" "message_type msg \<noteq> SESSION_TERMINATION"
  shows "answering (ResetHeartbeat t d) (router_answer msg) (router_in_session_message P fsm msg) \<or>
    router_in_session_message P fsm msg = router_protocol_error fsm (Status UNEXPECTED_MESSAGE [])"
  using assms(2)
  by (simp add: router_in_session_message_def Let_def router_handlers_answering [OF assms(1)]
      del: answering_Inr)

context dlep_packages
begin

lemma router_established_reset:
  assumes "router_inv P fsm" "r_state fsm = RInSession"
  obtains d where "r_peer_heartbeat_interval fsm = Some d"
    and "router_reset fsm = [ResetHeartbeat TIMER_HEARTBEAT_MISSED (2 * d)]"
proof -
  obtain d where d: "r_peer_heartbeat_interval fsm = Some d" "10 ^ 9 \<le> d" "d < 2 ^ 32 * 10 ^ 6"
    using assms by (auto simp: router_inv_def)
  then have "heartbeat_reset_action TIMER_HEARTBEAT_MISSED (Some d) =
      Some (ResetHeartbeat TIMER_HEARTBEAT_MISSED (2 * d) :: ('n, 'm) fsm_action)"
    by (simp add: heartbeat_reset_action_Some DURATION_MAX_def)
  with d(1) that show thesis by (simp add: router_reset_def)
qed

lemma router_answers:
  assumes inv: "router_inv P fsm" and st: "r_state fsm = RInSession"
    and step: "router_step P fsm (RecvMessage msg) = Inr (fsm', acts)" and st': "r_state fsm' = RInSession"
  shows "sent acts = router_answer msg \<and> (\<exists>d. r_peer_heartbeat_interval fsm = Some d \<and> acts \<noteq> [] \<and>
    last acts = ResetHeartbeat TIMER_HEARTBEAT_MISSED (2 * d))"
proof -
  obtain d where d: "r_peer_heartbeat_interval fsm = Some d"
    and reset: "router_reset fsm = [ResetHeartbeat TIMER_HEARTBEAT_MISSED (2 * d)]"
    using router_established_reset [OF inv st] .
  have err: "router_protocol_error fsm item \<noteq> Inr (fsm', acts)" for item
    using st st' by (auto simp: router_protocol_error_def split: data_item.splits)
  have msg: "router_in_session_message P fsm msg = Inr (fsm', acts)"
    using step st err
    by (auto simp: router_step_def router_receive_def router_match_def router_in_session_event_def
        split: option.splits sum.splits)
  with st' have "message_type msg \<noteq> SESSION_TERMINATION"
    by (auto simp: router_in_session_message_def router_session_termination_def Let_def)
  with msg not_sym [OF err] d router_in_session_message_answering [OF reset, of msg P] show ?thesis
    by (simp add: answering_def)
qed

end

section \<open>The view of the application\<close>

text \<open>
  What an application knows when it follows the emitted events: the destinations that are up, with
  their addresses.
\<close>

fun view_action ::
  "(mac_address \<rightharpoonup> ('n, 'm) destination_addrs) \<Rightarrow> ('n, 'm) fsm_action \<Rightarrow>
     (mac_address \<rightharpoonup> ('n, 'm) destination_addrs)" where
  "view_action V (Emit (EvDestinationUp mac metrics addrs)) = V(mac \<mapsto> addrs)"
| "view_action V (Emit (EvDestinationDown mac reason)) = V(mac := None)"
| "view_action V (Emit (EvDestinationAddressesUpdate mac changes addrs)) = V(mac \<mapsto> addrs)"
| "view_action V _ = V"

definition application_view ::
  "(mac_address \<rightharpoonup> ('n, 'm) destination_addrs) \<Rightarrow> ('n, 'm) fsm_action list \<Rightarrow>
     (mac_address \<rightharpoonup> ('n, 'm) destination_addrs)" where
  "application_view V acts = foldl view_action V acts"

definition address_table ::
  "('n, 'm) router_session_fsm \<Rightarrow> (mac_address \<rightharpoonup> ('n, 'm) destination_addrs)" where
  "address_table fsm = map_option rd_addrs \<circ> map_of (r_destinations fsm)"

lemma application_view_simps [simp]:
  "application_view V [] = V"
  "application_view V (a # acts) = application_view (view_action V a) acts"
  "application_view V (xs @ ys) = application_view (application_view V xs) ys"
  by (simp_all add: application_view_def)

lemma view_router_reset [simp]: "application_view V (router_reset fsm) = V"
  by (auto simp: router_reset_def heartbeat_reset_action_def split: option.splits)

lemma family_lenient_same:
  assumes "set (family_lenient cur add rem) = set cur"
  shows "family_lenient cur add rem = cur"
proof -
  have keep: "filter (\<lambda>a. a \<notin> set rem \<or> a \<in> set add) cur = cur"
    using assms by (auto simp: set_family_lenient filter_id_conv)
  have "set add - set rem \<subseteq> set cur"
    using assms by (auto simp: set_family_lenient)
  then have "foldl (\<lambda>cur a. if a \<notin> set rem \<and> a \<notin> set cur then cur @ [a] else cur) cur add = cur"
    by (induction add) auto
  then show ?thesis by (simp only: family_lenient_def keep)
qed

lemma lenient_same:
  assumes "changes_is_empty (between cur (apply_lenient P c cur))"
  shows "apply_lenient P c cur = cur"
proof -
  have eq: "addr_set (apply_lenient P c cur) = addr_set cur"
    using assms by (auto simp: changes_is_empty_def between_def addrs_is_empty_iff addr_set_difference)
  have "set (v4 a) = set (v4 b) \<and> set (v6 a) = set (v6 b) \<and> set (v4_subnets a) = set (v4_subnets b) \<and>
      set (v6_subnets a) = set (v6_subnets b)" if "addr_set a = addr_set b" for a b :: "('a, 'b) destination_addrs"
    using that by (auto simp: set_eq_iff addr_value_all)
  from this [OF eq] show ?thesis
    by (cases cur) (simp add: apply_lenient_def Let_def family_lenient_same)
qed

definition tracked :: "('n, 'm) router_session_fsm \<Rightarrow> ('n, 'm) router_result \<Rightarrow> bool" where
  "tracked fsm r = (\<forall>fsm' acts. r = Inr (fsm', acts) \<longrightarrow>
     application_view (address_table fsm) acts = address_table fsm')"

lemma tracked_Inl [simp]: "tracked fsm (Inl p)"
  by (simp add: tracked_def)

lemma tracked_Inr [simp]:
  "tracked fsm (Inr (fsm', acts)) \<longleftrightarrow> application_view (address_table fsm) acts = address_table fsm'"
  by (simp add: tracked_def)

lemma tracked_try: "(\<And>x. r = Inr x \<Longrightarrow> tracked fsm (f x)) \<Longrightarrow> tracked fsm (try_then r f)"
  by (cases r) auto

lemma address_table_update [simp]:
  "address_table (fsm\<lparr>r_destinations := AList.update mac d D\<rparr>) =
     (address_table (fsm\<lparr>r_destinations := D\<rparr>))(mac \<mapsto> rd_addrs d)"
  "address_table (fsm\<lparr>r_destinations := AList.delete mac D\<rparr>) =
     (address_table (fsm\<lparr>r_destinations := D\<rparr>))(mac := None)"
  by (auto simp: address_table_def update_conv' delete_conv' fun_eq_iff)

lemma tracked_update:
  "tracked fsm (router_destination_update P fsm msg)"
proof -
  have "address_table fsm = (address_table fsm)(mac \<mapsto> rd_addrs d)"
    if "map_of (r_destinations fsm) mac = Some d" for mac d
    using that by (auto simp: address_table_def)
  then show ?thesis
    by (auto simp: router_destination_update_def Let_def lenient_same split: prod.splits intro!: tracked_try)
qed

lemma address_table_other [simp]:
  "address_table (fsm\<lparr>r_state := st\<rparr>) = address_table fsm"
  "address_table (fsm\<lparr>r_tx := tx\<rparr>) = address_table fsm"
  "address_table (fsm\<lparr>r_termination_reason := code\<rparr>) = address_table fsm"
  "address_table (fsm\<lparr>r_local_addresses := local\<rparr>) = address_table fsm"
  "address_table (fsm\<lparr>r_peer_addresses := peer\<rparr>) = address_table fsm"
  "address_table (fsm\<lparr>r_session_metrics := m\<rparr>) = address_table fsm"
  "address_table (router_established P fsm msg) = address_table fsm"
  by (simp_all add: address_table_def router_established_def)

lemma tracked_messages:
  "tracked fsm (router_destination_up P fsm msg)"
  "tracked fsm (router_destination_down fsm msg)"
  "tracked fsm (router_destination_down_response fsm msg)"
  "tracked fsm (router_announce_response P fsm msg)"
  by (auto simp: router_message_defs Let_def router_swap intro!: tracked_try)

lemma tracked_session_update: "tracked fsm (router_session_update P fsm msg)"
proof -
  have "address_table (fsm\<lparr>r_peer_addresses := a, r_session_metrics := m, r_destinations :=
      map (\<lambda>(m, d). (m, d\<lparr>rd_metrics := g d\<rparr>)) (r_destinations fsm)\<rparr>) = address_table fsm" for a m g
    by (auto simp: address_table_def map_of_map_values fun_eq_iff map_option_case split: option.splits)
  then show ?thesis
    by (auto simp: router_session_update_def Let_def split: prod.splits
        intro!: tracked_try)
qed

lemma tracked_link_characteristics: "tracked fsm (router_link_characteristics_response fsm msg)"
proof -
  have "address_table (fsm\<lparr>r_destinations := AList.update mac (d\<lparr>rd_metrics := m\<rparr>) (r_destinations fsm), r_tx := tx\<rparr>) =
      address_table fsm"
    if "map_of (r_destinations fsm) mac = Some d" for mac d m tx
    using that by (auto simp: address_table_def update_conv' fun_eq_iff)
  then show ?thesis
    by (auto simp: router_link_characteristics_response_def Let_def split: prod.splits intro!: tracked_try)
qed

lemma tracked_protocol_error: "tracked fsm (router_protocol_error fsm item)"
  by (auto simp: router_protocol_error_def split: data_item.splits)

lemma tracked_local_update: "tracked fsm (router_session_addresses P fsm changes)"
proof -
  have "application_view V acts = V"
    if "apply_local_address_update P tx local changes = Inr (tx', local', acts)" for V tx local tx' local' acts
    using that by (auto simp: apply_local_address_update_def Let_def try_then_eq_Inr
        split: sum.splits if_splits prod.splits)
  then show ?thesis
    by (auto simp: router_session_addresses_def intro!: tracked_try)
qed

lemma tracked_commands:
  "tracked fsm (router_drop_destination fsm mac)"
  "tracked fsm (router_request_link_characteristics fsm mac requested)"
  "tracked fsm (router_announce_destination fsm mac)"
  by (auto simp: router_command_defs Let_def split: prod.splits
      intro!: tracked_try)

lemma tracked_established:
  "application_view V (router_established_actions fsm) = V"
  by (simp add: router_established_actions_def)

lemma tracked_in_session: "tracked fsm (router_in_session_event P fsm e)"
proof (cases e)
  case (RecvMessage msg)
  have "tracked fsm (router_session_termination fsm msg)" "tracked fsm (router_session_update_response fsm)"
    by (auto simp: router_session_termination_def router_session_update_response_def Let_def)
  then show ?thesis
    by (simp add: RecvMessage router_in_session_event_def router_in_session_message_def Let_def
        tracked_messages tracked_update tracked_session_update tracked_link_characteristics
        tracked_protocol_error del: tracked_Inr) (simp add: tracked_def)
qed (auto simp: router_in_session_event_def tracked_commands tracked_local_update router_shutdown_def
    router_tcp_closed_def router_heartbeat_missed_def)

lemma tracked_match: "tracked fsm (router_match P fsm e)"
  by (cases "r_state fsm"; cases e)
    (auto simp: router_match_def tracked_in_session router_closed_event_def router_tcp_connected_def
      router_init_event_def router_initialization_response_def Let_def
      router_init_other_message_def router_init_timeout_def router_init_tcp_closed_def
      router_init_shutdown_def router_terminating_event_def router_termination_response_def
      router_termination_timeout_def router_terminating_tcp_closed_def tracked_protocol_error
      tracked_established)

lemma tracked_step: "tracked fsm (router_step P fsm e)"
  by (auto simp: router_step_def router_receive_def tracked_match tracked_protocol_error
      split: option.splits sum.splits fsm_event.splits intro!: tracked_try)

lemma tracked_run:
  "run_events (router_step P) fsm es = Inr (fsm', acts) \<Longrightarrow>
     application_view (address_table fsm) acts = address_table fsm'"
proof (induction es arbitrary: fsm acts)
  case (Cons e es)
  then obtain fsm1 a1 a2 where "router_step P fsm e = Inr (fsm1, a1)"
    and "run_events (router_step P) fsm1 es = Inr (fsm', a2)" "acts = a1 @ a2"
    by (auto simp: try_then_eq_Inr)
  with Cons.IH tracked_step [of fsm P e] show ?case by (simp add: tracked_def)
qed simp

section \<open>A run\<close>

definition sample_mac :: mac_address where
  "sample_mac = Eui48 [2, 0, 0, 0, 0, 1]"

definition sample_init_response :: "(net4, net6) message" where
  "sample_init_response = push_metric_items
     \<lparr>message_type = SESSION_INITIALIZATION_RESPONSE, data_items =
       [Status SUCCESS [], HeartbeatInterval (60 * 10 ^ 9), PeerType \<lparr>smi = False\<rparr> [0x6D]]\<rparr>
     default_metrics"

definition sample_up :: "(net4, net6) message" where
  "sample_up = build_destination_up sample_mac default_metrics (no_addrs\<lparr>v4 := [7]\<rparr>)"

definition sample_events :: "(net4, net6) fsm_event list" where
  "sample_events = [TcpConnected, RecvMessage sample_init_response]"

definition sample_established :: "(net4, net6) router_session_fsm" where
  "sample_established =
     router_established std_packages ((router_with_config default_config)\<lparr>r_state := RSessionInitPending\<rparr>)
       sample_init_response"

lemmas grammar_defs = grammatical_def considered_def ignorable_def expected_message_def item_fits_def
  item_allowed_def required_items_def metric_items_def address_type_def
  metric_type_def item_wire_def as_micros_def as_millis_def

lemma word_one_less [simp]: "\<not> (8 :: u16) \<le> 1" "\<not> (12 :: u16) \<le> 1"
  by (simp_all add: word_le_nat_alt)

lemma sample_init_response_valid:
  "validate_message std_packages sample_init_response True True [] = Inr ()"
  unfolding std.validate_message_iff sample_init_response_def
  by (simp add: grammar_defs default_metrics_def)

lemma sample_up_valid: "validate_message std_packages sample_up True False [] = Inr ()"
  unfolding std.validate_message_iff sample_up_def
  by (simp add: grammar_defs default_metrics_def up_items_def no_addrs_def sample_mac_def)

lemma no_address_sample: "from_message std_packages sample_init_response = no_changes"
  by (simp add: sample_init_response_def from_message_def)

definition sample_pending :: "(net4, net6) router_session_fsm" where
  "sample_pending = (router_with_config default_config)\<lparr>r_state := RSessionInitPending\<rparr>"

lemma sample_steps:
  "router_step std_packages (router_with_config default_config) TcpConnected =
     Inr (sample_pending, [SendMessage (build_session_initialization default_config),
       StartTimer TIMER_SESSION_INIT TkSessionInit (cfg_session_init_timeout default_config) False])"
  "router_step std_packages sample_pending (RecvMessage sample_init_response) =
     Inr (sample_established, router_established_actions sample_established)"
proof -
  show "router_step std_packages (router_with_config default_config) TcpConnected =
     Inr (sample_pending, [SendMessage (build_session_initialization default_config),
       StartTimer TIMER_SESSION_INIT TkSessionInit (cfg_session_init_timeout default_config) False])"
    by (simp add: router_step_def router_receive_def router_match_def router_closed_event_def
        router_tcp_connected_def router_with_config_def sample_pending_def)
  have fatal: "fatal_status sample_init_response = None"
    by (simp add: fatal_status_def sample_init_response_def terminates_session_def word_le_nat_alt
        metric_items_def default_metrics_def)
  have status: "extract_status sample_init_response = Some SUCCESS"
    by (simp add: extract_status_def sample_init_response_def)
  have check: "router_check_message std_packages sample_pending sample_init_response = Inr ()"
    by (simp add: router_check_message_def sample_init_response_valid router_with_config_def default_config_def
        no_address_sample strict_no_changes sample_pending_def)
      (simp add: validate_mac_format_def sample_init_response_def metric_items_def default_metrics_def)
  have "message_type sample_init_response = SESSION_INITIALIZATION_RESPONSE"
    by (simp add: sample_init_response_def)
  then show "router_step std_packages sample_pending (RecvMessage sample_init_response) =
     Inr (sample_established, router_established_actions sample_established)"
    by (simp add: router_step_def router_receive_def fatal check router_match_def router_init_event_def
        router_initialization_response_def status sample_established_def Let_def)
      (simp add: sample_pending_def)
qed

lemma sample_run:
  "\<exists>acts. run_events (router_step std_packages) (router_with_config default_config) sample_events =
     Inr (sample_established, acts)"
  by (simp add: sample_events_def sample_steps)

lemma sample_up_step:
  "router_step std_packages sample_established (RecvMessage sample_up) =
     router_destination_up std_packages sample_established sample_up"
proof -
  have st: "r_state sample_established = RInSession" "r_tx sample_established = default_tracker"
    "r_destinations sample_established = []" "r_config sample_established = default_config"
    by (simp_all add: sample_established_def router_established_def router_with_config_def)
  have types: "r_session_metric_types sample_established = {12, 13, 14, 15, 16}"
    by (simp add: sample_established_def router_established_def metric_types_def sample_init_response_def
        metric_items_def default_metrics_def metric_type_def del: set_filter)
  have mt: "message_type sample_up = DESTINATION_UP" and mac: "extract_destination_mac sample_up = Some sample_mac"
    by (simp_all add: sample_up_def extract_destination_mac_def)
  have fatal: "fatal_status sample_up = None"
    by (simp add: fatal_status_def sample_up_def metric_items_def default_metrics_def up_items_def no_addrs_def)
  have cfg: "cfg_advertised_extensions default_config = []" "cfg_mac_address_format default_config = FormatEui48"
    by (simp_all add: default_config_def)
  have format: "validate_mac_format sample_up FormatEui48 = Inr ()"
    by (simp add: validate_mac_format_def sample_up_def metric_items_def default_metrics_def up_items_def
        no_addrs_def sample_mac_def)
  have metrics: "\<not> list_ex (\<lambda>t. metric_type t \<and> t \<notin> {12, 13, 14, 15, 16}) (map type_id (data_items sample_up))"
    by (simp add: sample_up_def metric_items_def default_metrics_def up_items_def no_addrs_def metric_type_def)
  have tx: "validate_transaction sample_up default_tracker False = Inr ()"
    by (simp add: validate_transaction_def mt mac response_kind_def tracker_defs)
  have "router_check_message std_packages sample_established sample_up = Inr ()"
    using metrics tx
    by (simp add: router_check_message_def st cfg sample_up_valid format types mt mac router_up_def)
  then show ?thesis
    by (simp add: router_step_def router_receive_def st fatal router_match_def router_in_session_event_def
        router_in_session_message_def mt)
qed

definition sample_router :: "(net4, net6) router_session_fsm" where
  "sample_router = sample_established\<lparr>r_destinations :=
     [(sample_mac, \<lparr>rd_up = True, rd_metrics = default_metrics, rd_addrs = no_addrs\<lparr>v4 := [7]\<rparr>\<rparr>)]\<rparr>"

lemma sample_up_changes:
  "destination_address_changes std_packages sample_established sample_mac sample_up =
     \<lparr>added = no_addrs\<lparr>v4 := [7]\<rparr>, removed = no_addrs\<rparr>"
proof -
  have "r_destinations sample_established = []" "r_peer_addresses sample_established = no_addrs"
    by (simp_all add: sample_established_def router_established_def router_with_config_def
        no_address_sample no_changes_def)
  then show ?thesis
    by (simp add: destination_address_changes_def sample_up_def from_message_destination_up Let_def
        retain_family_def addrs_canonical_def no_addrs_def)
qed

lemma sample_up_result:
  "router_destination_up std_packages sample_established sample_up =
     Inr (sample_router, [SendMessage (build_destination_up_response sample_mac SUCCESS),
       Emit (EvDestinationUp sample_mac default_metrics (no_addrs\<lparr>v4 := [7]\<rparr>))]
       @ router_reset sample_established)"
proof -
  have mac: "extract_destination_mac sample_up = Some sample_mac"
    by (simp add: sample_up_def extract_destination_mac_def)
  have d: "r_destinations sample_established = []" "r_session_metrics sample_established = default_metrics"
    by (simp_all add: sample_established_def router_established_def router_with_config_def
        sample_init_response_def merge_link_metrics_def foldl_merge_metric_items)
  have m: "snd (merge_link_metrics sample_up default_metrics) = default_metrics"
    by (simp add: sample_up_def merge_link_metrics_def foldl_merge_other foldl_merge_metric_items)
  have a: "apply_lenient std_packages \<lparr>added = no_addrs\<lparr>v4 := [7]\<rparr>, removed = no_addrs\<rparr> no_addrs =
      no_addrs\<lparr>v4 := [7]\<rparr>"
    by (simp add: apply_lenient_def changes_canonical_def addrs_canonical_def no_addrs_def Let_def
        family_lenient_def)
  show ?thesis
    by (simp add: router_destination_up_def mac sample_up_changes d m a Let_def sample_router_def)
qed

lemma sample_run_up:
  "\<exists>acts. run_events (router_step std_packages) (router_with_config default_config)
     (sample_events @ [RecvMessage sample_up]) = Inr (sample_router, acts)"
proof -
  obtain acts where "run_events (router_step std_packages) (router_with_config default_config) sample_events =
      Inr (sample_established, acts)" using sample_run by blast
  then show ?thesis by (simp add: run_events_append sample_up_step sample_up_result)
qed

section \<open>Properties\<close>

text \<open>
  C1: the router's session state machine never panics. Whatever sequence of events it is given, from
  any configuration, every \<open>expect\<close>, \<open>unreachable!\<close> and failed transaction of the source is out
  of reach.
\<close>

theorem router_never_panics:
  assumes "dlep_packages P"
  shows "\<exists>fsm acts. run_events (router_step P) (router_with_config config) es = Inr (fsm, acts)"
  using dlep_packages.router_run_total [OF assms] by blast

theorem router_never_panics_witness:
  "\<exists>fsm acts. run_events (router_step std_packages) (router_with_config default_config)
     (sample_events @ [RecvMessage sample_up, AppDropDestination sample_mac SUCCESS, TcpClosed]) =
     Inr (fsm, acts)"
  by (rule router_never_panics [OF std.dlep_packages_axioms])

text \<open>
  C12: the destinations of the router in every reachable state. Each is recorded once, is up, has the
  configured address format, holds no address twice and only metrics the modem declared; no two
  share an address; a pending Destination Down or Link Characteristics Request belongs to a known
  destination and a pending Announce to an unknown one.
\<close>

theorem router_destinations_consistent:
  assumes "dlep_packages P"
    and "run_events (router_step P) (router_with_config config) es = Inr (fsm, acts)"
  shows "distinct (map fst (r_destinations fsm)) \<and>
    (\<forall>(m, d) \<in> set (r_destinations fsm). rd_up d \<and> accepts (cfg_mac_address_format (r_config fsm)) m \<and>
       addrs_distinct (rd_addrs d) \<and> covers (r_session_metric_types fsm) (rd_metrics d)) \<and>
    (\<forall>(m, d) \<in> set (r_destinations fsm). \<forall>(m', d') \<in> set (r_destinations fsm).
       m \<noteq> m' \<longrightarrow> addr_set (rd_addrs d) \<inter> addr_set (rd_addrs d') = {}) \<and>
    (\<forall>m q. per_destination (r_tx fsm) m = Some q \<longrightarrow>
       (if router_up fsm m then req_kind q \<in> {ReqDestinationDown, ReqLinkCharacteristics}
        else req_kind q = ReqDestinationAnnounce))"
proof -
  have inv: "router_inv P fsm" by (rule dlep_packages.router_run_inv [OF assms])
  have mem: "map_of (r_destinations fsm) m = Some d \<longleftrightarrow> (m, d) \<in> set (r_destinations fsm)" for m d
    using router_invD(1) [OF inv] by simp
  have "table_ok (r_session_metric_types fsm) (cfg_mac_address_format (r_config fsm)) (map_of (r_destinations fsm))"
    by (rule router_invD(2) [OF inv])
  then have "\<forall>(m, d) \<in> set (r_destinations fsm). rd_up d \<and> accepts (cfg_mac_address_format (r_config fsm)) m \<and>
       addrs_distinct (rd_addrs d) \<and> covers (r_session_metric_types fsm) (rd_metrics d)"
    and "\<forall>(m, d) \<in> set (r_destinations fsm). \<forall>(m', d') \<in> set (r_destinations fsm).
       m \<noteq> m' \<longrightarrow> addr_set (rd_addrs d) \<inter> addr_set (rd_addrs d') = {}"
    unfolding table_ok_def mem by blast+
  moreover have "\<forall>m q. per_destination (r_tx fsm) m = Some q \<longrightarrow>
       (if router_up fsm m then req_kind q \<in> {ReqDestinationDown, ReqLinkCharacteristics}
        else req_kind q = ReqDestinationAnnounce)"
    using router_invD(3) [OF inv]
    by (simp only: router_up_iff [OF inv] pending_ok_def pending_fits_def) (erule conjunct2)
  ultimately show ?thesis using router_invD(1) [OF inv] by blast
qed

theorem router_destinations_consistent_witness:
  "\<exists>acts d. run_events (router_step std_packages) (router_with_config default_config)
     (sample_events @ [RecvMessage sample_up]) = Inr (sample_router, acts) \<and>
     r_destinations sample_router = [(sample_mac, d)] \<and> rd_up d \<and> addrs_distinct (rd_addrs d) \<and>
     covers (r_session_metric_types sample_router) (rd_metrics d)"
proof -
  obtain acts where run: "run_events (router_step std_packages) (router_with_config default_config)
     (sample_events @ [RecvMessage sample_up]) = Inr (sample_router, acts)"
    using sample_run_up by blast
  obtain d where d: "r_destinations sample_router = [(sample_mac, d)]"
    by (simp add: sample_router_def)
  with router_destinations_consistent [OF std.dlep_packages_axioms run] run show ?thesis by auto
qed

text \<open>
  C13: the notices of a router session. In every run \<open>SessionUp\<close> and \<open>SessionDown\<close> are each emitted at
  most once and in this order; the session is established only after \<open>SessionUp\<close>, and \<open>SessionDown\<close>
  is emitted only on the way to the final state.
\<close>

theorem router_session_notices:
  assumes "dlep_packages P"
    and "run_events (router_step P) (router_with_config config) es = Inr (fsm, acts)"
  shows "notices acts \<in> {[], [UpNotice], [DownNotice], [UpNotice, DownNotice]} \<and>
    (r_state fsm = RInSession \<longrightarrow> notices acts = [UpNotice]) \<and>
    (DownNotice \<in> set (notices acts) \<longrightarrow> r_state fsm = RTerminated)"
  by (rule dlep_packages.router_run_notices [OF assms])

theorem router_session_notices_witness:
  "\<exists>acts. run_events (router_step std_packages) (router_with_config default_config) sample_events =
     Inr (sample_established, acts) \<and> notices acts = [UpNotice]"
proof -
  obtain acts where run: "run_events (router_step std_packages) (router_with_config default_config)
     sample_events = Inr (sample_established, acts)" using sample_run by blast
  have "r_state sample_established = RInSession"
    by (simp add: sample_established_def router_established_def)
  with run router_session_notices [OF std.dlep_packages_axioms run] show ?thesis by blast
qed

text \<open>
  A terminated router session stays as it is. Whatever events follow, no message is sent, no timer
  is touched and nothing is emitted but rejections of commands.
\<close>

theorem router_terminated_final:
  assumes "dlep_packages P" "r_state fsm = RTerminated"
    and "run_events (router_step P) fsm es = Inr (fsm', acts)"
  shows "fsm' = fsm \<and> list_all is_rejection acts"
  using dlep_packages.router_run_ended [OF assms] .

theorem router_terminated_final_witness:
  "\<exists>acts. run_events (router_step std_packages) (sample_router\<lparr>r_state := RTerminated\<rparr>)
     [RecvMessage sample_up, TcpConnected] = Inr (sample_router\<lparr>r_state := RTerminated\<rparr>, acts) \<and>
     list_all is_rejection acts"
proof -
  have "run_events (router_step std_packages) (sample_router\<lparr>r_state := RTerminated\<rparr>)
     [RecvMessage sample_up, TcpConnected] = Inr (sample_router\<lparr>r_state := RTerminated\<rparr>, [])"
    by (simp add: router_step_def router_receive_def router_match_def)
  then show ?thesis
    using router_terminated_final [OF std.dlep_packages_axioms,
        of "sample_router\<lparr>r_state := RTerminated\<rparr>" "[RecvMessage sample_up, TcpConnected]"] by simp
qed

text \<open>
  Timer discipline of the router. Under a runtime that only delivers expiries of armed timers,
  the armed timers are always those of the state: the initialization timer while it is pending, the
  two heartbeat timers in a session, the termination timer while terminating. After the end only the
  initialization timer may still be armed.
\<close>

theorem router_timer_discipline:
  assumes "dlep_packages P" "driven (router_step P) (router_with_config config) fsm T"
  shows "T \<subseteq> router_timers (r_state fsm)"
  by (rule dlep_packages.router_driven_timers [OF assms])

theorem router_timer_discipline_witness:
  "\<exists>fsm T. driven (router_step std_packages) (router_with_config default_config) fsm T \<and>
     T = {TIMER_SESSION_INIT} \<and> r_state fsm = RTerminated \<and> T \<subseteq> router_timers (r_state fsm)"
proof -
  let ?s0 = "router_with_config default_config :: (net4, net6) router_session_fsm"
  let ?s1 = "?s0\<lparr>r_state := RSessionInitPending\<rparr>" let ?s2 = "?s0\<lparr>r_state := RTerminated\<rparr>"
  have 1: "\<exists>a1. router_step std_packages ?s0 TcpConnected = Inr (?s1, a1) \<and> armed_after {} a1 = {TIMER_SESSION_INIT}"
    by (simp add: router_step_def router_receive_def router_match_def router_closed_event_def
        router_tcp_connected_def router_with_config_def)
  have 2: "\<exists>a2. router_step std_packages ?s1 TcpClosed = Inr (?s2, a2) \<and> armed_after {TIMER_SESSION_INIT} a2 = {TIMER_SESSION_INIT}"
    by (simp add: router_step_def router_receive_def router_match_def router_init_event_def
        router_init_tcp_closed_def)
  from 1 obtain a1 where a1: "router_step std_packages ?s0 TcpConnected = Inr (?s1, a1)"
    "armed_after {} a1 = {TIMER_SESSION_INIT}" by blast
  from 2 obtain a2 where a2: "router_step std_packages ?s1 TcpClosed = Inr (?s2, a2)"
    "armed_after {TIMER_SESSION_INIT} a2 = {TIMER_SESSION_INIT}" by blast
  have "driven (router_step std_packages) ?s0 ?s1 {TIMER_SESSION_INIT}"
    using driven.event [of "router_step std_packages" ?s0 ?s0 "{}" TcpConnected ?s1 a1, OF driven.start _ a1(1)]
      a1(2) by simp
  from driven.event [of "router_step std_packages", OF this _ a2(1)]
  have d: "driven (router_step std_packages) ?s0 ?s2 {TIMER_SESSION_INIT}" using a2(2) by simp
  with router_timer_discipline [OF std.dlep_packages_axioms d] show ?thesis by auto
qed

text \<open>
  C26: answers and liveness of the router. A message that leaves an established session established is
  answered in the same step by exactly the response RFC 8175 prescribes (Destination Up, Destination
  Down and Session Update are answered, everything else is not), and the last action re-arms the
  missed-heartbeat deadline at twice the interval of the peer.
\<close>

theorem router_answers_requests:
  assumes "dlep_packages P"
    and "run_events (router_step P) (router_with_config config) es = Inr (fsm, acts0)"
    and "r_state fsm = RInSession" "r_state fsm' = RInSession"
    and "router_step P fsm (RecvMessage msg) = Inr (fsm', acts)"
  shows "sent acts = router_answer msg \<and> (\<exists>d. r_peer_heartbeat_interval fsm = Some d \<and> acts \<noteq> [] \<and>
    last acts = ResetHeartbeat TIMER_HEARTBEAT_MISSED (2 * d))"
  by (rule dlep_packages.router_answers [OF assms(1) dlep_packages.router_run_inv [OF assms(1,2)]
        assms(3) assms(5) assms(4)])

theorem router_answers_requests_witness:
  "\<exists>acts. router_step std_packages sample_established (RecvMessage sample_up) = Inr (sample_router, acts) \<and>
     sent acts = [build_destination_up_response sample_mac SUCCESS] \<and>
     last acts = ResetHeartbeat TIMER_HEARTBEAT_MISSED (120 * 10 ^ 9)"
proof -
  obtain acts0 where run: "run_events (router_step std_packages) (router_with_config default_config)
     sample_events = Inr (sample_established, acts0)" using sample_run by blast
  have "r_state sample_established = RInSession" "r_state sample_router = RInSession"
    "r_peer_heartbeat_interval sample_established = Some (60 * 10 ^ 9)"
    by (simp_all add: sample_router_def sample_established_def router_established_def
        extract_heartbeat_interval_def sample_init_response_def)
  moreover have "router_answer sample_up = [build_destination_up_response sample_mac SUCCESS]"
    by (simp add: router_answer_def sample_up_def extract_destination_mac_def)
  ultimately show ?thesis
    using router_answers_requests [OF std.dlep_packages_axioms run _ _ sample_up_step [unfolded sample_up_result]]
    by (simp add: sample_up_step sample_up_result)
qed

text \<open>
  C25: the events of the router keep the application in sync. An application that follows the emitted
  destination events knows, after every run, exactly the destinations of the state machine and
  their addresses.
\<close>

theorem router_view_in_sync:
  assumes "run_events (router_step P) (router_with_config config) es = Inr (fsm, acts)"
  shows "application_view Map.empty acts = address_table fsm"
  using tracked_run [OF assms] by (simp add: address_table_def router_with_config_def comp_def)

theorem router_view_in_sync_witness:
  "\<exists>acts. run_events (router_step std_packages) (router_with_config default_config)
     (sample_events @ [RecvMessage sample_up]) = Inr (sample_router, acts) \<and>
     application_view Map.empty acts = [sample_mac \<mapsto> no_addrs\<lparr>v4 := [7]\<rparr>]"
proof -
  obtain acts where run: "run_events (router_step std_packages) (router_with_config default_config)
     (sample_events @ [RecvMessage sample_up]) = Inr (sample_router, acts)"
    using sample_run_up by blast
  with router_view_in_sync [OF run] show ?thesis
    by (auto simp: address_table_def sample_router_def fun_eq_iff)
qed

end
