(* ===== verification/Modem_Sync.thy ===== *)
theory Modem_Sync
  imports Modem_Correct Listener
begin

text \<open>
  What the messages of a modem tell its router. The modem refines the picture of a listener: what it
  holds of a destination and what a listener has heard of it agree whenever the destination is
  announced and no transaction of the modem is open, whatever updates were held back in between.
\<close>

section \<open>Hearing what the modem builds\<close>

lemma hears_modem_reset [simp]: "hears P l (modem_reset fsm) = l"
  by (auto simp: modem_reset_def heartbeat_reset_action_def split: option.splits)

lemma append_to_sel:
  "message_type (append_to P c msg) = message_type msg"
  "\<exists>is. data_items (append_to P c msg) = data_items msg @ is \<and> list_all (\<lambda>i. \<not> is_metric i) is"
  by (auto simp: append_to_def addrs_items_def list_all_iff)

lemma merge_append_to [simp]: "merge_link_metrics (append_to P c msg) m = merge_link_metrics msg m"
  using append_to_sel(2) [of P c msg] by (auto simp: merge_link_metrics_def foldl_merge_other)

lemma mac_append_to:
  "extract_destination_mac msg = Some mac \<Longrightarrow> extract_destination_mac (append_to P c msg) = Some mac"
  using append_to_sel(2) [of P c msg] by (auto simp: extract_destination_mac_def find_map_append)

lemma hear_ignored:
  "hear P l build_heartbeat = l"
  "hear P l build_session_termination_response = l"
  "hear P l (build_session_termination code) = l"
  "hear P l (build_session_update_response code) = l"
  "hear P l (build_destination_announce_response mac REQUEST_DENIED) = l"
  "hear P l (with_item (message_new SESSION_TERMINATION) (Status code t)) = l"
  by (simp_all add: hear_def build_defs extract_defs)

lemma hear_addresses: "hear P l (append_to P c (message_new SESSION_UPDATE)) = l"
proof -
  have "map_option (\<lambda>(m, A). (m, A)) \<circ> heard l = heard l"
    by (auto simp: fun_eq_iff map_option_case split: option.splits)
  then show ?thesis by (simp add: hear_def append_to_sel(1) merge_no_metrics)
qed

lemma initialization_response_facts:
  "message_type (build_session_initialization_response config) = SESSION_INITIALIZATION_RESPONSE"
  "merge_link_metrics (build_session_initialization_response config) old =
     (True, overlay (cfg_initial_metrics config) old)"
  unfolding build_session_initialization_response_def
  by (simp_all add: push_extensions_supported_def merge_push_metric_items)

lemma hear_initialization:
  "hear P l (build_session_initialization_response config) = l\<lparr>heard_session := cfg_initial_metrics config\<rparr>"
  by (simp add: hear_def initialization_response_facts)

lemma hear_session_update:
  "hear P l (build_session_update m) =
     l\<lparr>heard_session := overlay m (heard_session l),
       heard := map_option (\<lambda>(old, A). (overlay m old, A)) \<circ> heard l\<rparr>"
  by (simp add: hear_def) (simp add: build_session_update_def merge_push_metric_items)

lemma hear_destination_up:
  "hear P l (build_destination_up mac m a) =
     l\<lparr>heard := (heard l)(mac \<mapsto> (overlay m (heard_session l), addr_set (addrs_canonical P a)))\<rparr>"
  by (simp add: hear_def from_message_destination_up)
    (simp add: extract_destination_mac_def merge_link_metrics_def foldl_merge_other foldl_merge_metric_items)

lemma hear_down:
  "hear P l (build_destination_down mac code) = l\<lparr>heard := (heard l)(mac := None)\<rparr>"
  "hear P l (build_destination_down_response mac code) = l\<lparr>heard := (heard l)(mac := None)\<rparr>"
  by (simp_all add: hear_def build_defs extract_defs)

lemma from_message_update [simp]:
  "from_message P (build_destination_update mac m) = no_changes"
  "from_message P (build_link_characteristics_response mac code m) = no_changes"
  "from_message P (with_item (message_new DESTINATION_UPDATE) (MacAddress mac)) = no_changes"
  by (simp_all add: from_message_def build_defs)

lemma hear_metrics:
  "hear P l (build_destination_update mac m) =
     l\<lparr>heard := (heard l)(mac := map_option (\<lambda>(old, A). (overlay m old, A)) (heard l mac))\<rparr>"
  by (simp add: hear_def no_changes_def)
    (simp add: build_destination_update_def extract_destination_mac_def merge_push_metric_items)

lemma set_status_text_facts:
  "merge_link_metrics (build_link_characteristics_reply mac code t m) old = (True, overlay m old)"
  "from_message P (build_link_characteristics_reply mac code t m) = no_changes"
  "extract_destination_mac (build_link_characteristics_reply mac code t m) = Some mac"
  "message_type (build_link_characteristics_reply mac code t m) = LINK_CHARACTERISTICS_RESPONSE"
  by (simp_all add: build_link_characteristics_reply_def build_link_characteristics_response_def Let_def
      merge_link_metrics_def from_message_def extract_destination_mac_def foldl_merge_metric_items)

lemma hear_reply:
  "hear P l (build_link_characteristics_reply mac code t m) =
     l\<lparr>heard := (heard l)(mac := map_option (\<lambda>(old, A). (overlay m old, A)) (heard l mac))\<rparr>"
  by (simp add: hear_def set_status_text_facts no_changes_def)

lemma hear_response:
  "hear P l (build_link_characteristics_response mac code m) =
     l\<lparr>heard := (heard l)(mac := map_option (\<lambda>(old, A). (overlay m old, A)) (heard l mac))\<rparr>"
  by (simp add: hear_def no_changes_def)
    (simp add: build_link_characteristics_response_def extract_destination_mac_def merge_push_metric_items)

lemma hear_announce_reply:
  "hear P l (modem_announce_reply mac d) =
     l\<lparr>heard := (heard l)(mac \<mapsto> (overlay (md_metrics d) (heard_session l),
       addr_set (addrs_canonical P (md_addrs d))))\<rparr>"
proof -
  let ?up = "build_destination_up mac (md_metrics d) (md_addrs d)"
  let ?m = "modem_announce_reply mac d"
  have items: "data_items ?m = data_items ?up @ [Status SUCCESS []]" "message_type ?m = DESTINATION_ANNOUNCE_RESPONSE"
    by (simp_all add: modem_announce_reply_def)
  have "from_message P ?m = from_message P ?up"
    by (simp add: from_message_def items del: build_destination_up_sel)
  moreover have "merge_link_metrics ?m old = (True, overlay (md_metrics d) old)" for old
    by (simp add: merge_link_metrics_def items foldl_merge_other foldl_merge_metric_items)
  moreover have "extract_destination_mac ?m = Some mac" by (simp add: extract_destination_mac_def items)
  moreover have "extract_status ?m = Some SUCCESS"
  proof -
    have "find_map (\<lambda>item. case item of Status code _ \<Rightarrow> Some code | _ \<Rightarrow> None) (up_items (md_addrs d)) = None"
      "find_map (\<lambda>item. case item of Status code _ \<Rightarrow> Some code | _ \<Rightarrow> None)
        (metric_items (md_metrics d) :: ('a, 'b) data_item list) = None"
      by (auto simp: find_map_None_iff up_items_def metric_items_def opt_item_def split: option.splits)
    then show ?thesis by (simp add: extract_status_def items find_map_append)
  qed
  ultimately show ?thesis by (simp add: hear_def items(2) from_message_destination_up)
qed

context ip_nets
begin

text \<open>A Destination Update with addresses, alone or after metrics.\<close>

lemma hear_update_addresses:
  assumes "addrs_canonical P old = old" "addrs_canonical P new = new"
  shows "hear P l (append_to P (between old new) (with_item (message_new DESTINATION_UPDATE) (MacAddress mac))) =
     l\<lparr>heard := (heard l)(mac := map_option (\<lambda>(m, A).
       (m, A - (addr_set old - addr_set new) \<union> (addr_set new - addr_set old))) (heard l mac))\<rparr>"
    and "hear P l (append_to P (between old new) (build_destination_update mac metrics)) =
     l\<lparr>heard := (heard l)(mac := map_option (\<lambda>(m, A). (overlay metrics m,
       A - (addr_set old - addr_set new) \<union> (addr_set new - addr_set old))) (heard l mac))\<rparr>"
proof -
  let ?u = "with_item (message_new DESTINATION_UPDATE) (MacAddress mac) :: ('n, 'm) message"
  have c: "from_message P (append_to P (between old new) msg) = between old new"
    if "from_message P msg = no_changes" for msg
    using from_message_append_to [OF that] between_canonical [OF assms] by simp
  have sets: "addr_set (added (between old new)) = addr_set new - addr_set old"
    "addr_set (removed (between old new)) = addr_set old - addr_set new"
    by (simp_all add: between_def addr_set_difference)
  have "extract_destination_mac (append_to P x ?u) = Some mac"
    "extract_destination_mac (append_to P x (build_destination_update mac metrics)) = Some mac" for x
    by (rule mac_append_to, simp add: extract_destination_mac_def build_destination_update_def)+
  moreover have "merge_link_metrics ?u m = (False, m)"
    "merge_link_metrics (build_destination_update mac metrics :: ('n, 'm) message) m = (True, overlay metrics m)" for m
    by (simp_all add: merge_no_metrics build_destination_update_def merge_push_metric_items)
  moreover have "message_type (build_destination_update mac metrics :: ('n, 'm) message) = DESTINATION_UPDATE"
    by (simp add: build_destination_update_def)
  ultimately show "hear P l (append_to P (between old new) ?u) =
     l\<lparr>heard := (heard l)(mac := map_option (\<lambda>(m, A).
       (m, A - (addr_set old - addr_set new) \<union> (addr_set new - addr_set old))) (heard l mac))\<rparr>"
    and "hear P l (append_to P (between old new) (build_destination_update mac metrics)) =
     l\<lparr>heard := (heard l)(mac := map_option (\<lambda>(m, A). (overlay metrics m,
       A - (addr_set old - addr_set new) \<union> (addr_set new - addr_set old))) (heard l mac))\<rparr>"
    by (simp_all add: hear_def append_to_sel(1) c sets)
qed

end

section \<open>The relation\<close>

text \<open>
  A destination is on the air while its Destination Up is pending and, once announced, until its
  Destination Down. A listener then knows the advertised addresses, and the metrics unless an update
  of them is held back.
\<close>

definition on_air :: "pending_request option \<Rightarrow> ('n, 'm) modem_destination \<Rightarrow> bool" where
  "on_air pending d = (if md_announced d then pending = None else pending \<noteq> None)"

definition scope_told ::
  "pending_request option \<Rightarrow> ('n, 'm) modem_destination option \<Rightarrow>
     (link_metrics \<times> ('n, 'm) addr_value set) option \<Rightarrow> bool" where
  "scope_told pending known h =
     (\<forall>d. known = Some d \<longrightarrow> on_air pending d \<longrightarrow>
        (\<exists>m. h = Some (m, addr_set (md_advertised_addrs d)) \<and> same_support m (md_metrics d) \<and>
           (\<not> md_pending_metrics d \<longrightarrow> m = md_metrics d)))"

definition told :: "('n, 'm) modem_session_fsm \<Rightarrow> ('n, 'm) listener \<Rightarrow> bool" where
  "told fsm l =
     ((m_state fsm = MInSession \<longrightarrow> heard_session l = m_session_metrics fsm) \<and>
      (m_state fsm \<in> {MListening, MAwaitingSessionInit} \<longrightarrow>
         m_session_metrics fsm = cfg_initial_metrics (m_config fsm)) \<and>
      (\<forall>m. scope_told (per_destination (m_tx fsm) m) (map_of (m_destinations fsm) m) (heard l m)))"

lemma told_initial: "told (modem_with_config config) l"
  by (simp add: told_def modem_with_config_def scope_told_def)

lemma told_at:
  assumes "told fsm l" "m_state fsm = MInSession"
    and "m_state fsm' = m_state fsm" "m_session_metrics fsm' = m_session_metrics fsm"
    and "heard_session l' = heard_session l"
    and "\<And>m. m \<noteq> mac \<Longrightarrow> map_of (m_destinations fsm') m = map_of (m_destinations fsm) m \<and>
      per_destination (m_tx fsm') m = per_destination (m_tx fsm) m \<and> heard l' m = heard l m"
    and "scope_told (per_destination (m_tx fsm') mac) (map_of (m_destinations fsm') mac) (heard l' mac)"
  shows "told fsm' l'"
proof -
  have "scope_told (per_destination (m_tx fsm') m) (map_of (m_destinations fsm') m) (heard l' m)" for m
    using assms(1,6,7) by (cases "m = mac") (simp_all add: told_def)
  with assms(1-5) show ?thesis by (simp add: told_def)
qed

lemma told_same:
  assumes "told fsm l" "m_state fsm' = m_state fsm \<or> m_state fsm' \<in> {MTerminating, MTerminated}"
    and "m_session_metrics fsm' = m_session_metrics fsm" "m_config fsm' = m_config fsm"
    and "m_destinations fsm' = m_destinations fsm" "per_destination (m_tx fsm') = per_destination (m_tx fsm)"
  shows "told fsm' l"
  using assms by (auto simp: told_def)

definition telling :: "('n, 'm) packages \<Rightarrow> ('n, 'm) listener \<Rightarrow> ('n, 'm) modem_result \<Rightarrow> bool" where
  "telling P l r = (\<forall>fsm' acts. r = Inr (fsm', acts) \<longrightarrow> told fsm' (hears P l acts))"

lemma telling_Inr [simp]: "telling P l (Inr (fsm', acts)) \<longleftrightarrow> told fsm' (hears P l acts)"
  by (simp add: telling_def)

lemma telling_Inl [simp]: "telling P l (Inl p)"
  by (simp add: telling_def)

lemma telling_try: "(\<And>x. r = Inr x \<Longrightarrow> telling P l (f x)) \<Longrightarrow> telling P l (try_then r f)"
  by (cases r) auto

section \<open>Every step tells\<close>

lemma told_scope:
  assumes "told fsm l" "map_of (m_destinations fsm) mac = Some d" "on_air (per_destination (m_tx fsm) mac) d"
  obtains m where "heard l mac = Some (m, addr_set (md_advertised_addrs d))" "same_support m (md_metrics d)"
    and "\<not> md_pending_metrics d \<Longrightarrow> m = md_metrics d"
  using assms unfolding told_def scope_told_def by blast

lemma told_known:
  assumes "told fsm l" "map_of (m_destinations fsm) mac = Some d"
  shows "scope_told (per_destination (m_tx fsm) mac) (Some d) (heard l mac)"
  using assms unfolding told_def by metis

lemma overlay_told: "same_support m new \<Longrightarrow> overlay new m = new"
  by (simp add: same_support_def overlay_same_support)

lemma supported_by_trans: "supported_by a b \<Longrightarrow> supported_by b c \<Longrightarrow> supported_by a c"
  unfolding supported_by_def by argo

lemma same_support_trans: "same_support a c \<Longrightarrow> same_support b c \<Longrightarrow> same_support a b"
  unfolding same_support_def by (blast intro: supported_by_trans)

lemma addr_change: "A - (A - B) \<union> (B - A) = (B :: 'a set)"
  by blast

context dlep_packages
begin

lemma modem_up_response_tells:
  assumes inv: "modem_inv P fsm" and t: "told fsm l" and st: "m_state fsm = MInSession"
    and chk: "modem_check_message P fsm msg = Inr ()" and mt: "message_type msg = DESTINATION_UP_RESPONSE"
  shows "telling P l (modem_destination_up_response P fsm msg)"
proof -
  obtain mac d where mac: "extract_destination_mac msg = Some mac"
    and d: "map_of (m_destinations fsm) mac = Some d" "per_destination (m_tx fsm) mac \<noteq> None"
    and new: "\<not> md_announced d"
    by (rule modem_response_scope [OF inv st chk]) (use mt in \<open>auto intro: that\<close>)
  obtain m where h: "heard l mac = Some (m, addr_set (md_advertised_addrs d))"
    "same_support m (md_metrics d)" "\<not> md_pending_metrics d \<Longrightarrow> m = md_metrics d"
    by (rule told_scope [OF t d(1)]) (use d(2) new in \<open>auto simp: on_air_def\<close>)
  have can: "addrs_canonical P (md_advertised_addrs d) = md_advertised_addrs d"
    "addrs_canonical P (md_addrs d) = md_addrs d"
    using modem_scope_known(2) [OF inv d(1)] by (simp_all add: destination_ok_def)
  have tell: "told (fsm\<lparr>m_tx := snd (close_destination (m_tx fsm) mac),
      m_destinations := AList.update mac d' (m_destinations fsm)\<rparr>) l'"
    if "heard_session l' = heard_session l" "\<And>m. m \<noteq> mac \<Longrightarrow> heard l' m = heard l m"
      "scope_told None (Some d') (heard l' mac)" for d' l'
    by (rule told_at [OF t st, where mac = mac])
      (use that in \<open>simp_all add: close_destination_def update_conv'\<close>)
  obtain d' acts where a: "modem_announce_accepted P mac d = (d', acts)"
    by (cases "modem_announce_accepted P mac d")
  let ?h = "hears P l acts"
  have "heard_session ?h = heard_session l \<and> (\<forall>m'. m' \<noteq> mac \<longrightarrow> heard ?h m' = heard l m') \<and>
      scope_told None (Some d') (heard ?h mac)"
    using a h
    by (cases "md_pending_metrics d"; cases "changes_is_empty (between (md_advertised_addrs d) (md_addrs d))")
      (auto simp: modem_announce_accepted_def hear_update_addresses [OF can] overlay_told addr_change
        scope_told_def)
  then have "told (fsm\<lparr>m_tx := snd (close_destination (m_tx fsm) mac),
      m_destinations := AList.update mac d' (m_destinations fsm)\<rparr>) ?h"
    by (intro tell) auto
  moreover have "told (fsm\<lparr>m_tx := snd (close_destination (m_tx fsm) mac),
      m_destinations := AList.update mac (d\<lparr>md_announced := False\<rparr>) (m_destinations fsm)\<rparr>) l"
    by (rule tell) (simp_all add: scope_told_def on_air_def)
  ultimately show ?thesis
    by (simp add: modem_destination_up_response_def mac d a Let_def)
qed

lemma modem_destination_down_tells:
  assumes inv: "modem_inv P fsm" and t: "told fsm l" and st: "m_state fsm = MInSession"
    and chk: "modem_check_message P fsm msg = Inr ()" and mt: "message_type msg = DESTINATION_DOWN"
  shows "telling P l (modem_destination_down fsm msg)"
proof -
  obtain mac d where mac: "extract_destination_mac msg = Some mac"
    and d: "map_of (m_destinations fsm) mac = Some d" "per_destination (m_tx fsm) mac = None"
    by (rule modem_request_scope [OF inv st chk]) (use mt in \<open>auto intro: that\<close>)
  have "told (fsm\<lparr>m_destinations := AList.update mac
      (d\<lparr>md_announced := False, md_pending_metrics := False\<rparr>) (m_destinations fsm)\<rparr>)
      (l\<lparr>heard := (heard l)(mac := None)\<rparr>)"
    by (rule told_at [OF t st, where mac = mac])
      (use d in \<open>simp_all add: update_conv' scope_told_def on_air_def\<close>)
  then show ?thesis by (simp add: modem_destination_down_def mac d hear_down)
qed

lemma modem_down_response_tells:
  assumes t: "told fsm l" and st: "m_state fsm = MInSession"
  shows "telling P l (modem_destination_down_response fsm msg)"
proof -
  have "told (fsm\<lparr>m_tx := snd (close_destination (m_tx fsm) mac),
      m_destinations := AList.delete mac (m_destinations fsm)\<rparr>) l" for mac
    by (rule told_at [OF t st, where mac = mac])
      (simp_all add: delete_conv' scope_told_def close_destination_def)
  with t show ?thesis by (simp add: modem_destination_down_response_def split: option.splits)
qed

lemma modem_announce_tells:
  assumes inv: "modem_inv P fsm" and t: "told fsm l" and st: "m_state fsm = MInSession"
    and chk: "modem_check_message P fsm msg = Inr ()" and mt: "message_type msg = DESTINATION_ANNOUNCE"
  shows "telling P l (modem_destination_announce P fsm msg)"
proof -
  obtain mac where mac: "extract_destination_mac msg = Some mac"
    and idle: "per_destination (m_tx fsm) mac = None"
    using modem_announce_scope [OF st chk mt] by blast
  show ?thesis
  proof (cases "map_of (m_destinations fsm) mac")
    case None
    with t mac show ?thesis by (simp add: modem_destination_announce_def hear_ignored)
  next
    case (Some d)
    have ok: "destination_ok P (m_config fsm) d" by (rule modem_scope_known(2) [OF inv Some])
    have s: "heard_session l = m_session_metrics fsm" using t st by (simp add: told_def)
    have o: "overlay (md_metrics d) (m_session_metrics fsm) = md_metrics d"
      using ok modem_invD(3) [OF inv]
      by (intro overlay_told) (auto simp: destination_ok_def intro: same_support_trans)
    have "told (fsm\<lparr>m_destinations := AList.update mac
        (d\<lparr>md_announced := True, md_pending_metrics := False, md_advertised_addrs := md_addrs d\<rparr>)
        (m_destinations fsm)\<rparr>)
        (l\<lparr>heard := (heard l)(mac \<mapsto> (md_metrics d, addr_set (md_addrs d)))\<rparr>)"
      by (rule told_at [OF t st, where mac = mac])
        (use idle in \<open>simp_all add: update_conv' scope_told_def\<close>)
    with ok s o show ?thesis
      by (simp add: modem_destination_announce_def mac Some hear_announce_reply destination_ok_def)
  qed
qed

lemma modem_link_request_tells:
  assumes inv: "modem_inv P fsm" and t: "told fsm l" and st: "m_state fsm = MInSession"
    and chk: "modem_check_message P fsm msg = Inr ()"
    and mt: "message_type msg = LINK_CHARACTERISTICS_REQUEST"
  shows "telling P l (modem_link_characteristics_request fsm msg)"
proof -
  obtain mac d where mac: "extract_destination_mac msg = Some mac"
    and d: "map_of (m_destinations fsm) mac = Some d" "md_announced d" "per_destination (m_tx fsm) mac = None"
    by (rule modem_request_scope [OF inv st chk]) (use mt in \<open>auto intro: that\<close>)
  obtain m where h: "heard l mac = Some (m, addr_set (md_advertised_addrs d))"
    "same_support m (md_metrics d)" "\<not> md_pending_metrics d \<Longrightarrow> m = md_metrics d"
    by (rule told_scope [OF t d(1)]) (use d in \<open>auto simp: on_air_def\<close>)
  have ok: "\<not> md_pending_metrics d" using modem_scope_known(2) [OF inv d(1)] d(2) by (simp add: destination_ok_def)
  have "l\<lparr>heard := (heard l)(mac \<mapsto> (md_metrics d, addr_set (md_advertised_addrs d)))\<rparr> = l"
    using h ok by (cases l) (auto simp: fun_upd_idem)
  moreover have "told (fsm\<lparr>m_pending_link_requests := L\<rparr>) l" for L
    by (rule told_same [OF t]) simp_all
  ultimately show ?thesis
    using t h by (simp add: modem_link_characteristics_request_def mac d Let_def hear_response overlay_told)
qed

lemma modem_add_tells:
  assumes inv: "modem_inv P fsm" and t: "told fsm l" and st: "m_state fsm = MInSession"
    and mac: "\<not> modem_known fsm mac" and metrics: "supported_by metrics (cfg_initial_metrics (m_config fsm))"
  shows "telling P l (modem_add_destination P fsm mac metrics addrs)"
proof -
  have idle: "per_destination (m_tx fsm) mac = None"
    using modem_scope_busy [OF inv, of mac] mac by (force simp: modem_known_def)
  let ?m = "merge_update metrics (m_session_metrics fsm)"
  have s: "heard_session l = m_session_metrics fsm" using t st by (simp add: told_def)
  have o: "overlay ?m (m_session_metrics fsm) = ?m"
    using same_support_overlay [OF modem_invD(3) [OF inv] metrics] modem_invD(3) [OF inv]
    by (intro overlay_told) (auto simp: merge_update_overlay intro: same_support_trans)
  let ?a = "addrs_canonical P addrs"
  have "told (fsm\<lparr>m_tx := (m_tx fsm)\<lparr>per_destination :=
        (per_destination (m_tx fsm))(mac \<mapsto> \<lparr>req_kind = ReqDestinationUp\<rparr>)\<rparr>,
      m_destinations := AList.update mac \<lparr>md_announced = False, md_pending_metrics = False,
        md_metrics = ?m, md_addrs = ?a, md_advertised_addrs = ?a\<rparr> (m_destinations fsm)\<rparr>)
      (l\<lparr>heard := (heard l)(mac \<mapsto> (?m, addr_set ?a))\<rparr>)"
    by (rule told_at [OF t st, where mac = mac]) (simp_all add: update_conv' scope_told_def)
  with s o idle show ?thesis
    by (simp add: modem_add_destination_def Let_def hear_destination_up open_destination_def)
qed

lemma modem_update_metrics_tells:
  assumes inv: "modem_inv P fsm" and t: "told fsm l" and st: "m_state fsm = MInSession"
    and metrics: "supported_by metrics (cfg_initial_metrics (m_config fsm))"
    and up: "\<And>q. per_destination (m_tx fsm) mac = Some q \<Longrightarrow> req_kind q = ReqDestinationUp"
  shows "telling P l (modem_update_metrics fsm mac metrics)"
proof (cases "map_of (m_destinations fsm) mac")
  case (Some d)
  note k = modem_scope_known [OF inv Some]
  let ?d = "d\<lparr>md_metrics := merge_update metrics (md_metrics d)\<rparr>"
  have sup: "same_support (merge_update metrics (md_metrics d)) (md_metrics d)"
    using destination_ok_metrics [OF k(2) metrics] k(2)
    by (auto simp: destination_ok_def intro: same_support_trans)
  have tell: "told (fsm\<lparr>m_destinations := AList.update mac d' (m_destinations fsm)\<rparr>) l'"
    if "heard_session l' = heard_session l" "\<And>m. m \<noteq> mac \<Longrightarrow> heard l' m = heard l m"
      "scope_told (per_destination (m_tx fsm) mac) (Some d') (heard l' mac)" for d' l'
    by (rule told_at [OF t st, where mac = mac]) (use that in \<open>simp_all add: update_conv'\<close>)
  have told: "scope_told (per_destination (m_tx fsm) mac) (Some d) (heard l mac)"
    by (rule told_known [OF t Some])
  show ?thesis
  proof (cases "md_announced d")
    case True
    then have idle: "\<not> destination_busy (m_tx fsm) mac" by (rule modem_update_idle [OF inv Some _ up])
    have "told (fsm\<lparr>m_destinations := AList.update mac ?d (m_destinations fsm)\<rparr>)
        (l\<lparr>heard := (heard l)(mac := map_option (\<lambda>(old, A). (overlay metrics old, A)) (heard l mac))\<rparr>)"
      by (rule tell) (use told True idle k(2)
        in \<open>auto simp: scope_told_def on_air_def destination_busy_def destination_ok_def merge_update_overlay\<close>)
    with True idle show ?thesis by (simp add: modem_update_metrics_def Some Let_def hear_metrics)
  next
    case False
    have "told (fsm\<lparr>m_destinations := AList.update mac (?d\<lparr>md_pending_metrics := True\<rparr>) (m_destinations fsm)\<rparr>) l"
      by (rule tell) (use told False same_support_trans [OF _ sup]
        in \<open>auto simp: scope_told_def on_air_def\<close>)
    with False show ?thesis by (simp add: modem_update_metrics_def Some Let_def)
  qed
qed (simp add: modem_update_metrics_def)

lemma modem_update_addresses_tells:
  assumes inv: "modem_inv P fsm" and t: "told fsm l" and st: "m_state fsm = MInSession"
    and up: "\<And>q. per_destination (m_tx fsm) mac = Some q \<Longrightarrow> req_kind q = ReqDestinationUp"
  shows "telling P l (modem_update_addresses P fsm mac changes)"
proof (cases "map_of (m_destinations fsm) mac")
  case (Some d)
  note k = modem_scope_known [OF inv Some]
  let ?new = "apply_lenient P changes (md_addrs d)"
  let ?d = "d\<lparr>md_addrs := ?new\<rparr>"
  have can: "addrs_canonical P (md_advertised_addrs d) = md_advertised_addrs d" "addrs_canonical P ?new = ?new"
    using k(2) by (simp_all add: destination_ok_def canonical_lenient)
  have told: "scope_told (per_destination (m_tx fsm) mac) (Some d) (heard l mac)"
    by (rule told_known [OF t Some])
  have "told (fsm\<lparr>m_destinations := AList.update mac ?d (m_destinations fsm)\<rparr>) l"
    by (rule told_at [OF t st, where mac = mac])
      (use told in \<open>simp_all add: update_conv' scope_told_def on_air_def\<close>)
  moreover have "told (fsm\<lparr>m_destinations := AList.update mac (?d\<lparr>md_advertised_addrs := ?new\<rparr>) (m_destinations fsm)\<rparr>)
      (l\<lparr>heard := (heard l)(mac := map_option (\<lambda>(m, A). (m, A - (addr_set (md_advertised_addrs d) - addr_set ?new)
        \<union> (addr_set ?new - addr_set (md_advertised_addrs d)))) (heard l mac))\<rparr>)"
    by (rule told_at [OF t st, where mac = mac])
      (use told in \<open>auto simp: update_conv' scope_told_def on_air_def addr_change\<close>)
  ultimately show ?thesis
    by (simp add: modem_update_addresses_def Some Let_def hear_update_addresses [OF can])
qed (simp add: modem_update_addresses_def)

lemma modem_drop_tells:
  assumes t: "told fsm l" and st: "m_state fsm = MInSession"
    and idle: "per_destination (m_tx fsm) mac = None"
  shows "telling P l (modem_drop_destination fsm mac reason)"
proof (cases "map_of (m_destinations fsm) mac")
  case (Some d)
  have "told (fsm\<lparr>m_destinations := AList.delete mac (m_destinations fsm)\<rparr>) l"
    by (rule told_at [OF t st, where mac = mac]) (simp_all add: delete_conv' scope_told_def)
  moreover have "told (fsm\<lparr>m_tx := (m_tx fsm)\<lparr>per_destination :=
      (per_destination (m_tx fsm))(mac \<mapsto> \<lparr>req_kind = ReqDestinationDown\<rparr>)\<rparr>\<rparr>)
      (l\<lparr>heard := (heard l)(mac := None)\<rparr>)" if "md_announced d"
    by (rule told_at [OF t st, where mac = mac])
      (use that Some in \<open>simp_all add: scope_told_def on_air_def\<close>)
  ultimately show ?thesis
    using idle
    by (simp add: modem_drop_destination_def Some destination_busy_def open_destination_def hear_down)
qed (simp add: modem_drop_destination_def)

lemma modem_answer_tells:
  assumes inv: "modem_inv P fsm" and t: "told fsm l" and st: "m_state fsm = MInSession"
    and asked: "mac \<in> m_pending_link_requests fsm"
    and metrics: "\<And>m. metrics = Some m \<Longrightarrow> supported_by m (cfg_initial_metrics (m_config fsm))"
  shows "telling P l (modem_link_characteristics_answer fsm mac status expl metrics)"
proof -
  obtain d where d: "map_of (m_destinations fsm) mac = Some d"
    using modem_scope_busy [OF inv, of mac] asked by blast
  note k = modem_scope_known [OF inv d]
  define d' where "d' = (case metrics of Some m \<Rightarrow> d\<lparr>md_metrics := merge_update m (md_metrics d)\<rparr> | None \<Rightarrow> d)"
  have ok: "destination_ok P (m_config fsm) d'" "md_advertised_addrs d' = md_advertised_addrs d"
    "md_announced d' = md_announced d"
    using k(2) metrics by (auto simp: d'_def destination_ok_metrics split: option.splits)
  obtain m where h: "heard l mac = Some (m, addr_set (md_advertised_addrs d))" "same_support m (md_metrics d)"
    by (rule told_scope [OF t d]) (use k(4) [OF asked] in \<open>auto simp: on_air_def\<close>)
  have sup: "same_support m (md_metrics d')"
    using h(2) ok(1) k(2) by (auto simp: destination_ok_def same_support_def intro: supported_by_trans)
  have "told (fsm\<lparr>m_pending_link_requests := m_pending_link_requests fsm - {mac},
      m_destinations := AList.update mac d' (m_destinations fsm)\<rparr>)
      (l\<lparr>heard := (heard l)(mac := map_option (\<lambda>(old, A). (overlay (md_metrics d') old, A)) (heard l mac))\<rparr>)"
    by (rule told_at [OF t st, where mac = mac])
      (use h ok sup in \<open>auto simp: update_conv' scope_told_def overlay_told\<close>)
  then show ?thesis
    by (simp add: modem_link_characteristics_answer_def d Let_def hear_reply flip: d'_def)
qed

lemma modem_push_tells:
  assumes t: "told fsm l" and st: "m_state fsm = MInSession"
  shows "telling P l (modem_push_session_metrics fsm metrics)"
proof -
  have s: "heard_session l = m_session_metrics fsm" using t st by (simp add: told_def)
  have "same_support (overlay new a) (overlay new b)" if "same_support a b" for new a b
    using that unfolding same_support_def supported_by_def overlay_def by (simp split: option.splits)
  then have "scope_told q (map_option (\<lambda>d. d\<lparr>md_metrics := overlay metrics (md_metrics d)\<rparr>) known)
      (map_option (\<lambda>(old, A). (overlay metrics old, A)) h)"
    if "scope_told q known h" for q known h
    using that unfolding scope_told_def by (cases known) (auto simp: on_air_def)
  with t st s show ?thesis
    by (auto simp: modem_push_session_metrics_def Let_def open_session_def told_def hear_session_update
        map_of_map_values merge_update_overlay split: option.splits)
qed

lemma modem_local_tells:
  assumes t: "told fsm l" shows "telling P l (modem_session_addresses P fsm changes)"
proof -
  have "hears P l acts = l \<and> per_destination tx' = per_destination tx"
    if "apply_local_address_update P tx local changes = Inr (tx', local', acts)" for tx local tx' local' acts
    using that by (auto simp: apply_local_address_update_def Let_def try_then_eq_Inr hear_addresses
        open_session_def split: sum.splits if_splits prod.splits option.splits)
  then show ?thesis
    by (auto simp: modem_session_addresses_def intro!: telling_try told_same [OF t])
qed

lemma modem_protocol_error_tells:
  assumes t: "told fsm l"
  shows "telling P l (modem_protocol_error fsm (Status code expl))"
  using t by (auto simp: modem_protocol_error_def hear_ignored intro: told_same [OF t])

lemma modem_in_session_message_tells:
  assumes inv: "modem_inv P fsm" and t: "told fsm l" and st: "m_state fsm = MInSession"
    and chk: "modem_check_message P fsm msg = Inr ()"
  shows "telling P l (modem_in_session_message P fsm msg)"
proof -
  have "telling P l (modem_session_termination fsm msg)" "telling P l (modem_session_update_response fsm)"
    "telling P l (modem_session_update P fsm msg)" "telling P l (Inr (fsm, modem_reset fsm))"
    using t
    by (auto simp: modem_session_termination_def modem_session_update_response_def modem_session_update_def
        Let_def hear_ignored close_session_def intro!: telling_try told_same [OF t])
  then show ?thesis
    using modem_protocol_error_tells [OF t]
    by (simp add: modem_in_session_message_def Let_def modem_up_response_tells [OF inv t st chk]
        modem_destination_down_tells [OF inv t st chk] modem_down_response_tells [OF t st]
        modem_announce_tells [OF inv t st chk] modem_link_request_tells [OF inv t st chk]
        del: telling_Inr)
qed

lemma modem_command_tells:
  assumes inv: "modem_inv P fsm" and t: "told fsm l" and c: "command e = Some c"
    and chk: "modem_check_command P fsm e = Inr (Inr ())"
  shows "telling P l (modem_receive P fsm e)"
proof -
  note st = modem_command_scope(1) [OF chk c]
  note sc = modem_command_scope(2) [OF chk c] and v = modem_command_scope(3) [OF chk c]
  note defs = modem_receive_def modem_match_def modem_in_session_event_def
  note sups = modem_check_values_def modem_valid_metrics_def try_then_eq_Inr
  show ?thesis
  proof (cases e)
    case (AppAddDestination mac metrics addrs)
    with v c sc st show ?thesis
      using modem_add_tells [OF inv t st] by (auto simp: defs sups split: if_splits)
  next
    case (AppDropDestination mac reason)
    with v c sc st show ?thesis
      using modem_drop_tells [OF t st] modem_scope_accepts(3) [of fsm e mac reason] by (auto simp: defs)
  next
    case (AppUpdateMetrics mac metrics)
    with c sc have up: "per_destination (m_tx fsm) mac = Some q \<Longrightarrow> req_kind q = ReqDestinationUp" for q
      using modem_scope_accepts(2) [of fsm e mac] by auto
    from AppUpdateMetrics v st show ?thesis
      using modem_update_metrics_tells [OF inv t st _ up] by (auto simp: defs sups split: if_splits)
  next
    case (AppUpdateAddresses mac changes)
    with c sc have up: "per_destination (m_tx fsm) mac = Some q \<Longrightarrow> req_kind q = ReqDestinationUp" for q
      using modem_scope_accepts(2) [of fsm e mac] by auto
    from AppUpdateAddresses st show ?thesis
      using modem_update_addresses_tells [OF inv t st up] by (simp add: defs)
  next
    case (AppSessionUpdate metrics)
    then show ?thesis using st modem_push_tells [OF t st] by (simp add: defs)
  next
    case (AppLinkCharacteristicsResponse mac status expl answered)
    with c sc have asked: "mac \<in> m_pending_link_requests fsm"
      using modem_scope_accepts(4) [of fsm e mac status expl answered] by auto
    have "supported_by m (cfg_initial_metrics (m_config fsm))" if "answered = Some m" for m
      using v that by (auto simp: AppLinkCharacteristicsResponse sups split: if_splits)
    with st show ?thesis using modem_answer_tells [OF inv t st asked]
      by (simp add: AppLinkCharacteristicsResponse defs)
  next
    case (AppSessionAddresses changes)
    then show ?thesis using st modem_local_tells [OF t] by (simp add: defs)
  qed (use c v in \<open>simp_all add: modem_check_values_def\<close>)
qed

lemma modem_receive_message_tells:
  assumes inv: "modem_inv P fsm" and t: "told fsm l"
  shows "telling P l (modem_receive P fsm (RecvMessage msg))"
proof -
  have fatal: "\<exists>code t. item = Status code t" if "fatal_status msg = Some item" for item
    using fatal_status_Some [OF that] by blast
  have "telling P l (modem_session_initialization P fsm msg)" if "m_state fsm = MAwaitingSessionInit"
    using t that by (simp add: modem_session_initialization_def modem_established_actions_def Let_def
        hear_initialization told_def modem_established_def)
  then have "telling P l (modem_match P fsm (RecvMessage msg))"
    if "m_state fsm \<in> {MAwaitingSessionInit, MInSession} \<longrightarrow> modem_check_message P fsm msg = Inr ()"
    using t that modem_in_session_message_tells [OF inv t]
    by (auto simp: modem_match_def modem_listening_event_def modem_init_event_def modem_in_session_event_def
        modem_terminating_event_def modem_init_other_message_def modem_termination_response_def
        split: modem_session_state.splits intro: told_same [OF t])
  with fatal t show ?thesis
    by (auto simp: modem_receive_def modem_protocol_error_tells split: option.splits sum.splits)
qed

lemma modem_receive_tells:
  assumes inv: "modem_inv P fsm" and t: "told fsm l" and c: "command e = None"
  shows "telling P l (modem_receive P fsm e)"
proof (cases e)
  case (RecvMessage msg)
  then show ?thesis by (simp add: modem_receive_message_tells [OF inv t])
next
  case (ProtocolError code)
  then show ?thesis using t by (simp add: modem_receive_def modem_protocol_error_tells)
next
  case TcpAccepted
  with t show ?thesis
    by (auto simp: modem_receive_def modem_match_def modem_listening_event_def modem_tcp_accepted_def
        modem_init_event_def modem_in_session_event_def modem_terminating_event_def told_def
        split: modem_session_state.splits)
qed (use t c in \<open>auto simp: modem_receive_def modem_match_def modem_listening_event_def modem_init_event_def
    modem_init_timeout_def modem_init_tcp_closed_def modem_init_shutdown_def modem_in_session_event_def
    modem_heartbeat_missed_def modem_shutdown_def modem_tcp_closed_def modem_terminating_event_def
    modem_termination_timeout_def modem_terminating_tcp_closed_def hear_ignored
    split: modem_session_state.splits intro: told_same [OF t]\<close>)

lemma modem_step_tells:
  assumes "modem_inv P fsm" "told fsm l"
  shows "telling P l (modem_step P fsm e)"
proof (cases "command e")
  case None
  then show ?thesis by (simp add: modem_step_def modem_receive_tells [OF assms])
next
  case (Some c)
  then show ?thesis
    using assms modem_command_tells [OF assms Some]
    by (auto simp: modem_step_def intro!: telling_try split: sum.splits)
qed

lemma modem_run_tells:
  "run_events (modem_step P) fsm es = Inr (fsm', acts) \<Longrightarrow> modem_inv P fsm \<Longrightarrow> told fsm l \<Longrightarrow>
     told fsm' (hears P l acts)"
proof (induction es arbitrary: fsm acts l)
  case (Cons e es)
  then obtain s1 a1 a2 where 1: "modem_step P fsm e = Inr (s1, a1)"
    and 2: "run_events (modem_step P) s1 es = Inr (fsm', a2)" and a: "acts = a1 @ a2"
    by (auto simp: try_then_eq_Inr)
  have "told s1 (hears P l a1)" using modem_step_tells [OF Cons.prems(2,3), of e] 1 by simp
  with Cons.IH [OF 2 modem.step_inv [OF Cons.prems(2) 1]] a show ?case by simp
qed simp

lemma modem_run_told:
  "run_events (modem_step P) (modem_with_config config) es = Inr (fsm, acts) \<Longrightarrow> told fsm (hears P deaf acts)"
  by (rule modem_run_tells [OF _ modem_inv_initial told_initial])

lemma modem_run_known:
  assumes run: "run_events (modem_step P) (modem_with_config config) es = Inr (fsm, acts)"
    and d: "map_of (m_destinations fsm) mac = Some d" "md_announced d" "per_destination (m_tx fsm) mac = None"
  shows "heard (hears P deaf acts) mac = Some (md_metrics d, addr_set (md_addrs d))"
proof -
  have "destination_ok P (m_config fsm) d" by (rule modem_scope_known(2) [OF modem_run_inv [OF run] d(1)])
  with d(2) have "addr_set (md_advertised_addrs d) = addr_set (md_addrs d)" "\<not> md_pending_metrics d"
    by (simp_all add: destination_ok_def)
  moreover have "on_air (per_destination (m_tx fsm) mac) d" using d(2,3) by (simp add: on_air_def)
  ultimately show ?thesis using told_scope [OF modem_run_told [OF run] d(1)] by metis
qed

end

end
