(* ===== verification/Modem_Properties.thy ===== *)
theory Modem_Properties
  imports Modem_Sync Router_Properties
begin

text \<open>
  The properties of the modem's session state machine, over every sequence of events from a fresh
  machine: no panic, consistent scopes, notices at most once, timers, answers, and a peer that is kept
  informed of every destination. The witness of their hypotheses is the modem's half of the
  conversation whose other half is the run of \<open>Router_Properties\<close>.
\<close>

section \<open>Answers\<close>

text \<open>The answer RFC 8175 prescribes for a request of the router.\<close>

definition modem_answer ::
  "('n, 'm) modem_session_fsm \<Rightarrow> ('n, 'm) message \<Rightarrow> ('n, 'm) message list" where
  "modem_answer fsm msg =
     (if message_type msg = SESSION_UPDATE then [build_session_update_response SUCCESS]
      else case extract_destination_mac msg of
          None \<Rightarrow> []
        | Some mac \<Rightarrow>
            if message_type msg = DESTINATION_DOWN then [build_destination_down_response mac SUCCESS]
            else if message_type msg = DESTINATION_ANNOUNCE then
              [case map_of (m_destinations fsm) mac of
                 None \<Rightarrow> build_destination_announce_response mac REQUEST_DENIED
               | Some d \<Rightarrow> modem_announce_reply mac d]
            else if message_type msg = LINK_CHARACTERISTICS_REQUEST \<and>
                \<not> cfg_defer_link_characteristics (m_config fsm) then
              (case map_of (m_destinations fsm) mac of
                 None \<Rightarrow> []
               | Some d \<Rightarrow> [build_link_characteristics_response mac REQUEST_DENIED (md_metrics d)])
            else [])"

lemma sent_modem_reset [simp]: "sent (modem_reset fsm) = []"
  by (auto simp: modem_reset_def heartbeat_reset_action_def split: option.splits)

lemma modem_in_session_message_answering:
  assumes reset: "modem_reset fsm = [ResetHeartbeat t d]"
    and mt: "message_type msg \<noteq> SESSION_TERMINATION" "message_type msg \<noteq> DESTINATION_UP_RESPONSE"
  shows "answering (ResetHeartbeat t d) (modem_answer fsm msg) (modem_in_session_message P fsm msg) \<or>
    modem_in_session_message P fsm msg = modem_protocol_error fsm (Status UNEXPECTED_MESSAGE [])"
proof -
  let ?a = "answering (ResetHeartbeat t d) (modem_answer fsm msg)"
  have [simp]: "modem_reset (fsm\<lparr>m_tx := tx\<rparr>) = modem_reset fsm"
    "modem_reset (fsm\<lparr>m_destinations := D\<rparr>) = modem_reset fsm"
    "modem_reset (fsm\<lparr>m_pending_link_requests := A\<rparr>) = modem_reset fsm" for tx D A
    by (simp_all add: modem_reset_def)
  have "message_type msg = DESTINATION_DOWN \<Longrightarrow> ?a (modem_destination_down fsm msg)"
    "message_type msg = DESTINATION_DOWN_RESPONSE \<Longrightarrow> ?a (modem_destination_down_response fsm msg)"
    "message_type msg = SESSION_UPDATE \<Longrightarrow> ?a (modem_session_update P fsm msg)"
    "message_type msg = SESSION_UPDATE_RESPONSE \<Longrightarrow> ?a (modem_session_update_response fsm)"
    "message_type msg = DESTINATION_ANNOUNCE \<Longrightarrow> ?a (modem_destination_announce P fsm msg)"
    "message_type msg = LINK_CHARACTERISTICS_REQUEST \<Longrightarrow> ?a (modem_link_characteristics_request fsm msg)"
    "message_type msg = HEARTBEAT \<Longrightarrow> ?a (Inr (fsm, modem_reset fsm))"
    by (auto simp: modem_message_defs modem_answer_def reset Let_def split: prod.splits option.splits
        intro!: answering_try)
  with mt show ?thesis
    by (simp add: modem_in_session_message_def Let_def del: answering_Inr)
qed

lemma modem_up_response_resets:
  assumes "modem_reset fsm = [a]" "modem_destination_up_response P fsm msg = Inr (fsm', acts)"
  shows "acts \<noteq> [] \<and> last acts = a"
proof -
  have "modem_reset (fsm\<lparr>m_tx := tx\<rparr>) = [a]" for tx using assms(1) by (simp add: modem_reset_def)
  with assms(2) show ?thesis
    by (auto simp: assms(1) modem_destination_up_response_def Let_def split: option.splits if_splits prod.splits)
qed

context dlep_packages
begin

lemma modem_established_reset:
  assumes "modem_inv P fsm" "m_state fsm = MInSession"
  obtains d where "m_peer_heartbeat_interval fsm = Some d"
    and "modem_reset fsm = [ResetHeartbeat TIMER_HEARTBEAT_MISSED (2 * d)]"
proof -
  obtain d where d: "m_peer_heartbeat_interval fsm = Some d" "10 ^ 9 \<le> d" "d < 2 ^ 32 * 10 ^ 6"
    using assms by (auto simp: modem_inv_def)
  then have "heartbeat_reset_action TIMER_HEARTBEAT_MISSED (Some d) =
      Some (ResetHeartbeat TIMER_HEARTBEAT_MISSED (2 * d) :: ('n, 'm) fsm_action)"
    by (simp add: heartbeat_reset_action_Some DURATION_MAX_def)
  with d(1) that show thesis by (simp add: modem_reset_def)
qed

lemma modem_answers:
  assumes inv: "modem_inv P fsm" and st: "m_state fsm = MInSession"
    and step: "modem_step P fsm (RecvMessage msg) = Inr (fsm', acts)" and st': "m_state fsm' = MInSession"
  shows "(message_type msg \<noteq> DESTINATION_UP_RESPONSE \<longrightarrow> sent acts = modem_answer fsm msg) \<and>
    (\<exists>d. m_peer_heartbeat_interval fsm = Some d \<and> acts \<noteq> [] \<and>
      last acts = ResetHeartbeat TIMER_HEARTBEAT_MISSED (2 * d))"
proof -
  obtain d where d: "m_peer_heartbeat_interval fsm = Some d"
    and reset: "modem_reset fsm = [ResetHeartbeat TIMER_HEARTBEAT_MISSED (2 * d)]"
    using modem_established_reset [OF inv st] .
  have err: "modem_protocol_error fsm item \<noteq> Inr (fsm', acts)" for item
    using st st' by (auto simp: modem_protocol_error_def split: data_item.splits)
  have msg: "modem_in_session_message P fsm msg = Inr (fsm', acts)"
    using step st err
    by (auto simp: modem_step_def modem_receive_def modem_match_def modem_in_session_event_def
        split: option.splits sum.splits)
  with st' have nt: "message_type msg \<noteq> SESSION_TERMINATION"
    by (auto simp: modem_in_session_message_def modem_session_termination_def Let_def)
  show ?thesis
  proof (cases "message_type msg = DESTINATION_UP_RESPONSE")
    case True
    with msg modem_up_response_resets [OF reset] d show ?thesis
      by (simp add: modem_in_session_message_def)
  next
    case False
    with msg not_sym [OF err] d modem_in_session_message_answering [OF reset nt, of P] show ?thesis
      by (simp add: answering_def)
  qed
qed

end

section \<open>A run\<close>

definition sample_init :: "(net4, net6) message" where
  "sample_init = build_session_initialization default_config"

definition modem_start :: "(net4, net6) fsm_event list" where
  "modem_start = [TcpAccepted, RecvMessage sample_init]"

definition modem_events :: "(net4, net6) fsm_event list" where
  "modem_events = modem_start @ [AppAddDestination sample_mac default_metrics (no_addrs\<lparr>v4 := [7]\<rparr>),
     RecvMessage (build_destination_up_response sample_mac SUCCESS)]"

definition sample_destination :: "bool \<Rightarrow> (net4, net6) modem_destination" where
  "sample_destination announced =
     \<lparr>md_announced = announced, md_pending_metrics = False, md_metrics = default_metrics,
      md_addrs = no_addrs\<lparr>v4 := [7]\<rparr>, md_advertised_addrs = no_addrs\<lparr>v4 := [7]\<rparr>\<rparr>"

definition modem_started :: "(net4, net6) modem_session_fsm" where
  "modem_started = modem_established std_packages
     ((modem_with_config sample_modem_config)\<lparr>m_state := MAwaitingSessionInit\<rparr>) sample_init"

definition modem_waiting :: "(net4, net6) modem_session_fsm" where
  "modem_waiting = modem_started\<lparr>
     m_tx := snd (open_destination default_tracker sample_mac ReqDestinationUp),
     m_destinations := [(sample_mac, sample_destination False)]\<rparr>"

definition sample_modem :: "(net4, net6) modem_session_fsm" where
  "sample_modem = modem_started\<lparr>m_destinations := [(sample_mac, sample_destination True)]\<rparr>"

lemma sample_modem_config_sel:
  "cfg_initial_metrics sample_modem_config = default_metrics"
  "cfg_mac_address_format sample_modem_config = FormatEui48"
  "cfg_advertised_extensions sample_modem_config = []"
  by (simp_all add: sample_modem_config_def default_config_def)

lemma modem_started_sel [simp]:
  "m_state modem_started = MInSession" "m_tx modem_started = default_tracker"
  "m_destinations modem_started = []" "m_config modem_started = sample_modem_config"
  "m_session_metrics modem_started = default_metrics" "m_pending_link_requests modem_started = {}"
  "m_peer_heartbeat_interval modem_started = Some (60 * 10 ^ 9)"
  by (simp_all add: modem_started_def modem_established_def modem_with_config_def sample_modem_config_sel
      sample_init_def init_message_plain [of _ default_config, OF disjI1, OF refl])

lemma modem_init_steps:
  "modem_step std_packages (modem_with_config sample_modem_config) TcpAccepted =
     Inr ((modem_with_config sample_modem_config)\<lparr>m_state := MAwaitingSessionInit\<rparr>,
       [StartTimer TIMER_SESSION_INIT TkSessionInit (cfg_session_init_timeout sample_modem_config) False])"
  "modem_step std_packages ((modem_with_config sample_modem_config)\<lparr>m_state := MAwaitingSessionInit\<rparr>)
     (RecvMessage sample_init) = Inr (modem_started, modem_established_actions modem_started)"
proof -
  show 1: "modem_step std_packages (modem_with_config sample_modem_config) TcpAccepted =
     Inr ((modem_with_config sample_modem_config)\<lparr>m_state := MAwaitingSessionInit\<rparr>,
       [StartTimer TIMER_SESSION_INIT TkSessionInit (cfg_session_init_timeout sample_modem_config) False])"
    by (simp add: modem_step_def modem_receive_def modem_match_def modem_listening_event_def modem_tcp_accepted_def
        modem_with_config_def)
  obtain out where "message_encode std_packages (build_session_initialization default_config) = Inr out"
    using sample_configs_encode by blast
  from std.modem_accepts_initialization [OF this, of sample_modem_config]
  have "run_events (modem_step std_packages) (modem_with_config sample_modem_config)
      [TcpAccepted, RecvMessage sample_init] = Inr (modem_started,
      StartTimer TIMER_SESSION_INIT TkSessionInit (cfg_session_init_timeout sample_modem_config) False
        # modem_established_actions modem_started)"
    unfolding modem_started_def sample_init_def Let_def .
  then show "modem_step std_packages ((modem_with_config sample_modem_config)\<lparr>m_state := MAwaitingSessionInit\<rparr>)
     (RecvMessage sample_init) = Inr (modem_started, modem_established_actions modem_started)"
    by (auto simp: 1 try_then_eq_Inr)
qed

lemma sample_init_response_eq: "build_session_initialization_response sample_modem_config = sample_init_response"
  by (rule message.equality)
    (simp_all add: sample_init_response_def, simp_all add: sample_modem_config_def default_config_def)

lemma modem_starts:
  "\<exists>acts. run_events (modem_step std_packages) (modem_with_config sample_modem_config)
     modem_start = Inr (modem_started, acts) \<and> sent acts = [sample_init_response]"
  by (simp add: modem_start_def modem_init_steps modem_established_actions_def sample_init_response_eq)

lemma modem_adds:
  "modem_step std_packages modem_started (AppAddDestination sample_mac default_metrics (no_addrs\<lparr>v4 := [7]\<rparr>)) =
     Inr (modem_waiting, [SendMessage sample_up])"
proof -
  let ?a = "no_addrs\<lparr>v4 := [7]\<rparr> :: (net4, net6) destination_addrs"
  have merge: "merge_update default_metrics default_metrics = default_metrics"
    by (simp add: merge_update_overlay)
  have canonical: "addrs_canonical std_packages ?a = ?a"
    by (simp add: addrs_canonical_def no_addrs_def)
  have "\<exists>out. message_encode std_packages (build_session_update default_metrics) = Inr out"
    "\<exists>out. message_encode std_packages sample_up = Inr out"
    by (simp_all add: std.message_encode_eq_Inr build_session_update_def sample_up_def up_items_def no_addrs_def
        metric_items_def default_metrics_def item_wire_def as_micros_def tlv_def sample_mac_def)
  then obtain out out' where enc: "message_encode std_packages (build_session_update default_metrics) = Inr out"
    "message_encode std_packages sample_up = Inr out'" by blast
  then have "modem_valid_metrics std_packages modem_started default_metrics"
    by (simp add: modem_valid_metrics_def sample_modem_config_sel supported_by_def is_ok_def default_metrics_def)
  moreover have "changes_validate std_packages \<lparr>added = ?a, removed = no_addrs\<rparr> = Inr ()"
    by (simp add: changes_validate_def changes_canonical_def addrs_canonical_def no_addrs_def family_valid_def)
  moreover have "encodes std_packages sample_up = Inr ()"
    by (simp add: encodes_def enc)
  ultimately have "modem_check_values std_packages modem_started (AppAddDestination sample_mac default_metrics ?a) = Inr (Inr ())"
    by (simp add: modem_check_values_def modem_known_def merge flip: sample_up_def)
  moreover have "modem_check_scope modem_started (AppAddDestination sample_mac default_metrics ?a) (Some sample_mac) = None"
    by (simp add: modem_check_scope_def sample_modem_config_sel sample_mac_def tracker_defs)
  ultimately show ?thesis
    by (simp add: modem_step_def modem_check_command_def modem_receive_def modem_match_def
        modem_in_session_event_def modem_add_destination_def merge canonical sample_up_def modem_waiting_def
        sample_destination_def Let_def tracker_defs)
qed

lemma modem_waits:
  "modem_step std_packages modem_waiting (RecvMessage (build_destination_up_response sample_mac SUCCESS)) =
     Inr (sample_modem, modem_reset modem_waiting)"
proof -
  let ?m = "build_destination_up_response sample_mac SUCCESS :: (net4, net6) message"
  have items: "message_type ?m = DESTINATION_UP_RESPONSE" "data_items ?m = [MacAddress sample_mac, Status SUCCESS []]"
    by (simp_all add: build_destination_up_response_def)
  have "validate_message std_packages ?m False False [] = Inr ()"
    unfolding std.validate_message_iff grammatical_def considered_def items Let_def
    by (simp add: grammar_defs) (simp add: sample_mac_def)
  moreover have "validate_mac_format ?m FormatEui48 = Inr ()" "fatal_status ?m = None"
    by (simp_all add: validate_mac_format_def items fatal_status_def terminates_session_def word_le_nat_alt)
      (simp_all add: sample_mac_def)
  moreover have mac: "extract_destination_mac ?m = Some sample_mac" "extract_status ?m = Some SUCCESS"
    by (simp_all add: extract_destination_mac_def extract_status_def items)
  moreover have w: "m_state modem_waiting = MInSession" "m_config modem_waiting = sample_modem_config"
    "m_pending_link_requests modem_waiting = {}"
    "m_tx modem_waiting = snd (open_destination default_tracker sample_mac ReqDestinationUp)"
    "m_destinations modem_waiting = [(sample_mac, sample_destination False)]"
    by (simp_all add: modem_waiting_def)
  moreover have "validate_transaction ?m (m_tx modem_waiting) known = Inr ()" for known
    by (simp add: w validate_transaction_def items mac response_kind_def tracker_defs)
  ultimately have "modem_check_message std_packages modem_waiting ?m = Inr ()"
    by (simp add: modem_check_message_def sample_modem_config_sel items Let_def)
  moreover have "modem_announce_accepted std_packages sample_mac (sample_destination False) = (sample_destination True, [])"
    by (simp add: modem_announce_accepted_def sample_destination_def std.between_empty_iff)
  moreover have "snd (close_destination (m_tx modem_waiting) sample_mac) = default_tracker"
    by (auto simp: w tracker_defs fun_eq_iff)
  ultimately show ?thesis
    using w mac items \<open>fatal_status ?m = None\<close>
    by (simp add: modem_step_def modem_receive_def modem_match_def modem_in_session_event_def
        modem_in_session_message_def modem_destination_up_response_def Let_def)
      (simp add: sample_modem_def modem_waiting_def modem_reset_def)
qed

lemma modem_run:
  "\<exists>acts. run_events (modem_step std_packages) (modem_with_config sample_modem_config) modem_events =
     Inr (sample_modem, acts) \<and> sent acts = [sample_init_response, sample_up]"
proof -
  obtain a1 where "run_events (modem_step std_packages) (modem_with_config sample_modem_config)
      modem_start = Inr (modem_started, a1)" "sent a1 = [sample_init_response]"
    using modem_starts by blast
  then show ?thesis by (simp add: modem_events_def run_events_append modem_adds modem_waits)
qed

definition sample_down :: "(net4, net6) message" where
  "sample_down = build_destination_down sample_mac SUCCESS"

lemma modem_downs:
  "\<exists>fsm acts. modem_step std_packages sample_modem (RecvMessage sample_down) = Inr (fsm, acts) \<and>
     m_state fsm = MInSession"
proof -
  have items: "message_type sample_down = DESTINATION_DOWN" "data_items sample_down = [MacAddress sample_mac]"
    by (simp_all add: sample_down_def build_destination_down_def)
  have valid: "validate_message std_packages sample_down False False [] = Inr ()"
    unfolding std.validate_message_iff grammatical_def considered_def items Let_def
    by (simp add: grammar_defs) (simp add: sample_mac_def)
  have plain: "validate_mac_format sample_down FormatEui48 = Inr ()" "fatal_status sample_down = None"
    by (simp_all add: validate_mac_format_def items fatal_status_def) (simp_all add: sample_mac_def)
  have mac: "extract_destination_mac sample_down = Some sample_mac"
    by (simp add: extract_destination_mac_def items)
  have w: "m_state sample_modem = MInSession" "m_config sample_modem = sample_modem_config"
    "m_pending_link_requests sample_modem = {}" "m_tx sample_modem = default_tracker"
    "m_destinations sample_modem = [(sample_mac, sample_destination True)]"
    by (simp_all add: sample_modem_def)
  have "modem_check_message std_packages sample_modem sample_down = Inr ()"
    by (simp add: modem_check_message_def w sample_modem_config_sel valid plain items mac Let_def
        validate_transaction_def response_kind_def tracker_defs modem_announced_def sample_destination_def)
  then show ?thesis
    by (simp add: modem_step_def modem_receive_def modem_match_def modem_in_session_event_def w plain
        modem_in_session_message_def items modem_destination_down_def mac)
qed

section \<open>Properties\<close>

text \<open>
  C9: the modem's session state machine never panics. Whatever sequence of events it is given, from
  any configuration, every \<open>expect\<close>, index into the map of destinations, \<open>unreachable!\<close> and failed
  transaction of the source is out of reach.
\<close>

theorem modem_never_panics:
  assumes "dlep_packages P"
  shows "\<exists>fsm acts. run_events (modem_step P) (modem_with_config config) es = Inr (fsm, acts)"
  using dlep_packages.modem_run_total [OF assms] by blast

theorem modem_never_panics_witness:
  "\<exists>fsm acts. run_events (modem_step std_packages) (modem_with_config default_config)
     (modem_events @ [AppDropDestination sample_mac SUCCESS, TcpClosed]) = Inr (fsm, acts)"
  by (rule modem_never_panics [OF std.dlep_packages_axioms])

text \<open>
  C11: the scopes of the modem in every reachable state. Each destination is recorded once and has the
  configured address format; a pending Destination Up belongs to a destination not yet announced and
  a pending Destination Down to an announced one; a deferred link request belongs to an announced
  destination without a transaction; and an announced destination owes its peer nothing: what was
  advertised is what the destination holds.
\<close>

theorem modem_scopes_consistent:
  assumes "dlep_packages P"
    and "run_events (modem_step P) (modem_with_config config) es = Inr (fsm, acts)"
  shows "distinct (map fst (m_destinations fsm)) \<and>
    (\<forall>mac q. per_destination (m_tx fsm) mac = Some q \<longrightarrow> (\<exists>d. map_of (m_destinations fsm) mac = Some d \<and>
       req_kind q = (if md_announced d then ReqDestinationDown else ReqDestinationUp))) \<and>
    (\<forall>mac \<in> m_pending_link_requests fsm. modem_announced fsm mac \<and> per_destination (m_tx fsm) mac = None) \<and>
    (\<forall>mac d. map_of (m_destinations fsm) mac = Some d \<longrightarrow>
       accepts (cfg_mac_address_format (m_config fsm)) mac \<and> addrs_distinct (md_addrs d) \<and>
       (md_announced d \<longrightarrow> addr_set (md_advertised_addrs d) = addr_set (md_addrs d) \<and> \<not> md_pending_metrics d))"
proof -
  have inv: "modem_inv P fsm" by (rule dlep_packages.modem_run_inv [OF assms])
  have scope: "modem_scopes_ok P fsm mac" for mac using inv by (simp add: modem_inv_def)
  have "\<exists>d. map_of (m_destinations fsm) mac = Some d \<and>
       req_kind q = (if md_announced d then ReqDestinationDown else ReqDestinationUp)"
    if "per_destination (m_tx fsm) mac = Some q" for mac q
    using scope [of mac] that by (auto simp: modem_scope_ok_def split: option.splits)
  moreover have "modem_announced fsm mac \<and> per_destination (m_tx fsm) mac = None"
    if "mac \<in> m_pending_link_requests fsm" for mac
    using scope [of mac] that by (auto simp: modem_scope_ok_def modem_announced_def split: option.splits)
  moreover have "accepts (cfg_mac_address_format (m_config fsm)) mac \<and> addrs_distinct (md_addrs d) \<and>
       (md_announced d \<longrightarrow> addr_set (md_advertised_addrs d) = addr_set (md_addrs d) \<and> \<not> md_pending_metrics d)"
    if "map_of (m_destinations fsm) mac = Some d" for mac d
    using scope [of mac] that by (simp add: modem_scope_ok_def destination_ok_def)
  ultimately show ?thesis using inv by (simp add: modem_inv_def)
qed

theorem modem_scopes_consistent_witness:
  "\<exists>acts d. run_events (modem_step std_packages) (modem_with_config sample_modem_config) modem_events =
     Inr (sample_modem, acts) \<and> map_of (m_destinations sample_modem) sample_mac = Some d \<and> md_announced d \<and>
     addr_set (md_advertised_addrs d) = addr_set (md_addrs d) \<and> \<not> md_pending_metrics d"
proof -
  obtain acts where run: "run_events (modem_step std_packages) (modem_with_config sample_modem_config)
     modem_events = Inr (sample_modem, acts)" using modem_run by blast
  have d: "map_of (m_destinations sample_modem) sample_mac = Some (sample_destination True)"
    "md_announced (sample_destination True)"
    by (simp_all add: sample_modem_def sample_destination_def)
  with modem_scopes_consistent [OF std.dlep_packages_axioms run] run show ?thesis by blast
qed

text \<open>
  C23: the notices of a modem session. In every run \<open>SessionUp\<close> and \<open>SessionDown\<close> are each emitted at
  most once and in this order; the session is established only after \<open>SessionUp\<close>, and \<open>SessionDown\<close>
  is emitted only on the way to the final state.
\<close>

theorem modem_session_notices:
  assumes "dlep_packages P"
    and "run_events (modem_step P) (modem_with_config config) es = Inr (fsm, acts)"
  shows "notices acts \<in> {[], [UpNotice], [DownNotice], [UpNotice, DownNotice]} \<and>
    (m_state fsm = MInSession \<longrightarrow> notices acts = [UpNotice]) \<and>
    (DownNotice \<in> set (notices acts) \<longrightarrow> m_state fsm = MTerminated)"
  by (rule dlep_packages.modem_run_notices [OF assms])

theorem modem_session_notices_witness:
  "\<exists>acts. run_events (modem_step std_packages) (modem_with_config sample_modem_config) modem_events =
     Inr (sample_modem, acts) \<and> notices acts = [UpNotice]"
proof -
  obtain acts where run: "run_events (modem_step std_packages) (modem_with_config sample_modem_config)
     modem_events = Inr (sample_modem, acts)" using modem_run by blast
  have "m_state sample_modem = MInSession" by (simp add: sample_modem_def)
  with run modem_session_notices [OF std.dlep_packages_axioms run] show ?thesis by blast
qed

text \<open>
  Timer discipline of the modem. Under a runtime that only delivers expiries of armed timers, the
  armed timers are always those of the state, and after the end no timer is armed.
\<close>

theorem modem_timer_discipline:
  assumes "dlep_packages P" "driven (modem_step P) (modem_with_config config) fsm T"
  shows "T \<subseteq> modem_timers (m_state fsm)"
  by (rule dlep_packages.modem_driven_timers [OF assms])

theorem modem_timer_discipline_witness:
  "\<exists>fsm T. driven (modem_step std_packages) (modem_with_config sample_modem_config) fsm T \<and>
     m_state fsm = MTerminated \<and> T = {} \<and> T \<subseteq> modem_timers (m_state fsm)"
proof -
  let ?s0 = "modem_with_config sample_modem_config :: (net4, net6) modem_session_fsm"
  let ?s1 = "?s0\<lparr>m_state := MAwaitingSessionInit\<rparr>" let ?s2 = "?s0\<lparr>m_state := MTerminated\<rparr>"
  have 1: "\<exists>a1. modem_step std_packages ?s0 TcpAccepted = Inr (?s1, a1) \<and> armed_after {} a1 = {TIMER_SESSION_INIT}"
    by (simp add: modem_step_def modem_receive_def modem_match_def modem_listening_event_def
        modem_tcp_accepted_def modem_with_config_def)
  have 2: "\<exists>a2. modem_step std_packages ?s1 TcpClosed = Inr (?s2, a2) \<and> armed_after {TIMER_SESSION_INIT} a2 = {}"
    by (simp add: modem_step_def modem_receive_def modem_match_def modem_init_event_def
        modem_init_tcp_closed_def)
  from 1 obtain a1 where a1: "modem_step std_packages ?s0 TcpAccepted = Inr (?s1, a1)"
    "armed_after {} a1 = {TIMER_SESSION_INIT}" by blast
  from 2 obtain a2 where a2: "modem_step std_packages ?s1 TcpClosed = Inr (?s2, a2)"
    "armed_after {TIMER_SESSION_INIT} a2 = {}" by blast
  have "driven (modem_step std_packages) ?s0 ?s1 {TIMER_SESSION_INIT}"
    using driven.event [of "modem_step std_packages" ?s0 ?s0 "{}" TcpAccepted ?s1 a1, OF driven.start _ a1(1)]
      a1(2) by simp
  from driven.event [of "modem_step std_packages", OF this _ a2(1)]
  have d: "driven (modem_step std_packages) ?s0 ?s2 {}" using a2(2) by simp
  with modem_timer_discipline [OF std.dlep_packages_axioms d] show ?thesis by auto
qed



text \<open>
  C10: a peer is kept informed. After every run, a listener that follows the messages the modem sent
  (Destination Up, Update and Down, Session Update and the responses, as RFC 8175 reads them) knows of
  every announced destination without a transaction in flight exactly the metrics and addresses the
  modem holds for it.
\<close>

theorem modem_advertisements_in_sync:
  assumes "dlep_packages P"
    and "run_events (modem_step P) (modem_with_config config) es = Inr (fsm, acts)"
    and "map_of (m_destinations fsm) mac = Some d" "md_announced d" "per_destination (m_tx fsm) mac = None"
  shows "heard (hears P deaf acts) mac = Some (md_metrics d, addr_set (md_addrs d))"
  by (rule dlep_packages.modem_run_known [OF assms])

theorem modem_advertisements_in_sync_witness:
  "\<exists>acts. run_events (modem_step std_packages) (modem_with_config sample_modem_config) modem_events =
     Inr (sample_modem, acts) \<and>
     heard (hears std_packages deaf acts) sample_mac = Some (default_metrics, addr_set (no_addrs\<lparr>v4 := [7]\<rparr>))"
proof -
  obtain acts where run: "run_events (modem_step std_packages) (modem_with_config sample_modem_config)
     modem_events = Inr (sample_modem, acts)" using modem_run by blast
  have "map_of (m_destinations sample_modem) sample_mac = Some (sample_destination True)"
    "md_announced (sample_destination True)" "per_destination (m_tx sample_modem) sample_mac = None"
    by (simp_all add: sample_modem_def sample_destination_def default_tracker_def)
  from modem_advertisements_in_sync [OF std.dlep_packages_axioms run this] run show ?thesis
    by (simp add: sample_destination_def)
qed

text \<open>
  A terminated modem session stays as it is. Whatever events follow, no message is sent, no timer
  is touched and nothing is emitted but rejections of commands.
\<close>

theorem modem_terminated_final:
  assumes "dlep_packages P" "m_state fsm = MTerminated"
    and "run_events (modem_step P) fsm es = Inr (fsm', acts)"
  shows "fsm' = fsm \<and> list_all is_rejection acts"
  using dlep_packages.modem_run_ended [OF assms] .

theorem modem_terminated_final_witness:
  "\<exists>acts. run_events (modem_step std_packages) (sample_modem\<lparr>m_state := MTerminated\<rparr>)
     [RecvMessage sample_init, AppDropDestination sample_mac SUCCESS] =
       Inr (sample_modem\<lparr>m_state := MTerminated\<rparr>, acts) \<and> list_all is_rejection acts"
proof -
  have "\<exists>acts. run_events (modem_step std_packages) (sample_modem\<lparr>m_state := MTerminated\<rparr>)
     [RecvMessage sample_init, AppDropDestination sample_mac SUCCESS] =
       Inr (sample_modem\<lparr>m_state := MTerminated\<rparr>, acts)"
    by (simp add: modem_step_def modem_receive_def modem_match_def modem_check_command_def)
  then show ?thesis
    using modem_terminated_final [OF std.dlep_packages_axioms,
        of "sample_modem\<lparr>m_state := MTerminated\<rparr>"] by (simp del: run_events.simps) blast
qed

end
