(* ===== verification/Session_Runtime.thy ===== *)
theory Session_Runtime
  imports Session_Wire Router_Properties Modem_Properties
begin

text \<open>
  The session task of both roles: the machines of dlep-fsm under the runtime of dlep-daemon
  (\<open>session.rs\<close>). What the generic development of the task shows for any machine that keeps the
  contract \<open>session_machine\<close> is instantiated here for the router and the modem: the task runs its
  machine as the theorems on the machines assume, it never panics, and every session it announces
  ends with exactly one announcement of the end.
\<close>

section \<open>The machines as the task uses them\<close>

definition router_session :: "('n, 'm) packages \<Rightarrow> (('n, 'm) router_session_fsm, 'n, 'm) session_fsm" where
  "router_session P =
     \<lparr>sf_mac_address_format = (\<lambda>fsm. cfg_mac_address_format (r_config fsm)),
      sf_step = router_step P,
      sf_in_session = (\<lambda>fsm. r_state fsm = RInSession)\<rparr>"

definition modem_session :: "('n, 'm) packages \<Rightarrow> (('n, 'm) modem_session_fsm, 'n, 'm) session_fsm" where
  "modem_session P =
     \<lparr>sf_mac_address_format = (\<lambda>fsm. cfg_mac_address_format (m_config fsm)),
      sf_step = modem_step P,
      sf_in_session = (\<lambda>fsm. m_state fsm = MInSession)\<rparr>"

text \<open>The tasks as the daemons start them: only the router registers the connection, only the modem has a
  link-control backend.\<close>

definition router_task ::
  "(('n, 'm) router_session_fsm, 'n, 'm, 'w, 'x) session_env \<Rightarrow> session_config \<Rightarrow> peer_info \<Rightarrow> 'w \<Rightarrow>
     ('n, 'm) session_input list \<Rightarrow>
     (('n, 'm) router_session_fsm, 'n, 'm, 'w, 'x) session_task \<times> (session_failure + unit) option" where
  "router_task env config peer w is =
     run_session env (session_new env (router_with_config config) peer True False w) TcpConnected is"

definition modem_task ::
  "(('n, 'm) modem_session_fsm, 'n, 'm, 'w, 'x) session_env \<Rightarrow> session_config \<Rightarrow> peer_info \<Rightarrow> bool \<Rightarrow> 'w \<Rightarrow>
     ('n, 'm) session_input list \<Rightarrow>
     (('n, 'm) modem_session_fsm, 'n, 'm, 'w, 'x) session_task \<times> (session_failure + unit) option" where
  "modem_task env config peer link_control w is =
     run_session env (session_new env (modem_with_config config) peer False link_control w) TcpAccepted is"

lemma session_simps [simp]:
  "sf_step (router_session P) = router_step P" "sf_step (modem_session P) = modem_step P"
  "sf_mac_address_format (router_session P) fsm = cfg_mac_address_format (r_config fsm)"
  "sf_mac_address_format (modem_session P) mfsm = cfg_mac_address_format (m_config mfsm)"
  by (simp_all add: router_session_def modem_session_def)

section \<open>The end of a task\<close>

lemma session_drop_timers:
  "rt_timers (session_drop env t) = fst (timer_set_drop (rt_timers t) (rt_tasks t))"
  "rt_tasks (session_drop env t) = snd (timer_set_drop (rt_timers t) (rt_tasks t))"
proof -
  obtain ts tasks where d: "timer_set_drop (rt_timers t) (rt_tasks t) = (ts, tasks)"
    by (cases "timer_set_drop (rt_timers t) (rt_tasks t)")
  define t1 where "t1 = t\<lparr>rt_timers := ts, rt_tasks := tasks\<rparr>"
  have 1: "rt_timers (lifecycle_drop env t1) = ts \<and> rt_tasks (lifecycle_drop env t1) = tasks"
    by (simp add: lifecycle_drop_def t1_def Let_def dispatch_keeps emit_out_def)
  then show "rt_timers (session_drop env t) = fst (timer_set_drop (rt_timers t) (rt_tasks t))"
    "rt_tasks (session_drop env t) = snd (timer_set_drop (rt_timers t) (rt_tasks t))"
    by (simp_all add: session_drop_def d t1_def [symmetric] Let_def emit_out_def update_lifecycle_def)
qed

lemma timer_set_drop_length: "length (snd (timer_set_drop ts tasks)) = length tasks"
proof -
  have "length (abort_entries tasks es) = length tasks" for es
    by (induction es arbitrary: tasks) (simp_all add: abort_entries_def abort_task_def split: prod.splits)
  then show ?thesis by (simp add: timer_set_drop_def abort_entries_def [symmetric])
qed

lemma session_drop_aborts:
  assumes "sound t" "length (rt_tasks (session_drop env t)) < 2 ^ 64"
  shows "list_all (\<lambda>s. sl_aborted s \<or> sl_done s) (rt_tasks (session_drop env t)) \<and>
    armed_timers (rt_timers (session_drop env t)) = {}"
proof -
  have "timers_ok (rt_timers t) (rt_tasks t) (rt_queue t)"
    using assms by (simp add: sound_def session_drop_timers timer_set_drop_length)
  from timer_set_drop_aborts [OF this] show ?thesis
    by (cases "timer_set_drop (rt_timers t) (rt_tasks t)") (simp add: session_drop_timers)
qed

context session_machine
begin

lemma run_stays:
  assumes "sf_step (en_fsm env) = step" "\<And>buf. codec_decode (en_packages env) buf \<noteq> None"
    and "inv s0" "untimed e"
    and "run_session env (session_new env s0 peer connection link_control w) e is = (t, None)"
  obtains es acts where "run_events step s0 es = Inr (rt_fsm t, acts)" "announced (rt_out t) = notices acts"
    "length (rt_tasks t) < 2 ^ 64 \<Longrightarrow> armed_timers (rt_timers t) \<subseteq> timers_of (rt_fsm t)"
proof -
  from run_follows [OF assms] obtain es acts where "trace step s0 es acts t" by blast
  then show ?thesis using that driven_timers by (auto simp: trace_def)
qed

lemma run_ends:
  assumes "sf_step (en_fsm env) = step" "\<And>buf. codec_decode (en_packages env) buf \<noteq> None"
    and "inv s0" "phase_of s0 = Idle" "untimed e"
    and "run_session env (session_new env s0 peer connection link_control w) e is = (t, Some res)"
  shows "ordinary res \<and> announced (rt_out t) \<in> {[DownNotice], [UpNotice, DownNotice]} \<and>
    (length (rt_tasks t) < 2 ^ 64 \<longrightarrow>
      list_all (\<lambda>s. sl_aborted s \<or> sl_done s) (rt_tasks t) \<and> armed_timers (rt_timers t) = {})"
proof -
  from run_follows [OF assms(1-3,5,6)] obtain es acts t1 where
    1: "ordinary res" "ending step s0 es acts t1" "t = session_drop env t1" by blast
  with drop_announces [OF assms(3,4) 1(2)] session_drop_aborts [of t1 env] show ?thesis
    by (simp add: ending_def)
qed

end

context dlep_packages
begin

lemma codec_decode_total: "codec_decode P buf \<noteq> None"
  using message_decode_total by (auto simp: codec_decode_def Let_def split: prod.splits)

lemma router_run_wf:
  assumes "utf8_valid (cfg_peer_description (r_config fsm))" "list_all wf_event es"
    and "run_events (router_step P) fsm es = Inr (fsm', acts)"
  shows "list_all wf_action acts"
  using typed_router.run_typed [OF assms] by simp

lemma modem_run_wf:
  assumes "utf8_valid (cfg_peer_description (m_config fsm))" "list_all wf_event es"
    and "run_events (modem_step P) fsm es = Inr (fsm', acts)"
  shows "list_all wf_action acts"
  using typed_modem.run_typed [OF assms] by simp

lemma router_task_sound:
  assumes "en_packages env = P" "en_fsm env = router_session P" "router_task env config peer w is = (t, r)"
  shows "(r = None \<longrightarrow>
      (\<exists>es acts. run_events (router_step P) (router_with_config config) es = Inr (rt_fsm t, acts) \<and>
        announced (rt_out t) = notices acts \<and>
        (length (rt_tasks t) < 2 ^ 64 \<longrightarrow> armed_timers (rt_timers t) \<subseteq> router_timers (r_state (rt_fsm t))))) \<and>
    (\<forall>res. r = Some res \<longrightarrow> ordinary res \<and> announced (rt_out t) \<in> {[DownNotice], [UpNotice, DownNotice]} \<and>
      (length (rt_tasks t) < 2 ^ 64 \<longrightarrow>
        list_all (\<lambda>s. sl_aborted s \<or> sl_done s) (rt_tasks t) \<and> armed_timers (rt_timers t) = {}))"
proof -
  note run = assms(3) [unfolded router_task_def]
  have env: "sf_step (en_fsm env) = router_step P" "\<And>buf. codec_decode (en_packages env) buf \<noteq> None"
    using assms(1,2) codec_decode_total by simp_all
  have start: "router_inv P (router_with_config config)" "router_phase (r_state (router_with_config config)) = Idle"
    by (rule router_inv_initial) (simp add: router_with_config_def)
  show ?thesis
  proof (cases r)
    case None
    obtain es acts where "run_events (router_step P) (router_with_config config) es = Inr (rt_fsm t, acts)"
      "announced (rt_out t) = notices acts"
      "length (rt_tasks t) < 2 ^ 64 \<Longrightarrow> armed_timers (rt_timers t) \<subseteq> router_timers (r_state (rt_fsm t))"
      by (rule router.run_stays [OF env start(1) _ run [unfolded None]]) simp_all
    with None show ?thesis by auto
  next
    case (Some res)
    have "untimed TcpConnected" by simp
    from router.run_ends [OF env start this run [unfolded Some]] Some show ?thesis by simp
  qed
qed

lemma modem_task_sound:
  assumes "en_packages env = P" "en_fsm env = modem_session P" "modem_task env config peer link_control w is = (t, r)"
  shows "(r = None \<longrightarrow>
      (\<exists>es acts. run_events (modem_step P) (modem_with_config config) es = Inr (rt_fsm t, acts) \<and>
        announced (rt_out t) = notices acts \<and>
        (length (rt_tasks t) < 2 ^ 64 \<longrightarrow> armed_timers (rt_timers t) \<subseteq> modem_timers (m_state (rt_fsm t))))) \<and>
    (\<forall>res. r = Some res \<longrightarrow> ordinary res \<and> announced (rt_out t) \<in> {[DownNotice], [UpNotice, DownNotice]} \<and>
      (length (rt_tasks t) < 2 ^ 64 \<longrightarrow>
        list_all (\<lambda>s. sl_aborted s \<or> sl_done s) (rt_tasks t) \<and> armed_timers (rt_timers t) = {}))"
proof -
  note run = assms(3) [unfolded modem_task_def]
  have env: "sf_step (en_fsm env) = modem_step P" "\<And>buf. codec_decode (en_packages env) buf \<noteq> None"
    using assms(1,2) codec_decode_total by simp_all
  have start: "modem_inv P (modem_with_config config)" "modem_phase (m_state (modem_with_config config)) = Idle"
    by (rule modem_inv_initial) (simp add: modem_with_config_def)
  show ?thesis
  proof (cases r)
    case None
    obtain es acts where "run_events (modem_step P) (modem_with_config config) es = Inr (rt_fsm t, acts)"
      "announced (rt_out t) = notices acts"
      "length (rt_tasks t) < 2 ^ 64 \<Longrightarrow> armed_timers (rt_timers t) \<subseteq> modem_timers (m_state (rt_fsm t))"
      by (rule modem.run_stays [OF env start(1) _ run [unfolded None]]) simp_all
    with None show ?thesis by auto
  next
    case (Some res)
    have "untimed TcpAccepted" by simp
    from modem.run_ends [OF env start this run [unfolded Some]] Some show ?thesis by simp
  qed
qed

end

section \<open>Properties\<close>

text \<open>A task whose writes always succeed.\<close>

definition sample_env :: "('s, net4, net6) session_fsm \<Rightarrow> role \<Rightarrow> ('s, net4, net6, unit, unit) session_env" where
  "sample_env fsm role =
     \<lparr>en_packages = std_packages, en_fsm = fsm, en_write = (\<lambda>bytes w. (None, w)), en_shutdown = (\<lambda>w. w),
      en_extensions = [], en_session_id = 1, en_role = role\<rparr>"

definition sample_remote :: peer_info where
  "sample_remote = \<lparr>pi_addr = SocketV4 0x0A000002 854, pi_is_tls = False, pi_peer_description = None\<rparr>"

lemma sample_env_sel [simp]:
  "en_packages (sample_env fsm role) = std_packages" "en_fsm (sample_env fsm role) = fsm"
  "en_extensions (sample_env fsm role) = []" "en_write (sample_env fsm role) bytes w = (None, w)"
  by (simp_all add: sample_env_def)

text \<open>
  C5: the session task of a router does what its state machine says, and ends as promised. While the task
  runs, its machine has made a run from its initial state, the notifications broadcast are exactly those of
  this run, and only the timers of its state are armed. The task never panics and never hangs in a
  decoder; however it ends, by the protocol, by an error of the transport or of an encoder, the end of the
  session has been announced exactly once, after the start if that was announced at all, and every timer
  task is finished or aborted. The statements on timers hold as long as the generation counters do not wrap,
  which takes \<open>2 ^ 64\<close> started timers.
\<close>

theorem router_task_correct:
  assumes "dlep_packages P" "en_packages env = P" "en_fsm env = router_session P"
    and "router_task env config peer w is = (t, r)"
  shows "(r = None \<longrightarrow>
      (\<exists>es acts. run_events (router_step P) (router_with_config config) es = Inr (rt_fsm t, acts) \<and>
        announced (rt_out t) = notices acts \<and>
        (length (rt_tasks t) < 2 ^ 64 \<longrightarrow> armed_timers (rt_timers t) \<subseteq> router_timers (r_state (rt_fsm t))))) \<and>
    (\<forall>res. r = Some res \<longrightarrow> ordinary res \<and> announced (rt_out t) \<in> {[DownNotice], [UpNotice, DownNotice]} \<and>
      (length (rt_tasks t) < 2 ^ 64 \<longrightarrow>
        list_all (\<lambda>s. sl_aborted s \<or> sl_done s) (rt_tasks t) \<and> armed_timers (rt_timers t) = {}))"
  by (rule dlep_packages.router_task_sound [OF assms])

lemmas task_eval = run_session_def session_new_def step_and_process_def step_fsm_def process_actions_def
  write_message_def arm_timer_def start_timer_def emit_out_def next_generation_for_def timer_arm_def
  default_timer_set_def session_read_def read_frame.simps codec_decode_def process_emit_def broadcast_emitted_def
  update_lifecycle_def flush_pending_sends_def Let_def

lemma sample_router_task:
  "\<exists>t. router_task (sample_env (router_session std_packages) Router) default_config sample_remote () [] = (t, None) \<and>
     length (rt_tasks t) = 1 \<and> r_state (rt_fsm t) = RSessionInitPending"
  "\<exists>t. router_task (sample_env (router_session std_packages) Router) default_config sample_remote () [SelRead [ReadOk []]] =
       (t, Some (Inr ())) \<and> length (rt_tasks t) = 1"
proof -
  obtain out where "message_encode std_packages (build_session_initialization default_config) = Inr out"
    using sample_configs_encode by blast
  note eval = this router_task_def task_eval router_step_def router_receive_def router_match_def router_with_config_def
    router_closed_event_def router_tcp_connected_def router_init_event_def router_init_tcp_closed_def
  show "\<exists>t. router_task (sample_env (router_session std_packages) Router) default_config sample_remote () [] = (t, None) \<and>
     length (rt_tasks t) = 1 \<and> r_state (rt_fsm t) = RSessionInitPending"
    by (simp add: eval)
  show "\<exists>t. router_task (sample_env (router_session std_packages) Router) default_config sample_remote () [SelRead [ReadOk []]] =
       (t, Some (Inr ())) \<and> length (rt_tasks t) = 1"
    by (simp add: eval session_drop_timers timer_set_drop_length)
qed

theorem router_task_correct_witness:
  "\<exists>t t'. router_task (sample_env (router_session std_packages) Router) default_config sample_remote () [] = (t, None) \<and>
     r_state (rt_fsm t) = RSessionInitPending \<and>
     (\<exists>es acts. run_events (router_step std_packages) (router_with_config default_config) es = Inr (rt_fsm t, acts) \<and>
       announced (rt_out t) = notices acts) \<and>
     armed_timers (rt_timers t) \<subseteq> router_timers RSessionInitPending \<and>
     router_task (sample_env (router_session std_packages) Router) default_config sample_remote () [SelRead [ReadOk []]] =
       (t', Some (Inr ())) \<and>
     announced (rt_out t') \<in> {[DownNotice], [UpNotice, DownNotice]} \<and> armed_timers (rt_timers t') = {}"
proof -
  obtain t where t: "router_task (sample_env (router_session std_packages) Router) default_config sample_remote () [] = (t, None)"
    "length (rt_tasks t) = 1" "r_state (rt_fsm t) = RSessionInitPending" using sample_router_task(1) by blast
  obtain t' where t': "router_task (sample_env (router_session std_packages) Router) default_config sample_remote ()
      [SelRead [ReadOk []]] = (t', Some (Inr ()))" "length (rt_tasks t') = 1" using sample_router_task(2) by blast
  show ?thesis
    using router_task_correct [OF std.dlep_packages_axioms _ _ t(1)] router_task_correct [OF std.dlep_packages_axioms _ _ t'(1)]
      t t' by fastforce
qed

text \<open>
  C6: the session task of a modem does what its state machine says, and ends as promised, with the same
  guarantees as the task of a router. A modem starts by waiting for the Session Initialization, and it
  may have calls of its link-control backend in flight, whose answers are fed to the machine as events.
\<close>

theorem modem_task_correct:
  assumes "dlep_packages P" "en_packages env = P" "en_fsm env = modem_session P"
    and "modem_task env config peer link_control w is = (t, r)"
  shows "(r = None \<longrightarrow>
      (\<exists>es acts. run_events (modem_step P) (modem_with_config config) es = Inr (rt_fsm t, acts) \<and>
        announced (rt_out t) = notices acts \<and>
        (length (rt_tasks t) < 2 ^ 64 \<longrightarrow> armed_timers (rt_timers t) \<subseteq> modem_timers (m_state (rt_fsm t))))) \<and>
    (\<forall>res. r = Some res \<longrightarrow> ordinary res \<and> announced (rt_out t) \<in> {[DownNotice], [UpNotice, DownNotice]} \<and>
      (length (rt_tasks t) < 2 ^ 64 \<longrightarrow>
        list_all (\<lambda>s. sl_aborted s \<or> sl_done s) (rt_tasks t) \<and> armed_timers (rt_timers t) = {}))"
  by (rule dlep_packages.modem_task_sound [OF assms])

lemma sample_modem_task:
  "\<exists>t. modem_task (sample_env (modem_session std_packages) Modem) sample_modem_config sample_remote True () [SelTimer] =
     (t, None) \<and> length (rt_tasks t) = 1 \<and> m_state (rt_fsm t) = MAwaitingSessionInit"
  "\<exists>t. modem_task (sample_env (modem_session std_packages) Modem) sample_modem_config sample_remote True ()
       [SleeperWakes 0, SelTimer] = (t, Some (Inr ())) \<and> length (rt_tasks t) = 1"
proof -
  note eval = modem_task_def task_eval modem_step_def modem_receive_def modem_match_def modem_with_config_def
    modem_listening_event_def modem_tcp_accepted_def modem_init_event_def modem_init_timeout_def session_timer_def
    sleeper_fires_def is_current_generation_def
  show "\<exists>t. modem_task (sample_env (modem_session std_packages) Modem) sample_modem_config sample_remote True () [SelTimer] =
     (t, None) \<and> length (rt_tasks t) = 1 \<and> m_state (rt_fsm t) = MAwaitingSessionInit"
    by (simp add: eval)
  show "\<exists>t. modem_task (sample_env (modem_session std_packages) Modem) sample_modem_config sample_remote True ()
       [SleeperWakes 0, SelTimer] = (t, Some (Inr ())) \<and> length (rt_tasks t) = 1"
    by (simp add: eval session_drop_timers timer_set_drop_length)
qed

theorem modem_task_correct_witness:
  "\<exists>t t'. modem_task (sample_env (modem_session std_packages) Modem) sample_modem_config sample_remote True () [SelTimer] =
       (t, None) \<and>
     m_state (rt_fsm t) = MAwaitingSessionInit \<and>
     (\<exists>es acts. run_events (modem_step std_packages) (modem_with_config sample_modem_config) es = Inr (rt_fsm t, acts) \<and>
       announced (rt_out t) = notices acts) \<and>
     armed_timers (rt_timers t) \<subseteq> modem_timers MAwaitingSessionInit \<and>
     modem_task (sample_env (modem_session std_packages) Modem) sample_modem_config sample_remote True ()
       [SleeperWakes 0, SelTimer] = (t', Some (Inr ())) \<and>
     announced (rt_out t') \<in> {[DownNotice], [UpNotice, DownNotice]} \<and> armed_timers (rt_timers t') = {}"
proof -
  obtain t where t: "modem_task (sample_env (modem_session std_packages) Modem) sample_modem_config sample_remote True ()
      [SelTimer] = (t, None)"
    "length (rt_tasks t) = 1" "m_state (rt_fsm t) = MAwaitingSessionInit" using sample_modem_task(1) by blast
  obtain t' where t': "modem_task (sample_env (modem_session std_packages) Modem) sample_modem_config sample_remote True ()
      [SleeperWakes 0, SelTimer] = (t', Some (Inr ()))" "length (rt_tasks t') = 1" using sample_modem_task(2) by blast
  show ?thesis
    using modem_task_correct [OF std.dlep_packages_axioms _ _ t(1)] modem_task_correct [OF std.dlep_packages_axioms _ _ t'(1)]
      t t' by fastforce
qed



end
