(* ===== verification/Router_Sync.thy ===== *)
theory Router_Sync
  imports Router_Correct Listener
begin

text \<open>
  The router as a listener: over every run, an established router knows the session metrics and the
  metrics of each destination as a listener of the same messages does, and of its addresses at most
  those the listener has heard (addresses held by the peer or another destination are left out).
\<close>

section \<open>The relation\<close>

definition knows ::
  "('n, 'm) router_destination option \<Rightarrow> (link_metrics \<times> ('n, 'm) addr_value set) option \<Rightarrow> bool" where
  "knows known h = (\<forall>d. known = Some d \<longrightarrow> (\<exists>A. h = Some (rd_metrics d, A) \<and> addr_set (rd_addrs d) \<subseteq> A))"

definition router_heard :: "('n, 'm) listener \<Rightarrow> ('n, 'm) router_session_fsm \<Rightarrow> bool" where
  "router_heard l fsm =
     (r_state fsm = RInSession \<longrightarrow>
        heard_session l = r_session_metrics fsm \<and> (\<forall>m. knows (map_of (r_destinations fsm) m) (heard l m)))"

definition hearing :: "('n, 'm) listener \<Rightarrow> ('n, 'm) router_result \<Rightarrow> bool" where
  "hearing l r = (\<forall>fsm' acts. r = Inr (fsm', acts) \<longrightarrow> router_heard l fsm')"

lemma hearing_Inr [simp]: "hearing l (Inr (fsm', acts)) \<longleftrightarrow> router_heard l fsm'"
  by (simp add: hearing_def)

lemma hearing_Inl [simp]: "hearing l (Inl p)"
  by (simp add: hearing_def)

lemma hearing_try: "(\<And>x. r = Inr x \<Longrightarrow> hearing l (f x)) \<Longrightarrow> hearing l (try_then r f)"
  by (cases r) auto

lemma heard_at:
  assumes "router_heard l fsm" "r_state fsm = RInSession"
    and "r_session_metrics fsm' = r_session_metrics fsm" "heard_session l' = heard_session l"
    and "\<And>m. m \<noteq> mac \<Longrightarrow> map_of (r_destinations fsm') m = map_of (r_destinations fsm) m \<and> heard l' m = heard l m"
    and "knows (map_of (r_destinations fsm') mac) (heard l' mac)"
  shows "router_heard l' fsm'"
proof -
  have "knows (map_of (r_destinations fsm') m) (heard l' m)" for m
    using assms(1,2,5,6) by (cases "m = mac") (simp_all add: router_heard_def)
  with assms(1-4) show ?thesis by (simp add: router_heard_def)
qed

lemma heard_update:
  assumes "router_heard l fsm" "r_state fsm = RInSession"
    and "r_destinations fsm' = AList.update mac d (r_destinations fsm)"
    and "r_session_metrics fsm' = r_session_metrics fsm" "knows (Some d) h"
  shows "router_heard (l\<lparr>heard := (heard l)(mac := h)\<rparr>) fsm'"
  by (rule heard_at [OF assms(1,2), where mac = mac]) (use assms(3-) in \<open>simp_all add: update_conv'\<close>)

lemma heard_remove:
  assumes "router_heard l fsm" "r_state fsm = RInSession"
    and "r_destinations fsm' = AList.delete mac (r_destinations fsm)"
    and "r_session_metrics fsm' = r_session_metrics fsm"
  shows "router_heard (l\<lparr>heard := (heard l)(mac := None)\<rparr>) fsm'"
  by (rule heard_at [OF assms(1,2), where mac = mac])
    (use assms(3-) in \<open>simp_all add: delete_conv' knows_def\<close>)

lemma heard_same:
  assumes "router_heard l fsm" "r_state fsm' \<noteq> RInSession \<or> r_state fsm' = r_state fsm"
    and "r_session_metrics fsm' = r_session_metrics fsm" "r_destinations fsm' = r_destinations fsm"
  shows "router_heard l fsm'"
  using assms by (auto simp: router_heard_def)

section \<open>Every step\<close>

context dlep_packages
begin

lemma added_filtered:
  "addr_set (added (destination_address_changes P fsm mac msg)) \<subseteq> addr_set (added (from_message P msg))"
  "removed (destination_address_changes P fsm mac msg) = removed (from_message P msg)"
  by (auto simp: destination_address_changes_def Let_def retain_family_def addr_set_def)

lemma applied_subset:
  "addr_set (apply_lenient P (destination_address_changes P fsm mac msg) cur) \<subseteq>
     addr_set cur - addr_set (removed (from_message P msg)) \<union> addr_set (added (from_message P msg))"
proof -
  let ?c = "destination_address_changes P fsm mac msg"
  have "addrs_canonical P (removed ?c) = removed ?c" "addrs_canonical P (added ?c) = added ?c"
    by (rule canonical_address_changes)+
  with added_filtered [of fsm mac msg] show ?thesis by (auto simp: addr_set_lenient)
qed

lemma router_message_hears:
  assumes inv: "router_inv P fsm" and h: "router_heard l fsm" and st: "r_state fsm = RInSession"
  shows "message_type msg = DESTINATION_UP \<Longrightarrow> hearing (hear P l msg) (router_destination_up P fsm msg)"
    and "message_type msg = DESTINATION_ANNOUNCE_RESPONSE \<Longrightarrow>
      hearing (hear P l msg) (router_announce_response P fsm msg)"
    and "message_type msg = DESTINATION_UPDATE \<Longrightarrow> hearing (hear P l msg) (router_destination_update P fsm msg)"
    and "message_type msg = DESTINATION_DOWN \<Longrightarrow> hearing (hear P l msg) (router_destination_down fsm msg)"
    and "message_type msg = DESTINATION_DOWN_RESPONSE \<Longrightarrow>
      hearing (hear P l msg) (router_destination_down_response fsm msg)"
    and "message_type msg = LINK_CHARACTERISTICS_RESPONSE \<Longrightarrow>
      hearing (hear P l msg) (router_link_characteristics_response fsm msg)"
proof -
  have s: "heard_session l = r_session_metrics fsm" using h st by (simp add: router_heard_def)
  have k: "\<exists>A. heard l m = Some (rd_metrics d, A) \<and> addr_set (rd_addrs d) \<subseteq> A"
    if "map_of (r_destinations fsm) m = Some d" for m d
    using h st that by (fastforce simp: router_heard_def knows_def)
  have up: "knows (Some \<lparr>rd_up = True, rd_metrics = m, rd_addrs =
      apply_lenient P (destination_address_changes P fsm mac msg) no_addrs\<rparr>)
      (Some (m, addr_set (added (from_message P msg))))" for mac m
    using applied_subset [of fsm mac msg no_addrs] by (auto simp: knows_def)
  note up_heard = heard_update [OF h st _ _ up]
  show "message_type msg = DESTINATION_UP \<Longrightarrow> hearing (hear P l msg) (router_destination_up P fsm msg)"
    by (cases "extract_destination_mac msg")
      (simp_all add: router_destination_up_def hear_def s Let_def up_heard)
  show "message_type msg = DESTINATION_ANNOUNCE_RESPONSE \<Longrightarrow>
      hearing (hear P l msg) (router_announce_response P fsm msg)"
    by (cases "extract_destination_mac msg")
      (simp_all add: router_announce_response_def hear_def s Let_def up_heard heard_same [OF h])
  show "message_type msg = DESTINATION_DOWN \<Longrightarrow> hearing (hear P l msg) (router_destination_down fsm msg)"
    by (cases "extract_destination_mac msg")
      (simp_all add: router_destination_down_def hear_def Let_def heard_remove [OF h st])
  show "message_type msg = DESTINATION_DOWN_RESPONSE \<Longrightarrow>
      hearing (hear P l msg) (router_destination_down_response fsm msg)"
    by (cases "extract_destination_mac msg"; cases "extract_status msg")
      (simp_all add: router_destination_down_response_def hear_def Let_def heard_remove [OF h st])
  show "hearing (hear P l msg) (router_destination_update P fsm msg)"
    if mt: "message_type msg = DESTINATION_UPDATE"
  proof (cases "extract_destination_mac msg")
    case (Some mac)
    show ?thesis
    proof (cases "map_of (r_destinations fsm) mac")
      case known: (Some d)
      obtain A where A: "heard l mac = Some (rd_metrics d, A)" "addr_set (rd_addrs d) \<subseteq> A"
        using k [OF known] by blast
      obtain f m where m: "merge_link_metrics msg (rd_metrics d) = (f, m)"
        by (cases "merge_link_metrics msg (rd_metrics d)")
      let ?d = "d\<lparr>rd_metrics := m,
        rd_addrs := apply_lenient P (destination_address_changes P fsm mac msg) (rd_addrs d)\<rparr>"
      have "knows (Some ?d) (Some (m, A - addr_set (removed (from_message P msg))
          \<union> addr_set (added (from_message P msg))))"
        using applied_subset [of fsm mac msg "rd_addrs d"] A(2) by (auto simp: knows_def)
      then show ?thesis
        by (simp add: router_destination_update_def hear_def mt Some known m A Let_def heard_update [OF h st])
    qed (simp add: router_destination_update_def Some)
  qed (simp add: router_destination_update_def)
  show "hearing (hear P l msg) (router_link_characteristics_response fsm msg)"
    if mt: "message_type msg = LINK_CHARACTERISTICS_RESPONSE"
  proof (cases "extract_destination_mac msg")
    case (Some mac)
    show ?thesis
    proof (cases "map_of (r_destinations fsm) mac")
      case known: (Some d)
      obtain A where A: "heard l mac = Some (rd_metrics d, A)" "addr_set (rd_addrs d) \<subseteq> A"
        using k [OF known] by blast
      then have "knows (Some (d\<lparr>rd_metrics := snd (merge_link_metrics msg (rd_metrics d))\<rparr>))
          (Some (snd (merge_link_metrics msg (rd_metrics d)), A))"
        by (simp add: knows_def)
      then show ?thesis
        by (auto simp: router_link_characteristics_response_def hear_def mt Some known A Let_def
            intro!: hearing_try heard_update [OF h st])
    qed (simp add: router_link_characteristics_response_def Some)
  qed (simp add: router_link_characteristics_response_def)
qed

lemma router_session_update_hears:
  assumes h: "router_heard l fsm" and st: "r_state fsm = RInSession" and mt: "message_type msg = SESSION_UPDATE"
  shows "hearing (hear P l msg) (router_session_update P fsm msg)"
proof -
  let ?f = "\<lambda>m. snd (merge_link_metrics msg m)"
  have s: "heard_session l = r_session_metrics fsm" using h st by (simp add: router_heard_def)
  have "knows (map_option (\<lambda>d. d\<lparr>rd_metrics := ?f (rd_metrics d)\<rparr>) known) (map_option (\<lambda>(m, A). (?f m, A)) x)"
    if "knows known x" for known x
    using that by (cases known) (auto simp: knows_def)
  then have all: "router_heard (hear P l msg) fsm'"
    if "r_session_metrics fsm' = ?f (r_session_metrics fsm)" "map_of (r_destinations fsm') =
      map_option (\<lambda>d. d\<lparr>rd_metrics := ?f (rd_metrics d)\<rparr>) \<circ> map_of (r_destinations fsm)" for fsm'
    using that h st by (auto simp: router_heard_def hear_def mt s)
  obtain f m where m: "merge_link_metrics msg (r_session_metrics fsm) = (f, m)"
    by (cases "merge_link_metrics msg (r_session_metrics fsm)")
  show ?thesis
  proof (cases f)
    case True
    then show ?thesis
      by (auto simp: router_session_update_def m Let_def map_of_map_values intro!: hearing_try all)
  next
    case False
    then have "?f x = x" for x
      using m merge_found_iff [of msg "r_session_metrics fsm"] merge_no_metrics [of msg x]
      by (auto simp: list_ex_iff list_all_iff)
    with False m show ?thesis
      by (auto simp: router_session_update_def Let_def fun_eq_iff map_option_case
          intro!: hearing_try all split: option.splits)
  qed
qed

lemma router_in_session_message_hears:
  assumes inv: "router_inv P fsm" and h: "router_heard l fsm" and st: "r_state fsm = RInSession"
  shows "hearing (hear P l msg) (router_in_session_message P fsm msg)"
proof -
  have err: "hearing l' (router_protocol_error fsm (Status UNEXPECTED_MESSAGE []))" for l' :: "('n, 'm) listener"
    using st by (simp add: router_protocol_error_def router_heard_def)
  have "hearing (hear P l msg) (router_session_termination fsm msg)"
    by (simp add: router_session_termination_def Let_def router_heard_def)
  moreover have "hearing (hear P l msg) (router_session_update_response fsm)" if "message_type msg = SESSION_UPDATE_RESPONSE"
    using that by (auto simp: router_session_update_response_def hear_def Let_def intro: heard_same [OF h]
        split: option.splits)
  moreover have "hearing (hear P l msg) (Inr (fsm, router_reset fsm))" if "message_type msg = HEARTBEAT"
    using that h by (auto simp: hear_def Let_def split: option.splits)
  ultimately show ?thesis
    using err router_message_hears [OF inv h st, of msg] router_session_update_hears [OF h st, of msg]
    by (simp add: router_in_session_message_def Let_def del: hearing_Inr)
qed

lemma router_message_step_hears:
  assumes inv: "router_inv P fsm" and h: "router_heard l fsm"
  shows "hearing (hear P l msg) (router_receive P fsm (RecvMessage msg))"
proof -
  have err: "hearing l' (router_protocol_error fsm item)"
    if "r_state fsm \<in> {RSessionInitPending, RInSession}" for l' :: "('n, 'm) listener" and item
    using that by (auto simp: router_protocol_error_def router_heard_def split: data_item.splits)
  have est: "router_heard (hear P l msg) (router_established P fsm msg)"
    if "r_state fsm = RSessionInitPending" "message_type msg = SESSION_INITIALIZATION_RESPONSE"
    using that inv by (simp add: router_heard_def router_established_def hear_def router_inv_def knows_def)
  have "hearing (hear P l msg) (router_match P fsm (RecvMessage msg))"
    using router_in_session_message_hears [OF inv h] est err
    by (cases "r_state fsm") (auto simp: router_match_def router_closed_event_def router_init_event_def
        router_in_session_event_def router_terminating_event_def router_initialization_response_def Let_def
        router_init_other_message_def router_termination_response_def router_heard_def)
  with err show ?thesis
    by (auto simp: router_receive_def split: option.splits sum.splits)
qed

lemma router_step_hears:
  assumes inv: "router_inv P fsm" and h: "router_heard l fsm"
  shows "hearing (case e of RecvMessage msg \<Rightarrow> hear P l msg | _ \<Rightarrow> l) (router_step P fsm e)"
proof (cases "\<exists>msg. e = RecvMessage msg")
  case True
  then show ?thesis using router_message_step_hears [OF assms] by (auto simp: router_step_def)
next
  case False
  have "hearing l (router_in_session_event P fsm e)"
    using False h
    by (cases e) (auto simp: router_in_session_event_def router_command_defs router_shutdown_def
        router_tcp_closed_def router_heartbeat_missed_def Let_def router_heard_def split: prod.splits
        intro!: hearing_try)
  then have "hearing l (router_receive P fsm e)"
    using False h
    by (cases e; cases "r_state fsm") (auto simp: router_receive_def router_match_def router_closed_event_def
        router_tcp_connected_def router_init_event_def router_init_timeout_def router_init_tcp_closed_def
        router_init_shutdown_def router_terminating_event_def router_termination_timeout_def
        router_terminating_tcp_closed_def router_protocol_error_def router_heard_def)
  then have "hearing l (router_step P fsm e)"
    using h by (auto simp: router_step_def intro!: hearing_try split: option.splits sum.splits)
  with False show ?thesis by (cases e) simp_all
qed

lemma router_run_hears:
  "run_events (router_step P) fsm es = Inr (fsm', acts) \<Longrightarrow> router_inv P fsm \<Longrightarrow> router_heard l fsm \<Longrightarrow>
     router_heard (foldl (hear P) l (received es)) fsm'"
proof (induction es arbitrary: fsm acts l)
  case (Cons e es)
  then obtain s1 a1 a2 where 1: "router_step P fsm e = Inr (s1, a1)"
    and 2: "run_events (router_step P) s1 es = Inr (fsm', a2)"
    by (auto simp: try_then_eq_Inr)
  have "router_heard (case e of RecvMessage msg \<Rightarrow> hear P l msg | _ \<Rightarrow> l) s1"
    using router_step_hears [OF Cons.prems(2,3), of e] 1 by (simp add: hearing_def)
  with Cons.IH [OF 2 router.step_inv [OF Cons.prems(2) 1]] show ?case by (cases e) simp_all
qed simp

lemma router_run_heard:
  "run_events (router_step P) (router_with_config config) es = Inr (fsm, acts) \<Longrightarrow>
     router_heard (foldl (hear P) deaf (received es)) fsm"
  by (rule router_run_hears [OF _ router_inv_initial]) (simp_all add: router_heard_def router_with_config_def)

end

end
