(* ===== verification/Tcp_Sessions.thy ===== *)
theory Tcp_Sessions
  imports Session_Runtime Router_Sync
begin

text \<open>
  A modem and a router connected by a TCP stream, as two session tasks. The stream carries encodings:
  latencies in whole microseconds, subnets without host bits. A listener that hears the decoded
  messages differs from one that hears the messages as sent only in the resolution of the latencies
  (\<open>hear_on_wire\<close>); with what the tasks do to the stream (\<open>Session_Wire\<close>) this carries the
  agreement of the two machines over to the two daemons.
\<close>

section \<open>Listening to decoded messages\<close>

definition wire_listener :: "('n, 'm) listener \<Rightarrow> ('n, 'm) listener" where
  "wire_listener l =
     \<lparr>heard_session = wire_metrics (heard_session l),
      heard = map_option (\<lambda>(m, A). (wire_metrics m, A)) \<circ> heard l\<rparr>"

lemma wire_metrics_default [simp]: "wire_metrics default_metrics = default_metrics"
  by (simp add: wire_metrics_def default_metrics_def as_micros_def)

lemma wire_listener_deaf [simp]: "wire_listener deaf = deaf"
  by (simp add: wire_listener_def deaf_def fun_eq_iff)

lemma find_map_canon:
  "(\<And>i. f (canon P i) = f i) \<Longrightarrow> find_map f (map (canon P) items) = find_map f items"
  by (induction items) (simp_all split: option.split)

lemma on_wire_extract [simp]:
  "message_type (on_wire P msg) = message_type msg"
  "extract_destination_mac (on_wire P msg) = extract_destination_mac msg"
  "extract_status (on_wire P msg) = extract_status msg"
proof -
  have mac: "(case canon P i of MacAddress m \<Rightarrow> Some m | _ \<Rightarrow> None) = (case i of MacAddress m \<Rightarrow> Some m | _ \<Rightarrow> None)" for i
    by (cases i) simp_all
  have status: "(case canon P i of Status c _ \<Rightarrow> Some c | _ \<Rightarrow> None) = (case i of Status c _ \<Rightarrow> Some c | _ \<Rightarrow> None)" for i
    by (cases i) simp_all
  show "extract_destination_mac (on_wire P msg) = extract_destination_mac msg"
    by (simp add: extract_destination_mac_def on_wire_def find_map_canon mac)
  show "extract_status (on_wire P msg) = extract_status msg"
    by (simp add: extract_status_def on_wire_def find_map_canon status)
qed (simp add: on_wire_def)

lemma merge_on_wire [simp]:
  "snd (merge_link_metrics (on_wire P msg) (wire_metrics m)) = wire_metrics (snd (merge_link_metrics msg m))"
proof -
  have "snd (foldl merge_item (found', wire_metrics m) (map (canon P) items)) =
      wire_metrics (snd (foldl merge_item (found, m) items))" for found found' m items
  proof (induction items arbitrary: m found found')
    case (Cons i items)
    have "\<exists>g. merge_item (found', wire_metrics m) (canon P i) = (g, wire_metrics (snd (merge_item (found, m) i)))"
      by (cases i) (auto simp: wire_metrics_def)
    then obtain g where "merge_item (found', wire_metrics m) (canon P i) = (g, wire_metrics (snd (merge_item (found, m) i)))"
      by blast
    with Cons.IH [of g "snd (merge_item (found, m) i)" "fst (merge_item (found, m) i)"] show ?case by simp
  qed simp
  then show ?thesis by (simp add: merge_link_metrics_def on_wire_def)
qed

context dlep_packages
begin

lemma from_message_on_wire [simp]: "from_message P (on_wire P msg) = from_message P msg"
proof -
  have "note_item P c (canon P i) = note_item P c i" for c i
    by (cases i) simp_all
  then have "foldl (note_item P) c (map (canon P) items) = foldl (note_item P) c items" for c items
    by (induction items arbitrary: c) simp_all
  then show ?thesis by (simp add: from_message_def on_wire_def)
qed

lemma hear_on_wire: "hear P (wire_listener l) (on_wire P msg) = wire_listener (hear P l msg)"
proof -
  have "snd (merge_link_metrics (on_wire P msg) default_metrics) = wire_metrics (snd (merge_link_metrics msg default_metrics))"
    using merge_on_wire [of P msg default_metrics] by simp
  then show ?thesis
    by (auto simp: hear_def wire_listener_def Let_def fun_eq_iff option.map_comp comp_def case_prod_unfold split: option.splits)
qed

lemma hears_on_wire: "foldl (hear P) deaf (map (on_wire P) msgs) = wire_listener (foldl (hear P) deaf msgs)"
proof -
  have "foldl (hear P) (wire_listener l) (map (on_wire P) msgs) = wire_listener (foldl (hear P) l msgs)" for l
    by (induction msgs arbitrary: l) (simp_all add: hear_on_wire)
  from this [of deaf] show ?thesis by simp
qed

lemma roles_agree_on_wire:
  assumes m: "run_events (modem_step P) (modem_with_config mc) mes = Inr (mfsm, macts)"
    and r: "run_events (router_step P) (router_with_config rc) res = Inr (rfsm, racts)"
    and link: "received res = map (on_wire P) (sent macts)"
    and rd: "r_state rfsm = RInSession" "map_of (r_destinations rfsm) mac = Some rd"
    and md: "map_of (m_destinations mfsm) mac = Some md" "md_announced md" "per_destination (m_tx mfsm) mac = None"
  shows "rd_metrics rd = wire_metrics (md_metrics md) \<and> addr_set (rd_addrs rd) \<subseteq> addr_set (md_addrs md)"
proof -
  have "heard (hears P deaf macts) mac = Some (md_metrics md, addr_set (md_addrs md))"
    by (rule modem_run_known [OF m md])
  moreover have "knows (Some rd) (heard (wire_listener (hears P deaf macts)) mac)"
    using router_run_heard [OF r] rd by (metis hears_def hears_on_wire link router_heard_def)
  ultimately show ?thesis by (simp add: knows_def wire_listener_def)
qed

end

section \<open>Two tasks\<close>

text \<open>The bytes the task of a router has read.\<close>

definition router_reads ::
  "(('n, 'm) router_session_fsm, 'n, 'm, 'w, 'x) session_env \<Rightarrow> session_config \<Rightarrow> peer_info \<Rightarrow> 'w \<Rightarrow>
     ('n, 'm) session_input list \<Rightarrow> bytes" where
  "router_reads env config peer w is =
     session_reads env (session_new env (router_with_config config) peer True False w) TcpConnected is"

lemma in_session_phase:
  "sf_in_session (router_session P) s \<Longrightarrow> router_phase (r_state s) = Established"
  "sf_in_session (modem_session P) m \<Longrightarrow> modem_phase (m_state m) = Established"
  by (simp_all add: router_session_def modem_session_def)

context dlep_packages
begin

lemma modem_task_writes:
  assumes "en_packages env = P" "en_fsm env = modem_session P" "en_extensions env = []"
    and "utf8_valid (cfg_peer_description config)" "list_all wf_input is"
    and "modem_task env config peer link_control w is = (t, None)"
  shows "\<exists>es acts. run_events (modem_step P) (modem_with_config config) es = Inr (rt_fsm t, acts) \<and>
    list_all2 (sendable P) (sent acts) (wires (rt_out t))"
proof -
  have env: "sf_step (en_fsm env) = modem_step P" "en_extensions env = []"
    "utf8_valid (cfg_peer_description (m_config (modem_with_config config)))"
    "\<And>s. sf_in_session (en_fsm env) s \<Longrightarrow> modem_phase (m_state s) = Established"
    using assms(2-4) in_session_phase(2) by (simp_all add: modem_with_config_def)
  have pk: "dlep_packages (en_packages env)" using assms(1) dlep_packages_axioms by simp
  obtain es acts where "streamed env (modem_with_config config) es acts t"
    using typed_modem.run_streams [OF env pk _ _ assms(5) assms(6) [unfolded modem_task_def]] by force
  with typed_modem.streamed_sendable [OF env(1,3) this] assms(1) env(1) show ?thesis by (auto simp: streamed_def)
qed

lemma router_task_reads:
  assumes "en_packages env = P" "en_fsm env = router_session P" "en_extensions env = []"
    and "utf8_valid (cfg_peer_description config)" "list_all wf_input is"
    and "router_task env config peer w is = (t, None)"
    and "list_all2 (sendable P) msgs frames" "router_reads env config peer w is = concat frames"
    and "rt_read_buf t = []" "r_state (rt_fsm t) = RInSession"
  shows "\<exists>es acts. run_events (router_step P) (router_with_config config) es = Inr (rt_fsm t, acts) \<and>
    received es = map (on_wire P) msgs"
proof -
  have env: "sf_step (en_fsm env) = router_step P" "en_extensions env = []"
    "utf8_valid (cfg_peer_description (r_config (router_with_config config)))"
    "\<And>s. sf_in_session (en_fsm env) s \<Longrightarrow> router_phase (r_state s) = Established"
    using assms(2-4) in_session_phase(1) by (simp_all add: router_with_config_def)
  have pk: "dlep_packages (en_packages env)" using assms(1) dlep_packages_axioms by simp
  obtain es acts where s: "streamed env (router_with_config config) es acts t" "caught P msgs [] [] (received es)"
    using typed_router.run_streams [OF env pk _ _ assms(5) assms(6) [unfolded router_task_def], of msgs frames "[]"]
      assms(1,7-10) by (force simp: router_reads_def over_def)
  from s(2) obtain msgs1 msgs2 frames2 where c: "msgs = msgs1 @ msgs2" "received es = map (on_wire P) msgs1"
    "list_all2 (sendable P) msgs2 frames2" "[] @ [] = concat frames2" by (auto simp: caught_def)
  from c(3,4) have "msgs2 = []" by (cases rule: next_frame) auto
  with c s(1) env(1) show ?thesis by (auto simp: streamed_def)
qed

lemma tasks_agree:
  assumes menv: "en_packages menv = P" "en_fsm menv = modem_session P" "en_extensions menv = []"
    and renv: "en_packages renv = P" "en_fsm renv = router_session P" "en_extensions renv = []"
    and "utf8_valid (cfg_peer_description mc)" "list_all wf_input mis"
    and "utf8_valid (cfg_peer_description rc)" "list_all wf_input ris"
    and m: "modem_task menv mc mpeer link_control mw mis = (tm, None)"
    and r: "router_task renv rc rpeer rw ris = (tr, None)"
    and link: "router_reads renv rc rpeer rw ris = concat (wires (rt_out tm))" "rt_read_buf tr = []"
    and rd: "r_state (rt_fsm tr) = RInSession" "map_of (r_destinations (rt_fsm tr)) mac = Some rd"
    and md: "map_of (m_destinations (rt_fsm tm)) mac = Some md" "md_announced md"
      "per_destination (m_tx (rt_fsm tm)) mac = None"
  shows "rd_metrics rd = wire_metrics (md_metrics md) \<and> addr_set (rd_addrs rd) \<subseteq> addr_set (md_addrs md)"
proof -
  obtain mes macts where 1: "run_events (modem_step P) (modem_with_config mc) mes = Inr (rt_fsm tm, macts)"
    "list_all2 (sendable P) (sent macts) (wires (rt_out tm))"
    using modem_task_writes [OF menv assms(7,8) m] by blast
  obtain res racts where 2: "run_events (router_step P) (router_with_config rc) res = Inr (rt_fsm tr, racts)"
    "received res = map (on_wire P) (sent macts)"
    using router_task_reads [OF renv assms(9,10) r 1(2) link rd(1)] by blast
  show ?thesis by (rule roles_agree_on_wire [OF 1(1) 2 rd md])
qed

end

section \<open>A session of two tasks\<close>

abbreviation modem_env :: "((net4, net6) modem_session_fsm, net4, net6, unit, unit) session_env" where
  "modem_env \<equiv> sample_env (modem_session std_packages) Modem"

abbreviation router_env :: "((net4, net6) router_session_fsm, net4, net6, unit, unit) session_env" where
  "router_env \<equiv> sample_env (router_session std_packages) Router"

lemma sample_env_reliable [simp]: "reliable (sample_env fsm role)"
  by (simp add: reliable_def)

lemma sample_frames:
  "\<exists>frame. sendable std_packages sample_init frame" "\<exists>frame. sendable std_packages sample_init_response frame"
  "\<exists>frame. sendable std_packages sample_up frame"
  "\<exists>frame. sendable std_packages (build_destination_up_response sample_mac SUCCESS) frame"
proof -
  have desc: "utf8_valid (cfg_peer_description default_config)" "utf8_valid (cfg_peer_description sample_modem_config)"
    by (simp_all add: default_config_def sample_modem_config_def str_def)
  then have "list_all wf_item (data_items sample_init)" "list_all wf_item (data_items sample_init_response)"
    by (simp_all add: sample_init_def flip: sample_init_response_eq)
  with sample_configs_encode show "\<exists>frame. sendable std_packages sample_init frame"
    "\<exists>frame. sendable std_packages sample_init_response frame"
    by (simp_all add: sendable_def sample_init_def flip: sample_init_response_eq)
  show "\<exists>frame. sendable std_packages sample_up frame"
    by (simp add: sendable_def std.message_encode_eq_Inr sample_up_def up_items_def no_addrs_def
        metric_items_def default_metrics_def item_wire_def as_micros_def tlv_def sample_mac_def)
  show "\<exists>frame. sendable std_packages (build_destination_up_response sample_mac SUCCESS) frame"
    by (simp add: sendable_def std.message_encode_eq_Inr build_destination_up_response_def item_wire_def tlv_def sample_mac_def)
qed

lemma sample_on_wire:
  "on_wire std_packages sample_init = sample_init" "on_wire std_packages sample_init_response = sample_init_response"
  "on_wire std_packages sample_up = sample_up"
  "on_wire std_packages (build_destination_up_response sample_mac SUCCESS) = build_destination_up_response sample_mac SUCCESS"
  by (rule message.equality; simp add: on_wire_def sample_init_def sample_init_response_def sample_up_def
      build_session_initialization_def build_destination_up_response_def default_config_def metric_items_def
      default_metrics_def up_items_def no_addrs_def as_micros_def as_millis_def local_heartbeat_interval_def
      push_extensions_supported_def from_millis_def)+

lemma playable_reset [simp]: "playable P (router_reset fsm)" "playable P (modem_reset mfsm)"
  by (auto simp: playable_def router_reset_def modem_reset_def heartbeat_reset_action_def split: option.splits)

lemma playable_send: "sendable P msg frame \<Longrightarrow> playable P [SendMessage msg]"
  by (simp add: playable_def sendable_def is_ok_def)

lemma playable_other [simp]:
  "playable P []" "playable P [StartTimer i k d b]" "playable P [CancelTimer i]"
  "playable P [Emit (EvSessionUp ids)]" "playable P [Emit (EvSessionMetricsUpdate m)]"
  "playable P [Emit (EvSessionAddressesUpdate c a)]" "playable P [Emit (EvDestinationUp mac m a)]"
  by (simp_all add: playable_def)

lemma playable_Cons: "ys \<noteq> [] \<Longrightarrow> playable P (x # ys) \<longleftrightarrow> playable P [x] \<and> playable P ys"
  using playable_append [of P "[x]" ys] by simp

lemma sample_playable:
  "playable std_packages [SendMessage (build_session_initialization default_config),
     StartTimer TIMER_SESSION_INIT TkSessionInit d False]"
  "playable std_packages (modem_established_actions modem_started)"
  "playable std_packages [SendMessage sample_up]"
  "playable std_packages (router_established_actions sample_established)"
  "playable std_packages ([SendMessage (build_destination_up_response sample_mac SUCCESS),
     Emit (EvDestinationUp sample_mac default_metrics a)] @ router_reset sample_established)"
proof -
  have send: "playable std_packages [SendMessage sample_init]" "playable std_packages [SendMessage sample_init_response]"
    "playable std_packages [SendMessage sample_up]"
    "playable std_packages [SendMessage (build_destination_up_response sample_mac SUCCESS)]"
    using sample_frames playable_send by metis+
  show "playable std_packages [SendMessage sample_up]" by (rule send(3))
  have "playable std_packages [SendMessage (build_session_initialization default_config)]"
    using send(1) by (simp add: sample_init_def)
  then show "playable std_packages [SendMessage (build_session_initialization default_config),
     StartTimer TIMER_SESSION_INIT TkSessionInit d False]" by (simp add: playable_Cons)
  have "playable std_packages [SendMessage (build_session_initialization_response sample_modem_config)]"
    using send(2) by (simp add: sample_init_response_eq)
  then show "playable std_packages (modem_established_actions modem_started)"
    by (simp add: modem_established_actions_def playable_Cons)
  show "playable std_packages (router_established_actions sample_established)"
    by (simp add: router_established_actions_def playable_Cons)
  show "playable std_packages ([SendMessage (build_destination_up_response sample_mac SUCCESS),
     Emit (EvDestinationUp sample_mac default_metrics a)] @ router_reset sample_established)"
    using send(4) playable_append [of std_packages "[Emit (EvDestinationUp sample_mac default_metrics a)]"]
    by (simp add: playable_Cons)
qed

lemma sample_router_session:
  assumes "sendable std_packages sample_init_response frame1" "sendable std_packages sample_up frame2"
  shows "\<exists>t. router_task router_env default_config sample_remote () [SelRead [ReadOk frame1], SelRead [ReadOk frame2]] =
      (t, None) \<and> rt_fsm t = sample_router \<and> rt_read_buf t = [] \<and>
    router_reads router_env default_config sample_remote () [SelRead [ReadOk frame1], SelRead [ReadOk frame2]] = frame1 @ frame2"
proof -
  let ?t0 = "session_new router_env (router_with_config default_config) sample_remote True False ()"
  have t0: "plain ?t0" "rt_fsm ?t0 = router_with_config default_config" "rt_read_buf ?t0 = []"
    by (simp_all add: session_new_def plain_def link_jobs_new_def)
  obtain t1 where t1: "step_and_process router_env ?t0 TcpConnected = (t1, Inr False)"
    and "plain t1 \<and> rt_fsm t1 = sample_pending \<and> rt_read_buf t1 = []"
    by (rule step_plays [OF _ t0(1), of router_env _ TcpConnected sample_pending])
      (auto simp: sample_playable(1) t0 sample_steps(1) written_def)
  then have p1: "plain t1" "rt_fsm t1 = sample_pending" "rt_read_buf t1 = []" by simp_all
  obtain t2 where t2: "session_select router_env t1 (SelRead [ReadOk frame1]) = (t2, Inr False)"
    "read_bytes std_packages (rt_read_buf t1) [ReadOk frame1] = frame1"
    and "plain t2 \<and> rt_fsm t2 = sample_established \<and> rt_read_buf t2 = []"
    by (rule std.message_plays [OF _ _ p1(1,3) sample_playable(4) _ assms(1), of router_env sample_established])
      (auto simp: p1 sample_steps(2) sample_on_wire written_def, auto simp: sample_init_response_def is_known_message_type_def)
  then have p2: "plain t2" "rt_fsm t2 = sample_established" "rt_read_buf t2 = []" by simp_all
  obtain t3 where t3: "session_select router_env t2 (SelRead [ReadOk frame2]) = (t3, Inr False)"
    "read_bytes std_packages (rt_read_buf t2) [ReadOk frame2] = frame2"
    and "rt_fsm t3 = sample_router \<and> rt_read_buf t3 = []"
    by (rule std.message_plays [OF _ _ p2(1,3) sample_playable(5) _ assms(2), of router_env sample_router])
      (auto simp: p2 sample_up_step sample_up_result sample_on_wire written_def, auto simp: sample_up_def is_known_message_type_def)
  with t1 t2 t3 show ?thesis
    by (simp add: router_task_def run_session_def router_reads_def session_reads_def del: session_select.simps)
qed

lemma sample_modem_session:
  assumes "sendable std_packages sample_init frame1"
    and "sendable std_packages (build_destination_up_response sample_mac SUCCESS) frame2"
  defines "is \<equiv> [SelRead [ReadOk frame1],
    SelCommand (Some (request_from_command (CmdAddDestination sample_mac default_metrics (no_addrs\<lparr>v4 := [7]\<rparr>)))),
    SelRead [ReadOk frame2]]"
  obtains t frame3 frame4 where "modem_task modem_env sample_modem_config sample_remote False () is = (t, None)"
    "rt_fsm t = sample_modem" "wires (rt_out t) = [frame3, frame4]"
    "sendable std_packages sample_init_response frame3" "sendable std_packages sample_up frame4"
proof -
  let ?t0 = "session_new modem_env (modem_with_config sample_modem_config) sample_remote False False ()"
  let ?s1 = "(modem_with_config sample_modem_config)\<lparr>m_state := MAwaitingSessionInit\<rparr> :: (net4, net6) modem_session_fsm"
  obtain frame3 where f3: "sendable std_packages sample_init_response frame3" using sample_frames(2) by blast
  obtain frame4 where f4: "sendable std_packages sample_up frame4" using sample_frames(3) by blast
  have t0: "plain ?t0" "rt_fsm ?t0 = modem_with_config sample_modem_config" "rt_read_buf ?t0 = []" "rt_commands_open ?t0"
    "rt_out ?t0 = []"
    by (simp_all add: session_new_def plain_def link_jobs_new_def)
  obtain t1 where t1: "step_and_process modem_env ?t0 TcpAccepted = (t1, Inr False)"
    and "plain t1 \<and> rt_fsm t1 = ?s1 \<and> rt_read_buf t1 = [] \<and> rt_commands_open t1 \<and> wires (rt_out t1) = []"
    by (rule step_plays [OF _ t0(1), of modem_env _ TcpAccepted ?s1])
      (auto simp: t0 modem_init_steps(1) written_def)
  then have p1: "plain t1" "rt_fsm t1 = ?s1" "rt_read_buf t1 = []" "rt_commands_open t1" "wires (rt_out t1) = []"
    by simp_all
  obtain t2 where t2: "session_select modem_env t1 (SelRead [ReadOk frame1]) = (t2, Inr False)"
    and w2: "written modem_env (modem_established_actions modem_started) (t1\<lparr>rt_fsm := modem_started\<rparr>) t2"
    by (rule std.message_plays [OF _ _ p1(1,3) sample_playable(2) _ assms(1), of modem_env modem_started])
      (auto simp: p1 modem_init_steps(2) sample_on_wire, auto simp: sample_init_def is_known_message_type_def)
  have "sent (modem_established_actions modem_started) = [sample_init_response]"
    by (simp add: modem_established_actions_def sample_init_response_eq)
  with w2 f3 have p2: "plain t2" "rt_fsm t2 = modem_started" "rt_read_buf t2 = []" "rt_commands_open t2"
    "wires (rt_out t2) = [frame3]"
    by (auto simp: written_def p1 sendable_def list_all2_Cons1)
  obtain t3 where t3: "session_select modem_env t2 (SelCommand (Some (request_from_command
      (CmdAddDestination sample_mac default_metrics (no_addrs\<lparr>v4 := [7]\<rparr>))))) = (t3, Inr False)"
    and w3: "written modem_env [SendMessage sample_up] (t2\<lparr>rt_fsm := modem_waiting\<rparr>) t3"
    by (rule command_plays [OF _ p2(1) _ p2(4), of modem_env "[SendMessage sample_up]" _ modem_waiting])
      (auto simp: p2(2) modem_adds sample_playable(3))
  from w3 f4 have p3: "plain t3" "rt_fsm t3 = modem_waiting" "rt_read_buf t3 = []" "wires (rt_out t3) = [frame3, frame4]"
    by (auto simp: written_def p2 sendable_def list_all2_Cons1)
  obtain t4 where t4: "session_select modem_env t3 (SelRead [ReadOk frame2]) = (t4, Inr False)"
    and w4: "written modem_env (modem_reset modem_waiting) (t3\<lparr>rt_fsm := sample_modem\<rparr>) t4"
    by (rule std.message_plays [OF _ _ p3(1,3) playable_reset(2) _ assms(2), of modem_env sample_modem])
      (auto simp: p3(2) modem_waits sample_on_wire, auto simp: build_destination_up_response_def is_known_message_type_def)
  then have "rt_fsm t4 = sample_modem" "wires (rt_out t4) = [frame3, frame4]" by (auto simp: written_def p3)
  with t1 t2 t3 t4 f3 f4 show thesis
    by (intro that [of t4 frame3 frame4]) (simp_all add: is_def modem_task_def run_session_def del: session_select.simps)
qed

section \<open>Properties\<close>



end
