(* ===== verification/Discovery.thy ===== *)
theory Discovery
  imports Session_Machine "HOL-Library.Product_Lexorder"
begin

text \<open>
  Discovery: the builders, the grammar and the choice of endpoints both roles share
  (\<open>discovery_common.rs\<close>), and the discovery state machines of the router (\<open>discovery_router.rs\<close>)
  and the modem (\<open>discovery_modem.rs\<close>). Their steps cannot fail, so they return the new state and
  the actions. The predicates of \<open>std::net\<close> the code calls are written out.
\<close>

unbundle bit_operations_syntax

section \<open>Addresses of std::net\<close>

definition is_multicast4 :: "ipv4 \<Rightarrow> bool" where
  "is_multicast4 a = (drop_bit 28 a = 0xE)"

definition is_multicast6 :: "ipv6 \<Rightarrow> bool" where
  "is_multicast6 a = (drop_bit 120 a = 0xFF)"

definition is_unicast_link_local :: "ipv6 \<Rightarrow> bool" where
  "is_unicast_link_local a = (drop_bit 112 a AND 0xFFC0 = 0xFE80)"

fun socket_port :: "socket_addr \<Rightarrow> u16" where
  "socket_port (SocketV4 _ port) = port"
| "socket_port (SocketV6 _ port _ _) = port"

fun set_port :: "u16 \<Rightarrow> socket_addr \<Rightarrow> socket_addr" where
  "set_port port (SocketV4 a _) = SocketV4 a port"
| "set_port port (SocketV6 a _ flow scope) = SocketV6 a port flow scope"

fun is_ipv6 :: "socket_addr \<Rightarrow> bool" where
  "is_ipv6 (SocketV4 _ _) = False"
| "is_ipv6 (SocketV6 _ _ _ _) = True"

fun ip_is_unspecified :: "socket_addr \<Rightarrow> bool" where
  "ip_is_unspecified (SocketV4 a _) = (a = 0)"
| "ip_is_unspecified (SocketV6 a _ _ _) = (a = 0)"

fun ip_is_multicast :: "socket_addr \<Rightarrow> bool" where
  "ip_is_multicast (SocketV4 a _) = is_multicast4 a"
| "ip_is_multicast (SocketV6 a _ _ _) = is_multicast6 a"

section \<open>Builders and extractors\<close>

definition build_peer_discovery :: "rstring \<Rightarrow> ('n, 'm) signal" where
  "build_peer_discovery peer_description =
     signal_with_item (signal_new PEER_DISCOVERY) (PeerType \<lparr>smi = False\<rparr> peer_description)"

definition build_peer_offer :: "rstring \<Rightarrow> socket_addr \<Rightarrow> bool \<Rightarrow> ('n, 'm) signal" where
  "build_peer_offer peer_description tcp_endpoint tls =
     (let flags = \<lparr>use_tls = tls\<rparr>;
          sig = signal_with_item (signal_new PEER_OFFER) (PeerType \<lparr>smi = False\<rparr> peer_description) in
      case tcp_endpoint of
        SocketV4 addr port \<Rightarrow> signal_with_item sig (Ipv4ConnectionPoint flags addr (Some port))
      | SocketV6 addr port _ _ \<Rightarrow> signal_with_item sig (Ipv6ConnectionPoint flags addr (Some port)))"

definition extract_peer_description :: "('n, 'm) signal \<Rightarrow> rstring option" where
  "extract_peer_description sig =
     find_map (\<lambda>item. case item of PeerType _ description \<Rightarrow> Some description | _ \<Rightarrow> None)
       (signal_items sig)"

definition port_or_default :: "u16 option \<Rightarrow> u16" where
  "port_or_default port = (case port of None \<Rightarrow> DEFAULT_PORT | Some p \<Rightarrow> p)"

fun item_endpoint :: "socket_addr \<Rightarrow> ('n, 'm) data_item \<Rightarrow> offer_endpoint option" where
  "item_endpoint from (Ipv4ConnectionPoint flags addr port) =
     Some \<lparr>ep_addr = SocketV4 addr (port_or_default port), ep_use_tls = use_tls flags\<rparr>"
| "item_endpoint from (Ipv6ConnectionPoint flags addr port) =
     (let scope = (case from of
          SocketV6 _ _ _ source \<Rightarrow> if is_unicast_link_local addr then source else 0
        | SocketV4 _ _ \<Rightarrow> 0) in
      Some \<lparr>ep_addr = SocketV6 addr (port_or_default port) 0 scope, ep_use_tls = use_tls flags\<rparr>)"
| "item_endpoint from _ = None"

definition endpoint_usable :: "offer_endpoint \<Rightarrow> bool" where
  "endpoint_usable e =
     (\<not> ip_is_unspecified (ep_addr e) \<and> \<not> ip_is_multicast (ep_addr e) \<and> socket_port (ep_addr e) \<noteq> 0)"

definition endpoint_key :: "offer_endpoint \<Rightarrow> bool \<times> bool" where
  "endpoint_key e = (\<not> ep_use_tls e, \<not> is_ipv6 (ep_addr e))"

definition offer_endpoints :: "('n, 'm) signal \<Rightarrow> socket_addr \<Rightarrow> offer_endpoint list" where
  "offer_endpoints sig from =
     (let endpoints = List.map_filter (item_endpoint from) (signal_items sig);
          endpoints = (if endpoints = []
            then [\<lparr>ep_addr = set_port DEFAULT_PORT from, ep_use_tls = False\<rparr>] else endpoints);
          endpoints = filter endpoint_usable endpoints;
          endpoints = sort_key endpoint_key endpoints in
      remdups_adj endpoints)"

fun extract_offer_item :: "('n, 'm) data_item \<Rightarrow> offer_endpoint option" where
  "extract_offer_item (Ipv4ConnectionPoint flags addr port) =
     Some \<lparr>ep_addr = SocketV4 addr (port_or_default port), ep_use_tls = use_tls flags\<rparr>"
| "extract_offer_item (Ipv6ConnectionPoint flags addr port) =
     Some \<lparr>ep_addr = SocketV6 addr (port_or_default port) 0 0, ep_use_tls = use_tls flags\<rparr>"
| "extract_offer_item _ = None"

definition extract_offer_endpoint :: "('n, 'm) signal \<Rightarrow> offer_endpoint option" where
  "extract_offer_endpoint sig = find_map extract_offer_item (signal_items sig)"

section \<open>The grammar of signals\<close>

fun is_peer_type :: "('n, 'm) data_item \<Rightarrow> bool" where
  "is_peer_type (PeerType _ _) = True"
| "is_peer_type _ = False"

fun is_connection_point :: "('n, 'm) data_item \<Rightarrow> bool" where
  "is_connection_point (Ipv4ConnectionPoint _ _ _) = True"
| "is_connection_point (Ipv6ConnectionPoint _ _ _) = True"
| "is_connection_point _ = False"

fun valid_signal_items ::
  "('n, 'm) packages \<Rightarrow> signal_type \<Rightarrow> bool \<Rightarrow> bytes set \<Rightarrow> ('n, 'm) data_item list \<Rightarrow> bool" where
  "valid_signal_items P ty peer_type seen [] = True"
| "valid_signal_items P ty peer_type seen (item # items) =
     (let peer = is_peer_type item \<and> \<not> peer_type in
      if peer \<or> is_connection_point item \<and> ty = PEER_OFFER then
        case item_encode P item [] of
          (Inl _, _) \<Rightarrow> False
        | (Inr _, bytes) \<Rightarrow>
            if bytes \<in> seen then False
            else valid_signal_items P ty (peer_type \<or> peer) (insert bytes seen) items
      else False)"

definition valid_signal :: "('n, 'm) packages \<Rightarrow> ('n, 'm) signal \<Rightarrow> bool" where
  "valid_signal P signal = valid_signal_items P (signal_type signal) False {} (signal_items signal)"

section \<open>The router\<close>

abbreviation (input) TIMER_DISCOVERY :: timer_id where "TIMER_DISCOVERY \<equiv> 10"

datatype router_discovery_state = RdIdle | RdProbing | RdOfferReceived

record router_discovery_config =
  rdc_peer_description :: rstring
  rdc_discovery_interval :: duration

definition default_discovery_config :: router_discovery_config where
  "default_discovery_config =
     \<lparr>rdc_peer_description = str ''dlep-router'', rdc_discovery_interval = from_millis 5000\<rparr>"

record router_discovery_fsm =
  rdf_state :: router_discovery_state
  rdf_config :: router_discovery_config

definition router_discovery_with_config :: "router_discovery_config \<Rightarrow> router_discovery_fsm" where
  "router_discovery_with_config config = \<lparr>rdf_state = RdIdle, rdf_config = config\<rparr>"

definition router_discovery_default :: router_discovery_fsm where
  "router_discovery_default = router_discovery_with_config default_discovery_config"

definition router_discovery_offer ::
  "('n, 'm) packages \<Rightarrow> ('n, 'm) signal \<Rightarrow> socket_addr \<Rightarrow> ('n, 'm) fsm_action list" where
  "router_discovery_offer P signal from =
     (if \<not> valid_signal P signal then []
      else
        let endpoints = offer_endpoints signal from in
        if endpoints = [] then []
        else [Emit (EvPeerDiscovered endpoints (extract_peer_description signal))])"

definition router_discovery_shutdown ::
  "router_discovery_fsm \<Rightarrow> router_discovery_fsm \<times> ('n, 'm) fsm_action list" where
  "router_discovery_shutdown fsm =
     (fsm\<lparr>rdf_state := RdIdle\<rparr>,
      if rdf_state fsm = RdProbing then [CancelTimer TIMER_DISCOVERY] else [])"

definition router_discovery_step ::
  "('n, 'm) packages \<Rightarrow> router_discovery_fsm \<Rightarrow> ('n, 'm) fsm_event \<Rightarrow>
     router_discovery_fsm \<times> ('n, 'm) fsm_action list" where
  "router_discovery_step P fsm event =
     (let probe = SendSignal (build_peer_discovery (rdc_peer_description (rdf_config fsm))) DiscoveryGroup in
      case (rdf_state fsm, event) of
        (RdIdle, AppStartDiscovery) \<Rightarrow>
          (fsm\<lparr>rdf_state := RdProbing\<rparr>,
           [probe, StartTimer TIMER_DISCOVERY TkDiscovery (rdc_discovery_interval (rdf_config fsm)) True])
      | (RdProbing, TimerExpired _ kind) \<Rightarrow> (fsm, if kind = TkDiscovery then [probe] else [])
      | (RdProbing, RecvSignal signal from) \<Rightarrow>
          (fsm, if signal_type signal = PEER_OFFER then router_discovery_offer P signal from else [])
      | (_, AppShutdown _) \<Rightarrow> router_discovery_shutdown fsm
      | (_, _) \<Rightarrow> (fsm, []))"

section \<open>The modem\<close>

datatype modem_discovery_state = MdListening | MdOfferBurst

record modem_discovery_fsm =
  mdf_state :: modem_discovery_state
  mdf_tcp_endpoint :: socket_addr
  mdf_peer_description :: rstring
  mdf_use_tls :: bool

definition modem_discovery_new :: "socket_addr \<Rightarrow> rstring \<Rightarrow> bool \<Rightarrow> modem_discovery_fsm" where
  "modem_discovery_new tcp_endpoint peer_description tls =
     \<lparr>mdf_state = MdListening, mdf_tcp_endpoint = tcp_endpoint,
      mdf_peer_description = peer_description, mdf_use_tls = tls\<rparr>"

definition modem_discovery_step ::
  "('n, 'm) packages \<Rightarrow> modem_discovery_fsm \<Rightarrow> ('n, 'm) fsm_event \<Rightarrow>
     modem_discovery_fsm \<times> ('n, 'm) fsm_action list" where
  "modem_discovery_step P fsm event =
     (case event of
        RecvSignal signal from \<Rightarrow>
          if signal_type signal = PEER_DISCOVERY then
            if \<not> valid_signal P signal then (fsm, [])
            else (fsm\<lparr>mdf_state := MdOfferBurst\<rparr>,
              [SendSignal (build_peer_offer (mdf_peer_description fsm) (mdf_tcp_endpoint fsm) (mdf_use_tls fsm))
                (Unicast from)])
          else (fsm, [])
      | AppShutdown _ \<Rightarrow> (fsm\<lparr>mdf_state := MdListening\<rparr>, [])
      | _ \<Rightarrow> (fsm, []))"

section \<open>The grammar in one sentence\<close>

text \<open>
  A signal is grammatical if it holds nothing but one Peer Type at most and, in an offer, Connection
  Points, every item can be encoded, and no two items are the same on the wire.
\<close>

definition signal_grammatical :: "('n, 'm) packages \<Rightarrow> ('n, 'm) signal \<Rightarrow> bool" where
  "signal_grammatical P s =
     (list_all (\<lambda>i. is_peer_type i \<or> is_connection_point i \<and> signal_type s = PEER_OFFER) (signal_items s) \<and>
      length (filter is_peer_type (signal_items s)) \<le> 1 \<and>
      list_all (\<lambda>i. item_wire P i \<noteq> None) (signal_items s) \<and>
      distinct (map (item_wire P) (signal_items s)))"

lemma peer_type_not_cp: "is_peer_type i \<Longrightarrow> \<not> is_connection_point i"
  by (cases i) simp_all

context dlep_packages
begin

lemma valid_signal_items_iff:
  "valid_signal_items P ty peer_type seen items \<longleftrightarrow>
     list_all (\<lambda>i. is_peer_type i \<or> is_connection_point i \<and> ty = PEER_OFFER) items \<and>
     length (filter is_peer_type items) \<le> (if peer_type then 0 else 1) \<and>
     list_all (\<lambda>i. item_wire P i \<noteq> None) items \<and>
     distinct (map (item_wire P) items) \<and> set (map (item_wire P) items) \<inter> Some ` seen = {}"
proof (induction items arbitrary: ty peer_type seen)
  case (Cons i items)
  show ?case
  proof (cases "item_wire P i")
    case None
    then show ?thesis using item_encode_None [OF None, of "[]"] by auto
  next
    case (Some w)
    then show ?thesis using peer_type_not_cp [of i]
      by (auto simp: item_encode_Some [OF Some] Cons.IH)
  qed
qed simp

lemma valid_signal_iff: "valid_signal P s \<longleftrightarrow> signal_grammatical P s"
  by (simp add: valid_signal_def signal_grammatical_def valid_signal_items_iff)

end

section \<open>The choice of endpoints\<close>

definition offered :: "('n, 'm) signal \<Rightarrow> socket_addr \<Rightarrow> offer_endpoint set" where
  "offered sig from =
     (if list_ex is_connection_point (signal_items sig)
      then {e. \<exists>i \<in> set (signal_items sig). item_endpoint from i = Some e}
      else {\<lparr>ep_addr = set_port DEFAULT_PORT from, ep_use_tls = False\<rparr>})"

lemma item_endpoint_iff: "item_endpoint from i = None \<longleftrightarrow> \<not> is_connection_point i"
  by (cases i) (simp_all add: Let_def)

lemma set_map_filter: "set (List.map_filter f xs) = {y. \<exists>x \<in> set xs. f x = Some y}"
  by (force simp: List.map_filter_def)

lemma map_filter_Nil_iff: "List.map_filter f xs = [] \<longleftrightarrow> (\<forall>x \<in> set xs. f x = None)"
  by (auto simp: List.map_filter_def filter_empty_conv)

lemma set_offer_endpoints: "set (offer_endpoints sig from) = {e \<in> offered sig from. endpoint_usable e}"
  by (auto simp: offer_endpoints_def offered_def Let_def set_map_filter map_filter_Nil_iff item_endpoint_iff
      list_ex_iff)

lemma sorted_map_remdups_adj: "sorted (map f xs) \<Longrightarrow> sorted (map f (remdups_adj xs))"
  by (induction xs rule: remdups_adj.induct) auto

lemma sorted_offer_endpoints: "sorted (map endpoint_key (offer_endpoints sig from))"
  by (simp add: offer_endpoints_def Let_def sorted_map_remdups_adj)

section \<open>Runs\<close>

fun discovery_run ::
  "('s \<Rightarrow> ('n, 'm) fsm_event \<Rightarrow> 's \<times> ('n, 'm) fsm_action list) \<Rightarrow> 's \<Rightarrow> ('n, 'm) fsm_event list \<Rightarrow>
     's \<times> ('n, 'm) fsm_action list" where
  "discovery_run step s [] = (s, [])"
| "discovery_run step s (e # es) =
     (let (s1, acts1) = step s e; (s2, acts2) = discovery_run step s1 es in (s2, acts1 @ acts2))"

definition signals :: "('n, 'm) fsm_action list \<Rightarrow> (('n, 'm) signal \<times> send_target) list" where
  "signals acts = concat (map (\<lambda>a. case a of SendSignal s t \<Rightarrow> [(s, t)] | _ \<Rightarrow> []) acts)"

lemma signals_simps [simp]:
  "signals [] = []"
  "signals (a # acts) = (case a of SendSignal s t \<Rightarrow> [(s, t)] | _ \<Rightarrow> []) @ signals acts"
  "signals (xs @ ys) = signals xs @ signals ys"
  by (simp_all add: signals_def)

fun probe_due :: "('n, 'm) fsm_event \<Rightarrow> bool" where
  "probe_due (TimerExpired _ kind) = (kind = TkDiscovery)"
| "probe_due _ = False"

fun is_shutdown :: "('n, 'm) fsm_event \<Rightarrow> bool" where
  "is_shutdown (AppShutdown _) = True"
| "is_shutdown _ = False"

definition discovery_timers :: "router_discovery_fsm \<Rightarrow> timer_id set" where
  "discovery_timers fsm = (if rdf_state fsm = RdProbing then {TIMER_DISCOVERY} else {})"

lemma offer_actions [simp]:
  "armed_after T (router_discovery_offer P signal from) = T" "signals (router_discovery_offer P signal from) = []"
  by (simp_all add: router_discovery_offer_def Let_def)

lemma router_discovery_step_timers:
  assumes "router_discovery_step P fsm e = (fsm', acts)" "rdf_state fsm \<noteq> RdOfferReceived"
  shows "armed_after (discovery_timers fsm) acts = discovery_timers fsm' \<and> rdf_state fsm' \<noteq> RdOfferReceived \<and>
    rdf_config fsm' = rdf_config fsm"
  using assms
  by (cases "rdf_state fsm"; cases e)
    (auto simp: router_discovery_step_def router_discovery_shutdown_def discovery_timers_def Let_def split: if_splits)

lemma router_discovery_run_timers:
  "discovery_run (router_discovery_step P) fsm es = (fsm', acts) \<Longrightarrow> rdf_state fsm \<noteq> RdOfferReceived \<Longrightarrow>
     armed_after (discovery_timers fsm) acts = discovery_timers fsm' \<and> rdf_state fsm' \<noteq> RdOfferReceived"
proof (induction es arbitrary: fsm acts)
  case (Cons e es)
  obtain s1 a1 where 1: "router_discovery_step P fsm e = (s1, a1)" by (cases "router_discovery_step P fsm e")
  obtain a2 where 2: "discovery_run (router_discovery_step P) s1 es = (fsm', a2)" "acts = a1 @ a2"
    using Cons.prems(1) by (auto simp: 1 split: prod.splits)
  from Cons.IH [OF 2(1)] router_discovery_step_timers [OF 1 Cons.prems(2)] show ?case by (simp add: 2(2))
qed simp

lemma router_discovery_run_probes:
  "discovery_run (router_discovery_step P) fsm es = (fsm', acts) \<Longrightarrow> rdf_state fsm = RdProbing \<Longrightarrow>
     list_all (\<lambda>e. \<not> is_shutdown e) es \<Longrightarrow>
     fsm' = fsm \<and> signals acts = replicate (length (filter probe_due es))
       (build_peer_discovery (rdc_peer_description (rdf_config fsm)), DiscoveryGroup)"
proof (induction es arbitrary: acts)
  case (Cons e es)
  have e: "router_discovery_step P fsm e = (fsm, snd (router_discovery_step P fsm e))"
    "signals (snd (router_discovery_step P fsm e)) =
       (if probe_due e then [(build_peer_discovery (rdc_peer_description (rdf_config fsm)), DiscoveryGroup)] else [])"
    using Cons.prems(2,3) by (cases e; simp add: router_discovery_step_def Let_def)+
  obtain a2 where 2: "discovery_run (router_discovery_step P) fsm es = (fsm', a2)"
    "acts = snd (router_discovery_step P fsm e) @ a2"
    using Cons.prems(1) e(1) by (auto split: prod.splits)
  from Cons.IH [OF 2(1) Cons.prems(2)] Cons.prems(3) show ?case by (simp add: 2(2) e(2))
qed simp

section \<open>Asking and offering\<close>

text \<open>What arrives of the endpoint a modem offers: the flow information and the scope stay behind.\<close>

fun dialled :: "socket_addr \<Rightarrow> socket_addr \<Rightarrow> socket_addr" where
  "dialled from (SocketV4 a port) = SocketV4 a port"
| "dialled from (SocketV6 a port _ _) =
     SocketV6 a port 0 (case from of SocketV6 _ _ _ source \<Rightarrow> if is_unicast_link_local a then source else 0
       | SocketV4 _ _ \<Rightarrow> 0)"

abbreviation offer_cp :: "socket_addr \<Rightarrow> bool \<Rightarrow> ('n, 'm) data_item" where
  "offer_cp ep tls \<equiv> (case ep of SocketV4 a port \<Rightarrow> Ipv4ConnectionPoint \<lparr>use_tls = tls\<rparr> a (Some port)
     | SocketV6 a port _ _ \<Rightarrow> Ipv6ConnectionPoint \<lparr>use_tls = tls\<rparr> a (Some port))"

lemma build_peer_offer_sel [simp]:
  "signal_type (build_peer_offer desc ep tls) = PEER_OFFER"
  "signal_items (build_peer_offer desc ep tls) = [PeerType \<lparr>smi = False\<rparr> desc, offer_cp ep tls]"
  by (cases ep; simp add: build_peer_offer_def)+

lemma build_peer_discovery_sel [simp]:
  "signal_type (build_peer_discovery desc) = PEER_DISCOVERY"
  "signal_items (build_peer_discovery desc) = [PeerType \<lparr>smi = False\<rparr> desc]"
  by (simp_all add: build_peer_discovery_def)

lemma offer_endpoints_build:
  assumes "endpoint_usable \<lparr>ep_addr = ep, ep_use_tls = tls\<rparr>"
  shows "offer_endpoints (build_peer_offer desc ep tls) from = [\<lparr>ep_addr = dialled from ep, ep_use_tls = tls\<rparr>]"
  using assms
  by (cases ep) (auto simp: offer_endpoints_def Let_def List.map_filter_def port_or_default_def endpoint_usable_def
      split: socket_addr.splits)

context dlep_packages
begin

lemma signal_encode_fits: "signal_encode P s = Inr out \<Longrightarrow> i \<in> set (signal_items s) \<Longrightarrow> item_wire P i \<noteq> None"
  using items_wire_fits by (auto simp: signal_encode_eq_Inr)

lemma built_signals_valid:
  "signal_encode P (build_peer_discovery desc) = Inr out \<Longrightarrow> valid_signal P (build_peer_discovery desc)"
  "signal_encode P (build_peer_offer desc ep tls) = Inr out \<Longrightarrow> valid_signal P (build_peer_offer desc ep tls)"
proof -
  show "valid_signal P (build_peer_discovery desc)" if "signal_encode P (build_peer_discovery desc) = Inr out"
    using signal_encode_fits [OF that] by (simp add: valid_signal_iff signal_grammatical_def)
  show "valid_signal P (build_peer_offer desc ep tls)" if "signal_encode P (build_peer_offer desc ep tls) = Inr out"
  proof -
    let ?d = "PeerType \<lparr>smi = False\<rparr> desc :: ('n, 'm) data_item" and ?cp = "offer_cp ep tls :: ('n, 'm) data_item"
    have fits: "item_wire P ?d \<noteq> None" "item_wire P ?cp \<noteq> None"
      using signal_encode_fits [OF that, of ?d] signal_encode_fits [OF that, of ?cp] by simp_all
    have "type_id ?d \<noteq> type_id ?cp" "is_connection_point ?cp" "\<not> is_peer_type ?cp" by (cases ep; simp)+
    with fits item_wire_type [of P ?d _ ?cp] show ?thesis
      by (auto simp: valid_signal_iff signal_grammatical_def)
  qed
qed

lemma built_signals_decode:
  "signal_encode P (build_peer_discovery desc) = Inr out \<Longrightarrow> utf8_valid desc \<Longrightarrow>
     signal_decode P out = Some (Inr (build_peer_discovery desc))"
  "signal_encode P (build_peer_offer desc ep tls) = Inr out \<Longrightarrow> utf8_valid desc \<Longrightarrow>
     signal_decode P out = Some (Inr (build_peer_offer desc ep tls))"
proof -
  show "signal_decode P out = Some (Inr (build_peer_discovery desc))"
    if "signal_encode P (build_peer_discovery desc) = Inr out" "utf8_valid desc"
    using signal_roundtrip [OF that(1)] that(2) by (auto intro: signal.equality)
  show "signal_decode P out = Some (Inr (build_peer_offer desc ep tls))"
    if "signal_encode P (build_peer_offer desc ep tls) = Inr out" "utf8_valid desc"
    using signal_roundtrip [OF that(1)] that(2)
    by (cases ep) (auto intro: signal.equality)
qed

end

section \<open>Properties\<close>




definition repeating_offer :: "(net4, net6) signal" where
  "repeating_offer = \<lparr>signal_type = PEER_OFFER, signal_items =
     [Ipv4ConnectionPoint \<lparr>use_tls = False\<rparr> 0x0A000001 None,
      Ipv4ConnectionPoint \<lparr>use_tls = False\<rparr> 0x0A000002 None,
      Ipv4ConnectionPoint \<lparr>use_tls = False\<rparr> 0x0A000001 (Some 854)]\<rparr>"

text \<open>
  An endpoint may be listed twice. Only neighbours are compared when duplicates are dropped, so a
  grammatical offer that names one endpoint with and without its port, and another between them, is
  turned into a list in which that endpoint occurs twice.
\<close>

theorem offer_endpoints_repeat:
  "valid_signal std_packages repeating_offer \<and> \<not> distinct (offer_endpoints repeating_offer from)"
  by (simp add: std.valid_signal_iff signal_grammatical_def repeating_offer_def item_wire_def tlv_def
      port_bytes_def to_be16_def octets4_def offer_endpoints_def Let_def List.map_filter_def port_or_default_def
      endpoint_usable_def is_multicast4_def endpoint_key_def)

text \<open>
  C32: discovery succeeds. If both signals can be encoded and the modem's endpoint is usable, the probe a
  router sends, decoded by the modem, is answered to its sender with an offer, and the offer, decoded
  by the probing router, yields exactly that endpoint (with the scope of the link it came from) and the
  modem's description.
\<close>

theorem discovery_exchange:
  assumes "dlep_packages P" "rdf_state rfsm = RdProbing"
    and "signal_encode P (build_peer_discovery (rdc_peer_description (rdf_config rfsm))) = Inr probe"
    and "signal_encode P (build_peer_offer (mdf_peer_description mfsm) (mdf_tcp_endpoint mfsm) (mdf_use_tls mfsm)) =
      Inr reply"
    and "utf8_valid (rdc_peer_description (rdf_config rfsm))" "utf8_valid (mdf_peer_description mfsm)"
    and "endpoint_usable \<lparr>ep_addr = mdf_tcp_endpoint mfsm, ep_use_tls = mdf_use_tls mfsm\<rparr>"
  shows "\<exists>asked answer.
    signal_decode P probe = Some (Inr asked) \<and>
    modem_discovery_step P mfsm (RecvSignal asked raddr) = (mfsm\<lparr>mdf_state := MdOfferBurst\<rparr>,
      [SendSignal (build_peer_offer (mdf_peer_description mfsm) (mdf_tcp_endpoint mfsm) (mdf_use_tls mfsm))
        (Unicast raddr)]) \<and>
    signal_decode P reply = Some (Inr answer) \<and>
    router_discovery_step P rfsm (RecvSignal answer maddr) = (rfsm,
      [Emit (EvPeerDiscovered [\<lparr>ep_addr = dialled maddr (mdf_tcp_endpoint mfsm), ep_use_tls = mdf_use_tls mfsm\<rparr>]
        (Some (mdf_peer_description mfsm)))])"
proof (intro exI conjI)
  show "signal_decode P probe = Some (Inr (build_peer_discovery (rdc_peer_description (rdf_config rfsm))))"
    by (rule dlep_packages.built_signals_decode(1) [OF assms(1,3,5)])
  show "signal_decode P reply = Some (Inr (build_peer_offer (mdf_peer_description mfsm) (mdf_tcp_endpoint mfsm) (mdf_use_tls mfsm)))"
    by (rule dlep_packages.built_signals_decode(2) [OF assms(1,4,6)])
  note valid = dlep_packages.built_signals_valid [OF assms(1)]
  show "modem_discovery_step P mfsm (RecvSignal (build_peer_discovery (rdc_peer_description (rdf_config rfsm))) raddr) =
      (mfsm\<lparr>mdf_state := MdOfferBurst\<rparr>,
      [SendSignal (build_peer_offer (mdf_peer_description mfsm) (mdf_tcp_endpoint mfsm) (mdf_use_tls mfsm))
        (Unicast raddr)])"
    by (simp add: modem_discovery_step_def valid(1) [OF assms(3)])
  show "router_discovery_step P rfsm (RecvSignal (build_peer_offer (mdf_peer_description mfsm)
      (mdf_tcp_endpoint mfsm) (mdf_use_tls mfsm)) maddr) = (rfsm,
      [Emit (EvPeerDiscovered [\<lparr>ep_addr = dialled maddr (mdf_tcp_endpoint mfsm), ep_use_tls = mdf_use_tls mfsm\<rparr>]
        (Some (mdf_peer_description mfsm)))])"
    using assms(2)
    by (simp add: router_discovery_step_def router_discovery_offer_def valid(2) [OF assms(4)]
        offer_endpoints_build [OF assms(7)] extract_peer_description_def)
qed

definition sample_prober :: router_discovery_fsm where
  "sample_prober = \<lparr>rdf_state = RdProbing, rdf_config = \<lparr>rdc_peer_description = [0x72], rdc_discovery_interval = 5\<rparr>\<rparr>"

definition sample_offerer :: modem_discovery_fsm where
  "sample_offerer = modem_discovery_new (SocketV6 0xFE800000000000000000000000000001 854 0 9) [0x6D] True"

theorem discovery_exchange_witness:
  "\<exists>answer. router_discovery_step std_packages sample_prober (RecvSignal answer (SocketV6 2 854 0 3)) = (sample_prober,
     [Emit (EvPeerDiscovered [\<lparr>ep_addr = SocketV6 0xFE800000000000000000000000000001 854 0 3, ep_use_tls = True\<rparr>]
       (Some [0x6D]))])"
proof -
  obtain probe reply where enc:
    "signal_encode std_packages (build_peer_discovery (rdc_peer_description (rdf_config sample_prober))) = Inr probe"
    "signal_encode std_packages (build_peer_offer (mdf_peer_description sample_offerer)
      (mdf_tcp_endpoint sample_offerer) (mdf_use_tls sample_offerer)) = Inr reply"
    by (simp add: std.signal_encode_eq_Inr item_wire_def sample_prober_def sample_offerer_def
        modem_discovery_new_def port_bytes_def to_be16_def tlv_def)
  have u: "utf8_valid (rdc_peer_description (rdf_config sample_prober))"
    "utf8_valid (mdf_peer_description sample_offerer)"
    "endpoint_usable \<lparr>ep_addr = mdf_tcp_endpoint sample_offerer, ep_use_tls = mdf_use_tls sample_offerer\<rparr>"
    "rdf_state sample_prober = RdProbing"
    by (simp_all add: sample_prober_def sample_offerer_def modem_discovery_new_def endpoint_usable_def is_multicast6_def)
  have "dialled (SocketV6 2 854 0 3) (mdf_tcp_endpoint sample_offerer) =
      SocketV6 0xFE800000000000000000000000000001 854 0 3"
    by (simp add: sample_offerer_def modem_discovery_new_def is_unicast_link_local_def)
  with discovery_exchange [OF std.dlep_packages_axioms u(4) enc u(1-3), of undefined "SocketV6 2 854 0 3"]
  show ?thesis by (auto simp: sample_offerer_def modem_discovery_new_def)
qed



end
