(* ===== verification/Connections.thy ===== *)
theory Connections
  imports Discovery Daemon_Types "HOL-Library.Multiset"
begin

text \<open>
  Bookkeeping of connections in the daemon (\<open>dlep-daemon/connections.rs\<close>): the router's bounded history of
  modem endpoints and the modem's table of connected routers. Both hand out guards that undo the
  registration when dropped; \<open>registry_live\<close> and \<open>routers_live\<close> are the states reachable with the
  guards that exist, in any order of operations and at any times. A \<open>HashMap\<close> is an association list,
  \<open>Instant\<close> a number of nanoseconds, and the counters are natural numbers; a missing key that the
  source unwraps and a count that would drop below zero are panics.
\<close>

section \<open>The order of socket addresses\<close>

text \<open>The derived \<open>Ord\<close> of \<open>std::net::SocketAddr\<close>: the version first, then the fields in order.\<close>

fun socket_key :: "socket_addr \<Rightarrow> bool \<times> nat \<times> nat \<times> nat \<times> nat" where
  "socket_key (SocketV4 a port) = (False, unat a, unat port, 0, 0)"
| "socket_key (SocketV6 a port flow scope) = (True, unat a, unat port, unat flow, unat scope)"

lemma socket_key_inject: "socket_key x = socket_key y \<Longrightarrow> x = y"
  by (cases x; cases y) (auto simp: word_unat_eq_iff)

instantiation socket_addr :: linorder
begin

definition less_eq_socket_addr :: "socket_addr \<Rightarrow> socket_addr \<Rightarrow> bool" where
  "less_eq_socket_addr x y = (socket_key x \<le> socket_key y)"

definition less_socket_addr :: "socket_addr \<Rightarrow> socket_addr \<Rightarrow> bool" where
  "less_socket_addr x y = (socket_key x < socket_key y)"

instance
  by standard (auto simp: less_eq_socket_addr_def less_socket_addr_def intro: socket_key_inject)

end

section \<open>The history of the router\<close>

record peer_connection_state =
  active_sessions :: nat
  establishment_count :: nat

definition default_connection :: peer_connection_state where
  "default_connection = \<lparr>active_sessions = 0, establishment_count = 0\<rparr>"

record router_limits =
  max_sessions :: nat
  max_discovered_peers :: nat
  peer_retention_secs :: u32

record conn_history =
  h_states :: "(socket_addr \<times> peer_connection_state) list"
  h_inactive_since :: "(socket_addr \<times> duration) list"
  h_next_establishment :: nat

record connection_registry =
  reg_states :: "(socket_addr \<times> peer_connection_state) list"
  reg_inner :: conn_history
  reg_pinned :: "socket_addr list"
  reg_limits :: router_limits

definition registry_new :: "router_limits \<Rightarrow> socket_addr list \<Rightarrow> connection_registry" where
  "registry_new limits pinned = \<lparr>
     reg_states = [],
     reg_inner = \<lparr>h_states = [], h_inactive_since = [], h_next_establishment = 0\<rparr>,
     reg_pinned = pinned,
     reg_limits = limits\<rparr>"

definition retained ::
  "connection_registry \<Rightarrow> conn_history \<Rightarrow> duration \<Rightarrow> socket_addr \<times> peer_connection_state \<Rightarrow> bool" where
  "retained reg history now = (\<lambda>(peer, state).
     peer \<in> set (reg_pinned reg) \<or> 0 < active_sessions state \<or>
     (case map_of (h_inactive_since history) peer of
        None \<Rightarrow> True
      | Some at \<Rightarrow> now - at < unat (peer_retention_secs (reg_limits reg)) * 10 ^ 9))"

definition prune_locked ::
  "connection_registry \<Rightarrow> conn_history \<Rightarrow> duration \<Rightarrow> conn_history \<times> bool" where
  "prune_locked reg history now =
     (let before = length (h_states history);
          states = filter (retained reg history now) (h_states history);
          inactive = filter (\<lambda>(peer, _). peer \<in> fst ` set states) (h_inactive_since history) in
      (history\<lparr>h_states := states, h_inactive_since := inactive\<rparr>, length states \<noteq> before))"

definition registry_prune :: "connection_registry \<Rightarrow> duration \<Rightarrow> connection_registry" where
  "registry_prune reg now =
     (let (history, changed) = prune_locked reg (reg_inner reg) now in
      reg\<lparr>reg_inner := history, reg_states := if changed then h_states history else reg_states reg\<rparr>)"

fun evictable ::
  "connection_registry \<Rightarrow> conn_history \<Rightarrow> (socket_addr \<times> duration) list \<Rightarrow>
     panic + (socket_addr \<times> duration) list" where
  "evictable reg history [] = Inr []"
| "evictable reg history ((peer, at) # entries) =
     (if peer \<in> set (reg_pinned reg) then evictable reg history entries
      else
        try_then (expect ''index'' (map_of (h_states history) peer)) (\<lambda>state.
        try_then (evictable reg history entries) (\<lambda>others.
        Inr (if active_sessions state = 0 then (peer, at) # others else others))))"

definition make_room ::
  "connection_registry \<Rightarrow> conn_history \<Rightarrow> panic + conn_history option" where
  "make_room reg history =
     try_then (evictable reg history (h_inactive_since history)) (\<lambda>candidates.
     Inr (if candidates = [] then None
          else
            let oldest = fst (arg_min_list (\<lambda>(peer, at). (at, peer)) candidates) in
            Some (history\<lparr>h_states := AList.delete oldest (h_states history),
              h_inactive_since := AList.delete oldest (h_inactive_since history)\<rparr>)))"

definition registry_admit :: "conn_history \<Rightarrow> socket_addr \<Rightarrow> duration \<Rightarrow> conn_history" where
  "registry_admit history peer now =
     (let known = map_of (h_states history) peer;
          inactive = (if known = None then AList.update peer now (h_inactive_since history)
            else h_inactive_since history);
          state = (case known of None \<Rightarrow> default_connection | Some s \<Rightarrow> s) in
      history\<lparr>h_inactive_since := inactive,
        h_states := AList.update peer (state\<lparr>active_sessions := active_sessions state + 1\<rparr>)
          (h_states history)\<rparr>)"

definition registry_full :: "connection_registry \<Rightarrow> conn_history \<Rightarrow> socket_addr \<Rightarrow> bool" where
  "registry_full reg history peer =
     (map_of (h_states history) peer = None \<and> peer \<notin> set (reg_pinned reg) \<and>
      max_discovered_peers (reg_limits reg) \<le>
        length (filter (\<lambda>p. p \<notin> set (reg_pinned reg)) (map fst (h_states history))))"

definition registry_register ::
  "connection_registry \<Rightarrow> socket_addr \<Rightarrow> duration \<Rightarrow>
     panic + connection_registry \<times> (daemon_error + socket_addr)" where
  "registry_register reg peer now =
     (let (history, _) = prune_locked reg (reg_inner reg) now in
      try_then (if registry_full reg history peer then make_room reg history else Inr (Some history)) (\<lambda>room.
      Inr (case room of
             None \<Rightarrow> (reg\<lparr>reg_inner := history, reg_states := h_states history\<rparr>, Inl PeerHistoryFull)
           | Some history \<Rightarrow>
               (let history = registry_admit history peer now in
                (reg\<lparr>reg_inner := history, reg_states := h_states history\<rparr>, Inr peer)))))"

definition tracker_established :: "connection_registry \<Rightarrow> socket_addr \<Rightarrow> panic + connection_registry" where
  "tracker_established reg peer =
     (let history = reg_inner reg;
          generation = h_next_establishment history + 1 in
      try_then (expect ''unwrap'' (map_of (h_states history) peer)) (\<lambda>state.
      let history = history\<lparr>
            h_next_establishment := generation,
            h_states := AList.update peer (state\<lparr>establishment_count := generation\<rparr>) (h_states history),
            h_inactive_since := AList.delete peer (h_inactive_since history)\<rparr> in
      Inr (reg\<lparr>reg_inner := history, reg_states := h_states history\<rparr>)))"

definition tracker_drop ::
  "connection_registry \<Rightarrow> socket_addr \<Rightarrow> duration \<Rightarrow> duration \<Rightarrow> panic + connection_registry" where
  "tracker_drop reg peer at now =
     (let history = reg_inner reg in
      try_then (expect ''unwrap'' (map_of (h_states history) peer)) (\<lambda>state.
      if active_sessions state = 0 then Inl ''attempt to subtract with overflow''
      else
        let left = active_sessions state - 1;
            inactive = (if left = 0 \<and> map_of (h_inactive_since history) peer = None
              then AList.update peer at (h_inactive_since history) else h_inactive_since history);
            history = history\<lparr>
              h_states := AList.update peer (state\<lparr>active_sessions := left\<rparr>) (h_states history),
              h_inactive_since := inactive\<rparr>;
            (history, _) = prune_locked reg history now in
        Inr (reg\<lparr>reg_inner := history, reg_states := h_states history\<rparr>)))"

text \<open>The states of a registry and the trackers that exist.\<close>

inductive registry_live ::
  "router_limits \<Rightarrow> socket_addr list \<Rightarrow> connection_registry \<Rightarrow> socket_addr multiset \<Rightarrow> bool"
  for limits pinned where
  new: "registry_live limits pinned (registry_new limits pinned) {#}"
| registered: "registry_live limits pinned reg T \<Longrightarrow>
    registry_register reg peer now = Inr (reg', Inr tracker) \<Longrightarrow>
    registry_live limits pinned reg' (add_mset tracker T)"
| refused: "registry_live limits pinned reg T \<Longrightarrow>
    registry_register reg peer now = Inr (reg', Inl e) \<Longrightarrow> registry_live limits pinned reg' T"
| established: "registry_live limits pinned reg T \<Longrightarrow> tracker \<in># T \<Longrightarrow>
    tracker_established reg tracker = Inr reg' \<Longrightarrow> registry_live limits pinned reg' T"
| dropped: "registry_live limits pinned reg T \<Longrightarrow> tracker \<in># T \<Longrightarrow>
    tracker_drop reg tracker at now = Inr reg' \<Longrightarrow> registry_live limits pinned reg' (T - {#tracker#})"
| pruned: "registry_live limits pinned reg T \<Longrightarrow> registry_live limits pinned (registry_prune reg now) T"

section \<open>The invariant of the history\<close>

text \<open>
  One peer: without an entry it has no tracker; with one, its active sessions are its trackers, and
  without trackers it is known since when.
\<close>

definition peer_ok :: "nat \<Rightarrow> nat \<Rightarrow> peer_connection_state option \<Rightarrow> duration option \<Rightarrow> bool" where
  "peer_ok next live state inactive =
     (case state of
        None \<Rightarrow> live = 0 \<and> inactive = None
      | Some s \<Rightarrow> active_sessions s = live \<and> (live = 0 \<longrightarrow> inactive \<noteq> None) \<and> establishment_count s \<le> next)"

definition unpinned :: "socket_addr list \<Rightarrow> conn_history \<Rightarrow> socket_addr list" where
  "unpinned pinned h = filter (\<lambda>p. p \<notin> set pinned) (map fst (h_states h))"

definition history_ok :: "socket_addr list \<Rightarrow> nat \<Rightarrow> conn_history \<Rightarrow> (socket_addr \<Rightarrow> nat) \<Rightarrow> bool" where
  "history_ok pinned bound h live =
     (distinct (map fst (h_states h)) \<and> distinct (map fst (h_inactive_since h)) \<and>
      (\<forall>p. peer_ok (h_next_establishment h) (live p) (map_of (h_states h) p) (map_of (h_inactive_since h) p)) \<and>
      length (unpinned pinned h) \<le> bound)"

lemma map_of_filter_distinct:
  "distinct (map fst xs) \<Longrightarrow>
     map_of (filter Q xs) p = (case map_of xs p of None \<Rightarrow> None | Some v \<Rightarrow> if Q (p, v) then Some v else None)"
  by (induction xs) (auto split: option.splits simp: map_of_eq_None_iff image_iff)

lemma length_filter_keys: "length (filter A (map fst (filter Q xs))) \<le> length (filter A (map fst xs))"
  by (induction xs) auto

lemma keys_delete: "map fst (AList.delete p xs) = filter (\<lambda>q. q \<noteq> p) (map fst xs)"
  by (induction xs) auto

lemma history_okD:
  assumes "history_ok pinned bound h live"
  shows "distinct (map fst (h_states h))" "distinct (map fst (h_inactive_since h))"
    and "peer_ok (h_next_establishment h) (live p) (map_of (h_states h) p) (map_of (h_inactive_since h) p)"
    and "length (unpinned pinned h) \<le> bound"
  using assms by (simp_all add: history_ok_def)

lemma in_keys: "p \<in> fst ` set xs \<longleftrightarrow> map_of xs p \<noteq> None"
  by (simp add: map_of_eq_None_iff)

text \<open>Pruning drops entries, but none of a pinned peer or one with a session.\<close>

lemma prune_locked_sel:
  assumes "history_ok pinned bound h live" "prune_locked reg h now = (h', changed)"
  shows "map_of (h_states h') p = (case map_of (h_states h) p of None \<Rightarrow> None
      | Some s \<Rightarrow> if retained reg h now (p, s) then Some s else None)"
    and "map_of (h_inactive_since h') p = (if map_of (h_states h') p = None then None else map_of (h_inactive_since h) p)"
    and "h_next_establishment h' = h_next_establishment h"
proof -
  note d = history_okD(1,2) [OF assms(1)]
  show st: "map_of (h_states h') p = (case map_of (h_states h) p of None \<Rightarrow> None
      | Some s \<Rightarrow> if retained reg h now (p, s) then Some s else None)"
    using assms(2) by (auto simp: prune_locked_def Let_def map_of_filter_distinct [OF d(1)])
  show "map_of (h_inactive_since h') p = (if map_of (h_states h') p = None then None else map_of (h_inactive_since h) p)"
    using assms(2) by (auto simp: prune_locked_def Let_def map_of_filter_distinct [OF d(2)] in_keys split: option.splits)
  show "h_next_establishment h' = h_next_establishment h"
    using assms(2) by (auto simp: prune_locked_def Let_def)
qed

lemma prune_locked_ok:
  assumes "history_ok pinned bound h live" "prune_locked reg h now = (h', changed)"
  shows "history_ok pinned bound h' live" "\<not> changed \<Longrightarrow> h_states h' = h_states h"
proof -
  note d = history_okD [OF assms(1)]
  note sel = prune_locked_sel [OF assms]
  have sub: "h_states h' = filter (retained reg h now) (h_states h)"
    "h_inactive_since h' = filter (\<lambda>(p, _). p \<in> fst ` set (h_states h')) (h_inactive_since h)"
    using assms(2) by (auto simp: prune_locked_def Let_def)
  have "length (unpinned pinned h') \<le> length (unpinned pinned h)"
    unfolding unpinned_def sub(1) by (rule length_filter_keys)
  moreover have "peer_ok (h_next_establishment h') (live p) (map_of (h_states h') p) (map_of (h_inactive_since h') p)" for p
    using d(3) [of p] by (auto simp: sel peer_ok_def retained_def split: option.splits)
  moreover have "distinct (map fst (h_states h'))" "distinct (map fst (h_inactive_since h'))"
    unfolding sub by (rule distinct_map_filter, rule d)+
  ultimately show "history_ok pinned bound h' live" using d(4) by (simp add: history_ok_def)
  show "h_states h' = h_states h" if "\<not> changed"
    using assms(2) that by (auto simp: prune_locked_def Let_def) (metis filter_True length_filter_less less_irrefl)
qed

lemma history_ok_at:
  assumes "history_ok pinned bound h live"
    and "distinct (map fst (h_states h'))" "distinct (map fst (h_inactive_since h'))"
    and "h_next_establishment h \<le> h_next_establishment h'"
    and "\<And>q. q \<noteq> p \<Longrightarrow> map_of (h_states h') q = map_of (h_states h) q \<and>
      map_of (h_inactive_since h') q = map_of (h_inactive_since h) q \<and> live' q = live q"
    and "peer_ok (h_next_establishment h') (live' p) (map_of (h_states h') p) (map_of (h_inactive_since h') p)"
    and "length (unpinned pinned h') \<le> bound"
  shows "history_ok pinned bound h' live'"
proof -
  have "peer_ok (h_next_establishment h') (live' q) (map_of (h_states h') q) (map_of (h_inactive_since h') q)" for q
  proof (cases "q = p")
    case False
    have "peer_ok (h_next_establishment h) (live q) (map_of (h_states h) q) (map_of (h_inactive_since h) q)"
      by (rule history_okD(3) [OF assms(1)])
    with assms(4,5) False show ?thesis by (auto simp: peer_ok_def split: option.splits)
  qed (use assms(6) in simp)
  with assms(2,3,7) show ?thesis by (simp add: history_ok_def)
qed

lemma unpinned_update:
  "map_of (h_states h) p \<noteq> None \<Longrightarrow> h_states h' = AList.update p s (h_states h) \<Longrightarrow> unpinned pinned h' = unpinned pinned h"
  by (simp add: unpinned_def update_keys map_of_eq_None_iff)

section \<open>Making room\<close>

definition idle_peer :: "connection_registry \<Rightarrow> conn_history \<Rightarrow> socket_addr \<Rightarrow> bool" where
  "idle_peer reg h p =
     (p \<notin> set (reg_pinned reg) \<and> (\<exists>s. map_of (h_states h) p = Some s \<and> active_sessions s = 0))"

lemma evictable_filter:
  "(\<And>p at. (p, at) \<in> set entries \<Longrightarrow> map_of (h_states h) p \<noteq> None) \<Longrightarrow>
     evictable reg h entries = Inr (filter (\<lambda>(p, at). idle_peer reg h p) entries)"
proof (induction entries)
  case (Cons e entries)
  obtain p at where e: "e = (p, at)" by (cases e)
  obtain state where "map_of (h_states h) p = Some state" using Cons.prems [of p at] e by auto
  moreover have "evictable reg h entries = Inr (filter (\<lambda>(p, at). idle_peer reg h p) entries)"
    using Cons.IH Cons.prems by (metis list.set_intros(2))
  ultimately show ?case by (auto simp: e idle_peer_def)
qed simp

lemma make_room_cases:
  assumes ok: "history_ok (reg_pinned reg) bound h live"
  obtains (none) "make_room reg h = Inr None" "\<And>p. \<not> idle_peer reg h p"
  | (evict) h' oldest where "make_room reg h = Inr (Some h')" "idle_peer reg h oldest"
      "h' = h\<lparr>h_states := AList.delete oldest (h_states h), h_inactive_since := AList.delete oldest (h_inactive_since h)\<rparr>"
      "\<And>p at at'. idle_peer reg h p \<Longrightarrow> map_of (h_inactive_since h) p = Some at \<Longrightarrow>
        map_of (h_inactive_since h) oldest = Some at' \<Longrightarrow> at' \<le> at"
proof -
  note d = history_okD [OF ok]
  let ?key = "\<lambda>(peer, at). (at, peer) :: duration \<times> socket_addr"
  let ?c = "filter (\<lambda>(p, at). idle_peer reg h p) (h_inactive_since h)"
  have "map_of (h_states h) p \<noteq> None" if "(p, at) \<in> set (h_inactive_since h)" for p at
    using d(3) [of p] that by (auto simp: peer_ok_def d(2) split: option.splits dest: map_of_is_SomeI [rotated])
  then have ev: "evictable reg h (h_inactive_since h) = Inr ?c" by (intro evictable_filter) blast
  have known: "\<exists>at. (p, at) \<in> set ?c" if "idle_peer reg h p" for p
    using d(3) [of p] that by (auto simp: peer_ok_def idle_peer_def) (blast dest: map_of_SomeD)
  show thesis
  proof (cases "?c = []")
    case True
    then have "make_room reg h = Inr None" by (simp add: make_room_def ev)
    with none known True show thesis by (metis empty_iff list.set(1))
  next
    case False
    obtain oldest at where old: "arg_min_list ?key ?c = (oldest, at)" by (cases "arg_min_list ?key ?c")
    then have mem: "(oldest, at) \<in> set ?c" using arg_min_list_in [OF False, of ?key] by simp
    have min: "at \<le> at'" if "(p, at') \<in> set ?c" for p at'
    proof -
      have "?key (oldest, at) \<le> ?key (p, at')"
        using f_arg_min_list_f [OF False, of ?key] Min_le [OF _ imageI [OF that], of ?key] unfolding old by simp
      then show ?thesis by auto
    qed
    show thesis
    proof (rule evict [of _ oldest])
      show "make_room reg h = Inr (Some (h\<lparr>h_states := AList.delete oldest (h_states h),
          h_inactive_since := AList.delete oldest (h_inactive_since h)\<rparr>))"
        using False old by (simp add: make_room_def ev)
      show "at' \<le> at''" if "idle_peer reg h p" "map_of (h_inactive_since h) p = Some at''"
        "map_of (h_inactive_since h) oldest = Some at'" for p at'' at'
      proof -
        have "map_of (h_inactive_since h) oldest = Some at" using mem d(2) by (simp add: map_of_is_SomeI)
        moreover have "(p, at'') \<in> set ?c" using that(1,2) by (simp add: map_of_SomeD)
        ultimately show ?thesis using min that(3) by simp
      qed
    qed (use mem in auto)
  qed
qed

section \<open>Every operation keeps the invariant\<close>

definition registry_ok ::
  "router_limits \<Rightarrow> socket_addr list \<Rightarrow> connection_registry \<Rightarrow> (socket_addr \<Rightarrow> nat) \<Rightarrow> bool" where
  "registry_ok limits pinned reg live =
     (reg_pinned reg = pinned \<and> reg_limits reg = limits \<and> reg_states reg = h_states (reg_inner reg) \<and>
      history_ok pinned (max_discovered_peers limits) (reg_inner reg) live)"

abbreviation known :: "connection_registry \<Rightarrow> socket_addr \<Rightarrow> peer_connection_state option" where
  "known reg \<equiv> map_of (h_states (reg_inner reg))"

lemma registry_new_ok: "registry_ok limits pinned (registry_new limits pinned) (\<lambda>_. 0)"
  by (simp add: registry_ok_def registry_new_def history_ok_def peer_ok_def unpinned_def)

lemma registry_prune_ok:
  assumes "registry_ok limits pinned reg live"
  shows "registry_ok limits pinned (registry_prune reg now) live"
proof -
  obtain h' changed where p: "prune_locked reg (reg_inner reg) now = (h', changed)"
    by (cases "prune_locked reg (reg_inner reg) now")
  have "history_ok pinned (max_discovered_peers limits) (reg_inner reg) live"
    using assms by (simp add: registry_ok_def)
  note prune_locked_ok [OF this p]
  with assms show ?thesis by (cases changed) (simp_all add: registry_ok_def registry_prune_def p)
qed

lemma make_room_ok:
  assumes "history_ok (reg_pinned reg) bound h live" "make_room reg h = Inr (Some h')"
  shows "history_ok (reg_pinned reg) bound h' live"
    and "length (unpinned (reg_pinned reg) h') < length (unpinned (reg_pinned reg) h)"
    and "0 < live q \<or> q \<in> set (reg_pinned reg) \<Longrightarrow> map_of (h_states h') q = map_of (h_states h) q"
    and "map_of (h_states h) q = None \<Longrightarrow> map_of (h_states h') q = None"
proof -
  note d = history_okD [OF assms(1)]
  have "\<exists>oldest. idle_peer reg h oldest \<and> h' = h\<lparr>h_states := AList.delete oldest (h_states h),
      h_inactive_since := AList.delete oldest (h_inactive_since h)\<rparr>"
  proof (rule make_room_cases [OF assms(1)])
    fix h'' p
    assume "make_room reg h = Inr (Some h'')" "idle_peer reg h p" "h'' = h\<lparr>h_states := AList.delete p (h_states h),
      h_inactive_since := AList.delete p (h_inactive_since h)\<rparr>"
    with assms(2) show ?thesis by (metis option.inject sum.inject(2))
  qed (use assms(2) in simp)
  then obtain oldest where idle: "idle_peer reg h oldest"
    and h': "h' = h\<lparr>h_states := AList.delete oldest (h_states h), h_inactive_since := AList.delete oldest (h_inactive_since h)\<rparr>"
    by blast
  have live0: "live oldest = 0" using d(3) [of oldest] idle by (auto simp: idle_peer_def peer_ok_def)
  have "oldest \<in> set (unpinned (reg_pinned reg) h)"
    using idle by (auto simp: idle_peer_def unpinned_def in_keys)
  moreover have keys: "h_states h' = AList.delete oldest (h_states h)"
    "h_inactive_since h' = AList.delete oldest (h_inactive_since h)" "h_next_establishment h' = h_next_establishment h"
    by (simp_all add: h')
  moreover have "unpinned (reg_pinned reg) h' = filter (\<lambda>p. p \<noteq> oldest) (unpinned (reg_pinned reg) h)"
    unfolding keys unpinned_def keys_delete filter_filter by (simp only: conj_commute)
  ultimately show less: "length (unpinned (reg_pinned reg) h') < length (unpinned (reg_pinned reg) h)"
    using length_filter_less [of oldest "unpinned (reg_pinned reg) h" "\<lambda>p. p \<noteq> oldest"] by simp
  show "history_ok (reg_pinned reg) bound h' live"
    by (rule history_ok_at [OF assms(1), where p = oldest])
      (use d(1,2,4) less live0 in \<open>simp_all add: keys distinct_delete delete_conv' peer_ok_def\<close>)
  show "map_of (h_states h') q = map_of (h_states h) q" if "0 < live q \<or> q \<in> set (reg_pinned reg)"
    using that live0 idle by (auto simp: keys delete_conv' idle_peer_def)
  show "map_of (h_states h) q = None \<Longrightarrow> map_of (h_states h') q = None"
    by (simp add: keys delete_conv')
qed

lemma registry_admit_ok:
  assumes ok: "history_ok pinned bound h live"
    and room: "map_of (h_states h) p = None \<Longrightarrow> p \<notin> set pinned \<Longrightarrow> length (unpinned pinned h) < bound"
  shows "history_ok pinned bound (registry_admit h p now) (live(p := Suc (live p)))"
    and "q \<noteq> p \<Longrightarrow> map_of (h_states (registry_admit h p now)) q = map_of (h_states h) q"
proof -
  note d = history_okD [OF ok]
  have "length (unpinned pinned (registry_admit h p now)) \<le> bound"
  proof (cases "map_of (h_states h) p")
    case None
    then have "map fst (AList.update p s (h_states h)) = map fst (h_states h) @ [p]" for s
      by (simp add: update_keys map_of_eq_None_iff)
    then show ?thesis using room [OF None] d(4) by (auto simp: unpinned_def registry_admit_def Let_def None Suc_le_eq)
  next
    case (Some s)
    then show ?thesis
      using d(4) unpinned_update [of h p "registry_admit h p now"] by (simp add: registry_admit_def Let_def)
  qed
  then show "history_ok pinned bound (registry_admit h p now) (live(p := Suc (live p)))"
    using d(1,2) d(3) [of p]
    by (intro history_ok_at [OF ok, where p = p])
      (auto simp: registry_admit_def Let_def distinct_update update_conv' peer_ok_def default_connection_def
        simp del: map_of_eq_Some_iff split: option.splits)
  show "q \<noteq> p \<Longrightarrow> map_of (h_states (registry_admit h p now)) q = map_of (h_states h) q"
    by (simp add: registry_admit_def Let_def update_conv')
qed

lemma registry_register_cases:
  assumes "registry_ok limits pinned reg live"
  obtains (admitted) reg' where "registry_register reg p now = Inr (reg', Inr p)"
      "registry_ok limits pinned reg' (live(p := Suc (live p)))"
      "\<And>q. q \<noteq> p \<Longrightarrow> 0 < live q \<or> q \<in> set pinned \<Longrightarrow> known reg' q = known reg q"
  | (refused) reg' where "registry_register reg p now = Inr (reg', Inl PeerHistoryFull)"
      "registry_ok limits pinned reg' live" "p \<notin> set pinned" "live p = 0"
      "length (unpinned pinned (reg_inner reg')) = max_discovered_peers limits"
      "\<And>q. q \<in> set (unpinned pinned (reg_inner reg')) \<Longrightarrow> 0 < live q"
proof -
  have pin: "reg_pinned reg = pinned" "reg_limits reg = limits"
    and ok0: "history_ok (reg_pinned reg) (max_discovered_peers limits) (reg_inner reg) live"
    using assms by (simp_all add: registry_ok_def)
  obtain h changed where pr: "prune_locked reg (reg_inner reg) now = (h, changed)"
    by (cases "prune_locked reg (reg_inner reg) now")
  note sel = prune_locked_sel [OF ok0 pr]
  have ok: "history_ok (reg_pinned reg) (max_discovered_peers limits) h live" by (rule prune_locked_ok(1) [OF ok0 pr])
  have kept: "map_of (h_states h) q = known reg q" if "0 < live q \<or> q \<in> set pinned" for q
    using that history_okD(3) [OF ok0, of q] by (auto simp: sel pin retained_def peer_ok_def split: option.splits)
  have admit: thesis if h': "history_ok pinned (max_discovered_peers limits) h' live"
    and room: "map_of (h_states h') p = None \<Longrightarrow> p \<notin> set pinned \<Longrightarrow> length (unpinned pinned h') < max_discovered_peers limits"
    and same: "\<And>q. 0 < live q \<or> q \<in> set pinned \<Longrightarrow> map_of (h_states h') q = map_of (h_states h) q"
    and res: "registry_register reg p now = Inr (reg\<lparr>reg_inner := registry_admit h' p now,
      reg_states := h_states (registry_admit h' p now)\<rparr>, Inr p)" for h'
    using registry_admit_ok [OF h' room] same kept pin
    by (intro admitted [OF res]) (simp_all add: registry_ok_def)
  show thesis
  proof (cases "registry_full reg h p")
    case False
    then show thesis
      by (intro admit [of h]) (use ok pin in \<open>auto simp: registry_full_def unpinned_def registry_register_def pr Let_def\<close>)
  next
    case True
    then have p: "map_of (h_states h) p = None" "p \<notin> set pinned"
      "max_discovered_peers limits \<le> length (unpinned pinned h)"
      by (simp_all add: registry_full_def pin unpinned_def)
    show thesis
    proof (rule make_room_cases [OF ok])
      assume none: "make_room reg h = Inr None" "\<And>q. \<not> idle_peer reg h q"
      show thesis
      proof (rule refused)
        show "registry_register reg p now = Inr (reg\<lparr>reg_inner := h, reg_states := h_states h\<rparr>, Inl PeerHistoryFull)"
          using True none(1) by (simp add: registry_register_def pr)
        show "registry_ok limits pinned (reg\<lparr>reg_inner := h, reg_states := h_states h\<rparr>) live"
          using ok pin by (simp add: registry_ok_def)
        show "length (unpinned pinned (reg_inner (reg\<lparr>reg_inner := h, reg_states := h_states h\<rparr>))) = max_discovered_peers limits"
          using p(3) history_okD(4) [OF ok] pin by simp
        show "0 < live q" if "q \<in> set (unpinned pinned (reg_inner (reg\<lparr>reg_inner := h, reg_states := h_states h\<rparr>)))" for q
        proof -
          have q: "q \<notin> set pinned" "map_of (h_states h) q \<noteq> None"
            using that unfolding in_keys [symmetric] by (simp_all add: unpinned_def)
          with none(2) [of q] history_okD(3) [OF ok, of q] pin show ?thesis
            by (auto simp: idle_peer_def peer_ok_def)
        qed
      qed (use p history_okD(3) [OF ok, of p] in \<open>auto simp: peer_ok_def\<close>)
    next
      fix h' oldest
      assume "make_room reg h = Inr (Some h')"
      note room = make_room_ok [OF ok this] and this
      then show thesis
        using True p history_okD(4) [OF ok] pin
        by (intro admit [of h']) (simp_all add: registry_register_def pr Let_def)
    qed
  qed
qed

lemma tracker_established_cases:
  assumes ok: "registry_ok limits pinned reg live" and live: "0 < live p"
  obtains reg' state where "tracker_established reg p = Inr reg'" "registry_ok limits pinned reg' live"
    and "known reg p = Some state"
    and "known reg' = (known reg)(p \<mapsto> state\<lparr>establishment_count := Suc (h_next_establishment (reg_inner reg))\<rparr>)"
proof -
  let ?h = "reg_inner reg"
  have h: "history_ok pinned (max_discovered_peers limits) ?h live" using ok by (simp add: registry_ok_def)
  obtain state where st: "known reg p = Some state" "active_sessions state = live p"
    using history_okD(3) [OF h, of p] live by (auto simp: peer_ok_def split: option.splits)
  let ?h' = "?h\<lparr>h_next_establishment := Suc (h_next_establishment ?h),
    h_states := AList.update p (state\<lparr>establishment_count := Suc (h_next_establishment ?h)\<rparr>) (h_states ?h),
    h_inactive_since := AList.delete p (h_inactive_since ?h)\<rparr>"
  have res: "tracker_established reg p = Inr (reg\<lparr>reg_inner := ?h', reg_states := h_states ?h'\<rparr>)"
    by (simp add: tracker_established_def Let_def st(1))
  have "history_ok pinned (max_discovered_peers limits) ?h' live"
    by (rule history_ok_at [OF h, where p = p])
      (use history_okD(1,2,4) [OF h] live st unpinned_update [of ?h p ?h'] in
        \<open>simp_all add: distinct_update distinct_delete update_conv' delete_conv' peer_ok_def del: map_of_eq_Some_iff\<close>)
  with ok that [OF res _ st(1)] show thesis by (simp add: registry_ok_def update_conv')
qed

lemma tracker_drop_cases:
  assumes ok: "registry_ok limits pinned reg live" and live: "0 < live p"
  obtains reg' where "tracker_drop reg p at now = Inr reg'" "registry_ok limits pinned reg' (live(p := live p - 1))"
proof -
  let ?h = "reg_inner reg"
  have h: "history_ok pinned (max_discovered_peers limits) ?h live" using ok by (simp add: registry_ok_def)
  obtain state where st: "known reg p = Some state" "active_sessions state = live p" "establishment_count state \<le> h_next_establishment ?h"
    using history_okD(3) [OF h, of p] live by (auto simp: peer_ok_def split: option.splits)
  let ?h' = "?h\<lparr>h_states := AList.update p (state\<lparr>active_sessions := live p - 1\<rparr>) (h_states ?h),
    h_inactive_since := if live p - 1 = 0 \<and> map_of (h_inactive_since ?h) p = None
      then AList.update p at (h_inactive_since ?h) else h_inactive_since ?h\<rparr>"
  obtain h'' changed where pr: "prune_locked reg ?h' now = (h'', changed)" by (cases "prune_locked reg ?h' now")
  have res: "tracker_drop reg p at now = Inr (reg\<lparr>reg_inner := h'', reg_states := h_states h''\<rparr>)"
    using st live pr by (simp add: tracker_drop_def Let_def)
  have "history_ok pinned (max_discovered_peers limits) ?h' (live(p := live p - 1))"
    by (rule history_ok_at [OF h, where p = p])
      (use history_okD(1,2,4) [OF h] st unpinned_update [of ?h p ?h'] in
        \<open>simp_all add: distinct_update update_conv' peer_ok_def del: map_of_eq_Some_iff\<close>)
  from prune_locked_ok(1) [OF this pr] ok that [OF res] show thesis by (simp add: registry_ok_def)
qed

lemma count_registered: "count (add_mset p T) = (count T)(p := Suc (count T p))"
  by (auto simp: fun_eq_iff)

lemma count_drop: "count (T - {#p#}) = (count T)(p := count T p - 1)"
  by (auto simp: fun_eq_iff)

lemma registry_live_ok: "registry_live limits pinned reg T \<Longrightarrow> registry_ok limits pinned reg (count T)"
proof (induction rule: registry_live.induct)
  case new
  have "count {#} = (\<lambda>_. 0)" by auto
  then show ?case using registry_new_ok by simp
next
  case (registered reg T peer now reg' tracker)
  have "registry_ok limits pinned reg' ((count T)(tracker := Suc (count T tracker)))"
    by (cases rule: registry_register_cases [OF registered.IH, of peer now]) (use registered.hyps(2) in simp_all)
  then show ?case by (simp only: count_registered)
next
  case (refused reg T peer now reg' e)
  then show ?case by (cases rule: registry_register_cases [OF refused.IH, of peer now]) auto
next
  case (established reg T tracker reg')
  then show ?case by (cases rule: tracker_established_cases [OF established.IH, of tracker]) auto
next
  case (dropped reg T tracker at now reg')
  obtain reg'' where "tracker_drop reg tracker at now = Inr reg''"
    "registry_ok limits pinned reg'' ((count T)(tracker := count T tracker - 1))"
    by (rule tracker_drop_cases [OF dropped.IH, of tracker at now]) (use dropped.hyps in auto)
  with dropped.hyps have "registry_ok limits pinned reg' ((count T)(tracker := count T tracker - 1))" by simp
  then show ?case by (simp only: count_drop)
next
  case (pruned reg T now)
  then show ?case by (simp add: registry_prune_ok)
qed

lemma card_discovered:
  assumes "history_ok pinned bound h live"
  shows "card {p. map_of (h_states h) p \<noteq> None \<and> p \<notin> set pinned} = length (unpinned pinned h)"
proof -
  have "{p. map_of (h_states h) p \<noteq> None \<and> p \<notin> set pinned} = set (unpinned pinned h)"
    unfolding in_keys [symmetric] by (auto simp: unpinned_def)
  moreover have "distinct (unpinned pinned h)" using history_okD(1) [OF assms] by (simp add: unpinned_def)
  ultimately show ?thesis by (simp only: distinct_card)
qed

section \<open>The routers of a modem\<close>

datatype ip_addr = IpV4 ipv4 | IpV6 ipv6

definition to_ipv4_mapped :: "ipv6 \<Rightarrow> ipv4 option" where
  "to_ipv4_mapped a = (if drop_bit 32 a = 0xFFFF then Some (ucast a) else None)"

fun router_address :: "socket_addr \<Rightarrow> ip_addr \<times> u32" where
  "router_address (SocketV6 ip _ _ scope) =
     (case to_ipv4_mapped ip of
        Some ip4 \<Rightarrow> (IpV4 ip4, 0)
      | None \<Rightarrow> (IpV6 ip, if is_unicast_link_local ip then scope else 0))"
| "router_address (SocketV4 ip _) = (IpV4 ip, 0)"

type_synonym connected_routers = "((ip_addr \<times> u32) \<times> nat) list"

definition routers_contains :: "connected_routers \<Rightarrow> socket_addr \<Rightarrow> bool" where
  "routers_contains peers peer = (map_of peers (router_address peer) \<noteq> None)"

definition routers_register :: "connected_routers \<Rightarrow> socket_addr \<Rightarrow> connected_routers \<times> (ip_addr \<times> u32)" where
  "routers_register peers peer =
     (let address = router_address peer;
          count = (case map_of peers address of None \<Rightarrow> 0 | Some n \<Rightarrow> n) in
      (AList.update address (count + 1) peers, address))"

definition routers_drop :: "connected_routers \<Rightarrow> ip_addr \<times> u32 \<Rightarrow> panic + connected_routers" where
  "routers_drop peers address =
     try_then (expect ''unwrap'' (map_of peers address)) (\<lambda>count.
     if count = 0 then Inl ''attempt to subtract with overflow''
     else Inr (if count - 1 = 0 then AList.delete address peers else AList.update address (count - 1) peers))"

inductive routers_live :: "connected_routers \<Rightarrow> (ip_addr \<times> u32) multiset \<Rightarrow> bool" where
  none: "routers_live [] {#}"
| accepted: "routers_live peers T \<Longrightarrow> routers_register peers peer = (peers', guard) \<Longrightarrow>
    routers_live peers' (add_mset guard T)"
| closed: "routers_live peers T \<Longrightarrow> guard \<in># T \<Longrightarrow> routers_drop peers guard = Inr peers' \<Longrightarrow>
    routers_live peers' (T - {#guard#})"

lemma routers_live_count:
  "routers_live peers T \<Longrightarrow> distinct (map fst peers) \<and>
     map_of peers = (\<lambda>a. if count T a = 0 then None else Some (count T a))"
proof (induction rule: routers_live.induct)
  case (accepted peers T peer peers' guard)
  then have "peers' = AList.update guard (Suc (count T guard)) peers"
    by (auto simp: routers_register_def Let_def)
  with accepted.IH show ?case by (auto simp: distinct_update update_conv' fun_eq_iff not_in_iff)
next
  case (closed peers T guard peers')
  obtain n where n: "count T guard = Suc n" using closed.hyps(2) by (metis count_greater_zero_iff gr0_implies_Suc)
  with closed have "peers' = (if n = 0 then AList.delete guard peers else AList.update guard n peers)"
    by (auto simp: routers_drop_def)
  with closed.IH n show ?case
    by (auto simp: distinct_update distinct_delete update_conv' delete_conv' fun_eq_iff not_in_iff)
qed (simp add: fun_eq_iff)

section \<open>Properties\<close>


definition sample_limits :: router_limits where
  "sample_limits = \<lparr>max_sessions = 64, max_discovered_peers = 1, peer_retention_secs = 300\<rparr>"

abbreviation sample_peer :: "u16 \<Rightarrow> socket_addr" where
  "sample_peer port \<equiv> SocketV4 0x7F000001 port"

definition sample_registry :: connection_registry where
  "sample_registry = (registry_new sample_limits [])\<lparr>
     reg_states := [(sample_peer 1, \<lparr>active_sessions = 1, establishment_count = 0\<rparr>)],
     reg_inner := \<lparr>h_states = [(sample_peer 1, \<lparr>active_sessions = 1, establishment_count = 0\<rparr>)],
       h_inactive_since = [(sample_peer 1, 5)], h_next_establishment = 0\<rparr>\<rparr>"

lemma sample_registered: "registry_register (registry_new sample_limits []) (sample_peer 1) 5 = Inr (sample_registry, Inr (sample_peer 1))"
  by (simp add: registry_register_def registry_new_def prune_locked_def registry_full_def registry_admit_def
      sample_limits_def sample_registry_def default_connection_def)

lemma sample_registry_live: "registry_live sample_limits [] sample_registry {#sample_peer 1#}"
  using registry_live.registered [OF registry_live.new sample_registered] by simp




text \<open>
  C39: connected routers. After every sequence of accepted and closed connections the modem finds a router connected
  exactly when a connection from its address exists, whatever the ports (for link-local addresses,
  on the same link), and closing an existing connection cannot panic.
\<close>

theorem connected_routers_exact:
  assumes "routers_live peers T"
  shows "(routers_contains peers peer \<longleftrightarrow> router_address peer \<in># T) \<and>
    (guard \<in># T \<longrightarrow> (\<exists>peers'. routers_drop peers guard = Inr peers')) \<and> (peers = [] \<longleftrightarrow> T = {#})"
proof -
  note live = routers_live_count [OF assms]
  have "\<exists>peers'. routers_drop peers guard = Inr peers'" if "guard \<in># T"
    using that live by (auto simp: routers_drop_def)
  moreover have "peers = [] \<longleftrightarrow> (\<forall>a. count T a = 0)"
    using live by (metis map_of_eq_empty_iff option.distinct(1))
  moreover have "routers_contains peers peer \<longleftrightarrow> router_address peer \<in># T"
    using live by (auto simp: routers_contains_def not_in_iff)
  ultimately show ?thesis by (auto simp: multiset_eq_iff)
qed

theorem connected_routers_exact_witness:
  "routers_contains [((IpV4 0x7F000001, 0), 1)] (SocketV6 (0xFFFF00000000 + 0x7F000001) 9 0 0) \<and>
   (\<exists>peers'. routers_drop [((IpV4 0x7F000001, 0), 1)] (IpV4 0x7F000001, 0) = Inr peers')"
proof -
  have "routers_live [((IpV4 0x7F000001, 0), 1)] {#(IpV4 0x7F000001, 0)#}"
    using routers_live.accepted [OF routers_live.none, of "SocketV4 0x7F000001 5"] by (simp add: routers_register_def Let_def)
  from connected_routers_exact [OF this, of "SocketV6 (0xFFFF00000000 + 0x7F000001) 9 0 0" "(IpV4 0x7F000001, 0)"]
  show ?thesis by (simp add: to_ipv4_mapped_def)
qed

end
