(* ===== verification/Reconnect.thy ===== *)
theory Reconnect
  imports Connections
begin

text \<open>
  The router application (\<open>dlep-router/lib.rs\<close>, \<open>dlep-router/connect.rs\<close>): the queue of peers to dial again
  with its exponential backoff, the pool of at most eight connection attempts, and the event loop
  that dials static peers, retries and offers. One turn of the loop is \<open>loop_top\<close>, which reconciles
  with the daemon's connection states and starts what the startup queue holds, followed by
  \<open>loop_select\<close>, which handles the branch of \<open>select!\<close> that became ready. Both return the endpoints they
  start to dial. What the loop reads from the daemon (its free session slots) and the clock are
  arguments; the connection states are those of the registry of \<open>Connections\<close>. \<open>router_app\<close> are the
  states the loop and the registry reach together. A \<open>HashMap\<close> is an association list, the capacity
  of the pool a natural number and \<open>Instant\<close> a number of nanoseconds.
\<close>

section \<open>The queue of peers to dial again\<close>

definition RECONNECT_BASE :: duration where
  "RECONNECT_BASE = 1 * 10 ^ 9"

definition RECONNECT_MAX :: duration where
  "RECONNECT_MAX = 30 * 10 ^ 9"

record reconnect_entry =
  re_attempts :: u32
  re_due :: "duration option"

type_synonym reconnect_queue = "(socket_addr \<times> reconnect_entry) list"

definition backoff_for :: "u32 \<Rightarrow> duration" where
  "backoff_for attempts =
     (let shift = min attempts 16 in
      min (saturating_mul RECONNECT_BASE (unat (push_bit (unat shift) (1 :: u32)))) RECONNECT_MAX)"

definition rq_schedule :: "reconnect_queue \<Rightarrow> socket_addr \<Rightarrow> duration \<Rightarrow> reconnect_queue" where
  "rq_schedule q addr now =
     (case map_of q addr of
        Some entry \<Rightarrow>
          if re_due entry = None
          then AList.update addr (entry\<lparr>re_due := Some (now + backoff_for (re_attempts entry))\<rparr>) q
          else q
      | None \<Rightarrow> AList.update addr \<lparr>re_attempts = 0, re_due = Some (now + backoff_for 0)\<rparr> q)"

definition saturating_add_u32 :: "u32 \<Rightarrow> u32 \<Rightarrow> u32" where
  "saturating_add_u32 a b = (if a + b < a then - 1 else a + b)"

text \<open>The due peers with their deadlines, and handing them out one by one.\<close>

definition due_entries :: "reconnect_queue \<Rightarrow> duration \<Rightarrow> (duration \<times> socket_addr) list" where
  "due_entries q now = List.map_filter (\<lambda>(addr, entry).
     case re_due entry of Some at \<Rightarrow> if at \<le> now then Some (at, addr) else None | None \<Rightarrow> None) q"

fun hand_out ::
  "duration \<Rightarrow> reconnect_queue \<Rightarrow> (duration \<times> socket_addr) list \<Rightarrow> panic + reconnect_queue \<times> socket_addr list" where
  "hand_out now q [] = Inr (q, [])"
| "hand_out now q ((_, addr) # due) =
     try_then (expect ''unwrap'' (map_of q addr)) (\<lambda>entry.
     let attempts = saturating_add_u32 (re_attempts entry) 1;
         q = AList.update addr (entry\<lparr>re_attempts := attempts, re_due := Some (now + backoff_for attempts)\<rparr>) q in
     try_then (hand_out now q due) (\<lambda>(q, addrs). Inr (q, addr # addrs)))"

definition take_due_limited ::
  "reconnect_queue \<Rightarrow> duration \<Rightarrow> nat \<Rightarrow> panic + reconnect_queue \<times> socket_addr list" where
  "take_due_limited q now limit =
     (let due = sort (due_entries q now); due = take limit due in hand_out now q due)"

definition rq_forget :: "reconnect_queue \<Rightarrow> socket_addr \<Rightarrow> reconnect_queue" where
  "rq_forget q addr = AList.delete addr q"

definition rq_suspend :: "reconnect_queue \<Rightarrow> socket_addr \<Rightarrow> reconnect_queue" where
  "rq_suspend q addr =
     (case map_of q addr of Some entry \<Rightarrow> AList.update addr (entry\<lparr>re_due := None\<rparr>) q | None \<Rightarrow> q)"

definition rq_contains :: "reconnect_queue \<Rightarrow> socket_addr \<Rightarrow> bool" where
  "rq_contains q addr \<longleftrightarrow> map_of q addr \<noteq> None"

definition rq_next_due :: "reconnect_queue \<Rightarrow> duration option" where
  "rq_next_due q =
     (case List.map_filter (\<lambda>(_, entry). re_due entry) q of
        [] \<Rightarrow> None
      | at # ats \<Rightarrow> Some (fold min ats at))"

section \<open>The pool of connection attempts\<close>

definition MAX_CONNECT_ATTEMPTS :: nat where
  "MAX_CONNECT_ATTEMPTS = 8"

record connect_attempt =
  at_endpoints :: "socket_addr list"
  at_retry_peer :: "socket_addr option"

record connect_attempts =
  ca_attempts :: "connect_attempt list"
  ca_reserved :: "socket_addr set"

definition attempts_default :: connect_attempts where
  "attempts_default = \<lparr>ca_attempts = [], ca_reserved = {}\<rparr>"

definition ca_capacity :: "connect_attempts \<Rightarrow> nat" where
  "ca_capacity ca = MAX_CONNECT_ATTEMPTS - length (ca_attempts ca)"

definition ca_contains :: "connect_attempts \<Rightarrow> socket_addr \<Rightarrow> bool" where
  "ca_contains ca peer \<longleftrightarrow> peer \<in> ca_reserved ca"

definition ca_insert ::
  "connect_attempts \<Rightarrow> socket_addr list \<Rightarrow> socket_addr option \<Rightarrow> connect_attempts \<times> bool" where
  "ca_insert ca endpoints retry_peer =
     (if ca_capacity ca = 0 \<or> endpoints = [] \<or> list_ex (ca_contains ca) endpoints then (ca, False)
      else (ca\<lparr>ca_reserved := ca_reserved ca \<union> set endpoints,
              ca_attempts := ca_attempts ca @ [\<lparr>at_endpoints = endpoints, at_retry_peer = retry_peer\<rparr>]\<rparr>, True))"

definition start_static :: "connect_attempts \<Rightarrow> socket_addr \<Rightarrow> connect_attempts \<times> bool" where
  "start_static ca peer = ca_insert ca [peer] (Some peer)"

definition start_offer :: "connect_attempts \<Rightarrow> peer_offer \<Rightarrow> connect_attempts \<times> bool" where
  "start_offer ca offer = ca_insert ca (map ep_addr (po_endpoints offer)) None"

fun retain_attempts ::
  "(socket_addr \<Rightarrow> bool) \<Rightarrow> connect_attempt list \<Rightarrow> socket_addr set \<Rightarrow> connect_attempt list \<times> socket_addr set" where
  "retain_attempts keep [] reserved = ([], reserved)"
| "retain_attempts keep (attempt # attempts) reserved =
     (if (case at_retry_peer attempt of None \<Rightarrow> True | Some peer \<Rightarrow> keep peer)
      then (let (kept, reserved) = retain_attempts keep attempts reserved in (attempt # kept, reserved))
      else retain_attempts keep attempts (reserved - set (at_endpoints attempt)))"

definition retain_retries :: "(socket_addr \<Rightarrow> bool) \<Rightarrow> connect_attempts \<Rightarrow> connect_attempts" where
  "retain_retries keep ca =
     (let (attempts, reserved) = retain_attempts keep (ca_attempts ca) (ca_reserved ca) in
      ca\<lparr>ca_attempts := attempts, ca_reserved := reserved\<rparr>)"

text \<open>The attempt at an index becomes ready; the result gives its \<open>retry_peer\<close>.\<close>

definition ca_next :: "connect_attempts \<Rightarrow> nat \<Rightarrow> connect_attempts \<times> socket_addr option" where
  "ca_next ca i =
     (let attempt = ca_attempts ca ! i in
      (ca\<lparr>ca_attempts := take i (ca_attempts ca) @ drop (Suc i) (ca_attempts ca),
         ca_reserved := ca_reserved ca - set (at_endpoints attempt)\<rparr>, at_retry_peer attempt))"

section \<open>The event loop\<close>

type_synonym connection_states = "(socket_addr \<times> peer_connection_state) list"

record router_loop =
  lp_connected :: "socket_addr set"
  lp_reconnect :: reconnect_queue
  lp_attempts :: connect_attempts
  lp_startup :: "socket_addr list"
  lp_establishments :: "(socket_addr \<times> nat) list"
  lp_refresh :: bool

definition loop_start :: "socket_addr list \<Rightarrow> router_loop" where
  "loop_start static_peers = \<lparr>
     lp_connected = {}, lp_reconnect = [], lp_attempts = attempts_default, lp_startup = static_peers,
     lp_establishments = [], lp_refresh = True\<rparr>"

definition prune_reconnect_state :: "connection_states \<Rightarrow> socket_addr set \<Rightarrow> router_loop \<Rightarrow> router_loop" where
  "prune_reconnect_state states pinned s = s\<lparr>
     lp_establishments := filter (\<lambda>(peer, _). peer \<in> fst ` set states) (lp_establishments s),
     lp_connected := Set.filter (\<lambda>peer. peer \<in> fst ` set states) (lp_connected s),
     lp_reconnect := filter (\<lambda>(peer, _). peer \<in> fst ` set states \<or> peer \<in> pinned) (lp_reconnect s)\<rparr>"

definition reconcile_peer :: "duration \<Rightarrow> router_loop \<Rightarrow> socket_addr \<times> peer_connection_state \<Rightarrow> router_loop" where
  "reconcile_peer now s = (\<lambda>(peer, state).
     let seen = (case map_of (lp_establishments s) peer of None \<Rightarrow> 0 | Some n \<Rightarrow> n);
         s = s\<lparr>lp_establishments := AList.update peer (establishment_count state) (lp_establishments s),
               lp_reconnect := if seen \<noteq> establishment_count state
                 then rq_forget (lp_reconnect s) peer else lp_reconnect s\<rparr> in
     if 0 < active_sessions state
     then s\<lparr>lp_connected := insert peer (lp_connected s), lp_reconnect := rq_suspend (lp_reconnect s) peer\<rparr>
     else s\<lparr>lp_connected := lp_connected s - {peer}, lp_reconnect := rq_schedule (lp_reconnect s) peer now\<rparr>)"

definition reconcile_connections :: "connection_states \<Rightarrow> duration \<Rightarrow> router_loop \<Rightarrow> router_loop" where
  "reconcile_connections states now s = foldl (reconcile_peer now) s states"

text \<open>Reading the connection states again.\<close>

definition loop_refresh :: "socket_addr set \<Rightarrow> connection_states \<Rightarrow> duration \<Rightarrow> router_loop \<Rightarrow> router_loop" where
  "loop_refresh pinned snapshot now s =
     (let s = prune_reconnect_state snapshot pinned s;
          s = s\<lparr>lp_attempts := retain_retries (\<lambda>peer. peer \<in> fst ` set snapshot \<or> peer \<in> pinned) (lp_attempts s)\<rparr>;
          s = reconcile_connections snapshot now s in
      s\<lparr>lp_refresh := False\<rparr>)"

text \<open>Deadlines of the endpoints being dials are suspended.\<close>

definition suspend_pending :: "router_loop \<Rightarrow> router_loop" where
  "suspend_pending s = s\<lparr>lp_reconnect := map (\<lambda>(peer, entry).
     (peer, if peer \<in> ca_reserved (lp_attempts s) then entry\<lparr>re_due := None\<rparr> else entry)) (lp_reconnect s)\<rparr>"

fun startup_dials ::
  "nat \<Rightarrow> socket_addr set \<Rightarrow> reconnect_queue \<Rightarrow> socket_addr list \<Rightarrow> connect_attempts \<Rightarrow>
     socket_addr list \<times> connect_attempts \<times> socket_addr list" where
  "startup_dials startup_capacity connected reconnect [] attempts = ([], attempts, [])"
| "startup_dials startup_capacity connected reconnect (peer # startup) attempts =
     (if startup_capacity = 0 then (peer # startup, attempts, [])
      else if peer \<in> connected \<or> rq_contains reconnect peer
      then startup_dials startup_capacity connected reconnect startup attempts
      else case start_static attempts peer of
        (attempts, True) \<Rightarrow>
          (let (startup, attempts, dials) =
             startup_dials (startup_capacity - 1) connected reconnect startup attempts in
           (startup, attempts, peer # dials))
      | (attempts, False) \<Rightarrow> startup_dials startup_capacity connected reconnect startup attempts)"

text \<open>
  The part of a turn before \<open>select!\<close>; \<open>changed\<close> is \<open>has_changed\<close> of the connection states and
  \<open>capacity\<close> the daemon's free session slots.
\<close>

definition loop_top ::
  "socket_addr set \<Rightarrow> bool \<Rightarrow> connection_states \<Rightarrow> duration \<Rightarrow> nat \<Rightarrow> router_loop \<Rightarrow>
     router_loop \<times> socket_addr list" where
  "loop_top pinned changed snapshot now capacity s =
     (let s = (if lp_refresh s \<or> changed then loop_refresh pinned snapshot now s else s);
          s = suspend_pending s;
          (startup, attempts, dials) = startup_dials (min (ca_capacity (lp_attempts s)) capacity)
            (lp_connected s) (lp_reconnect s) (lp_startup s) (lp_attempts s) in
      (s\<lparr>lp_startup := startup, lp_attempts := attempts\<rparr>, dials))"

definition retry_deadline :: "nat \<Rightarrow> router_loop \<Rightarrow> duration option" where
  "retry_deadline capacity s =
     (if 0 < ca_capacity (lp_attempts s) \<and> 0 < capacity then rq_next_due (lp_reconnect s) else None)"

text \<open>The branch of \<open>select!\<close> that became ready, with what it reads of the clock and the daemon.\<close>

datatype loop_input =
    CapacityFreed
  | StatesChanged
  | StatesClosed
  | AttemptDone nat "daemon_error + socket_addr" duration
  | RetryTick duration nat
  | OfferEvent peer_offer nat
  | OtherEvent
  | EventsLagged
  | EventsClosed

fun retry_dials ::
  "socket_addr set \<Rightarrow> socket_addr list \<Rightarrow> reconnect_queue \<Rightarrow> connect_attempts \<Rightarrow>
     reconnect_queue \<times> connect_attempts \<times> socket_addr list" where
  "retry_dials connected [] reconnect attempts = (reconnect, attempts, [])"
| "retry_dials connected (peer # peers) reconnect attempts =
     (let reconnect = rq_suspend reconnect peer in
      if peer \<in> connected \<or> ca_contains attempts peer
      then retry_dials connected peers reconnect attempts
      else
        let (attempts, started) = start_static attempts peer;
            (reconnect, attempts, dials) = retry_dials connected peers reconnect attempts in
        (reconnect, attempts, if started then peer # dials else dials))"

definition loop_offer :: "router_loop \<Rightarrow> peer_offer \<Rightarrow> nat \<Rightarrow> router_loop \<times> socket_addr list" where
  "loop_offer s offer capacity =
     (if capacity = 0 then (s, [])
      else if list_ex (\<lambda>e. ep_addr e \<in> lp_connected s \<or> ca_contains (lp_attempts s) (ep_addr e)) (po_endpoints offer)
      then (s, [])
      else
        let offer = offer\<lparr>po_endpoints := filter (\<lambda>e. \<not> rq_contains (lp_reconnect s) (ep_addr e)) (po_endpoints offer)\<rparr> in
        if po_endpoints offer = [] then (s, [])
        else
          let (attempts, started) = start_offer (lp_attempts s) offer in
          (s\<lparr>lp_attempts := attempts\<rparr>, if started then map ep_addr (po_endpoints offer) else []))"

text \<open>\<open>None\<close>: the loop returns.\<close>

fun loop_select :: "router_loop \<Rightarrow> loop_input \<Rightarrow> panic + (router_loop \<times> socket_addr list) option" where
  "loop_select s CapacityFreed = Inr (Some (s, []))"
| "loop_select s StatesChanged = Inr (Some (s\<lparr>lp_refresh := True\<rparr>, []))"
| "loop_select s StatesClosed = Inr None"
| "loop_select s (AttemptDone i outcome now) =
     (let (attempts, retry_peer) = ca_next (lp_attempts s) i; s = s\<lparr>lp_attempts := attempts\<rparr> in
      Inr (Some (case outcome of
          Inr addr \<Rightarrow> s\<lparr>lp_refresh := True\<rparr>
        | Inl e \<Rightarrow>
            (case retry_peer of
               Some peer \<Rightarrow> s\<lparr>lp_reconnect := rq_schedule (lp_reconnect s) peer now\<rparr>
             | None \<Rightarrow> s), [])))"
| "loop_select s (RetryTick now capacity) =
     try_then (take_due_limited (lp_reconnect s) now (min (ca_capacity (lp_attempts s)) capacity)) (\<lambda>(reconnect, peers).
     let (reconnect, attempts, dials) = retry_dials (lp_connected s) peers reconnect (lp_attempts s) in
     Inr (Some (s\<lparr>lp_reconnect := reconnect, lp_attempts := attempts\<rparr>, dials)))"
| "loop_select s (OfferEvent offer capacity) = Inr (Some (loop_offer s offer capacity))"
| "loop_select s OtherEvent = Inr (Some (s, []))"
| "loop_select s EventsLagged = Inr (Some (s, []))"
| "loop_select s EventsClosed = Inr None"

text \<open>The steps of the registry, taken by the daemon's sessions and its history reaper.\<close>

inductive registry_step ::
  "connection_registry \<times> socket_addr multiset \<Rightarrow> connection_registry \<times> socket_addr multiset \<Rightarrow> bool" where
  registered: "registry_register reg peer now = Inr (reg', Inr tracker) \<Longrightarrow> registry_step (reg, T) (reg', add_mset tracker T)"
| refused: "registry_register reg peer now = Inr (reg', Inl e) \<Longrightarrow> registry_step (reg, T) (reg', T)"
| established: "tracker \<in># T \<Longrightarrow> tracker_established reg tracker = Inr reg' \<Longrightarrow> registry_step (reg, T) (reg', T)"
| dropped: "tracker \<in># T \<Longrightarrow> tracker_drop reg tracker at now = Inr reg' \<Longrightarrow> registry_step (reg, T) (reg', T - {#tracker#})"
| pruned: "registry_step (reg, T) (registry_prune reg now, T)"

inductive_cases registry_stepE: "registry_step (reg, T) (reg', T')"

text \<open>
  When a branch of \<open>select!\<close> can be ready. An attempt that succeeds returns one of its endpoints, and
  \<open>connect_static\<close> has registered it then, so that the registry knows it if it is a static peer. The
  timer runs to the earliest deadline. Offers come from discovery, which does not run when there
  are static peers.
\<close>

fun loop_enabled ::
  "socket_addr list \<Rightarrow> connection_registry \<Rightarrow> bool \<Rightarrow> router_loop \<Rightarrow> duration \<Rightarrow> loop_input \<Rightarrow> bool" where
  "loop_enabled static reg stale s now StatesChanged = stale"
| "loop_enabled static reg stale s now (AttemptDone i outcome at) =
     (i < length (ca_attempts (lp_attempts s)) \<and> at = now \<and>
      (case outcome of Inl e \<Rightarrow> True
       | Inr addr \<Rightarrow> addr \<in> set (at_endpoints (ca_attempts (lp_attempts s) ! i)) \<and>
           (addr \<in> set static \<longrightarrow> known reg addr \<noteq> None)))"
| "loop_enabled static reg stale s now (RetryTick at capacity) =
     (at = now \<and> (case retry_deadline 1 s of None \<Rightarrow> False | Some deadline \<Rightarrow> deadline \<le> now))"
| "loop_enabled static reg stale s now (OfferEvent offer capacity) = (static = [])"
| "loop_enabled static reg stale s now _ = True"

text \<open>
  The loop and the registry together: the registry with its trackers, whether the connection states
  changed since the loop last looked, whether the loop waits in \<open>select!\<close>, its state and the clock.
\<close>

inductive router_app ::
  "router_limits \<Rightarrow> socket_addr list \<Rightarrow> connection_registry \<Rightarrow> socket_addr multiset \<Rightarrow> bool \<Rightarrow> bool \<Rightarrow>
     router_loop \<Rightarrow> duration \<Rightarrow> bool" for limits static where
  start: "router_app limits static (registry_new limits static) {#} stale False (loop_start static) now"
| clock: "router_app limits static reg T stale waits s now \<Longrightarrow> now \<le> now' \<Longrightarrow>
    router_app limits static reg T stale waits s now'"
| registry: "router_app limits static reg T stale waits s now \<Longrightarrow> registry_step (reg, T) (reg', T') \<Longrightarrow>
    (stale \<or> reg_states reg' \<noteq> reg_states reg \<longrightarrow> stale') \<Longrightarrow>
    router_app limits static reg' T' stale' waits s now"
| turn: "router_app limits static reg T stale False s now \<Longrightarrow>
    loop_top (set static) stale (reg_states reg) now capacity s = (s', dials) \<Longrightarrow>
    router_app limits static reg T False True s' now"
| select: "router_app limits static reg T stale True s now \<Longrightarrow> loop_enabled static reg stale s now input \<Longrightarrow>
    loop_select s input = Inr (Some (s', dials)) \<Longrightarrow>
    router_app limits static reg T (stale \<and> input \<noteq> StatesChanged) False s' now"

section \<open>Backoff\<close>

lemma backoff_for_eq: "backoff_for a = min (2 ^ unat a) 30 * 10 ^ 9"
proof (cases "a \<le> 16")
  case True
  then have le: "unat a \<le> 16" by (simp add: word_le_nat_alt)
  then have "(2 :: nat) ^ unat a \<le> 2 ^ 16" by (intro power_increasing) simp_all
  moreover have "unat (push_bit (unat a) (1 :: u32)) = take_bit 32 (push_bit (unat a) 1)"
    by (simp only: unsigned_push_bit_eq unsigned_1) simp
  ultimately have "unat (push_bit (unat a) (1 :: u32)) = 2 ^ unat a"
    by (simp add: take_bit_eq_mod push_bit_eq_mult del: push_bit_of_1)
  moreover have "10 ^ 9 * (2 :: nat) ^ unat a \<le> 10 ^ 9 * 2 ^ 16" using \<open>2 ^ unat a \<le> 2 ^ 16\<close> by simp
  ultimately show ?thesis using True
    by (simp add: backoff_for_def RECONNECT_BASE_def RECONNECT_MAX_def saturating_mul_def DURATION_MAX_def min_def)
next
  case False
  then have "16 \<le> unat a" by (simp add: word_le_nat_alt not_le word_less_nat_alt)
  then have "(2 :: nat) ^ 16 \<le> 2 ^ unat a" by (intro power_increasing) simp_all
  then show ?thesis using False
    by (simp add: backoff_for_def RECONNECT_BASE_def RECONNECT_MAX_def saturating_mul_def DURATION_MAX_def min_def)
qed

lemma backoff_for_bounds: "RECONNECT_BASE \<le> backoff_for a" "backoff_for a \<le> RECONNECT_MAX"
  by (simp_all add: backoff_for_eq RECONNECT_BASE_def RECONNECT_MAX_def)

section \<open>The queue\<close>

definition retries_ok :: "reconnect_queue \<Rightarrow> duration \<Rightarrow> bool" where
  "retries_ok q now \<longleftrightarrow> distinct (map fst q) \<and>
     (\<forall>p e d. map_of q p = Some e \<longrightarrow> re_due e = Some d \<longrightarrow> d \<le> now + RECONNECT_MAX)"

definition waiting :: "reconnect_queue \<Rightarrow> socket_addr \<Rightarrow> bool" where
  "waiting q p \<longleftrightarrow> (\<exists>e. map_of q p = Some e \<and> re_due e \<noteq> None)"

lemma retries_ok_later: "retries_ok q now \<Longrightarrow> now \<le> now' \<Longrightarrow> retries_ok q now'"
  unfolding retries_ok_def by (meson add_le_mono1 order_trans)

lemma map_of_schedule:
  "map_of (rq_schedule q a now) p =
     (if p = a then Some (case map_of q a of None \<Rightarrow> \<lparr>re_attempts = 0, re_due = Some (now + backoff_for 0)\<rparr>
        | Some e \<Rightarrow> if re_due e = None then e\<lparr>re_due := Some (now + backoff_for (re_attempts e))\<rparr> else e)
      else map_of q p)"
  by (simp add: rq_schedule_def update_conv' split: option.splits)

lemma map_of_suspend:
  "map_of (rq_suspend q a) p = (if p = a then map_option (\<lambda>e. e\<lparr>re_due := None\<rparr>) (map_of q a) else map_of q p)"
  by (simp add: rq_suspend_def update_conv' split: option.splits)

lemma map_of_forget: "map_of (rq_forget q a) p = (if p = a then None else map_of q p)"
  by (simp add: rq_forget_def delete_conv')

lemma distinct_queue:
  "distinct (map fst q) \<Longrightarrow> distinct (map fst (rq_schedule q a now))"
  "distinct (map fst q) \<Longrightarrow> distinct (map fst (rq_suspend q a))"
  "distinct (map fst q) \<Longrightarrow> distinct (map fst (rq_forget q a))"
  by (simp_all add: rq_schedule_def rq_suspend_def rq_forget_def distinct_update distinct_delete split: option.splits)

lemma retries_ok_ops:
  assumes "retries_ok q now"
  shows "retries_ok (rq_schedule q a now) now" "retries_ok (rq_suspend q a) now" "retries_ok (rq_forget q a) now"
  using assms backoff_for_bounds(2)
  by (auto simp: retries_ok_def distinct_queue map_of_schedule map_of_suspend map_of_forget split: option.splits if_splits)

lemma retries_ok_filter: "retries_ok q now \<Longrightarrow> retries_ok (filter Q q) now"
  by (auto simp: retries_ok_def distinct_map_filter map_of_filter_distinct split: option.splits if_splits)

lemma waiting_ops:
  "waiting (rq_schedule q a now) p \<longleftrightarrow> p = a \<or> waiting q p"
  "waiting (rq_suspend q a) p \<longleftrightarrow> p \<noteq> a \<and> waiting q p"
  "waiting (rq_forget q a) p \<longleftrightarrow> p \<noteq> a \<and> waiting q p"
  by (auto simp: waiting_def map_of_schedule map_of_suspend map_of_forget split: option.splits)

lemma contains_ops:
  "rq_contains (rq_schedule q a now) p \<longleftrightarrow> p = a \<or> rq_contains q p"
  "rq_contains (rq_suspend q a) p \<longleftrightarrow> rq_contains q p"
  "rq_contains (rq_forget q a) p \<longleftrightarrow> p \<noteq> a \<and> rq_contains q p"
  by (auto simp: rq_contains_def map_of_schedule map_of_suspend map_of_forget)

lemma waiting_contains: "waiting q p \<Longrightarrow> rq_contains q p"
  by (auto simp: waiting_def rq_contains_def)

lemmas queue_ops = waiting_ops contains_ops retries_ok_ops

text \<open>The peers that are due.\<close>

lemma due_entries_iff:
  assumes "distinct (map fst q)"
  shows "(d, p) \<in> set (due_entries q now) \<longleftrightarrow> (\<exists>e. map_of q p = Some e \<and> re_due e = Some d \<and> d \<le> now)"
  using assms by (auto simp: due_entries_def set_map_filter split: option.splits if_splits) (force split: option.splits)+

lemma due_entries_distinct: "distinct (map fst q) \<Longrightarrow> distinct (map snd (due_entries q now))"
proof (induction q)
  case (Cons x q)
  have "p \<in> fst ` set q" if "(d, p) \<in> set (due_entries q now)" for d p
    using that by (force simp: due_entries_def set_map_filter split: option.splits if_splits)
  with Cons show ?case
    by (fastforce simp: due_entries_def map_filter_simps split: option.splits prod.splits)
qed (simp add: due_entries_def map_filter_simps)

definition handed_out :: "duration \<Rightarrow> reconnect_entry \<Rightarrow> reconnect_entry" where
  "handed_out now e =
     (let attempts = saturating_add_u32 (re_attempts e) 1 in
      e\<lparr>re_attempts := attempts, re_due := Some (now + backoff_for attempts)\<rparr>)"

lemma hand_out_correct:
  "distinct (map snd due) \<Longrightarrow> (\<And>p. p \<in> snd ` set due \<Longrightarrow> map_of q p \<noteq> None) \<Longrightarrow> distinct (map fst q) \<Longrightarrow>
   \<exists>q'. hand_out now q due = Inr (q', map snd due) \<and> distinct (map fst q') \<and>
     (\<forall>p. map_of q' p = (if p \<in> snd ` set due then map_option (handed_out now) (map_of q p) else map_of q p))"
proof (induction due arbitrary: q)
  case (Cons x due)
  obtain d a where x: "x = (d, a)" by (cases x)
  obtain e where e: "map_of q a = Some e" using Cons.prems(2) [of a] x by auto
  let ?q = "AList.update a (handed_out now e) q"
  have "map_of ?q p \<noteq> None" if "p \<in> snd ` set due" for p
    using Cons.prems(2) [of p] that by (simp add: update_conv')
  then obtain q' where q': "hand_out now ?q due = Inr (q', map snd due)" "distinct (map fst q')"
    "\<And>p. map_of q' p = (if p \<in> snd ` set due then map_option (handed_out now) (map_of ?q p) else map_of ?q p)"
    using Cons.IH [of ?q] Cons.prems(1,3) by (auto simp: distinct_update)
  have "hand_out now q (x # due) = Inr (q', map snd (x # due))"
    using q'(1) by (simp add: x e handed_out_def Let_def)
  moreover have "map_of q' p = (if p \<in> snd ` set (x # due) then map_option (handed_out now) (map_of q p) else map_of q p)" for p
    using q'(3) [of p] Cons.prems(1) e by (auto simp: x update_conv')
  ultimately show ?case using q'(2) by blast
qed simp

lemma take_due_correct:
  assumes "distinct (map fst q)"
  obtains q' peers where "take_due_limited q now limit = Inr (q', peers)" "distinct (map fst q')"
    "peers = map snd (take limit (sort (due_entries q now)))" "distinct peers"
    "\<And>p. map_of q' p = (if p \<in> set peers then map_option (handed_out now) (map_of q p) else map_of q p)"
proof -
  let ?due = "take limit (sort (due_entries q now))"
  have "mset (map snd (sort (due_entries q now))) = mset (map snd (due_entries q now))" by simp
  then have "distinct (map snd (sort (due_entries q now)))"
    using due_entries_distinct [OF assms] by (metis mset_eq_imp_distinct_iff)
  then have d: "distinct (map snd ?due)" by (metis distinct_take take_map)
  have sub: "map_of q p \<noteq> None" if p: "p \<in> snd ` set ?due" for p
  proof -
    obtain d where "(d, p) \<in> set (due_entries q now)" using p set_take_subset [of limit "sort (due_entries q now)"] by force
    then show ?thesis by (auto simp: due_entries_iff [OF assms])
  qed
  obtain q' where "hand_out now q ?due = Inr (q', map snd ?due)" "distinct (map fst q')"
    "\<And>p. map_of q' p = (if p \<in> snd ` set ?due then map_option (handed_out now) (map_of q p) else map_of q p)"
    using hand_out_correct [OF d sub assms, of now] by blast
  with d that [of q' "map snd ?due"] show thesis by (simp add: take_due_limited_def)
qed

section \<open>The pool\<close>

definition pool_ok :: "connect_attempts \<Rightarrow> bool" where
  "pool_ok ca \<longleftrightarrow>
     length (ca_attempts ca) \<le> MAX_CONNECT_ATTEMPTS \<and>
     ca_reserved ca = (\<Union>a \<in> set (ca_attempts ca). set (at_endpoints a)) \<and>
     sorted_wrt (\<lambda>a b. set (at_endpoints a) \<inter> set (at_endpoints b) = {}) (ca_attempts ca) \<and>
     (\<forall>a \<in> set (ca_attempts ca). at_endpoints a \<noteq> [] \<and> (\<forall>p. at_retry_peer a = Some p \<longrightarrow> at_endpoints a = [p]))"

definition only_retries :: "connect_attempts \<Rightarrow> bool" where
  "only_retries ca \<longleftrightarrow> (\<forall>a \<in> set (ca_attempts ca). at_retry_peer a \<noteq> None)"

lemma pool_okD:
  assumes "pool_ok ca"
  shows "length (ca_attempts ca) \<le> MAX_CONNECT_ATTEMPTS"
    and "ca_reserved ca = (\<Union>a \<in> set (ca_attempts ca). set (at_endpoints a))"
    and "a \<in> set (ca_attempts ca) \<Longrightarrow> at_retry_peer a = Some p \<Longrightarrow> at_endpoints a = [p]"
  using assms by (simp_all add: pool_ok_def)

lemma ca_insert_ok:
  assumes "pool_ok ca" "ca_insert ca endpoints retry = (ca', started)"
    and "\<And>p. retry = Some p \<Longrightarrow> endpoints = [p]"
  shows "pool_ok ca'"
    and "ca_reserved ca' = ca_reserved ca \<union> (if started then set endpoints else {})"
    and "length (ca_attempts ca') = length (ca_attempts ca) + (if started then 1 else 0)"
    and "only_retries ca \<Longrightarrow> retry \<noteq> None \<Longrightarrow> only_retries ca'"
    and "started \<longleftrightarrow> ca_capacity ca \<noteq> 0 \<and> endpoints \<noteq> [] \<and> set endpoints \<inter> ca_reserved ca = {}"
proof -
  define free where "free \<longleftrightarrow> ca_capacity ca \<noteq> 0 \<and> endpoints \<noteq> [] \<and> set endpoints \<inter> ca_reserved ca = {}"
  have refuse: "ca_insert ca endpoints retry = (ca, False)" if "\<not> free"
    using that by (auto simp: free_def ca_insert_def ca_contains_def list_ex_iff)
  have start: "ca_insert ca endpoints retry = (ca\<lparr>ca_reserved := ca_reserved ca \<union> set endpoints,
      ca_attempts := ca_attempts ca @ [\<lparr>at_endpoints = endpoints, at_retry_peer = retry\<rparr>]\<rparr>, True)" if free
    using that by (auto simp: free_def ca_insert_def ca_contains_def list_ex_iff)
  have started: "started \<longleftrightarrow> free" using assms(2) refuse start by (cases free) simp_all
  then show "started \<longleftrightarrow> ca_capacity ca \<noteq> 0 \<and> endpoints \<noteq> [] \<and> set endpoints \<inter> ca_reserved ca = {}"
    by (simp only: free_def)
  have new: "pool_ok (ca\<lparr>ca_reserved := ca_reserved ca \<union> set endpoints,
      ca_attempts := ca_attempts ca @ [\<lparr>at_endpoints = endpoints, at_retry_peer = retry\<rparr>]\<rparr>)" if free
    using assms(1,3) that by (fastforce simp: pool_ok_def free_def ca_capacity_def sorted_wrt_append)
  then show "pool_ok ca'" using assms(1,2) refuse start by (cases free) auto
  show "ca_reserved ca' = ca_reserved ca \<union> (if started then set endpoints else {})"
    "length (ca_attempts ca') = length (ca_attempts ca) + (if started then 1 else 0)"
    using assms(2) refuse start started by (cases free; auto)+
  show "only_retries ca'" if "only_retries ca" "retry \<noteq> None"
    using assms(2) refuse start that by (cases free) (auto simp: only_retries_def)
qed

lemma start_static_ok:
  assumes "pool_ok ca" "start_static ca p = (ca', started)"
  shows "pool_ok ca'"
    and "ca_reserved ca' = (if started then insert p (ca_reserved ca) else ca_reserved ca)"
    and "length (ca_attempts ca') = length (ca_attempts ca) + (if started then 1 else 0)"
    and "only_retries ca \<Longrightarrow> only_retries ca'"
    and "started \<longleftrightarrow> ca_capacity ca \<noteq> 0 \<and> p \<notin> ca_reserved ca"
proof -
  have i: "ca_insert ca [p] (Some p) = (ca', started)" using assms(2) by (simp only: start_static_def)
  have "\<And>q. Some p = Some q \<Longrightarrow> [p] = [q]" by simp
  note ok = ca_insert_ok [OF assms(1) i this]
  show "pool_ok ca'" by (rule ok(1))
  show "ca_reserved ca' = (if started then insert p (ca_reserved ca) else ca_reserved ca)" using ok(2) by simp
  show "length (ca_attempts ca') = length (ca_attempts ca) + (if started then 1 else 0)" by (rule ok(3))
  show "only_retries ca'" if "only_retries ca" using ok(4) that by simp
  show "started \<longleftrightarrow> ca_capacity ca \<noteq> 0 \<and> p \<notin> ca_reserved ca" using ok(5) by simp
qed

lemma retain_attempts_eq:
  "retain_attempts keep attempts reserved =
     (let gone = \<lambda>a. case at_retry_peer a of None \<Rightarrow> False | Some p \<Rightarrow> \<not> keep p in
      (filter (\<lambda>a. \<not> gone a) attempts, reserved - (\<Union>a \<in> set (filter gone attempts). set (at_endpoints a))))"
  by (induction keep attempts reserved rule: retain_attempts.induct) (auto simp: Let_def split: option.splits)

lemma sorted_wrt_disjoint:
  assumes "sorted_wrt (\<lambda>a b. set (at_endpoints a) \<inter> set (at_endpoints b) = {}) xs"
    and "a \<in> set xs" "b \<in> set xs" "a \<noteq> b"
  shows "set (at_endpoints a) \<inter> set (at_endpoints b) = {}"
  using assms by (induction xs) auto

lemma retain_retries_ok:
  assumes "pool_ok ca"
  shows "pool_ok (retain_retries keep ca)"
    and "only_retries ca \<Longrightarrow> only_retries (retain_retries keep ca)"
    and "only_retries ca \<Longrightarrow> p \<in> ca_reserved ca \<Longrightarrow> keep p \<Longrightarrow> p \<in> ca_reserved (retain_retries keep ca)"
proof -
  let ?gone = "\<lambda>a. case at_retry_peer a of None \<Rightarrow> False | Some p \<Rightarrow> \<not> keep p"
  have eq: "ca_attempts (retain_retries keep ca) = filter (\<lambda>a. \<not> ?gone a) (ca_attempts ca)"
    "ca_reserved (retain_retries keep ca) =
       ca_reserved ca - (\<Union>a \<in> set (filter ?gone (ca_attempts ca)). set (at_endpoints a))"
    by (simp_all add: retain_retries_def retain_attempts_eq Let_def)
  have sorted: "sorted_wrt (\<lambda>a b. set (at_endpoints a) \<inter> set (at_endpoints b) = {}) (ca_attempts ca)"
    using assms by (simp add: pool_ok_def)
  have res: "ca_reserved (retain_retries keep ca) =
      (\<Union>a \<in> set (ca_attempts (retain_retries keep ca)). set (at_endpoints a))"
    unfolding eq pool_okD(2) [OF assms] using sorted_wrt_disjoint [OF sorted] by fastforce
  then show "pool_ok (retain_retries keep ca)"
    using assms le_trans [OF length_filter_le] by (auto simp: pool_ok_def eq sorted_wrt_filter)
  show "only_retries (retain_retries keep ca)" if "only_retries ca" using that by (auto simp: only_retries_def eq)
  show "p \<in> ca_reserved (retain_retries keep ca)" if only: "only_retries ca" and p: "p \<in> ca_reserved ca" "keep p"
  proof -
    obtain a where a: "a \<in> set (ca_attempts ca)" "p \<in> set (at_endpoints a)" using p(1) pool_okD(2) [OF assms] by auto
    moreover obtain r where r: "at_retry_peer a = Some r" using only a(1) by (auto simp: only_retries_def)
    moreover have "r = p" using pool_okD(3) [OF assms a(1) r] a(2) by simp
    ultimately show ?thesis using p(2) unfolding res eq by (auto intro!: bexI [of _ a])
  qed
qed

lemma ca_next_ok:
  assumes "pool_ok ca" "i < length (ca_attempts ca)" "ca_next ca i = (ca', retry)"
  shows "pool_ok ca'"
    and "ca_reserved ca' = ca_reserved ca - set (at_endpoints (ca_attempts ca ! i))"
    and "only_retries ca \<Longrightarrow> only_retries ca' \<and> (\<exists>p. retry = Some p \<and> at_endpoints (ca_attempts ca ! i) = [p])"
proof -
  let ?as = "ca_attempts ca" and ?a = "ca_attempts ca ! i"
  have split: "?as = take i ?as @ ?a # drop (Suc i) ?as" using assms(2) by (simp add: id_take_nth_drop)
  have ca': "ca_attempts ca' = take i ?as @ drop (Suc i) ?as" "ca_reserved ca' = ca_reserved ca - set (at_endpoints ?a)"
    "retry = at_retry_peer ?a"
    using assms(3) by (auto simp: ca_next_def Let_def)
  show "ca_reserved ca' = ca_reserved ca - set (at_endpoints ?a)" by (rule ca')
  have ok: "pool_ok (ca\<lparr>ca_attempts := take i ?as @ ?a # drop (Suc i) ?as\<rparr>)" using assms(1) split by simp
  obtain xs ys a where xy: "take i ?as = xs" "drop (Suc i) ?as = ys" "?a = a" by blast
  show "pool_ok ca'" using ok unfolding pool_ok_def ca' xy by (auto simp: sorted_wrt_append)
  show "only_retries ca' \<and> (\<exists>p. retry = Some p \<and> at_endpoints ?a = [p])" if only: "only_retries ca"
  proof -
    have "only_retries ca'" using only by (auto simp: only_retries_def ca' dest: in_set_takeD in_set_dropD)
    moreover obtain p where "at_retry_peer ?a = Some p" using only nth_mem [OF assms(2)] by (auto simp: only_retries_def)
    ultimately show ?thesis using pool_okD(3) [OF assms(1) nth_mem [OF assms(2)]] ca'(3) by simp
  qed
qed

section \<open>Reconciling with the connection states\<close>

lemma reconcile_peer_sel:
  shows "lp_attempts (reconcile_peer now s (a, st)) = lp_attempts s" "lp_startup (reconcile_peer now s (a, st)) = lp_startup s" "lp_refresh (reconcile_peer now s (a, st)) = lp_refresh s"
    and "p \<in> lp_connected (reconcile_peer now s (a, st)) \<longleftrightarrow> (if p = a then 0 < active_sessions st else p \<in> lp_connected s)"
    and "p \<noteq> a \<Longrightarrow> map_of (lp_reconnect (reconcile_peer now s (a, st))) p = map_of (lp_reconnect s) p"
    and "active_sessions st = 0 \<Longrightarrow> waiting (lp_reconnect (reconcile_peer now s (a, st))) a"
    and "retries_ok (lp_reconnect s) now \<Longrightarrow> retries_ok (lp_reconnect (reconcile_peer now s (a, st))) now"
  by (auto simp: reconcile_peer_def Let_def queue_ops map_of_schedule map_of_suspend map_of_forget)

lemma reconcile_sel:
  assumes "distinct (map fst states)"
  shows "lp_attempts (reconcile_connections states now s) = lp_attempts s"
    "lp_startup (reconcile_connections states now s) = lp_startup s"
    "lp_refresh (reconcile_connections states now s) = lp_refresh s"
    "retries_ok (lp_reconnect s) now \<Longrightarrow> retries_ok (lp_reconnect (reconcile_connections states now s)) now"
    "p \<in> lp_connected (reconcile_connections states now s) \<longleftrightarrow>
       (case map_of states p of None \<Rightarrow> p \<in> lp_connected s | Some st \<Rightarrow> 0 < active_sessions st)"
    "map_of states p = None \<Longrightarrow> map_of (lp_reconnect (reconcile_connections states now s)) p = map_of (lp_reconnect s) p"
    "map_of states p = Some st \<Longrightarrow> active_sessions st = 0 \<Longrightarrow> waiting (lp_reconnect (reconcile_connections states now s)) p"
proof -
  have keep: "map_of states p = None \<Longrightarrow> map_of (lp_reconnect (foldl (reconcile_peer now) s states)) p = map_of (lp_reconnect s) p"
    "map_of states p = None \<Longrightarrow> p \<in> lp_connected (foldl (reconcile_peer now) s states) \<longleftrightarrow> p \<in> lp_connected s" for p s states
    by (induction states arbitrary: s) (auto simp: reconcile_peer_sel split: if_splits)
  show "lp_attempts (reconcile_connections states now s) = lp_attempts s"
    "lp_startup (reconcile_connections states now s) = lp_startup s"
    "lp_refresh (reconcile_connections states now s) = lp_refresh s"
    unfolding reconcile_connections_def by (induction states arbitrary: s) (auto simp: reconcile_peer_sel)
  show "retries_ok (lp_reconnect (reconcile_connections states now s)) now" if "retries_ok (lp_reconnect s) now"
    using that unfolding reconcile_connections_def by (induction states arbitrary: s) (auto simp: reconcile_peer_sel)
  show "map_of states p = None \<Longrightarrow> map_of (lp_reconnect (reconcile_connections states now s)) p = map_of (lp_reconnect s) p"
    unfolding reconcile_connections_def by (rule keep)
  show "p \<in> lp_connected (reconcile_connections states now s) \<longleftrightarrow>
       (case map_of states p of None \<Rightarrow> p \<in> lp_connected s | Some st \<Rightarrow> 0 < active_sessions st)"
    using assms unfolding reconcile_connections_def
  proof (induction states arbitrary: s)
    case (Cons x states)
    obtain a st where x: "x = (a, st)" by (cases x)
    have "map_of states a = None" using Cons.prems by (simp add: x map_of_eq_None_iff)
    then show ?case using Cons by (cases "a = p") (auto simp: x reconcile_peer_sel keep split: option.splits)
  qed simp
  show "waiting (lp_reconnect (reconcile_connections states now s)) p"
    if "map_of states p = Some st" "active_sessions st = 0"
    using assms that unfolding reconcile_connections_def
  proof (induction states arbitrary: s)
    case (Cons x states)
    show ?case
    proof (cases "fst x = p")
      case True
      then have "map_of states p = None" "x = (p, st)" using Cons.prems by (cases x; auto simp: map_of_eq_None_iff)+
      then show ?thesis using Cons.prems(3) reconcile_peer_sel(6) [of st now s p] by (simp add: waiting_def keep)
    next
      case False
      then show ?thesis using Cons by (cases x) simp
    qed
  qed simp
qed

lemma suspend_pending_sel:
  "lp_connected (suspend_pending s) = lp_connected s" "lp_attempts (suspend_pending s) = lp_attempts s"
  "lp_startup (suspend_pending s) = lp_startup s" "lp_refresh (suspend_pending s) = lp_refresh s"
  "waiting (lp_reconnect (suspend_pending s)) p \<longleftrightarrow> waiting (lp_reconnect s) p \<and> p \<notin> ca_reserved (lp_attempts s)"
  "rq_contains (lp_reconnect (suspend_pending s)) p \<longleftrightarrow> rq_contains (lp_reconnect s) p"
  "retries_ok (lp_reconnect s) now \<Longrightarrow> retries_ok (lp_reconnect (suspend_pending s)) now"
proof -
  have m: "map_of (lp_reconnect (suspend_pending s)) p = map_option (\<lambda>entry.
      if p \<in> ca_reserved (lp_attempts s) then entry\<lparr>re_due := None\<rparr> else entry) (map_of (lp_reconnect s) p)" for p
  proof -
    have "map_of (map (\<lambda>(peer, entry). (peer, f peer entry)) q) p = map_option (f p) (map_of q p)"
      for f :: "socket_addr \<Rightarrow> reconnect_entry \<Rightarrow> reconnect_entry" and q
      by (induction q) auto
    then show ?thesis by (simp add: suspend_pending_def)
  qed
  have k: "map fst (lp_reconnect (suspend_pending s)) = map fst (lp_reconnect s)"
    by (simp add: suspend_pending_def comp_def case_prod_unfold)
  show "waiting (lp_reconnect (suspend_pending s)) p \<longleftrightarrow> waiting (lp_reconnect s) p \<and> p \<notin> ca_reserved (lp_attempts s)"
    by (cases "map_of (lp_reconnect s) p") (simp_all add: waiting_def m)
  show "rq_contains (lp_reconnect (suspend_pending s)) p \<longleftrightarrow> rq_contains (lp_reconnect s) p"
    by (simp add: rq_contains_def m)
  show "retries_ok (lp_reconnect (suspend_pending s)) now" if "retries_ok (lp_reconnect s) now"
    using that unfolding retries_ok_def k m by (auto split: if_splits)
qed (simp_all add: suspend_pending_def)

section \<open>Dialling\<close>

lemma startup_dials_ok:
  assumes "pool_ok ca" "n \<le> ca_capacity ca" "startup_dials n connected q startup ca = (rest, ca', dials)"
  shows "pool_ok ca'" "ca_reserved ca' = ca_reserved ca \<union> set dials" "only_retries ca \<Longrightarrow> only_retries ca'"
    and "length (ca_attempts ca') = length (ca_attempts ca) + length dials" "length dials \<le> n"
    and "rest \<noteq> [] \<Longrightarrow> length dials = n"
    and "\<And>p. p \<in> set dials \<Longrightarrow> p \<in> set startup \<and> p \<notin> connected \<and> \<not> rq_contains q p \<and> p \<notin> ca_reserved ca"
    and "\<And>p. p \<in> set startup \<Longrightarrow> p \<in> set rest \<or> p \<in> connected \<or> rq_contains q p \<or> p \<in> ca_reserved ca'"
    and "set rest \<subseteq> set startup"
proof -
  have "pool_ok ca' \<and> ca_reserved ca' = ca_reserved ca \<union> set dials \<and> (only_retries ca \<longrightarrow> only_retries ca') \<and>
    length (ca_attempts ca') = length (ca_attempts ca) + length dials \<and> length dials \<le> n \<and>
    (rest \<noteq> [] \<longrightarrow> length dials = n) \<and>
    (\<forall>p \<in> set dials. p \<in> set startup \<and> p \<notin> connected \<and> \<not> rq_contains q p \<and> p \<notin> ca_reserved ca) \<and>
    (\<forall>p \<in> set startup. p \<in> set rest \<or> p \<in> connected \<or> rq_contains q p \<or> p \<in> ca_reserved ca') \<and> set rest \<subseteq> set startup"
    using assms
  proof (induction startup arbitrary: n ca rest ca' dials)
    case (Cons p startup)
    obtain ca1 started where st: "start_static ca p = (ca1, started)" by (cases "start_static ca p")
    note ok = start_static_ok [OF Cons.prems(1) st]
    consider "n = 0" | "0 < n" "p \<in> connected \<or> rq_contains q p" | "0 < n" "p \<notin> connected" "\<not> rq_contains q p" started
      | "0 < n" "p \<notin> connected" "\<not> rq_contains q p" "\<not> started" by blast
    then show ?case
    proof cases
      case 1
      then show ?thesis using Cons.prems by auto
    next
      case 2
      then have "startup_dials n connected q startup ca = (rest, ca', dials)" using Cons.prems(3) by auto
      from Cons.IH [OF Cons.prems(1,2) this] 2(2) show ?thesis by auto
    next
      case 3
      obtain dials' where d: "startup_dials (n - 1) connected q startup ca1 = (rest, ca', dials')" "dials = p # dials'"
        using Cons.prems(3) 3 st by (auto split: prod.splits)
      have "n - 1 \<le> ca_capacity ca1" using Cons.prems(2) 3 ok(3) by (simp add: ca_capacity_def)
      from Cons.IH [OF ok(1) this d(1)] 3 ok d(2) show ?thesis by auto
    next
      case 4
      have d: "startup_dials n connected q startup ca1 = (rest, ca', dials)" using Cons.prems(3) 4 st by auto
      have "n \<le> ca_capacity ca1" using Cons.prems(2) ok(3) 4(4) by (simp add: ca_capacity_def)
      moreover have "p \<in> ca_reserved ca" using Cons.prems(2) 4(1,4) ok(5) by simp
      ultimately show ?thesis using Cons.IH [OF ok(1) _ d] 4 ok by auto
    qed
  qed simp
  then show "pool_ok ca'" "ca_reserved ca' = ca_reserved ca \<union> set dials" "only_retries ca \<Longrightarrow> only_retries ca'"
    "length (ca_attempts ca') = length (ca_attempts ca) + length dials" "length dials \<le> n"
    "rest \<noteq> [] \<Longrightarrow> length dials = n" "set rest \<subseteq> set startup"
    "\<And>p. p \<in> set dials \<Longrightarrow> p \<in> set startup \<and> p \<notin> connected \<and> \<not> rq_contains q p \<and> p \<notin> ca_reserved ca"
    "\<And>p. p \<in> set startup \<Longrightarrow> p \<in> set rest \<or> p \<in> connected \<or> rq_contains q p \<or> p \<in> ca_reserved ca'"
    by blast+
qed

lemma retry_dials_ok:
  assumes "pool_ok ca" "length peers \<le> ca_capacity ca" "retry_dials connected peers q ca = (q', ca', dials)"
  shows "pool_ok ca'" "ca_reserved ca' = ca_reserved ca \<union> set dials" "only_retries ca \<Longrightarrow> only_retries ca'"
    and "retries_ok q now \<Longrightarrow> retries_ok q' now" "length dials \<le> length peers"
    and "\<And>p. p \<in> set dials \<Longrightarrow> p \<in> set peers \<and> p \<notin> connected \<and> p \<notin> ca_reserved ca"
    and "\<And>p. p \<in> set peers \<Longrightarrow> p \<in> connected \<or> p \<in> ca_reserved ca'"
    and "\<And>p. waiting q' p \<longleftrightarrow> waiting q p \<and> p \<notin> set peers" "\<And>p. rq_contains q' p \<longleftrightarrow> rq_contains q p"
proof -
  have "pool_ok ca' \<and> ca_reserved ca' = ca_reserved ca \<union> set dials \<and> (only_retries ca \<longrightarrow> only_retries ca') \<and>
    (retries_ok q now \<longrightarrow> retries_ok q' now) \<and> length dials \<le> length peers \<and>
    (\<forall>p \<in> set dials. p \<in> set peers \<and> p \<notin> connected \<and> p \<notin> ca_reserved ca) \<and>
    (\<forall>p \<in> set peers. p \<in> connected \<or> p \<in> ca_reserved ca') \<and>
    (\<forall>p. waiting q' p \<longleftrightarrow> waiting q p \<and> p \<notin> set peers) \<and> (\<forall>p. rq_contains q' p \<longleftrightarrow> rq_contains q p)"
    using assms
  proof (induction peers arbitrary: q ca q' ca' dials)
    case (Cons p peers)
    obtain ca1 started where st: "start_static ca p = (ca1, started)" by (cases "start_static ca p")
    note ok = start_static_ok [OF Cons.prems(1) st]
    show ?case
    proof (cases "p \<in> connected \<or> p \<in> ca_reserved ca")
      case True
      then have d: "retry_dials connected peers (rq_suspend q p) ca = (q', ca', dials)"
        using Cons.prems(3) by (auto simp: Let_def ca_contains_def)
      have "length peers \<le> ca_capacity ca" using Cons.prems(2) by simp
      from Cons.IH [OF Cons.prems(1) this d] True show ?thesis by (auto simp: queue_ops)
    next
      case False
      then have started: started using ok(5) Cons.prems(2) by simp
      obtain dials' where d: "retry_dials connected peers (rq_suspend q p) ca1 = (q', ca', dials')" "dials = p # dials'"
        using Cons.prems(3) False st started by (auto simp: Let_def ca_contains_def split: prod.splits)
      have "length peers \<le> ca_capacity ca1" using Cons.prems(2) ok(3) started by (simp add: ca_capacity_def)
      from Cons.IH [OF ok(1) this d(1)] False started ok(2,4) d(2) show ?thesis by (auto simp: queue_ops)
    qed
  qed simp
  then show "pool_ok ca'" "ca_reserved ca' = ca_reserved ca \<union> set dials" "only_retries ca \<Longrightarrow> only_retries ca'"
    "retries_ok q now \<Longrightarrow> retries_ok q' now" "length dials \<le> length peers"
    "\<And>p. p \<in> set dials \<Longrightarrow> p \<in> set peers \<and> p \<notin> connected \<and> p \<notin> ca_reserved ca"
    "\<And>p. p \<in> set peers \<Longrightarrow> p \<in> connected \<or> p \<in> ca_reserved ca'"
    "\<And>p. waiting q' p \<longleftrightarrow> waiting q p \<and> p \<notin> set peers" "\<And>p. rq_contains q' p \<longleftrightarrow> rq_contains q p"
    by blast+
qed

lemma loop_offer_ok:
  assumes "pool_ok (lp_attempts s)" "loop_offer s offer capacity = (s', dials)"
  shows "pool_ok (lp_attempts s')" "s' = s\<lparr>lp_attempts := lp_attempts s'\<rparr>"
    and "ca_reserved (lp_attempts s') = ca_reserved (lp_attempts s) \<union> set dials"
    and "p \<in> set dials \<Longrightarrow> p \<notin> lp_connected s \<and> p \<notin> ca_reserved (lp_attempts s) \<and>
      \<not> rq_contains (lp_reconnect s) p \<and> 0 < capacity \<and> p \<in> ep_addr ` set (po_endpoints offer)"
proof -
  let ?eps = "filter (\<lambda>e. \<not> rq_contains (lp_reconnect s) (ep_addr e)) (po_endpoints offer)"
  define skip where "skip \<longleftrightarrow> capacity = 0 \<or> ?eps = [] \<or>
    list_ex (\<lambda>e. ep_addr e \<in> lp_connected s \<or> ca_contains (lp_attempts s) (ep_addr e)) (po_endpoints offer)"
  obtain ca started where ins: "ca_insert (lp_attempts s) (map ep_addr ?eps) None = (ca, started)"
    by (cases "ca_insert (lp_attempts s) (map ep_addr ?eps) None")
  note ok = ca_insert_ok [OF assms(1) ins, simplified]
  have skipped: "s' = s" "dials = []" if skip
    using assms(2) that by (auto simp: loop_offer_def skip_def Let_def split: if_splits)
  have started: "s' = s\<lparr>lp_attempts := ca\<rparr>" "dials = (if started then map ep_addr ?eps else [])" if "\<not> skip"
    using assms(2) that ins by (auto simp: loop_offer_def skip_def start_offer_def Let_def)
  show "pool_ok (lp_attempts s')" "s' = s\<lparr>lp_attempts := lp_attempts s'\<rparr>"
    "ca_reserved (lp_attempts s') = ca_reserved (lp_attempts s) \<union> set dials"
    using skipped started ok(1,2) assms(1) by (cases skip; auto)+
  show "p \<notin> lp_connected s \<and> p \<notin> ca_reserved (lp_attempts s) \<and>
      \<not> rq_contains (lp_reconnect s) p \<and> 0 < capacity \<and> p \<in> ep_addr ` set (po_endpoints offer)" if "p \<in> set dials"
  proof (cases skip)
    case False
    then show ?thesis using started that
      by (auto simp: skip_def list_ex_iff ca_contains_def split: if_splits)
  qed (use skipped that in simp)
qed

section \<open>The registry keeps static peers\<close>

lemma registry_step_live:
  "registry_live limits pinned reg T \<Longrightarrow> registry_step (reg, T) (reg', T') \<Longrightarrow> registry_live limits pinned reg' T'"
  by (erule registry_stepE) (auto intro: registry_live.intros)

lemma prune_locked_keeps:
  "p \<in> set (reg_pinned reg) \<Longrightarrow> map_of (h_states h) p \<noteq> None \<Longrightarrow> prune_locked reg h now = (h', changed) \<Longrightarrow>
     map_of (h_states h') p \<noteq> None"
  by (auto simp: prune_locked_def Let_def map_of_eq_None_iff retained_def image_iff split: prod.splits)

lemma registry_ok_live: "registry_ok limits pinned reg live \<Longrightarrow> 0 < live p \<Longrightarrow> known reg p \<noteq> None"
  using history_okD(3) [of pinned "max_discovered_peers limits" "reg_inner reg" live p]
  by (cases "known reg p") (auto simp: registry_ok_def peer_ok_def simp del: map_of_eq_None_iff)

lemma registry_step_keeps:
  assumes ok: "registry_ok limits pinned reg (count T)" and step: "registry_step (reg, T) (reg', T')"
    and p: "p \<in> set pinned" "known reg p \<noteq> None"
  shows "known reg' p \<noteq> None"
proof -
  have pin: "reg_pinned reg = pinned" using ok by (simp add: registry_ok_def)
  note keeps = prune_locked_keeps [of p reg, unfolded pin, OF p(1)]
  show ?thesis using step
  proof (cases rule: registry_step.cases)
    case (registered peer now tracker)
    show ?thesis
    proof (cases rule: registry_register_cases [OF ok, of peer now])
      case (1 r)
      then have r: "reg' = r" using registered by simp
      show ?thesis
      proof (cases "p = peer")
        case True
        then show ?thesis using registry_ok_live [OF 1(2), of peer] r by simp
      next
        case False
        then show ?thesis using 1(3) p r by simp
      qed
    qed (use registered in simp)
  next
    case (refused peer now e)
    obtain h changed where h: "prune_locked reg (reg_inner reg) now = (h, changed)"
      by (cases "prune_locked reg (reg_inner reg) now")
    have "reg_inner reg' = h"
    proof (cases "if registry_full reg h peer then make_room reg h else Inr (Some h)")
      case (Inr room)
      then show ?thesis using refused(2) by (cases room) (auto simp: registry_register_def h Let_def)
    qed (use refused(2) in \<open>simp add: registry_register_def h\<close>)
    then show ?thesis using keeps [OF p(2) h] by simp
  next
    case (established tracker)
    then have "0 < count T tracker" by simp
    then show ?thesis
      by (rule tracker_established_cases [OF ok]) (use established p in \<open>auto split: if_splits\<close>)
  next
    case (dropped tracker at now)
    obtain state where st: "known reg tracker = Some state" "active_sessions state \<noteq> 0"
      using dropped(3) by (cases "known reg tracker") (auto simp: tracker_drop_def Let_def split: if_splits)
    define h where "h = (reg_inner reg)\<lparr>
      h_states := AList.update tracker (state\<lparr>active_sessions := active_sessions state - 1\<rparr>) (h_states (reg_inner reg)),
      h_inactive_since := (if active_sessions state - 1 = 0 \<and> map_of (h_inactive_since (reg_inner reg)) tracker = None
         then AList.update tracker at (h_inactive_since (reg_inner reg)) else h_inactive_since (reg_inner reg))\<rparr>"
    obtain h' changed where h': "prune_locked reg h now = (h', changed)" by (cases "prune_locked reg h now")
    have "reg_inner reg' = h'" using dropped(3) st h' by (auto simp: tracker_drop_def Let_def h_def)
    moreover have "map_of (h_states h) p \<noteq> None" using p(2) by (simp add: h_def update_conv')
    ultimately show ?thesis using keeps [OF _ h'] by simp
  next
    case (pruned now)
    then show ?thesis using keeps [OF p(2)]
      by (cases "prune_locked reg (reg_inner reg) now") (auto simp: registry_prune_def simp del: map_of_eq_None_iff)
  qed
qed

section \<open>The invariant of the loop\<close>

text \<open>
  A static peer is safe when it is being dialled, connected, known to the registry with a refresh to
  come, or waiting with a deadline.
\<close>

definition safe :: "connection_registry \<Rightarrow> router_loop \<Rightarrow> socket_addr \<Rightarrow> bool" where
  "safe reg s p \<longleftrightarrow> p \<in> ca_reserved (lp_attempts s) \<or> (p \<in> lp_connected s \<or> lp_refresh s) \<and> known reg p \<noteq> None \<or>
     waiting (lp_reconnect s) p"

definition in_session :: "connection_states \<Rightarrow> socket_addr \<Rightarrow> bool" where
  "in_session states p \<longleftrightarrow> (\<exists>st. map_of states p = Some st \<and> 0 < active_sessions st)"

definition loop_ok :: "socket_addr list \<Rightarrow> connection_registry \<Rightarrow> bool \<Rightarrow> router_loop \<Rightarrow> duration \<Rightarrow> bool" where
  "loop_ok static reg stale s now \<longleftrightarrow>
     pool_ok (lp_attempts s) \<and> retries_ok (lp_reconnect s) now \<and>
     (static \<noteq> [] \<longrightarrow> only_retries (lp_attempts s)) \<and>
     (\<not> stale \<and> \<not> lp_refresh s \<longrightarrow> (\<forall>p. p \<in> lp_connected s \<longleftrightarrow> in_session (reg_states reg) p)) \<and>
     (\<forall>p \<in> set static. (p \<in> set (lp_startup s) \<or> safe reg s p) \<and>
        (rq_contains (lp_reconnect s) p \<longrightarrow> safe reg s p) \<and> (p \<in> lp_connected s \<longrightarrow> known reg p \<noteq> None))"

lemma loop_okD:
  assumes "loop_ok static reg stale s now"
  shows "pool_ok (lp_attempts s)" "retries_ok (lp_reconnect s) now"
    and "static \<noteq> [] \<Longrightarrow> only_retries (lp_attempts s)"
    and "\<not> stale \<Longrightarrow> \<not> lp_refresh s \<Longrightarrow> p \<in> lp_connected s \<longleftrightarrow> in_session (reg_states reg) p"
    and "p \<in> set static \<Longrightarrow> p \<in> set (lp_startup s) \<or> safe reg s p"
    and "p \<in> set static \<Longrightarrow> rq_contains (lp_reconnect s) p \<Longrightarrow> safe reg s p"
    and "p \<in> set static \<Longrightarrow> p \<in> lp_connected s \<Longrightarrow> known reg p \<noteq> None"
  using assms by (auto simp: loop_ok_def simp del: not_None_eq)

lemma in_session_known: "reg_states reg = h_states (reg_inner reg) \<Longrightarrow> in_session (reg_states reg) p \<Longrightarrow> known reg p \<noteq> None"
  by (auto simp: in_session_def)

lemma loop_refresh_ok:
  assumes ok: "loop_ok static reg stale s now" and reg: "registry_ok limits static reg live"
  shows "loop_ok static reg False (loop_refresh (set static) (reg_states reg) now s) now"
    "\<not> lp_refresh (loop_refresh (set static) (reg_states reg) now s)"
proof -
  define s1 where "s1 = prune_reconnect_state (reg_states reg) (set static) s"
  define s2 where "s2 = s1\<lparr>lp_attempts :=
    retain_retries (\<lambda>peer. peer \<in> fst ` set (reg_states reg) \<or> peer \<in> set static) (lp_attempts s1)\<rparr>"
  define s' where "s' = loop_refresh (set static) (reg_states reg) now s"
  have s': "s' = (reconcile_connections (reg_states reg) now s2)\<lparr>lp_refresh := False\<rparr>"
    by (simp add: s'_def s1_def s2_def loop_refresh_def Let_def)
  have states: "reg_states reg = h_states (reg_inner reg)" "distinct (map fst (reg_states reg))"
    using reg by (auto simp: registry_ok_def history_ok_def)
  note d = loop_okD [OF ok] and sel = reconcile_sel [OF states(2)] and keys = in_keys [of _ "reg_states reg"]
  have s2: "lp_startup s2 = lp_startup s" "lp_connected s2 = {p \<in> lp_connected s. map_of (reg_states reg) p \<noteq> None}"
    "lp_reconnect s2 = filter (\<lambda>(p, _). map_of (reg_states reg) p \<noteq> None \<or> p \<in> set static) (lp_reconnect s)"
    "lp_attempts s2 = retain_retries (\<lambda>p. map_of (reg_states reg) p \<noteq> None \<or> p \<in> set static) (lp_attempts s)"
    unfolding s2_def s1_def prune_reconnect_state_def keys by auto
  have conn: "p \<in> lp_connected s' \<longleftrightarrow> in_session (reg_states reg) p" for p
    by (auto simp: s' sel s2 in_session_def split: option.splits)
  have queue: "retries_ok (lp_reconnect s') now" using d(2) by (simp add: s' sel s2 retries_ok_filter)
  have "distinct (map fst (lp_reconnect s))" using d(2) by (simp add: retries_ok_def)
  note f = map_of_filter_distinct [OF this]
  have unknown: "map_of (lp_reconnect s') p = map_of (lp_reconnect s) p" if "known reg p = None" "p \<in> set static" for p
  proof -
    have "map_of (reg_states reg) p = None" using that states(1) by simp
    from sel(6) [OF this, of now s2] that(2) show ?thesis by (simp add: s' s2 f split: option.splits)
  qed
  have safe: "safe reg s' p" if p: "p \<in> set static" "safe reg s p \<or> known reg p \<noteq> None" for p
  proof (cases "known reg p")
    case None
    then have "p \<in> ca_reserved (lp_attempts s) \<or> waiting (lp_reconnect s) p" using p(2) by (auto simp: safe_def)
    moreover have "only_retries (lp_attempts s)" using d(3) p(1) by force
    moreover note unknown [OF None p(1)]
    ultimately show ?thesis
      using retain_retries_ok(3) [OF d(1)] p(1) by (auto simp: safe_def waiting_def s' sel s2)
  next
    case (Some st)
    show ?thesis
    proof (cases "0 < active_sessions st")
      case True
      then have "p \<in> lp_connected s'" using Some states by (simp add: conn in_session_def)
      then show ?thesis using Some by (simp add: safe_def)
    next
      case False
      then have "waiting (lp_reconnect s') p" using sel(7) [of p st] Some states by (simp add: s')
      then show ?thesis by (simp add: safe_def)
    qed
  qed
  have contains: "rq_contains (lp_reconnect s) p \<or> known reg p \<noteq> None" if "rq_contains (lp_reconnect s') p" "p \<in> set static" for p
  proof (cases "known reg p")
    case None
    then show ?thesis using that unknown [of p] by (simp add: rq_contains_def)
  qed simp
  have "lp_startup s' = lp_startup s" by (simp add: s' sel s2)
  moreover have "pool_ok (lp_attempts s')" "static \<noteq> [] \<longrightarrow> only_retries (lp_attempts s')"
    using retain_retries_ok [OF d(1)] d(3) by (simp_all add: s' sel s2)
  ultimately have "loop_ok static reg False s' now"
    unfolding loop_ok_def using queue conn safe contains d(5,6) in_session_known [OF states(1)] by metis
  then show "loop_ok static reg False (loop_refresh (set static) (reg_states reg) now s) now"
    "\<not> lp_refresh (loop_refresh (set static) (reg_states reg) now s)"
    by (simp_all add: s'_def [symmetric]) (simp add: s')
qed

lemma suspend_pending_ok: "loop_ok static reg stale s now \<Longrightarrow> loop_ok static reg stale (suspend_pending s) now"
  by (auto simp: loop_ok_def safe_def suspend_pending_sel)

text \<open>What is dialled before \<open>select!\<close>.\<close>

lemma loop_top_ok:
  assumes ok: "loop_ok static reg stale s now" and reg: "registry_ok limits static reg live"
    and top: "loop_top (set static) stale (reg_states reg) now capacity s = (s', dials)"
  shows "loop_ok static reg False s' now" "\<not> lp_refresh s'" "length dials \<le> capacity"
    and "p \<in> set dials \<Longrightarrow> p \<notin> lp_connected s' \<and> \<not> rq_contains (lp_reconnect s') p \<and> p \<in> ca_reserved (lp_attempts s')"
    and "lp_startup s' \<noteq> [] \<Longrightarrow> ca_capacity (lp_attempts s') = 0 \<or> length dials = capacity"
proof -
  define s1 where "s1 = suspend_pending
    (if lp_refresh s \<or> stale then loop_refresh (set static) (reg_states reg) now s else s)"
  have ok1: "loop_ok static reg False s1 now" "\<not> lp_refresh s1"
    using loop_refresh_ok [OF ok reg] ok by (auto simp: s1_def suspend_pending_sel intro: suspend_pending_ok)
  let ?n = "min (ca_capacity (lp_attempts s1)) capacity"
  obtain rest ca where st: "startup_dials ?n (lp_connected s1) (lp_reconnect s1) (lp_startup s1) (lp_attempts s1) = (rest, ca, dials)"
    and s': "s' = s1\<lparr>lp_startup := rest, lp_attempts := ca\<rparr>"
    using top by (auto simp: loop_top_def s1_def Let_def split: prod.splits)
  note d = loop_okD [OF ok1(1)]
  note dl = startup_dials_ok [OF d(1) min.cobounded1 st]
  have safe: "safe reg s1 p \<Longrightarrow> safe reg s' p" for p using dl(2) by (auto simp: safe_def s')
  have "p \<in> set (lp_startup s') \<or> safe reg s' p" if "p \<in> set static" for p
    using d(5) [OF that]
  proof
    assume "p \<in> set (lp_startup s1)"
    then consider "p \<in> set rest" | "p \<in> lp_connected s1" | "rq_contains (lp_reconnect s1) p" | "p \<in> ca_reserved ca"
      using dl(8) by blast
    then show ?thesis
    proof cases
      case 2
      then show ?thesis using d(7) [OF that] by (simp add: safe_def s')
    qed (use d(6) [OF that] safe in \<open>auto simp: s' safe_def\<close>)
  qed (use safe in blast)
  then show "loop_ok static reg False s' now"
    using dl(1,3) d safe ok1(2) by (auto simp: loop_ok_def s')
  show "\<not> lp_refresh s'" using ok1(2) by (simp add: s')
  show "length dials \<le> capacity" using dl(5) by simp
  show "p \<notin> lp_connected s' \<and> \<not> rq_contains (lp_reconnect s') p \<and> p \<in> ca_reserved (lp_attempts s')" if "p \<in> set dials"
    using dl(2,7) that by (simp add: s')
  show "ca_capacity (lp_attempts s') = 0 \<or> length dials = capacity" if "lp_startup s' \<noteq> []"
    using that dl(4,6) by (auto simp: s' ca_capacity_def min_def split: if_splits)
qed

text \<open>What is dialled in \<open>select!\<close>: only retries whose deadline has passed, and endpoints of an offer without a history.\<close>

definition may_dial :: "router_loop \<Rightarrow> loop_input \<Rightarrow> socket_addr \<Rightarrow> bool" where
  "may_dial s input p \<longleftrightarrow> p \<notin> lp_connected s \<and> p \<notin> ca_reserved (lp_attempts s) \<and>
     (case input of
        RetryTick now capacity \<Rightarrow> \<exists>e d. map_of (lp_reconnect s) p = Some e \<and> re_due e = Some d \<and> d \<le> now
      | OfferEvent offer capacity \<Rightarrow> \<not> rq_contains (lp_reconnect s) p \<and> p \<in> ep_addr ` set (po_endpoints offer)
      | _ \<Rightarrow> False)"

lemma waiting_cong: "map_of q p = map_of q' p \<Longrightarrow> waiting q p = waiting q' p \<and> rq_contains q p = rq_contains q' p"
  by (simp add: waiting_def rq_contains_def)

lemma retry_tick_ok:
  assumes ok: "loop_ok static reg stale s now"
  obtains s' dials where "loop_select s (RetryTick now capacity) = Inr (Some (s', dials))" "loop_ok static reg stale s' now"
    "ca_reserved (lp_attempts s') = ca_reserved (lp_attempts s) \<union> set dials" "length dials \<le> capacity"
    "\<And>p. p \<in> set dials \<Longrightarrow> may_dial s (RetryTick now capacity) p"
proof -
  note d = loop_okD [OF ok]
  let ?n = "min (ca_capacity (lp_attempts s)) capacity"
  have dq: "distinct (map fst (lp_reconnect s))" using d(2) by (simp add: retries_ok_def)
  obtain q peers where t: "take_due_limited (lp_reconnect s) now ?n = Inr (q, peers)" "distinct (map fst q)"
    "peers = map snd (take ?n (sort (due_entries (lp_reconnect s) now)))" "distinct peers"
    "\<And>p. map_of q p = (if p \<in> set peers then map_option (handed_out now) (map_of (lp_reconnect s) p)
      else map_of (lp_reconnect s) p)"
    by (rule take_due_correct [OF dq]) blast
  obtain q' ca dials where r: "retry_dials (lp_connected s) peers q (lp_attempts s) = (q', ca, dials)"
    by (cases "retry_dials (lp_connected s) peers q (lp_attempts s)")
  have len: "length peers \<le> ?n" unfolding t(3) length_map length_take by (rule min.cobounded2)
  then have "length peers \<le> ca_capacity (lp_attempts s)" by simp
  note dl = retry_dials_ok [OF d(1) this r]
  define s' where "s' = s\<lparr>lp_reconnect := q', lp_attempts := ca\<rparr>"
  have "retries_ok q now"
    using d(2) backoff_for_bounds(2) by (auto simp: retries_ok_def t handed_out_def Let_def split: if_splits)
  then have q': "retries_ok q' now" by (rule dl(4))
  have due: "\<exists>e d. map_of (lp_reconnect s) p = Some e \<and> re_due e = Some d \<and> d \<le> now" if p: "p \<in> set peers" for p
  proof -
    obtain a where "(a, p) \<in> set (due_entries (lp_reconnect s) now)" using p t(3) by (auto dest: in_set_takeD)
    then show ?thesis by (auto simp: due_entries_iff [OF dq])
  qed
  have safe: "safe reg s' p" if "safe reg s p" "p \<in> set static" for p
  proof (cases "p \<in> set peers")
    case True
    then show ?thesis using dl(7) [of p] d(7) [OF that(2)] by (auto simp: safe_def s'_def simp del: not_None_eq)
  qed (use that dl(2,8) t(5) [of p] waiting_cong [of q p "lp_reconnect s"] in \<open>auto simp: safe_def s'_def\<close>)
  have contains: "rq_contains q' p \<longleftrightarrow> rq_contains (lp_reconnect s) p" for p
    using dl(9) [of p] t(5) [of p] by (simp add: rq_contains_def)
  show thesis
  proof (rule that)
    show "loop_select s (RetryTick now capacity) = Inr (Some (s', dials))" by (simp add: t(1) r s'_def)
    have "(p \<in> set (lp_startup s') \<or> safe reg s' p) \<and> (rq_contains (lp_reconnect s') p \<longrightarrow> safe reg s' p) \<and>
        (p \<in> lp_connected s' \<longrightarrow> known reg p \<noteq> None)" if "p \<in> set static" for p
      using d(5-7) [OF that] safe [OF _ that] contains [of p] by (auto simp: s'_def simp del: not_None_eq)
    then show "loop_ok static reg stale s' now" unfolding loop_ok_def
      using d(3,4) q' dl(1,3) by (simp add: s'_def)
    show "length dials \<le> capacity" using dl(5) len by simp
    show "may_dial s (RetryTick now capacity) p" if "p \<in> set dials" for p
      using dl(6) [OF that] due [of p] by (simp add: may_dial_def)
  qed (simp add: s'_def dl(2))
qed

lemma attempt_done_ok:
  assumes ok: "loop_ok static reg stale s now" and en: "loop_enabled static reg stale s now (AttemptDone i outcome now)"
    and sel: "loop_select s (AttemptDone i outcome now) = Inr (Some (s', dials))"
  shows "loop_ok static reg stale s' now" "dials = []"
proof -
  note d = loop_okD [OF ok]
  let ?a = "ca_attempts (lp_attempts s) ! i"
  have i: "i < length (ca_attempts (lp_attempts s))" using en by simp
  obtain ca retry where n: "ca_next (lp_attempts s) i = (ca, retry)" by (cases "ca_next (lp_attempts s) i")
  note nx = ca_next_ok [OF d(1) i n]
  show "dials = []" using sel n by (auto simp: Let_def)
  define s1 where "s1 = s\<lparr>lp_attempts := ca\<rparr>"
  have keep: "safe reg s1 p" if "safe reg s p" "p \<notin> set (at_endpoints ?a)" for p
    using that nx(2) by (auto simp: safe_def s1_def)
  have s': "s' = (case outcome of Inr addr \<Rightarrow> s1\<lparr>lp_refresh := True\<rparr>
     | Inl e \<Rightarrow> (case retry of Some peer \<Rightarrow> s1\<lparr>lp_reconnect := rq_schedule (lp_reconnect s1) peer now\<rparr> | None \<Rightarrow> s1))"
    using sel n by (auto simp: Let_def s1_def split: sum.splits option.splits)
  have fields: "lp_startup s' = lp_startup s" "lp_connected s' = lp_connected s" "lp_attempts s' = ca" "\<not> lp_refresh s' \<Longrightarrow> \<not> lp_refresh s"
    "retries_ok (lp_reconnect s') now"
    using d(2) by (auto simp: s' s1_def queue_ops split: sum.splits option.splits)
  have all: "safe reg s' p \<and> (rq_contains (lp_reconnect s') p \<longrightarrow> safe reg s' p)"
    if p: "p \<in> set static" and was: "p \<in> set (at_endpoints ?a) \<or> safe reg s p" for p
  proof -
    obtain r where r: "retry = Some r" "at_endpoints ?a = [r]" using nx(3) d(3) p by force
    have "safe reg s' p"
    proof (cases outcome)
      case (Inl e)
      then show ?thesis using was r keep [of p] by (cases "p = r") (auto simp: s' safe_def s1_def queue_ops)
    next
      case (Inr addr)
      then have "addr = r" using en r by simp
      then show ?thesis using was Inr en p r keep [of p]
        by (cases "p = r") (auto simp: s' safe_def s1_def)
    qed
    then show ?thesis by simp
  qed
  have contains: "p \<in> set (at_endpoints ?a)" if "rq_contains (lp_reconnect s') p" "\<not> rq_contains (lp_reconnect s) p" for p
    using that nx(3) n pool_okD(3) [OF d(1) nth_mem [OF i]]
    by (auto simp: s' s1_def queue_ops ca_next_def Let_def split: sum.splits option.splits)
  have "(p \<in> set (lp_startup s') \<or> safe reg s' p) \<and> (rq_contains (lp_reconnect s') p \<longrightarrow> safe reg s' p) \<and>
      (p \<in> lp_connected s' \<longrightarrow> known reg p \<noteq> None)" if "p \<in> set static" for p
    unfolding fields using all [OF that] contains [of p] d(5-7) [OF that] by blast
  then show "loop_ok static reg stale s' now"
    unfolding loop_ok_def fields(3) using fields(2,4,5) nx(1,3) d(3,4) by auto
qed

lemma loop_select_ok:
  assumes ok: "loop_ok static reg stale s now" and en: "loop_enabled static reg stale s now input"
    and sel: "loop_select s input = Inr (Some (s', dials))"
  shows "loop_ok static reg (stale \<and> input \<noteq> StatesChanged) s' now"
    and "p \<in> set dials \<Longrightarrow> may_dial s input p \<and> p \<in> ca_reserved (lp_attempts s')"
proof -
  note d = loop_okD [OF ok]
  have "loop_ok static reg (stale \<and> input \<noteq> StatesChanged) s' now \<and>
    (\<forall>p \<in> set dials. may_dial s input p \<and> p \<in> ca_reserved (lp_attempts s'))"
  proof (cases input)
    case StatesChanged
    then have s': "s' = s\<lparr>lp_refresh := True\<rparr>" "dials = []" using sel by simp_all
    have "safe reg s p \<Longrightarrow> safe reg s' p" for p by (auto simp: s' safe_def)
    then show ?thesis unfolding loop_ok_def using d by (simp add: StatesChanged s') blast
  next
    case (AttemptDone i outcome at)
    then have "at = now" using en by simp
    with AttemptDone show ?thesis using attempt_done_ok [OF ok en [unfolded \<open>input = _\<close> \<open>at = _\<close>] sel [unfolded \<open>input = _\<close> \<open>at = _\<close>]]
      by simp
  next
    case (RetryTick at capacity)
    then have at: "at = now" using en by simp
    obtain s1 dials1 where t: "loop_select s (RetryTick now capacity) = Inr (Some (s1, dials1))" "loop_ok static reg stale s1 now"
      "ca_reserved (lp_attempts s1) = ca_reserved (lp_attempts s) \<union> set dials1" "length dials1 \<le> capacity"
      "\<And>p. p \<in> set dials1 \<Longrightarrow> may_dial s (RetryTick now capacity) p"
      by (rule retry_tick_ok [OF ok, of capacity]) blast
    have "Inr (Some (s1, dials1)) = loop_select s input" unfolding RetryTick at by (rule t(1) [symmetric])
    with sel have "s1 = s'" "dials1 = dials" by simp_all
    then show ?thesis using t(2,3,5) unfolding RetryTick at by simp
  next
    case (OfferEvent offer capacity)
    then have "loop_offer s offer capacity = (s', dials)" using sel by simp
    note o = loop_offer_ok [OF d(1) this]
    have "static = []" using en OfferEvent by simp
    moreover have "lp_refresh s' = lp_refresh s" "lp_connected s' = lp_connected s" "lp_reconnect s' = lp_reconnect s"
      by (subst o(2), simp)+
    ultimately have "loop_ok static reg stale s' now" using o(1) d(2,4) by (simp add: loop_ok_def)
    moreover have "may_dial s input p \<and> p \<in> ca_reserved (lp_attempts s')" if "p \<in> set dials" for p
      using o(4) [OF that] that by (simp add: o(3) OfferEvent may_dial_def)
    ultimately show ?thesis by (simp add: OfferEvent)
  qed (use ok sel in simp_all)
  then show "loop_ok static reg (stale \<and> input \<noteq> StatesChanged) s' now"
    "p \<in> set dials \<Longrightarrow> may_dial s input p \<and> p \<in> ca_reserved (lp_attempts s')" by simp_all
qed

lemma router_app_ok:
  "router_app limits static reg T stale waits s now \<Longrightarrow>
     registry_live limits static reg T \<and> loop_ok static reg stale s now \<and> (waits \<longrightarrow> \<not> lp_refresh s)"
proof (induction rule: router_app.induct)
  case (start stale now)
  show ?case
    by (simp add: registry_live.new loop_start_def loop_ok_def pool_ok_def attempts_default_def retries_ok_def only_retries_def
        rq_contains_def)
next
  case (clock reg T stale waits s now now')
  then show ?case using retries_ok_later by (auto simp: loop_ok_def)
next
  case (registry reg T stale waits s now reg' T' stale')
  then have live: "registry_live limits static reg T" and ok: "loop_ok static reg stale s now" by auto
  note keeps = registry_step_keeps [OF registry_live_ok [OF live] registry.hyps(2)]
  have "safe reg s p \<Longrightarrow> p \<in> set static \<Longrightarrow> safe reg' s p" for p using keeps [of p] by (auto simp: safe_def)
  then have "(p \<in> set (lp_startup s) \<or> safe reg' s p) \<and> (rq_contains (lp_reconnect s) p \<longrightarrow> safe reg' s p) \<and>
      (p \<in> lp_connected s \<longrightarrow> known reg' p \<noteq> None)" if "p \<in> set static" for p
    using loop_okD(5-7) [OF ok that] keeps [OF that] that by blast
  then have "loop_ok static reg' stale' s now"
    unfolding loop_ok_def using loop_okD(1-4) [OF ok] registry.hyps(3) by auto
  then show ?case using registry registry_step_live by blast
next
  case (turn reg T stale s now capacity s' dials)
  then have live: "registry_live limits static reg T" and ok: "loop_ok static reg stale s now" by auto
  show ?case using live loop_top_ok(1,2) [OF ok registry_live_ok [OF live] turn.hyps(2)] by simp
next
  case (select reg T stale s now input s' dials)
  then show ?case using loop_select_ok(1) by blast
qed

section \<open>Properties\<close>

text \<open>
  C13: no static peer is lost. Whenever the event loop waits, each static peer is in the startup queue, being
  dialled, connected, or due to be dialled again at most 30 s from now; and unless a change of the
  connection states is still to be read, the peers it takes for connected are those that
  have a session.
\<close>

theorem static_peers_never_lost:
  assumes "router_app limits static reg T stale True s now"
    and "p \<in> set static"
  shows "(p \<in> set (lp_startup s) \<or> p \<in> ca_reserved (lp_attempts s) \<or> p \<in> lp_connected s \<or>
      (\<exists>e d. map_of (lp_reconnect s) p = Some e \<and> re_due e = Some d \<and> d \<le> now + RECONNECT_MAX)) \<and>
    (\<not> stale \<longrightarrow> (p \<in> lp_connected s \<longleftrightarrow> p \<in># T))"
proof (intro conjI)
  have live: "registry_live limits static reg T" and ok: "loop_ok static reg stale s now" and r: "\<not> lp_refresh s"
    using router_app_ok [OF assms(1)] by auto
  note d = loop_okD [OF ok]
  show "p \<in> set (lp_startup s) \<or> p \<in> ca_reserved (lp_attempts s) \<or> p \<in> lp_connected s \<or>
      (\<exists>e d. map_of (lp_reconnect s) p = Some e \<and> re_due e = Some d \<and> d \<le> now + RECONNECT_MAX)"
    using d(2) d(5) [OF assms(2)] r by (auto simp: safe_def waiting_def retries_ok_def)
  have reg: "registry_ok limits static reg (count T)" by (rule registry_live_ok [OF live])
  then have "history_ok static (max_discovered_peers limits) (reg_inner reg) (count T)" "reg_states reg = h_states (reg_inner reg)"
    by (simp_all add: registry_ok_def)
  then have "in_session (reg_states reg) p \<longleftrightarrow> p \<in># T"
    using history_okD(3) [of static "max_discovered_peers limits" "reg_inner reg" "count T" p]
    by (cases "known reg p") (auto simp: in_session_def peer_ok_def count_eq_zero_iff simp del: map_of_eq_None_iff map_of_eq_Some_iff)
  then show "\<not> stale \<longrightarrow> (p \<in> lp_connected s \<longleftrightarrow> p \<in># T)" using d(4) r by blast
qed

text \<open>A run with one static peer: it is dialled, the attempt fails, and the peer waits for its retry.\<close>

definition sample_dialling :: router_loop where
  "sample_dialling = \<lparr>lp_connected = {}, lp_reconnect = [],
     lp_attempts = \<lparr>ca_attempts = [\<lparr>at_endpoints = [sample_peer 1], at_retry_peer = Some (sample_peer 1)\<rparr>],
       ca_reserved = {sample_peer 1}\<rparr>,
     lp_startup = [], lp_establishments = [], lp_refresh = False\<rparr>"

definition sample_waiting :: router_loop where
  "sample_waiting = \<lparr>lp_connected = {},
     lp_reconnect = [(sample_peer 1, \<lparr>re_attempts = 0, re_due = Some (5 + 10 ^ 9)\<rparr>)],
     lp_attempts = attempts_default, lp_startup = [], lp_establishments = [], lp_refresh = False\<rparr>"

lemma sample_start: "loop_top (set [sample_peer 1]) False (reg_states (registry_new sample_limits [sample_peer 1])) 5 4
    (loop_start [sample_peer 1]) = (sample_dialling, [sample_peer 1])"
  by (simp add: loop_top_def loop_refresh_def loop_start_def prune_reconnect_state_def retain_retries_def
      attempts_default_def reconcile_connections_def suspend_pending_def start_static_def ca_insert_def ca_capacity_def
      ca_contains_def rq_contains_def MAX_CONNECT_ATTEMPTS_def registry_new_def sample_dialling_def)

lemma sample_failed: "loop_select sample_dialling (AttemptDone 0 (Inl NoMatchingSession) 5) = Inr (Some (sample_waiting, []))"
  by (simp add: sample_dialling_def sample_waiting_def ca_next_def attempts_default_def rq_schedule_def backoff_for_eq)

lemma sample_turn: "loop_top (set [sample_peer 1]) False (reg_states (registry_new sample_limits [sample_peer 1])) 5 4
    sample_waiting = (sample_waiting, [])"
  by (simp add: loop_top_def sample_waiting_def suspend_pending_def attempts_default_def)

lemma sample_app:
  "router_app sample_limits [sample_peer 1] (registry_new sample_limits [sample_peer 1]) {#} False False
     (loop_start [sample_peer 1]) 5"
  "router_app sample_limits [sample_peer 1] (registry_new sample_limits [sample_peer 1]) {#} False True sample_dialling 5"
  "router_app sample_limits [sample_peer 1] (registry_new sample_limits [sample_peer 1]) {#} False True sample_waiting 5"
proof -
  show start: "router_app sample_limits [sample_peer 1] (registry_new sample_limits [sample_peer 1]) {#} False False
     (loop_start [sample_peer 1]) 5" by (rule router_app.start)
  show dial: "router_app sample_limits [sample_peer 1] (registry_new sample_limits [sample_peer 1]) {#} False True
     sample_dialling 5" by (rule router_app.turn [OF start sample_start])
  have "loop_enabled [sample_peer 1] (registry_new sample_limits [sample_peer 1]) False sample_dialling 5
      (AttemptDone 0 (Inl NoMatchingSession) 5)" by (simp add: sample_dialling_def)
  from router_app.turn [OF router_app.select [OF dial this sample_failed, simplified], OF sample_turn]
  show "router_app sample_limits [sample_peer 1] (registry_new sample_limits [sample_peer 1]) {#} False True
     sample_waiting 5" .
qed

theorem static_peers_never_lost_witness:
  "\<exists>e d. map_of (lp_reconnect sample_waiting) (sample_peer 1) = Some e \<and> re_due e = Some d \<and> d \<le> 5 + RECONNECT_MAX"
  using static_peers_never_lost [OF sample_app(3), of "sample_peer 1"]
  by (simp add: sample_waiting_def attempts_default_def)

text \<open>
  C16: the discipline of dialling. The pool never holds more than eight attempts, and no two of them have an endpoint
  in common. The startup queue dials only peers that are neither connected nor in the retry
  queue, within the free slots, and keeps peers back only when no slot is left. A branch of \<open>select!\<close> never
  panics, and it dials only what is neither connected nor being dialled: on the timer, peers whose
  deadline has passed; on an offer, endpoints the retry queue does not hold.
\<close>

theorem dial_discipline:
  assumes "router_app limits static reg T stale waits s now"
  shows "length (ca_attempts (lp_attempts s)) \<le> MAX_CONNECT_ATTEMPTS \<and>
    sorted_wrt (\<lambda>a b. set (at_endpoints a) \<inter> set (at_endpoints b) = {}) (ca_attempts (lp_attempts s)) \<and>
    (loop_top (set static) stale (reg_states reg) now capacity s = (s', dials) \<longrightarrow>
      length dials \<le> capacity \<and>
      (\<forall>p \<in> set dials. p \<notin> lp_connected s' \<and> \<not> rq_contains (lp_reconnect s') p \<and> p \<in> ca_reserved (lp_attempts s')) \<and>
      (lp_startup s' \<noteq> [] \<longrightarrow> ca_capacity (lp_attempts s') = 0 \<or> length dials = capacity)) \<and>
    (\<exists>r. loop_select s input = Inr r) \<and>
    (loop_enabled static reg stale s now input \<and> loop_select s input = Inr (Some (s', dials)) \<longrightarrow>
      (\<forall>p \<in> set dials. may_dial s input p \<and> p \<in> ca_reserved (lp_attempts s')))"
proof (intro conjI)
  have live: "registry_live limits static reg T" and ok: "loop_ok static reg stale s now"
    using router_app_ok [OF assms(1)] by auto
  note d = loop_okD [OF ok]
  show "length (ca_attempts (lp_attempts s)) \<le> MAX_CONNECT_ATTEMPTS"
    "sorted_wrt (\<lambda>a b. set (at_endpoints a) \<inter> set (at_endpoints b) = {}) (ca_attempts (lp_attempts s))"
    using d(1) by (simp_all add: pool_ok_def)
  show "loop_top (set static) stale (reg_states reg) now capacity s = (s', dials) \<longrightarrow> length dials \<le> capacity \<and>
      (\<forall>p \<in> set dials. p \<notin> lp_connected s' \<and> \<not> rq_contains (lp_reconnect s') p \<and> p \<in> ca_reserved (lp_attempts s')) \<and>
      (lp_startup s' \<noteq> [] \<longrightarrow> ca_capacity (lp_attempts s') = 0 \<or> length dials = capacity)"
    using loop_top_ok(3-5) [OF ok registry_live_ok [OF live]] by blast
  have "distinct (map fst (lp_reconnect s))" using d(2) by (simp add: retries_ok_def)
  then have "\<exists>q peers. take_due_limited (lp_reconnect s) at n = Inr (q, peers)" for at n
    by (rule take_due_correct [of _ at n]) blast
  then show "\<exists>r. loop_select s input = Inr r"
    by (cases input) (simp_all add: try_then_eq_Inr split_def Let_def)
  show "loop_enabled static reg stale s now input \<and> loop_select s input = Inr (Some (s', dials)) \<longrightarrow>
      (\<forall>p \<in> set dials. may_dial s input p \<and> p \<in> ca_reserved (lp_attempts s'))"
    using loop_select_ok(2) [OF ok] by blast
qed

theorem dial_discipline_witness:
  "length (ca_attempts (lp_attempts sample_dialling)) \<le> MAX_CONNECT_ATTEMPTS \<and>
   \<not> rq_contains (lp_reconnect sample_dialling) (sample_peer 1) \<and>
   (\<exists>r. loop_select sample_waiting (RetryTick (5 + 10 ^ 9) 4) = Inr r)"
proof (intro conjI)
  show "length (ca_attempts (lp_attempts sample_dialling)) \<le> MAX_CONNECT_ATTEMPTS"
    using dial_discipline [OF sample_app(2)] by blast
  show "\<not> rq_contains (lp_reconnect sample_dialling) (sample_peer 1)"
    using dial_discipline [OF sample_app(1)] sample_start by fastforce
  show "\<exists>r. loop_select sample_waiting (RetryTick (5 + 10 ^ 9) 4) = Inr r"
    using dial_discipline [OF sample_app(3)] by blast
qed

lemma unat_saturating_add: "unat (saturating_add_u32 c 1) = min (Suc (unat c)) (2 ^ 32 - 1)"
proof -
  have "unat c < 2 ^ 32" using unsigned_less [of c, where 'a = nat] by simp
  moreover have "unat (c + 1) = (unat c + 1) mod 2 ^ 32" by (simp add: unat_word_ariths)
  ultimately show ?thesis
    by (cases "unat c = 2 ^ 32 - 1") (auto simp: saturating_add_u32_def word_less_nat_alt unsigned_minus_1_eq_mask mask_eq_exp_minus_1)
qed

lemma left_waiting:
  assumes peers: "peers = map snd (take limit (sort due))"
    and "(d, p) \<in> set (take limit (sort due))" "p' \<notin> set peers" "(d', p') \<in> set (sort due)"
  shows "d \<le> d' \<and> length peers = limit"
proof -
  have "(d', p') \<notin> set (take limit (sort due))" using assms(3) unfolding peers by force
  then have rest: "(d', p') \<in> set (drop limit (sort due))" using assms(4) by (metis Un_iff append_take_drop_id set_append)
  have "sorted (take limit (sort due) @ drop limit (sort due))" by simp
  then have "(d, p) \<le> (d', p')" using assms(2) rest unfolding sorted_append by blast
  moreover have "limit < length (sort due)" using rest by (cases "limit < length (sort due)") auto
  ultimately show ?thesis unfolding peers by auto
qed

text \<open>
  C19: exponential backoff. The delay after \<open>n\<close> retries is \<open>2\<^sup>n\<close> s, at most 30 s, for every counter value. On a tick
  at most \<open>limit\<close> peers are handed out, all of them due, the oldest deadlines first; their counters
  go up by one without wrapping and their next deadline follows from the new count, and no other
  entry changes.
\<close>

theorem retry_backoff:
  assumes "distinct (map fst q)"
  shows "backoff_for a = min (2 ^ unat a) 30 * 10 ^ 9 \<and>
    (\<exists>q' peers. take_due_limited q now limit = Inr (q', peers) \<and> distinct peers \<and> length peers \<le> limit \<and>
      (\<forall>p \<in> set peers. \<exists>e d. map_of q p = Some e \<and> re_due e = Some d \<and> d \<le> now \<and>
         map_of q' p = Some (e\<lparr>re_attempts := saturating_add_u32 (re_attempts e) 1,
           re_due := Some (now + backoff_for (saturating_add_u32 (re_attempts e) 1))\<rparr>) \<and>
         unat (saturating_add_u32 (re_attempts e) 1) = min (Suc (unat (re_attempts e))) (2 ^ 32 - 1) \<and>
         (\<forall>p' e' d'. p' \<notin> set peers \<longrightarrow> map_of q p' = Some e' \<longrightarrow> re_due e' = Some d' \<longrightarrow> d' \<le> now \<longrightarrow>
            d \<le> d' \<and> length peers = limit)) \<and>
      (\<forall>p. p \<notin> set peers \<longrightarrow> map_of q' p = map_of q p))"
proof (rule conjI)
  show "backoff_for a = min (2 ^ unat a) 30 * 10 ^ 9" by (rule backoff_for_eq)
  let ?due = "sort (due_entries q now)"
  obtain q' peers where t: "take_due_limited q now limit = Inr (q', peers)" "distinct (map fst q')"
    "peers = map snd (take limit ?due)" "distinct peers"
    "\<And>p. map_of q' p = (if p \<in> set peers then map_option (handed_out now) (map_of q p) else map_of q p)"
    by (rule take_due_correct [OF assms]) blast
  note due = due_entries_iff [OF assms, of _ _ now]
  have one: "\<exists>e d. map_of q p = Some e \<and> re_due e = Some d \<and> d \<le> now \<and>
      map_of q' p = Some (e\<lparr>re_attempts := saturating_add_u32 (re_attempts e) 1,
        re_due := Some (now + backoff_for (saturating_add_u32 (re_attempts e) 1))\<rparr>) \<and>
      unat (saturating_add_u32 (re_attempts e) 1) = min (Suc (unat (re_attempts e))) (2 ^ 32 - 1) \<and>
      (\<forall>p' e' d'. p' \<notin> set peers \<longrightarrow> map_of q p' = Some e' \<longrightarrow> re_due e' = Some d' \<longrightarrow> d' \<le> now \<longrightarrow>
         d \<le> d' \<and> length peers = limit)" if p: "p \<in> set peers" for p
  proof -
    obtain d where d: "(d, p) \<in> set (take limit ?due)" using p unfolding t(3) by auto
    then have "(d, p) \<in> set ?due" by (rule in_set_takeD)
    then obtain e where e: "map_of q p = Some e" "re_due e = Some d" "d \<le> now" using due [of d p] by auto
    have "d \<le> d' \<and> length peers = limit"
      if "p' \<notin> set peers" "map_of q p' = Some e'" "re_due e' = Some d'" "d' \<le> now" for p' e' d'
      using left_waiting [OF t(3) d that(1), of d'] due [of d' p'] that by simp
    moreover have "map_of q' p = Some (e\<lparr>re_attempts := saturating_add_u32 (re_attempts e) 1,
        re_due := Some (now + backoff_for (saturating_add_u32 (re_attempts e) 1))\<rparr>)"
      using t(5) [of p] p e(1) by (simp add: handed_out_def Let_def)
    ultimately show ?thesis using e unat_saturating_add by blast
  qed
  have "length peers \<le> limit" by (simp add: t(3))
  with t one show "\<exists>q' peers. take_due_limited q now limit = Inr (q', peers) \<and> distinct peers \<and> length peers \<le> limit \<and>
      (\<forall>p \<in> set peers. \<exists>e d. map_of q p = Some e \<and> re_due e = Some d \<and> d \<le> now \<and>
         map_of q' p = Some (e\<lparr>re_attempts := saturating_add_u32 (re_attempts e) 1,
           re_due := Some (now + backoff_for (saturating_add_u32 (re_attempts e) 1))\<rparr>) \<and>
         unat (saturating_add_u32 (re_attempts e) 1) = min (Suc (unat (re_attempts e))) (2 ^ 32 - 1) \<and>
         (\<forall>p' e' d'. p' \<notin> set peers \<longrightarrow> map_of q p' = Some e' \<longrightarrow> re_due e' = Some d' \<longrightarrow> d' \<le> now \<longrightarrow>
            d \<le> d' \<and> length peers = limit)) \<and>
      (\<forall>p. p \<notin> set peers \<longrightarrow> map_of q' p = map_of q p)"
    by (intro exI [of _ q'] exI [of _ peers]) auto
qed

theorem retry_backoff_witness:
  "\<exists>q'. take_due_limited (lp_reconnect sample_waiting) (5 + 10 ^ 9) 4 = Inr (q', [sample_peer 1]) \<and>
     map_of q' (sample_peer 1) = Some \<lparr>re_attempts = 1, re_due = Some (5 + 3 * 10 ^ 9)\<rparr>"
proof -
  have "distinct (map fst (lp_reconnect sample_waiting))" by (simp add: sample_waiting_def)
  from conjunct2 [OF retry_backoff [OF this, of 0 "5 + 10 ^ 9" 4]]
  obtain q' peers where t: "take_due_limited (lp_reconnect sample_waiting) (5 + 10 ^ 9) 4 = Inr (q', peers)"
    "sample_peer 1 \<in> set peers \<Longrightarrow> \<exists>e. map_of (lp_reconnect sample_waiting) (sample_peer 1) = Some e \<and>
       map_of q' (sample_peer 1) = Some (e\<lparr>re_attempts := saturating_add_u32 (re_attempts e) 1,
         re_due := Some (5 + 10 ^ 9 + backoff_for (saturating_add_u32 (re_attempts e) 1))\<rparr>)"
    by (elim exE conjE) (rule that, assumption, drule bspec, assumption, elim exE conjE, intro exI conjI, assumption+)
  have "peers = [sample_peer 1]" using t(1)
    by (simp add: take_due_limited_def due_entries_def map_filter_simps sample_waiting_def try_then_eq_Inr split_def Let_def)
  then show ?thesis using t by (auto simp: sample_waiting_def saturating_add_u32_def backoff_for_eq)
qed

end
