(* ===== verification/Tcp_Monitor.thy ===== *)
theory Tcp_Monitor
  imports Connections
begin

text \<open>
  The packet monitor of TCP connections (\<open>dlep-net/tcp_monitor.rs\<close>): the filter program handed to
  the kernel, the parser of IPv4 and IPv6 packets down to the TCP ports, and the table of
  monitored connections. A packet is the list of its bytes; the value \<open>None\<close> of the header loop
  would be a loop that does not end, and it is shown not to happen. Classic BPF is
  the small machine of \<open>bpf_run\<close>, for the instructions the program uses: a load beyond the packet
  ends the program with 0, which drops the packet. A socket is a number, equal for the clones of
  one \<open>Arc\<close>.
\<close>

unbundle bit_operations_syntax

section \<open>The kernel filter\<close>

datatype bpf_instruction =
    LdAbsB nat
  | AndK u32
  | JeqK nat nat u32
  | RetK u32

function bpf_run :: "bpf_instruction list \<Rightarrow> bytes \<Rightarrow> u32 \<Rightarrow> nat \<Rightarrow> u32" where
  "bpf_run program packet a pc =
     (if pc < length program then
        (case program ! pc of
           LdAbsB k \<Rightarrow> if k < length packet then bpf_run program packet (ucast (packet ! k)) (pc + 1) else 0
         | AndK k \<Rightarrow> bpf_run program packet (a AND k) (pc + 1)
         | JeqK jt jf k \<Rightarrow> bpf_run program packet a (pc + 1 + (if a = k then jt else jf))
         | RetK k \<Rightarrow> k)
      else 0)"
  by auto
termination
  by (relation "measure (\<lambda>(program, packet, a, pc). length program - pc)") auto

declare bpf_run.simps [simp del]

definition low_ttl_filter :: "bpf_instruction list" where
  "low_ttl_filter = [
     LdAbsB 0,
     AndK 0xF0,
     JeqK 0 3 0x40,
     LdAbsB 8,
     JeqK 5 0 255,
     RetK 65536,
     JeqK 0 3 0x60,
     LdAbsB 7,
     JeqK 1 0 255,
     RetK 65536,
     RetK 0]"

section \<open>Packets\<close>

record tcp_connection =
  cn_local :: socket_addr
  cn_peer :: socket_addr

definition normalize :: "socket_addr \<Rightarrow> socket_addr" where
  "normalize addr =
     (case addr of
        SocketV6 ip port _ _ \<Rightarrow> (case to_ipv4_mapped ip of Some ip4 \<Rightarrow> SocketV4 ip4 port | None \<Rightarrow> addr)
      | _ \<Rightarrow> addr)"

text \<open>\<open>get\<close> of a slice, at an index and at a range.\<close>

definition byte_at :: "bytes \<Rightarrow> nat \<Rightarrow> u8 option" where
  "byte_at xs i = (if i < length xs then Some (xs ! i) else None)"

definition bytes_at :: "bytes \<Rightarrow> nat \<Rightarrow> nat \<Rightarrow> bytes option" where
  "bytes_at xs i j = (if i \<le> j \<and> j \<le> length xs then Some (take (j - i) (drop i xs)) else None)"

text \<open>One IPv6 extension header: the kind of the next header and the size of this one.\<close>

definition ip6_header :: "bytes \<Rightarrow> nat \<Rightarrow> u8 \<Rightarrow> nat \<Rightarrow> (u8 \<times> nat) option" where
  "ip6_header packet len kind offset =
     Option.bind (bytes_at packet offset len) (\<lambda>header.
     Option.bind (byte_at header 0) (\<lambda>next.
     if kind = 0 \<or> kind = 43 \<or> kind = 60 then
       Option.bind (byte_at header 1) (\<lambda>units. Some (next, (unat units + 1) * 8))
     else if kind = 51 then
       Option.bind (byte_at header 1) (\<lambda>units.
       let sz = (unat units + 2) * 4 in
       if sz < 12 \<or> sz mod 8 \<noteq> 0 then None else Some (next, sz))
     else if kind = 44 then
       Option.bind (byte_at header 2) (\<lambda>a.
       Option.bind (byte_at header 3) (\<lambda>b.
       if from_be16 [a, b] AND 0xFFF8 \<noteq> 0 then None else Some (next, 8)))
     else None))"

partial_function (option) ip6_headers :: "bytes \<Rightarrow> nat \<Rightarrow> u8 \<Rightarrow> nat \<Rightarrow> nat option option" where
  "ip6_headers packet len next offset =
     (if next = 6 then Some (Some offset)
      else
        case ip6_header packet len next offset of
          None \<Rightarrow> Some None
        | Some (next, sz) \<Rightarrow> ip6_headers packet len next (offset + sz))"

definition parse_ip4 :: "bytes \<Rightarrow> (ip_addr \<times> ip_addr \<times> nat) option" where
  "parse_ip4 packet =
     (if length packet < 20 \<or> packet ! 8 = 255 \<or> packet ! 9 \<noteq> 6 then None
      else
        let len = unat (from_be16 [packet ! 2, packet ! 3]); offset = unat (packet ! 0 AND 15) * 4 in
        if offset < 20 \<or> len < offset + 20 \<or> length packet < len \<or>
           from_be16 [packet ! 6, packet ! 7] AND 0x1FFF \<noteq> 0
        then None
        else Some (IpV4 (ipv4_of [packet ! 12, packet ! 13, packet ! 14, packet ! 15]),
                   IpV4 (ipv4_of [packet ! 16, packet ! 17, packet ! 18, packet ! 19]), offset))"

definition parse_ip6 :: "bytes \<Rightarrow> (ip_addr \<times> ip_addr \<times> nat) option option" where
  "parse_ip6 packet =
     (if length packet < 40 \<or> packet ! 7 = 255 then Some None
      else
        let len = 40 + unat (from_be16 [packet ! 4, packet ! 5]) in
        if length packet < len then Some None
        else
          Option.bind (ip6_headers packet len (packet ! 6) 40) (\<lambda>walked.
          case walked of
            None \<Rightarrow> Some None
          | Some offset \<Rightarrow>
              if len < offset + 20 then Some None
              else Some (Some (IpV6 (ipv6_of (take 16 (drop 8 packet))),
                               IpV6 (ipv6_of (take 16 (drop 24 packet))), offset))))"

fun scoped_addr :: "u32 \<Rightarrow> ip_addr \<Rightarrow> u16 \<Rightarrow> socket_addr" where
  "scoped_addr interface (IpV4 ip) port = SocketV4 ip port"
| "scoped_addr interface (IpV6 ip) port =
     SocketV6 ip port 0 (if is_unicast_link_local ip then interface else 0)"

definition tcp_ports :: "bytes \<Rightarrow> u32 \<Rightarrow> ip_addr \<times> ip_addr \<times> nat \<Rightarrow> tcp_connection option" where
  "tcp_ports packet interface = (\<lambda>(source, dest, offset).
     Option.bind (bytes_at packet offset (offset + 20)) (\<lambda>tcp.
     if drop_bit 4 (tcp ! 12) < 5 then None
     else Some \<lparr>cn_local = scoped_addr interface dest (from_be16 [tcp ! 2, tcp ! 3]),
                cn_peer = scoped_addr interface source (from_be16 [tcp ! 0, tcp ! 1])\<rparr>))"

definition low_ttl_connection :: "bytes \<Rightarrow> u32 \<Rightarrow> tcp_connection option option" where
  "low_ttl_connection packet interface =
     (case byte_at packet 0 of
        None \<Rightarrow> Some None
      | Some b \<Rightarrow>
          Option.bind
            (if drop_bit 4 b = 4 then Some (parse_ip4 packet)
             else if drop_bit 4 b = 6 then parse_ip6 packet
             else Some None)
            (\<lambda>parsed. Some (Option.bind parsed (tcp_ports packet interface))))"

section \<open>The monitored connections\<close>

record monitor_state =
  ms_sockets :: "(tcp_connection \<times> nat) list"
  ms_failed :: bool

record registration =
  rg_connection :: tcp_connection
  rg_socket :: nat

definition monitor_new :: monitor_state where
  "monitor_new = \<lparr>ms_sockets = [], ms_failed = False\<rparr>"

definition monitor_register ::
  "monitor_state \<Rightarrow> socket_addr \<Rightarrow> socket_addr \<Rightarrow> nat \<Rightarrow> io_error + monitor_state \<times> registration" where
  "monitor_register state local peer socket =
     (let connection = \<lparr>cn_local = normalize local, cn_peer = normalize peer\<rparr> in
      if ms_failed state then Inl (IoError IoOther ''TCP GTSM monitor has failed'')
      else Inr (state\<lparr>ms_sockets := AList.update connection socket (ms_sockets state)\<rparr>,
                \<lparr>rg_connection = connection, rg_socket = socket\<rparr>))"

definition registration_drop :: "monitor_state \<Rightarrow> registration \<Rightarrow> monitor_state" where
  "registration_drop state reg =
     (if map_of (ms_sockets state) (rg_connection reg) = Some (rg_socket reg)
      then state\<lparr>ms_sockets := AList.delete (rg_connection reg) (ms_sockets state)\<rparr>
      else state)"

text \<open>The failure of the receive loop: the new state and the sockets that are reset.\<close>

definition monitor_failure :: "monitor_state \<Rightarrow> monitor_state \<times> nat list" where
  "monitor_failure state = (state\<lparr>ms_failed := True\<rparr>, map snd (ms_sockets state))"

definition ETH_P_IP :: u16 where "ETH_P_IP = 0x0800"
definition ETH_P_IPV6 :: u16 where "ETH_P_IPV6 = 0x86DD"
definition PACKET_OUTGOING :: u8 where "PACKET_OUTGOING = 4"

text \<open>One packet that passed the filter: the socket that is reset, if any.\<close>

definition monitor_packet ::
  "monitor_state \<Rightarrow> u16 \<Rightarrow> u8 \<Rightarrow> u32 \<Rightarrow> bytes \<Rightarrow> nat option option" where
  "monitor_packet state protocol pkttype ifindex packet =
     (if \<not> (protocol = ETH_P_IP \<or> protocol = ETH_P_IPV6) then Some None
      else if pkttype = PACKET_OUTGOING then Some None
      else Option.bind (low_ttl_connection packet ifindex) (\<lambda>found.
        Some (Option.bind found (map_of (ms_sockets state)))))"

text \<open>
  The states of the monitor with all registrations made, the latest first, and those that exist.
  Every registration has a socket of its own.
\<close>

inductive monitor_live :: "monitor_state \<Rightarrow> registration list \<Rightarrow> registration set \<Rightarrow> bool" where
  new: "monitor_live monitor_new [] {}"
| registered: "monitor_live state H L \<Longrightarrow> socket \<notin> rg_socket ` set H \<Longrightarrow>
    monitor_register state local peer socket = Inr (state', reg) \<Longrightarrow> monitor_live state' (reg # H) (insert reg L)"
| dropped: "monitor_live state H L \<Longrightarrow> reg \<in> L \<Longrightarrow> monitor_live (registration_drop state reg) H (L - {reg})"
| failed: "monitor_live state H L \<Longrightarrow> monitor_failure state = (state', resets) \<Longrightarrow> monitor_live state' H L"

text \<open>The latest registration of a connection.\<close>

definition latest :: "registration list \<Rightarrow> tcp_connection \<Rightarrow> registration option" where
  "latest H connection = find (\<lambda>reg. rg_connection reg = connection) H"

section \<open>The filter\<close>

lemma version_nibble: "b AND 0xF0 = 0x40 \<longleftrightarrow> drop_bit 4 b = 4" "b AND 0xF0 = 0x60 \<longleftrightarrow> drop_bit 4 b = 6" for b :: u8
proof -
  have eq: "x = y \<longleftrightarrow> (\<forall>n<8. bit x n = bit y n)" for x y :: u8
    by (auto intro: bit_word_eqI)
  have hi: "\<not> bit b n" if "8 \<le> n" for n using bit_imp_le_length [of b n] that by auto
  have "(\<forall>n<8. bit (b AND 0xF0) n = bit (0x40 :: u8) n) \<longleftrightarrow> (\<forall>n<8. bit (drop_bit 4 b) n = bit (4 :: u8) n)"
    "(\<forall>n<8. bit (b AND 0xF0) n = bit (0x60 :: u8) n) \<longleftrightarrow> (\<forall>n<8. bit (drop_bit 4 b) n = bit (6 :: u8) n)"
    using hi [of 8] hi [of 9] hi [of 10] hi [of 11]
    by (simp_all add: bit_simps numeral_eq_Suc All_less_Suc del: One_nat_def)
  then show "b AND 0xF0 = 0x40 \<longleftrightarrow> drop_bit 4 b = 4" "b AND 0xF0 = 0x60 \<longleftrightarrow> drop_bit 4 b = 6"
    by (simp_all only: eq)
qed

lemma ucast_u8_eq: "(ucast b :: u32) = ucast c \<longleftrightarrow> b = c" for b c :: u8
proof -
  have "unat (ucast b :: u32) = unat b" for b :: u8
    using unsigned_less [of b, where 'a = nat] by (simp add: unsigned_ucast_eq take_bit_eq_mod)
  then show ?thesis by (metis word_unat_eq_iff)
qed

lemma loaded_byte:
  "ucast b AND 0xF0 = (0x40 :: u32) \<longleftrightarrow> drop_bit 4 b = 4" "ucast b AND 0xF0 = (0x60 :: u32) \<longleftrightarrow> drop_bit 4 b = 6"
  "ucast b = (255 :: u32) \<longleftrightarrow> b = 255" for b :: u8
  using ucast_u8_eq [of "b AND 0xF0" "0x40"] ucast_u8_eq [of "b AND 0xF0" "0x60"] ucast_u8_eq [of b 255]
  by (simp_all add: unsigned_and_eq version_nibble [symmetric])

lemma filter_steps:
  "bpf_run low_ttl_filter packet a 0 = (if 0 < length packet then bpf_run low_ttl_filter packet (ucast (packet ! 0)) 1 else 0)"
  "bpf_run low_ttl_filter packet a 1 = bpf_run low_ttl_filter packet (a AND 0xF0) 2"
  "bpf_run low_ttl_filter packet a 2 = bpf_run low_ttl_filter packet a (if a = 0x40 then 3 else 6)"
  "bpf_run low_ttl_filter packet a 3 = (if 8 < length packet then bpf_run low_ttl_filter packet (ucast (packet ! 8)) 4 else 0)"
  "bpf_run low_ttl_filter packet a 4 = bpf_run low_ttl_filter packet a (if a = 255 then 10 else 5)"
  "bpf_run low_ttl_filter packet a 5 = 65536"
  "bpf_run low_ttl_filter packet a 6 = bpf_run low_ttl_filter packet a (if a = 0x60 then 7 else 10)"
  "bpf_run low_ttl_filter packet a 7 = (if 7 < length packet then bpf_run low_ttl_filter packet (ucast (packet ! 7)) 8 else 0)"
  "bpf_run low_ttl_filter packet a 8 = bpf_run low_ttl_filter packet a (if a = 255 then 10 else 9)"
  "bpf_run low_ttl_filter packet a 9 = 65536"
  "bpf_run low_ttl_filter packet a 10 = 0"
  by (subst bpf_run.simps, simp add: low_ttl_filter_def)+

text \<open>The program keeps exactly the packets of both versions whose TTL or hop limit is not 255.\<close>

lemma low_ttl_filter_eq:
  "bpf_run low_ttl_filter packet a 0 =
     (if packet \<noteq> [] \<and> (drop_bit 4 (packet ! 0) = 4 \<and> 8 < length packet \<and> packet ! 8 \<noteq> 255 \<or>
                        drop_bit 4 (packet ! 0) = 6 \<and> 7 < length packet \<and> packet ! 7 \<noteq> 255)
      then 65536 else 0)"
  by (cases "drop_bit 4 (packet ! 0) = 4"; cases "drop_bit 4 (packet ! 0) = 6")
    (simp_all only: filter_steps loaded_byte if_True if_False length_greater_0_conv, auto simp: filter_steps loaded_byte)

section \<open>The header loop ends\<close>

lemma ip6_header_bounds:
  assumes "ip6_header packet len kind offset = Some (k, sz)"
  shows "offset < len" "len \<le> length packet" "8 \<le> sz"
  using assms
  by (auto simp: ip6_header_def byte_at_def bytes_at_def Let_def split: option.splits if_splits bind_splits)

lemma ip6_headers_total: "\<exists>r. ip6_headers packet len kind offset = Some r"
proof (induction "len - offset" arbitrary: kind offset rule: less_induct)
  case less
  show ?case
  proof (cases "ip6_header packet len kind offset")
    case None
    then show ?thesis by (simp add: ip6_headers.simps [of packet len kind offset])
  next
    case (Some p)
    obtain k sz where p: "p = (k, sz)" by (cases p)
    have "len - (offset + sz) < len - offset" using ip6_header_bounds [of packet len kind offset k sz] Some p by simp
    from less [OF this, of k] show ?thesis by (simp add: ip6_headers.simps [of packet len kind offset] Some p)
  qed
qed

lemma parse_ip6_total: "\<exists>r. parse_ip6 packet = Some r"
proof -
  obtain r where "ip6_headers packet (40 + unat (from_be16 [packet ! 4, packet ! 5])) (packet ! 6) 40 = Some r"
    using ip6_headers_total by blast
  then show ?thesis by (simp add: parse_ip6_def Let_def split: option.splits)
qed

section \<open>Packets as the IP standards describe them\<close>

text \<open>
  An IPv6 extension header by its kind and what follows its first byte. A header is well formed when its size
  is the one its kind gives; a fragment header is the one of a first fragment.
\<close>

definition wf_extension :: "u8 \<times> bytes \<Rightarrow> bool" where
  "wf_extension = (\<lambda>(kind, body).
     (kind = 0 \<or> kind = 43 \<or> kind = 60) \<and> body \<noteq> [] \<and> Suc (length body) = (unat (body ! 0) + 1) * 8 \<or>
     kind = 51 \<and> body \<noteq> [] \<and> Suc (length body) = (unat (body ! 0) + 2) * 4 \<and>
       12 \<le> Suc (length body) \<and> Suc (length body) mod 8 = 0 \<or>
     kind = 44 \<and> length body = 7 \<and> from_be16 [body ! 1, body ! 2] AND 0xFFF8 = 0)"

fun first_kind :: "(u8 \<times> bytes) list \<Rightarrow> u8" where
  "first_kind [] = 6"
| "first_kind ((kind, body) # exts) = kind"

fun extension_bytes :: "(u8 \<times> bytes) list \<Rightarrow> bytes" where
  "extension_bytes [] = []"
| "extension_bytes ((kind, body) # exts) = first_kind exts # body @ extension_bytes exts"

definition ip6_packet ::
  "u8 \<Rightarrow> bytes \<Rightarrow> u8 \<Rightarrow> ipv6 \<Rightarrow> ipv6 \<Rightarrow> (u8 \<times> bytes) list \<Rightarrow> bytes \<Rightarrow> bytes \<Rightarrow> bytes" where
  "ip6_packet b flow hops source dest exts tcp pad =
     b # flow @ to_be16 (of_nat (length (extension_bytes exts) + length tcp)) @ [first_kind exts, hops] @
     octets6 source @ octets6 dest @ extension_bytes exts @ tcp @ pad"

definition ip4_packet ::
  "u8 \<Rightarrow> u8 \<Rightarrow> bytes \<Rightarrow> u16 \<Rightarrow> u8 \<Rightarrow> bytes \<Rightarrow> ipv4 \<Rightarrow> ipv4 \<Rightarrow> bytes \<Rightarrow> bytes \<Rightarrow> bytes \<Rightarrow> bytes" where
  "ip4_packet b tos ident fragment ttl checksum source dest options tcp pad =
     [b, tos] @ to_be16 (of_nat (20 + length options + length tcp)) @ ident @ to_be16 fragment @ [ttl, 6] @ checksum @
     octets4 source @ octets4 dest @ options @ tcp @ pad"

definition tcp_header :: "bytes \<Rightarrow> u16 \<Rightarrow> u16 \<Rightarrow> bool" where
  "tcp_header tcp source_port dest_port \<longleftrightarrow>
     20 \<le> length tcp \<and> take 4 tcp = to_be16 source_port @ to_be16 dest_port \<and> 5 \<le> drop_bit 4 (tcp ! 12)"

lemma two_bytes: "i + 1 < length xs \<Longrightarrow> [xs ! i, xs ! (i + 1)] = take 2 (drop i xs)"
  by (rule nth_equalityI) (auto simp: less_Suc_eq numeral_2_eq_2)

lemma four_bytes: "i + 3 < length xs \<Longrightarrow> [xs ! i, xs ! (i + 1), xs ! (i + 2), xs ! (i + 3)] = take 4 (drop i xs)"
  by (rule nth_equalityI) (auto simp: less_Suc_eq eval_nat_numeral)

lemma ip6_header_extension:
  assumes "wf_extension (kind, body)"
  shows "ip6_header (pre @ (n # body) @ rest @ pad) (length pre + length (n # body) + length rest) kind (length pre) =
    Some (n, Suc (length body))"
proof -
  let ?h = "(n # body) @ rest"
  have header: "bytes_at (pre @ (n # body) @ rest @ pad) (length pre) (length pre + length (n # body) + length rest) = Some ?h"
    by (simp add: bytes_at_def)
  have first: "byte_at ?h 0 = Some n" by (simp add: byte_at_def)
  have second: "body \<noteq> [] \<Longrightarrow> byte_at ?h 1 = Some (body ! 0)" by (simp add: byte_at_def nth_append)
  have third: "length body = 7 \<Longrightarrow> byte_at ?h 2 = Some (body ! 1)" "length body = 7 \<Longrightarrow> byte_at ?h 3 = Some (body ! 2)"
    by (simp_all add: byte_at_def nth_append nth_Cons')
  note eval = ip6_header_def header bind.bind_lunit first Let_def
  from assms consider (options) "kind = 0 \<or> kind = 43 \<or> kind = 60" "body \<noteq> []" "Suc (length body) = (unat (body ! 0) + 1) * 8"
    | (auth) "kind = 51" "body \<noteq> []" "Suc (length body) = (unat (body ! 0) + 2) * 4" "12 \<le> Suc (length body)" "Suc (length body) mod 8 = 0"
    | (fragment) "kind = 44" "length body = 7" "from_be16 [body ! 1, body ! 2] AND 0xFFF8 = 0"
    unfolding wf_extension_def prod.case by metis
  then show ?thesis
  proof cases
    case options
    then show ?thesis unfolding eval second [OF options(2)] by simp
  next
    case auth
    then show ?thesis unfolding eval second [OF auth(2)] by (simp only: auth(3) [symmetric]) simp
  next
    case fragment
    then show ?thesis unfolding eval third [OF fragment(2)] by simp
  qed
qed

lemma ip6_headers_extensions:
  assumes "\<forall>e \<in> set exts. wf_extension e"
  shows "ip6_headers (pre @ extension_bytes exts @ rest @ pad) (length pre + length (extension_bytes exts) + length rest)
      (first_kind exts) (length pre) = Some (Some (length pre + length (extension_bytes exts)))"
  using assms
proof (induction exts arbitrary: pre)
  case Nil
  then show ?case by (subst ip6_headers.simps) simp
next
  case (Cons e exts)
  obtain kind body where e: "e = (kind, body)" by (cases e)
  have wf: "wf_extension (kind, body)" using Cons.prems e by simp
  then have "kind \<noteq> 6" by (auto simp: wf_extension_def)
  let ?p = "pre @ first_kind exts # body"
  have "ip6_headers (?p @ extension_bytes exts @ rest @ pad) (length ?p + length (extension_bytes exts) + length rest)
      (first_kind exts) (length ?p) = Some (Some (length ?p + length (extension_bytes exts)))"
    by (rule Cons.IH) (use Cons.prems in simp)
  moreover note ip6_header_extension [OF wf, of pre "first_kind exts" "extension_bytes exts @ rest" pad]
  ultimately show ?case using \<open>kind \<noteq> 6\<close> by (subst ip6_headers.simps) (simp add: e add.assoc)
qed

section \<open>Every segment is identified\<close>

lemma tcp_ports_eq:
  assumes "tcp_header tcp source_port dest_port" "length pre = offset"
  shows "tcp_ports (pre @ tcp @ pad) interface (source, dest, offset) =
    Some \<lparr>cn_local = scoped_addr interface dest dest_port, cn_peer = scoped_addr interface source source_port\<rparr>"
proof -
  note t = assms(1) [unfolded tcp_header_def]
  have b: "bytes_at (pre @ tcp @ pad) offset (offset + 20) = Some (take 20 tcp)"
    using t assms(2) by (simp add: bytes_at_def)
  have "[tcp ! 0, tcp ! 1] = take 2 (take 4 tcp)" "[tcp ! 2, tcp ! 3] = drop 2 (take 4 tcp)"
    using two_bytes [of 0 tcp] two_bytes [of 2 tcp] conjunct1 [OF t] by (simp_all add: drop_take)
  moreover have "take 4 tcp = to_be16 source_port @ to_be16 dest_port" using t by simp
  ultimately have "[tcp ! 0, tcp ! 1] = to_be16 source_port" "[tcp ! 2, tcp ! 3] = to_be16 dest_port" by simp_all
  then show ?thesis using t by (simp add: tcp_ports_def b not_less [symmetric])
qed

lemma ip6_packet_parse:
  assumes "drop_bit 4 b = 6" "length flow = 3" "\<forall>e \<in> set exts. wf_extension e"
    and "length (extension_bytes exts) + length tcp < 2 ^ 16" "tcp_header tcp source_port dest_port"
  shows "parse_ip6 (ip6_packet b flow hops source dest exts tcp pad) =
    Some (if hops = 255 then None else Some (IpV6 source, IpV6 dest, 40 + length (extension_bytes exts)))"
proof -
  let ?len = "length (extension_bytes exts) + length tcp"
  define pre where "pre = b # flow @ to_be16 (of_nat ?len) @ [first_kind exts, hops] @ octets6 source @ octets6 dest"
  have p: "ip6_packet b flow hops source dest exts tcp pad = pre @ extension_bytes exts @ tcp @ pad"
    by (simp add: ip6_packet_def pre_def)
  have len: "length pre = 40" using assms(2) by (simp add: pre_def)
  have tcp: "20 \<le> length tcp" using assms(5) by (simp add: tcp_header_def)
  have nth: "(pre @ rest) ! 4 = to_be16 (of_nat ?len) ! 0" "(pre @ rest) ! 5 = to_be16 (of_nat ?len) ! 1"
    "(pre @ rest) ! 6 = first_kind exts" "(pre @ rest) ! 7 = hops" for rest
    using assms(2) by (simp_all add: pre_def nth_append nth_Cons')
  have "[to_be16 (of_nat ?len) ! 0, to_be16 (of_nat ?len) ! 1] = to_be16 (of_nat ?len)"
    using two_bytes [of 0 "to_be16 (of_nat ?len)"] by simp
  then have l: "unat (from_be16 [to_be16 (of_nat ?len) ! 0, to_be16 (of_nat ?len) ! 1]) = ?len"
    using assms(4) by (simp only: from_be_to_be unat_of_nat) simp
  have addr: "take 16 (drop 8 (pre @ rest)) = octets6 source" "take 16 (drop 24 (pre @ rest)) = octets6 dest" for rest
    using assms(2) by (simp_all add: pre_def)
  have walk: "ip6_headers (pre @ extension_bytes exts @ tcp @ pad) (40 + ?len) (first_kind exts) 40 =
      Some (Some (40 + length (extension_bytes exts)))"
    using ip6_headers_extensions [OF assms(3), of pre tcp pad] by (simp add: len add.assoc)
  show ?thesis unfolding p parse_ip6_def nth l addr Let_def walk using len tcp by simp
qed

lemma ip4_packet_parse:
  assumes "drop_bit 4 b = 4" "unat (b AND 15) * 4 = 20 + length options" "length ident = 2" "length checksum = 2"
    and "20 + length options + length tcp < 2 ^ 16" "tcp_header tcp source_port dest_port"
  shows "parse_ip4 (ip4_packet b tos ident fragment ttl checksum source dest options tcp pad) =
    (if ttl = 255 \<or> fragment AND 0x1FFF \<noteq> 0 then None else Some (IpV4 source, IpV4 dest, 20 + length options))"
proof -
  let ?len = "20 + length options + length tcp"
  define pre where "pre = [b, tos] @ to_be16 (of_nat ?len) @ ident @ to_be16 fragment @ [ttl, 6] @ checksum @
    octets4 source @ octets4 dest"
  have p: "ip4_packet b tos ident fragment ttl checksum source dest options tcp pad = pre @ options @ tcp @ pad"
    by (simp add: ip4_packet_def pre_def)
  have len: "length pre = 20" using assms(3,4) by (simp add: pre_def)
  have tcp: "20 \<le> length tcp" using assms(6) by (simp add: tcp_header_def)
  have nth: "(pre @ rest) ! 0 = b" "(pre @ rest) ! 8 = ttl" "(pre @ rest) ! 9 = 6" for rest
    using assms(3,4) by (simp_all add: pre_def nth_append nth_Cons')
  have drops: "take 2 (drop 2 (pre @ rest)) = to_be16 (of_nat ?len)" "take 2 (drop 6 (pre @ rest)) = to_be16 fragment"
    "take 4 (drop 12 (pre @ rest)) = octets4 source" "take 4 (drop 16 (pre @ rest)) = octets4 dest" for rest
    using assms(3,4) by (simp_all add: pre_def)
  have words: "[(pre @ rest) ! 2, (pre @ rest) ! 3] = to_be16 (of_nat ?len)" "[(pre @ rest) ! 6, (pre @ rest) ! 7] = to_be16 fragment"
    "[(pre @ rest) ! 12, (pre @ rest) ! 13, (pre @ rest) ! 14, (pre @ rest) ! 15] = octets4 source"
    "[(pre @ rest) ! 16, (pre @ rest) ! 17, (pre @ rest) ! 18, (pre @ rest) ! 19] = octets4 dest" for rest
    using two_bytes [of 2 "pre @ rest"] two_bytes [of 6 "pre @ rest"] four_bytes [of 12 "pre @ rest"]
      four_bytes [of 16 "pre @ rest"] drops [of rest] len by simp_all
  have l: "unat (from_be16 (to_be16 (of_nat ?len))) = ?len" using assms(5) by (simp only: from_be_to_be unat_of_nat) simp
  show ?thesis unfolding p parse_ip4_def nth words l Let_def using assms(2) len tcp by simp
qed

section \<open>The table follows the registrations\<close>

definition sockets_ok :: "monitor_state \<Rightarrow> registration list \<Rightarrow> registration set \<Rightarrow> bool" where
  "sockets_ok state H L \<longleftrightarrow>
     (\<forall>connection socket. map_of (ms_sockets state) connection = Some socket \<longleftrightarrow>
        (\<exists>reg \<in> L. latest H connection = Some reg \<and> rg_socket reg = socket)) \<and>
     L \<subseteq> set H \<and> distinct (map rg_socket H)"

lemma latestD: "latest H c = Some reg \<Longrightarrow> reg \<in> set H \<and> rg_connection reg = c"
  by (auto simp: latest_def find_Some_iff)

lemma register_table_ok:
  assumes ok: "sockets_ok state H L" and fresh: "socket \<notin> rg_socket ` set H"
    and reg: "monitor_register state local peer socket = Inr (state', reg)"
  shows "sockets_ok state' (reg # H) (insert reg L)"
proof -
  have r: "rg_socket reg = socket" "ms_sockets state' = AList.update (rg_connection reg) socket (ms_sockets state)"
    using reg by (auto simp: monitor_register_def Let_def split: if_splits)
  then have "reg \<notin> set H" using fresh by auto
  then have other: "latest H c \<noteq> Some reg" for c using latestD by blast
  have "map_of (ms_sockets state') c = Some s \<longleftrightarrow>
      (\<exists>k \<in> insert reg L. latest (reg # H) c = Some k \<and> rg_socket k = s)" for c s
  proof (cases "c = rg_connection reg")
    case True
    then show ?thesis by (simp add: r update_conv' latest_def)
  next
    case False
    then have "latest (reg # H) c = latest H c" by (auto simp: latest_def)
    then show ?thesis using False ok other [of c] by (auto simp: r update_conv' sockets_ok_def)
  qed
  then show ?thesis using ok fresh r(1) by (auto simp: sockets_ok_def)
qed

lemma drop_table_ok:
  assumes ok: "sockets_ok state H L" and live: "reg \<in> L"
  shows "sockets_ok (registration_drop state reg) H (L - {reg})"
proof -
  have inj: "inj_on rg_socket (set H)" and sub: "L \<subseteq> set H" using ok by (auto simp: sockets_ok_def distinct_map)
  have table: "map_of (ms_sockets state) c = Some s \<longleftrightarrow> (\<exists>k \<in> L. latest H c = Some k \<and> rg_socket k = s)" for c s
    using ok by (simp add: sockets_ok_def)
  have "map_of (ms_sockets (registration_drop state reg)) c = Some s \<longleftrightarrow>
      (\<exists>k \<in> L - {reg}. latest H c = Some k \<and> rg_socket k = s)" for c s
  proof (cases "map_of (ms_sockets state) (rg_connection reg) = Some (rg_socket reg)")
    case True
    then obtain k where k: "k \<in> L" "latest H (rg_connection reg) = Some k" "rg_socket k = rg_socket reg"
      using table by blast
    have "k = reg" by (rule inj_onD [OF inj k(3)]) (use k(1) live sub in auto)
    then have reg: "latest H (rg_connection reg) = Some reg" using k(2) by simp
    show ?thesis
    proof (cases "c = rg_connection reg")
      case c: True
      then show ?thesis using True reg by (simp add: registration_drop_def delete_conv')
    next
      case c: False
      then have "latest H c \<noteq> Some reg" using latestD [of H c reg] by auto
      moreover have "map_of (ms_sockets (registration_drop state reg)) c = map_of (ms_sockets state) c"
        using c True by (simp add: registration_drop_def delete_conv')
      ultimately show ?thesis using table [of c s] by force
    qed
  next
    case False
    then have "latest H (rg_connection reg) \<noteq> Some reg" using table live by blast
    then have "latest H c \<noteq> Some reg" using latestD [of H c reg] by auto
    moreover have "registration_drop state reg = state" using False by (simp add: registration_drop_def)
    ultimately show ?thesis using table [of c s] by force
  qed
  then show ?thesis using ok by (auto simp: sockets_ok_def)
qed

lemma monitor_live_ok: "monitor_live state H L \<Longrightarrow> sockets_ok state H L"
proof (induction rule: monitor_live.induct)
  case new
  then show ?case by (simp add: monitor_new_def sockets_ok_def)
next
  case (failed state H L state' resets)
  then show ?case by (auto simp: monitor_failure_def sockets_ok_def)
qed (blast intro: register_table_ok drop_table_ok)+

section \<open>Properties\<close>

text \<open>
  C17: the parser of packets ends on every packet, whatever chain of headers it claims to have; a packet it assigns
  to a connection has a TTL or hop limit other than 255, and the filter in the kernel lets it through whole.
\<close>

theorem packet_parser_terminates:
  "(\<exists>r. low_ttl_connection packet interface = Some r) \<and>
   (low_ttl_connection packet interface = Some (Some connection) \<longrightarrow>
      packet ! (if drop_bit 4 (packet ! 0) = 4 then 8 else 7) \<noteq> 255 \<and> bpf_run low_ttl_filter packet 0 0 = 65536)"
proof -
  obtain r where r: "parse_ip6 packet = Some r" using parse_ip6_total by blast
  then have total: "\<exists>r. low_ttl_connection packet interface = Some r" by (simp add: low_ttl_connection_def split: option.splits)
  have "packet ! (if drop_bit 4 (packet ! 0) = 4 then 8 else 7) \<noteq> 255 \<and> bpf_run low_ttl_filter packet 0 0 = 65536"
    if found: "low_ttl_connection packet interface = Some (Some connection)"
  proof -
    from found have ne: "packet \<noteq> []" by (auto simp: low_ttl_connection_def byte_at_def split: if_splits)
    consider (v4) "drop_bit 4 (packet ! 0) = 4" "parse_ip4 packet \<noteq> None"
      | (v6) "drop_bit 4 (packet ! 0) = 6" "r \<noteq> None"
      using found ne r by (auto simp: low_ttl_connection_def byte_at_def bind_eq_Some_conv split: if_splits)
    then show ?thesis
    proof cases
      case v4
      then show ?thesis using ne by (auto simp: low_ttl_filter_eq parse_ip4_def split: if_splits)
    next
      case v6
      then have "7 < length packet" "packet ! 7 \<noteq> 255" using r by (auto simp: parse_ip6_def split: if_splits)
      then show ?thesis using ne v6 by (simp add: low_ttl_filter_eq)
    qed
  qed
  with total show ?thesis by blast
qed

text \<open>A segment with a TTL of 64.\<close>

definition sample_tcp :: bytes where
  "sample_tcp = [3, 86, 3, 87, 0, 0, 0, 0, 0, 0, 0, 0, 0x50, 0, 0, 0, 0, 0, 0, 0]"

definition sample_packet :: bytes where
  "sample_packet = [0x45, 0, 0, 40, 0, 0, 0, 0, 64, 6, 0, 0, 10, 0, 0, 1, 10, 0, 0, 2] @ sample_tcp"

definition sample_connection :: tcp_connection where
  "sample_connection = \<lparr>cn_local = SocketV4 0x0A000002 855, cn_peer = SocketV4 0x0A000001 854\<rparr>"

lemma sample_found: "low_ttl_connection sample_packet 1 = Some (Some sample_connection)"
  by (simp add: low_ttl_connection_def sample_packet_def sample_tcp_def byte_at_def parse_ip4_def tcp_ports_def bytes_at_def
      from_be16_def ipv4_of_def be_val_def sample_connection_def)

theorem packet_parser_terminates_witness:
  "bpf_run low_ttl_filter sample_packet 0 0 = 65536 \<and> (\<exists>r. low_ttl_connection (replicate 40 0x60) 1 = Some r)"
  using packet_parser_terminates sample_found by blast



text \<open>
  C15: resets hit exactly the violated connection. The table holds, for each connection, its latest registration as long as it
  exists, even if the addresses are reused before an older one is dropped: an incoming packet with a wrong
  TTL resets the socket of that registration and no other. When the monitor fails, all
  sockets in the table are reset and no connection is registered any more.
\<close>

theorem monitor_resets_exactly:
  assumes "monitor_live state H L"
  shows "(reg \<in> L \<and> latest H (rg_connection reg) = Some reg \<and>
      low_ttl_connection packet ifindex = Some (Some (rg_connection reg)) \<and>
      (protocol = ETH_P_IP \<or> protocol = ETH_P_IPV6) \<and> pkttype \<noteq> PACKET_OUTGOING \<longrightarrow>
      monitor_packet state protocol pkttype ifindex packet = Some (Some (rg_socket reg))) \<and>
    (monitor_packet state protocol pkttype ifindex packet = Some (Some socket) \<longrightarrow>
      (\<exists>reg \<in> L. rg_socket reg = socket \<and> latest H (rg_connection reg) = Some reg \<and>
        low_ttl_connection packet ifindex = Some (Some (rg_connection reg)))) \<and>
    (monitor_failure state = (state', resets) \<and> reg \<in> L \<and> latest H (rg_connection reg) = Some reg \<longrightarrow>
      rg_socket reg \<in> set resets \<and> (\<exists>e. monitor_register state' local peer fd = Inl e))"
proof -
  have table: "map_of (ms_sockets state) c = Some s \<longleftrightarrow> (\<exists>reg \<in> L. latest H c = Some reg \<and> rg_socket reg = s)" for c s
    using monitor_live_ok [OF assms] by (simp add: sockets_ok_def)
  have "monitor_packet state protocol pkttype ifindex packet = Some (Some (rg_socket reg))"
    if "reg \<in> L" "latest H (rg_connection reg) = Some reg" "low_ttl_connection packet ifindex = Some (Some (rg_connection reg))"
      "protocol = ETH_P_IP \<or> protocol = ETH_P_IPV6" "pkttype \<noteq> PACKET_OUTGOING"
    using that table [of "rg_connection reg" "rg_socket reg"] by (simp add: monitor_packet_def)
  moreover have "\<exists>reg \<in> L. rg_socket reg = socket \<and> latest H (rg_connection reg) = Some reg \<and>
      low_ttl_connection packet ifindex = Some (Some (rg_connection reg))"
    if packet: "monitor_packet state protocol pkttype ifindex packet = Some (Some socket)"
  proof -
    obtain c where c: "low_ttl_connection packet ifindex = Some (Some c)" "map_of (ms_sockets state) c = Some socket"
      using packet by (auto simp: monitor_packet_def bind_eq_Some_conv split: if_splits)
    then obtain reg where reg: "reg \<in> L" "latest H c = Some reg" "rg_socket reg = socket" using table by blast
    then have "rg_connection reg = c" by (auto simp: latest_def find_Some_iff)
    then show ?thesis using c(1) reg by blast
  qed
  moreover have "rg_socket reg \<in> set resets \<and> (\<exists>e. monitor_register state' local peer fd = Inl e)"
    if "monitor_failure state = (state', resets)" "reg \<in> L" "latest H (rg_connection reg) = Some reg"
    using that table [of "rg_connection reg" "rg_socket reg"] map_of_SomeD
    by (force simp: monitor_failure_def monitor_register_def)
  ultimately show ?thesis by blast
qed

definition sample_monitor :: monitor_state where
  "sample_monitor = \<lparr>ms_sockets = [(sample_connection, 7)], ms_failed = False\<rparr>"

theorem monitor_resets_exactly_witness:
  "monitor_packet sample_monitor ETH_P_IP 0 1 sample_packet = Some (Some 7)"
proof -
  let ?reg = "\<lparr>rg_connection = sample_connection, rg_socket = 7\<rparr>"
  have "monitor_register monitor_new (SocketV4 0x0A000002 855) (SocketV4 0x0A000001 854) 7 = Inr (sample_monitor, ?reg)"
    by (simp add: monitor_register_def monitor_new_def normalize_def sample_monitor_def sample_connection_def Let_def)
  from monitor_live.registered [OF monitor_live.new _ this]
  have live: "monitor_live sample_monitor [?reg] {?reg}" by simp
  show ?thesis using conjunct1 [OF monitor_resets_exactly [OF live, of ?reg sample_packet 1 ETH_P_IP 0]] sample_found
    by (simp add: latest_def PACKET_OUTGOING_def)
qed

end
