(* ===== verification/Daemon_Api.thy ===== *)
theory Daemon_Api
  imports Connections Link_Control
begin

text \<open>
  The calls of an application on the daemons (\<open>dlep-daemon/router.rs\<close>, \<open>dlep-daemon/modem.rs\<close>): the
  commands with what is checked before they are dispatched to the sessions, the choice of endpoints
  of an offer, and the admission of connections with its slots. The channels of the sessions are
  functions of the request, as in \<open>dispatch_command\<close>, after the closed ones were dropped. What a
  connection attempt of the transport yields is an argument.
\<close>

type_synonym ('n, 'm) senders = "(('n, 'm) session_request \<Rightarrow> delivery) list"

section \<open>Commands of a modem\<close>

record modem_daemon =
  md_initial_metrics :: link_metrics

definition modem_validate_metrics ::
  "('n, 'm) packages \<Rightarrow> modem_daemon \<Rightarrow> link_metrics \<Rightarrow> daemon_error + unit" where
  "modem_validate_metrics P md metrics =
     (if \<not> supported_by metrics (md_initial_metrics md)
      then Inl (ErrConfig ''optional metric was not declared in ModemConfig.metrics'')
      else try_then (map_err ErrCodec (message_encode P (build_session_update metrics))) (\<lambda>_. Inr ()))"

definition send_command_to ::
  "('n, 'm) senders \<Rightarrow> session_id \<Rightarrow> ('n, 'm) session_command \<Rightarrow> daemon_error + unit" where
  "send_command_to senders sid cmd = dispatch_command senders cmd (Some sid)"

definition fanout :: "('n, 'm) senders \<Rightarrow> ('n, 'm) session_command \<Rightarrow> daemon_error + unit" where
  "fanout senders cmd = dispatch_command senders cmd None"

definition modem_add_destination_with_addresses ::
  "('n, 'm) packages \<Rightarrow> modem_daemon \<Rightarrow> ('n, 'm) senders \<Rightarrow> mac_address \<Rightarrow> link_metrics \<Rightarrow>
     ('n, 'm) destination_addrs \<Rightarrow> daemon_error + unit" where
  "modem_add_destination_with_addresses P md senders mac metrics addresses =
     try_then (modem_validate_metrics P md metrics) (\<lambda>_.
     let changes = \<lparr>added = addrs_canonical P addresses, removed = no_addrs\<rparr> in
     try_then (validate_address_changes P changes) (\<lambda>_.
     try_then (map_err ErrCodec (message_encode P (build_destination_up mac metrics (added changes)))) (\<lambda>_.
     fanout senders (CmdAddDestination mac metrics (added changes)))))"

definition modem_daemon_add_destination ::
  "('n, 'm) packages \<Rightarrow> modem_daemon \<Rightarrow> ('n, 'm) senders \<Rightarrow> mac_address \<Rightarrow> link_metrics \<Rightarrow> daemon_error + unit" where
  "modem_daemon_add_destination P md senders mac metrics =
     modem_add_destination_with_addresses P md senders mac metrics no_addrs"

definition modem_update_destination_addresses ::
  "('n, 'm) packages \<Rightarrow> ('n, 'm) senders \<Rightarrow> mac_address \<Rightarrow> ('n, 'm) address_changes \<Rightarrow> daemon_error + unit" where
  "modem_update_destination_addresses P senders mac changes =
     try_then (validate_address_changes P changes) (\<lambda>_.
     fanout senders (CmdUpdateDestinationAddresses mac (changes_canonical P changes)))"

definition modem_update_destination ::
  "('n, 'm) packages \<Rightarrow> modem_daemon \<Rightarrow> ('n, 'm) senders \<Rightarrow> mac_address \<Rightarrow> link_metrics \<Rightarrow> daemon_error + unit" where
  "modem_update_destination P md senders mac metrics =
     try_then (modem_validate_metrics P md metrics) (\<lambda>_. fanout senders (CmdUpdateDestination mac metrics))"

definition modem_daemon_drop_destination ::
  "('n, 'm) senders \<Rightarrow> mac_address \<Rightarrow> status_code \<Rightarrow> daemon_error + unit" where
  "modem_daemon_drop_destination senders mac reason = fanout senders (CmdDropDestination mac reason)"

definition modem_update_session_metrics ::
  "('n, 'm) packages \<Rightarrow> modem_daemon \<Rightarrow> ('n, 'm) senders \<Rightarrow> link_metrics \<Rightarrow> daemon_error + unit" where
  "modem_update_session_metrics P md senders metrics =
     try_then (modem_validate_metrics P md metrics) (\<lambda>_. fanout senders (CmdSessionUpdate metrics))"

definition daemon_update_session_addresses ::
  "('n, 'm) packages \<Rightarrow> ('n, 'm) senders \<Rightarrow> session_id \<Rightarrow> ('n, 'm) address_changes \<Rightarrow> daemon_error + unit" where
  "daemon_update_session_addresses P senders sid changes =
     try_then (validate_address_changes P changes) (\<lambda>_.
     fanout senders (CmdUpdateSessionAddresses sid (changes_canonical P changes)))"

section \<open>Commands of a router\<close>

definition router_daemon_announce_destination :: "('n, 'm) senders \<Rightarrow> mac_address \<Rightarrow> daemon_error + unit" where
  "router_daemon_announce_destination senders mac = fanout senders (CmdAnnounceDestination mac)"

definition router_daemon_drop_destination ::
  "('n, 'm) senders \<Rightarrow> session_id \<Rightarrow> mac_address \<Rightarrow> daemon_error + unit" where
  "router_daemon_drop_destination senders sid mac = fanout senders (CmdDropDestinationForSession sid mac)"

definition router_daemon_request_link_characteristics ::
  "('n, 'm) packages \<Rightarrow> ('n, 'm) senders \<Rightarrow> session_id \<Rightarrow> mac_address \<Rightarrow> link_characteristics \<Rightarrow> daemon_error + unit" where
  "router_daemon_request_link_characteristics P senders sid mac requested =
     (if lc_is_empty requested
      then Inl (ErrConfig ''at least one link characteristic must be requested'')
      else
        try_then (map_err ErrCodec (message_encode P (build_link_characteristics_request mac requested))) (\<lambda>_.
        fanout senders (CmdRequestLinkCharacteristics sid mac requested)))"

definition router_update_session_metrics :: "link_metrics \<Rightarrow> daemon_error + unit" where
  "router_update_session_metrics metrics =
     Inl (ErrConfig ''only a modem may originate session metrics (RFC 8175 section 12.7)'')"

section \<open>Connections of a router\<close>

text \<open>
  The endpoints of an offer in turn: \<open>dial\<close> is what \<open>connect_static\<close> returns for an address, \<open>error\<close>
  the last error. The result is the outcome with the addresses that were dialled.
\<close>

fun dial_endpoints ::
  "bool \<Rightarrow> (socket_addr \<Rightarrow> daemon_error + unit) \<Rightarrow> daemon_error \<Rightarrow> offer_endpoint list \<Rightarrow>
     (daemon_error + socket_addr) \<times> socket_addr list" where
  "dial_endpoints tls dial error [] = (Inl error, [])"
| "dial_endpoints tls dial error (endpoint # endpoints) =
     (if ep_use_tls endpoint \<noteq> tls then dial_endpoints tls dial error endpoints
      else
        case dial (ep_addr endpoint) of
          Inr _ \<Rightarrow> (Inr (ep_addr endpoint), [ep_addr endpoint])
        | Inl e \<Rightarrow>
            (let (outcome, tried) = dial_endpoints tls dial e endpoints in
             (outcome, ep_addr endpoint # tried)))"

definition connect_discovered ::
  "bool \<Rightarrow> (socket_addr \<Rightarrow> daemon_error + unit) \<Rightarrow> peer_offer \<Rightarrow> (daemon_error + socket_addr) \<times> socket_addr list" where
  "connect_discovered tls dial offer =
     dial_endpoints tls dial (ErrConfig ''offer has no compatible connection points'') (po_endpoints offer)"

text \<open>
  The session slots and the connection history of a router. \<open>connect_static\<close> takes a slot,
  connects, and registers the address of the transport; the slot stays with the session or is
  given back.
\<close>

record router_slots =
  rs_permits :: nat
  rs_registry :: connection_registry

definition connect_acquire :: "router_slots \<Rightarrow> daemon_error + router_slots" where
  "connect_acquire rs =
     (if rs_permits rs = 0 then Inl SessionLimitReached else Inr (rs\<lparr>rs_permits := rs_permits rs - 1\<rparr>))"

definition connect_finish ::
  "bool \<Rightarrow> bool \<Rightarrow> router_slots \<Rightarrow> io_error + socket_addr \<Rightarrow> duration \<Rightarrow>
     panic + router_slots \<times> (daemon_error + socket_addr)" where
  "connect_finish tls client_tls rs transport now =
     (let released = rs\<lparr>rs_permits := rs_permits rs + 1\<rparr> in
      if tls \<and> \<not> client_tls
      then Inr (released, Inl (ErrConfig ''use_tls = true requires RouterBuilder::with_rustls_client(...)''))
      else
        case transport of
          Inl e \<Rightarrow> Inr (released, Inl (ErrIo e))
        | Inr addr \<Rightarrow>
            try_then (registry_register (rs_registry rs) addr now) (\<lambda>(registry, tracker).
            case tracker of
              Inl e \<Rightarrow> Inr (released\<lparr>rs_registry := registry\<rparr>, Inl e)
            | Inr tracker \<Rightarrow> Inr (rs\<lparr>rs_registry := registry\<rparr>, Inr tracker)))"

definition router_session_end :: "router_slots \<Rightarrow> socket_addr \<Rightarrow> duration \<Rightarrow> duration \<Rightarrow> panic + router_slots" where
  "router_session_end rs tracker at now =
     try_then (tracker_drop (rs_registry rs) tracker at now) (\<lambda>registry.
     Inr (rs\<lparr>rs_registry := registry, rs_permits := rs_permits rs + 1\<rparr>))"

definition router_slots_new :: "router_limits \<Rightarrow> socket_addr list \<Rightarrow> router_slots" where
  "router_slots_new limits pinned = \<lparr>rs_permits = max_sessions limits, rs_registry = registry_new limits pinned\<rparr>"

text \<open>The states with the attempts under way and the trackers of the running sessions.\<close>

inductive slots_live ::
  "router_limits \<Rightarrow> socket_addr list \<Rightarrow> router_slots \<Rightarrow> nat \<Rightarrow> socket_addr multiset \<Rightarrow> bool" for limits pinned where
  new: "slots_live limits pinned (router_slots_new limits pinned) 0 {#}"
| acquired: "slots_live limits pinned rs pending T \<Longrightarrow> connect_acquire rs = Inr rs' \<Longrightarrow>
    slots_live limits pinned rs' (Suc pending) T"
| cancelled: "slots_live limits pinned rs (Suc pending) T \<Longrightarrow>
    slots_live limits pinned (rs\<lparr>rs_permits := rs_permits rs + 1\<rparr>) pending T"
| connected: "slots_live limits pinned rs (Suc pending) T \<Longrightarrow>
    connect_finish tls client_tls rs transport now = Inr (rs', Inr tracker) \<Longrightarrow>
    slots_live limits pinned rs' pending (add_mset tracker T)"
| refused: "slots_live limits pinned rs (Suc pending) T \<Longrightarrow>
    connect_finish tls client_tls rs transport now = Inr (rs', Inl e) \<Longrightarrow>
    slots_live limits pinned rs' pending T"
| established: "slots_live limits pinned rs pending T \<Longrightarrow> tracker \<in># T \<Longrightarrow>
    tracker_established (rs_registry rs) tracker = Inr reg' \<Longrightarrow>
    slots_live limits pinned (rs\<lparr>rs_registry := reg'\<rparr>) pending T"
| ended: "slots_live limits pinned rs pending T \<Longrightarrow> tracker \<in># T \<Longrightarrow>
    router_session_end rs tracker at now = Inr rs' \<Longrightarrow>
    slots_live limits pinned rs' pending (T - {#tracker#})"
| pruned: "slots_live limits pinned rs pending T \<Longrightarrow>
    slots_live limits pinned (rs\<lparr>rs_registry := registry_prune (rs_registry rs) now\<rparr>) pending T"

section \<open>Connections of a modem\<close>

record modem_slots =
  ms_permits :: nat
  ms_routers :: connected_routers

definition modem_slots_new :: modem_slots where
  "modem_slots_new = \<lparr>ms_permits = 64, ms_routers = []\<rparr>"

text \<open>
  An accepted TCP stream, with the address of its peer if the transport knows it: the guard that
  the task of the session holds, or none when the stream is closed at once.
\<close>

definition modem_accept ::
  "modem_slots \<Rightarrow> socket_addr option \<Rightarrow> modem_slots \<times> (ip_addr \<times> u32) option" where
  "modem_accept ms peer_addr =
     (if ms_permits ms = 0 then (ms, None)
      else
        case peer_addr of
          None \<Rightarrow> (ms, None)
        | Some addr \<Rightarrow>
            (let (routers, connection) = routers_register (ms_routers ms) addr in
             (ms\<lparr>ms_permits := ms_permits ms - 1, ms_routers := routers\<rparr>, Some connection)))"

definition modem_session_end :: "modem_slots \<Rightarrow> ip_addr \<times> u32 \<Rightarrow> panic + modem_slots" where
  "modem_session_end ms connection =
     try_then (routers_drop (ms_routers ms) connection) (\<lambda>routers.
     Inr (ms\<lparr>ms_permits := ms_permits ms + 1, ms_routers := routers\<rparr>))"

inductive modem_slots_live :: "modem_slots \<Rightarrow> (ip_addr \<times> u32) multiset \<Rightarrow> bool" where
  new: "modem_slots_live modem_slots_new {#}"
| accepted: "modem_slots_live ms T \<Longrightarrow> modem_accept ms peer_addr = (ms', Some connection) \<Longrightarrow>
    modem_slots_live ms' (add_mset connection T)"
| closed: "modem_slots_live ms T \<Longrightarrow> modem_accept ms peer_addr = (ms', None) \<Longrightarrow> modem_slots_live ms' T"
| ended: "modem_slots_live ms T \<Longrightarrow> connection \<in># T \<Longrightarrow> modem_session_end ms connection = Inr ms' \<Longrightarrow>
    modem_slots_live ms' (T - {#connection#})"

section \<open>Admission\<close>

lemma connect_finish_cases:
  assumes "registry_live limits pinned (rs_registry rs) T"
  obtains (connected) rs' tracker where "connect_finish tls client_tls rs transport now = Inr (rs', Inr tracker)"
      "rs_permits rs' = rs_permits rs" "registry_live limits pinned (rs_registry rs') (add_mset tracker T)"
  | (refused) rs' e where "connect_finish tls client_tls rs transport now = Inr (rs', Inl e)"
      "rs_permits rs' = Suc (rs_permits rs)" "registry_live limits pinned (rs_registry rs') T"
proof (cases "tls \<and> \<not> client_tls")
  case True
  with refused assms show thesis by (simp add: connect_finish_def)
next
  case False
  show thesis
  proof (cases transport)
    case (Inl e)
    with refused assms False show thesis by (simp add: connect_finish_def)
  next
    case (Inr addr)
    have ok: "registry_ok limits pinned (rs_registry rs) (count T)" by (rule registry_live_ok [OF assms])
    show thesis
    proof (cases rule: registry_register_cases [OF ok, of addr now])
      case (1 reg')
      then have "connect_finish tls client_tls rs transport now = Inr (rs\<lparr>rs_registry := reg'\<rparr>, Inr addr)"
        using False Inr by (auto simp: connect_finish_def Let_def)
      from connected [OF this] registry_live.registered [OF assms 1(1)] show thesis by simp
    next
      case (2 reg')
      then have "connect_finish tls client_tls rs transport now =
          Inr (rs\<lparr>rs_permits := rs_permits rs + 1, rs_registry := reg'\<rparr>, Inl PeerHistoryFull)"
        using False Inr by (auto simp: connect_finish_def Let_def)
      from refused [OF this] registry_live.refused [OF assms 2(1)] show thesis by simp
    qed
  qed
qed

lemma router_session_end_cases:
  assumes "registry_live limits pinned (rs_registry rs) T" "tracker \<in># T"
  obtains rs' where "router_session_end rs tracker at now = Inr rs'" "rs_permits rs' = Suc (rs_permits rs)"
    "registry_live limits pinned (rs_registry rs') (T - {#tracker#})"
proof -
  have "registry_ok limits pinned (rs_registry rs) (count T)" "0 < count T tracker"
    using registry_live_ok [OF assms(1)] assms(2) by simp_all
  then obtain reg' where d: "tracker_drop (rs_registry rs) tracker at now = Inr reg'"
    by (rule tracker_drop_cases)
  from that registry_live.dropped [OF assms d] d show thesis by (simp add: router_session_end_def)
qed

lemma slots_live_ok:
  "slots_live limits pinned rs pending T \<Longrightarrow>
     registry_live limits pinned (rs_registry rs) T \<and> rs_permits rs + pending + size T = max_sessions limits"
proof (induction rule: slots_live.induct)
  case new
  then show ?case by (simp add: router_slots_new_def registry_live.new)
next
  case (acquired rs pending T rs')
  then show ?case by (auto simp: connect_acquire_def split: if_splits)
next
  case (connected rs pending T tls client_tls transport now rs' tracker)
  then have live: "registry_live limits pinned (rs_registry rs) T" by blast
  show ?case by (cases rule: connect_finish_cases [OF live, of tls client_tls transport now]) (use connected in auto)
next
  case (refused rs pending T tls client_tls transport now rs' e)
  then have live: "registry_live limits pinned (rs_registry rs) T" by blast
  show ?case by (cases rule: connect_finish_cases [OF live, of tls client_tls transport now]) (use refused in auto)
next
  case (established rs pending T tracker reg')
  then show ?case using registry_live.established by auto
next
  case (ended rs pending T tracker at now rs')
  then have live: "registry_live limits pinned (rs_registry rs) T" by blast
  have "size (T - {#tracker#}) + 1 = size T" using ended.hyps(2) by (metis insert_DiffM size_add_mset Suc_eq_plus1)
  then show ?case
    by (cases rule: router_session_end_cases [OF live ended.hyps(2), of at now]) (use ended in auto)
next
  case (pruned rs pending T now)
  then show ?case using registry_live.pruned by auto
qed auto

lemma modem_slots_live_ok:
  "modem_slots_live ms T \<Longrightarrow> routers_live (ms_routers ms) T \<and> ms_permits ms + size T = 64"
proof (induction rule: modem_slots_live.induct)
  case new
  then show ?case by (simp add: modem_slots_new_def routers_live.none)
next
  case (accepted ms T peer_addr ms' connection)
  then show ?case
    by (auto simp: modem_accept_def split: if_splits option.splits prod.splits intro: routers_live.accepted)
next
  case (closed ms T peer_addr ms')
  then show ?case by (auto simp: modem_accept_def split: if_splits option.splits prod.splits)
next
  case (ended ms T connection ms')
  have "size (T - {#connection#}) + 1 = size T" using ended.hyps(2) by (metis insert_DiffM size_add_mset Suc_eq_plus1)
  then show ?case using ended
    by (auto simp: modem_session_end_def try_then_eq_Inr intro: routers_live.closed)
qed

section \<open>Properties\<close>

lemma dial_endpoints_order:
  "case dial_endpoints tls dial initial endpoints of
      (Inr addr, tried) \<Rightarrow> \<exists>before e after. filter (\<lambda>e. ep_use_tls e = tls) endpoints = before @ e # after \<and>
        addr = ep_addr e \<and> tried = map ep_addr before @ [addr] \<and> dial addr = Inr () \<and>
        (\<forall>b \<in> set before. \<exists>err. dial (ep_addr b) = Inl err)
    | (Inl error, tried) \<Rightarrow> tried = map ep_addr (filter (\<lambda>e. ep_use_tls e = tls) endpoints) \<and>
        (\<forall>b \<in> set (filter (\<lambda>e. ep_use_tls e = tls) endpoints). \<exists>err. dial (ep_addr b) = Inl err) \<and>
        (if filter (\<lambda>e. ep_use_tls e = tls) endpoints = [] then error = initial
         else dial (ep_addr (last (filter (\<lambda>e. ep_use_tls e = tls) endpoints))) = Inl error)"
proof (induction endpoints arbitrary: initial)
  case (Cons e endpoints)
  let ?ok = "\<lambda>e. ep_use_tls e = tls"
  show ?case
  proof (cases "?ok e")
    case False
    then have "dial_endpoints tls dial initial (e # endpoints) = dial_endpoints tls dial initial endpoints"
      "filter ?ok (e # endpoints) = filter ?ok endpoints"
      by (simp_all only: dial_endpoints.simps filter.simps if_True if_False not_False_eq_True)
    then show ?thesis using Cons.IH [of initial] by (simp only:)
  next
    case True
    show ?thesis
    proof (cases "dial (ep_addr e)")
      case (Inr u)
      then show ?thesis using True by (auto intro!: exI [of _ "[]"])
    next
      case (Inl err)
      obtain outcome tried where r: "dial_endpoints tls dial err endpoints = (outcome, tried)"
        by (cases "dial_endpoints tls dial err endpoints")
      show ?thesis
      proof (cases outcome)
        case (Inl error)
        then show ?thesis using Cons.IH [of err] True \<open>dial (ep_addr e) = Inl err\<close> r by auto
      next
        case (Inr addr)
        then obtain before k after where "filter ?ok endpoints = before @ k # after" "addr = ep_addr k"
          "tried = map ep_addr before @ [addr]" "dial addr = Inr ()" "\<forall>b \<in> set before. \<exists>err. dial (ep_addr b) = Inl err"
          using Cons.IH [of err] r by auto
        then show ?thesis using True \<open>dial (ep_addr e) = Inl err\<close> r Inr
          by simp (rule exI [of _ "e # before"], rule exI [of _ k], simp)
      qed
    qed
  qed
qed simp

text \<open>
  C22: endpoints of an offer. Only endpoints whose TLS flag is that of the configuration are dialled, so neither side is
  downgraded; they are dialled in the order of the offer up to the first that connects, which is the
  result. Otherwise all of them were dialled and the last error is returned.
\<close>

theorem offer_dialled_in_order:
  fixes tls dial offer
  defines "compatible \<equiv> filter (\<lambda>e. ep_use_tls e = tls) (po_endpoints offer)"
  shows "case connect_discovered tls dial offer of
      (Inr addr, tried) \<Rightarrow> \<exists>before e after. compatible = before @ e # after \<and> addr = ep_addr e \<and>
        tried = map ep_addr before @ [addr] \<and> dial addr = Inr () \<and> (\<forall>b \<in> set before. \<exists>err. dial (ep_addr b) = Inl err)
    | (Inl error, tried) \<Rightarrow> tried = map ep_addr compatible \<and>
        (\<forall>b \<in> set compatible. \<exists>err. dial (ep_addr b) = Inl err) \<and>
        (if compatible = [] then error = ErrConfig ''offer has no compatible connection points''
         else dial (ep_addr (last compatible)) = Inl error)"
  using dial_endpoints_order [where tls = tls and dial = dial and endpoints = "po_endpoints offer"
      and initial = "ErrConfig ''offer has no compatible connection points''"]
  unfolding compatible_def connect_discovered_def .

definition sample_offer :: peer_offer where
  "sample_offer = \<lparr>po_endpoints = [\<lparr>ep_addr = sample_peer 1, ep_use_tls = True\<rparr>, \<lparr>ep_addr = sample_peer 2, ep_use_tls = False\<rparr>,
      \<lparr>ep_addr = sample_peer 3, ep_use_tls = False\<rparr>], po_peer_description = None\<rparr>"

definition sample_dial :: "socket_addr \<Rightarrow> daemon_error + unit" where
  "sample_dial addr = (if addr = sample_peer 3 then Inr () else Inl SessionLimitReached)"

theorem offer_dialled_in_order_witness:
  "connect_discovered False sample_dial sample_offer = (Inr (sample_peer 3), [sample_peer 2, sample_peer 3]) \<and>
   (\<exists>before e after. filter (\<lambda>e. ep_use_tls e = False) (po_endpoints sample_offer) = before @ e # after \<and>
      sample_peer 3 = ep_addr e \<and> [sample_peer 2, sample_peer 3] = map ep_addr before @ [sample_peer 3])"
proof
  show dialled: "connect_discovered False sample_dial sample_offer = (Inr (sample_peer 3), [sample_peer 2, sample_peer 3])"
    by (simp add: connect_discovered_def sample_offer_def sample_dial_def)
  show "\<exists>before e after. filter (\<lambda>e. ep_use_tls e = False) (po_endpoints sample_offer) = before @ e # after \<and>
      sample_peer 3 = ep_addr e \<and> [sample_peer 2, sample_peer 3] = map ep_addr before @ [sample_peer 3]"
    using offer_dialled_in_order [where tls = False and dial = sample_dial and offer = sample_offer] unfolding dialled prod.case sum.case by blast
qed

text \<open>
  C18: admission of sessions. In every interleaving of connection attempts, registrations and ends of sessions a router has
  at most as many attempts and sessions as slots and every slot is given back exactly once; finishing an attempt
  and ending a session never panic. A modem has at most 64 connections, and its table contains
  exactly the routers of those.
\<close>

theorem session_admission:
  "(slots_live limits pinned rs pending T \<longrightarrow>
      rs_permits rs + pending + size T = max_sessions limits \<and>
      (\<exists>r. connect_finish tls client_tls rs transport now = Inr r) \<and>
      (\<forall>p \<in># T. \<exists>rs'. router_session_end rs p at now = Inr rs')) \<and>
   (modem_slots_live ms G \<longrightarrow>
      ms_permits ms + size G = 64 \<and>
      (\<forall>peer. routers_contains (ms_routers ms) peer \<longleftrightarrow> router_address peer \<in># G) \<and>
      (\<forall>g \<in># G. \<exists>ms'. modem_session_end ms g = Inr ms'))"
proof -
  have "rs_permits rs + pending + size T = max_sessions limits \<and>
      (\<exists>r. connect_finish tls client_tls rs transport now = Inr r) \<and>
      (\<forall>p \<in># T. \<exists>rs'. router_session_end rs p at now = Inr rs')" if live: "slots_live limits pinned rs pending T"
  proof -
    note ok = slots_live_ok [OF live]
    then have reg: "registry_live limits pinned (rs_registry rs) T" by blast
    have "\<exists>r. connect_finish tls client_tls rs transport now = Inr r"
      by (rule connect_finish_cases [OF reg, of tls client_tls transport now]) auto
    moreover have "\<exists>rs'. router_session_end rs p at now = Inr rs'" if "p \<in># T" for p
      by (rule router_session_end_cases [OF reg that, of at now]) blast
    ultimately show ?thesis using ok by blast
  qed
  moreover have "ms_permits ms + size G = 64 \<and>
      (\<forall>peer. routers_contains (ms_routers ms) peer \<longleftrightarrow> router_address peer \<in># G) \<and>
      (\<forall>g \<in># G. \<exists>ms'. modem_session_end ms g = Inr ms')" if live: "modem_slots_live ms G"
  proof -
    note ok = modem_slots_live_ok [OF live]
    then have m: "map_of (ms_routers ms) = (\<lambda>a. if count G a = 0 then None else Some (count G a))"
      using routers_live_count by blast
    have "\<exists>ms'. modem_session_end ms g = Inr ms'" if "g \<in># G" for g
      using that by (simp add: modem_session_end_def routers_drop_def m)
    then show ?thesis using ok by (auto simp: routers_contains_def m count_eq_zero_iff split: if_splits)
  qed
  ultimately show ?thesis by blast
qed

theorem session_admission_witness:
  "(\<exists>r. connect_finish False False ((router_slots_new sample_limits [])\<lparr>rs_permits := 63\<rparr>) (Inr (sample_peer 1)) 5 = Inr r) \<and>
   (\<exists>ms'. modem_session_end \<lparr>ms_permits = 63, ms_routers = [((IpV4 0x7F000001, 0), 1)]\<rparr> (IpV4 0x7F000001, 0) = Inr ms')"
proof -
  have "connect_acquire (router_slots_new sample_limits []) = Inr ((router_slots_new sample_limits [])\<lparr>rs_permits := 63\<rparr>)"
    by (simp add: connect_acquire_def router_slots_new_def sample_limits_def)
  note acquired = slots_live.acquired [OF slots_live.new this]
  have "modem_accept modem_slots_new (Some (sample_peer 1)) =
      (\<lparr>ms_permits = 63, ms_routers = [((IpV4 0x7F000001, 0), 1)]\<rparr>, Some (IpV4 0x7F000001, 0))"
    by (simp add: modem_accept_def modem_slots_new_def routers_register_def Let_def)
  note accepted = modem_slots_live.accepted [OF modem_slots_live.new this]
  show ?thesis
    using session_admission acquired accepted by fastforce
qed

end
