(* ===== verification/Radio.thy ===== *)
theory Radio
  imports Daemon_Api "HOL-Library.List_Lexorder"
begin

text \<open>
  The radio adapter of the modem application (\<open>dlep-modem/radio.rs\<close>): the text form of MAC addresses,
  the metrics a message reports, the lines read from the adapter, and the bridge with its table of
  destinations, its link requests and its retries. A message of the adapter is an \<open>inbound\<close> value;
  reading it from JSON is done by serde, and subnets are read by the ipnet crate, so their
  parsers are arguments. The daemon's calls are those of \<open>Daemon_Api\<close>. A handler of the bridge returns its
  new state with what it did: the commands sent to single sessions, the lines for the adapter and
  the answers to link requests. The clock is read once for a handler, and for every command the channels
  of the sessions at that moment are given by the number of the command. A pending answer is known by the number
  of its request; whether its receiver has gone is an argument.
\<close>

section \<open>Text forms\<close>

definition MAX_LINE :: nat where
  "MAX_LINE = 64 * 1024"

definition RETRY_DELAY :: duration where
  "RETRY_DELAY = 250 * 10 ^ 6"

fun split_colon :: "string \<Rightarrow> string list" where
  "split_colon [] = [[]]"
| "split_colon (c # cs) =
     (if c = CHR '':'' then [] # split_colon cs
      else case split_colon cs of part # parts \<Rightarrow> (c # part) # parts | [] \<Rightarrow> [[c]])"

definition hex_value :: "char \<Rightarrow> nat option" where
  "hex_value c =
     (let n = (of_char c :: nat) in
      if 48 \<le> n \<and> n \<le> 57 then Some (n - 48)
      else if 97 \<le> n \<and> n \<le> 102 then Some (n - 87)
      else if 65 \<le> n \<and> n \<le> 70 then Some (n - 55)
      else None)"

text \<open>\<open>u8::from_str_radix(part, 16)\<close>, which accepts a leading plus sign.\<close>

definition u8_from_hex :: "string \<Rightarrow> u8 option" where
  "u8_from_hex part =
     (if part = [] \<or> part = ''+'' \<or> part = ''-'' then None
      else
        let digits = (if hd part = CHR ''+'' then tl part else part) in
        map_option of_nat (foldl (\<lambda>acc c.
          Option.bind acc (\<lambda>n. Option.bind (hex_value c) (\<lambda>d. if n * 16 + d \<le> 255 then Some (n * 16 + d) else None)))
          (Some 0) digits))"

datatype mac_text_error = InvalidMac string | MacOctets string

definition mac_octet :: "string \<Rightarrow> u8 option" where
  "mac_octet part = (if length part = 1 \<or> length part = 2 then u8_from_hex part else None)"

definition mac_try_from :: "string \<Rightarrow> mac_text_error + mac_address" where
  "mac_try_from txt =
     (case those (map mac_octet (split_colon txt)) of
        None \<Rightarrow> Inl (InvalidMac txt)
      | Some octets \<Rightarrow>
          if length octets = 6 then Inr (Eui48 octets)
          else if length octets = 8 then Inr (Eui64 octets)
          else Inl (MacOctets txt))"

text \<open>\<open>str::trim\<close> leaves nothing: the text consists of white space, in UTF-8.\<close>

fun blank :: "bytes \<Rightarrow> bool" where
  "blank [] = True"
| "blank (b # bs) =
     (if 9 \<le> b \<and> b \<le> 13 \<or> b = 32 then blank bs
      else
        case bs of
          [] \<Rightarrow> False
        | c # bs' \<Rightarrow>
            if b = 0xC2 \<and> (c = 0x85 \<or> c = 0xA0) then blank bs'
            else
              case bs' of
                [] \<Rightarrow> False
              | d # bs'' \<Rightarrow>
                  if b = 0xE1 \<and> c = 0x9A \<and> d = 0x80 \<or>
                     b = 0xE2 \<and> c = 0x80 \<and> (0x80 \<le> d \<and> d \<le> 0x8A \<or> d = 0xA8 \<or> d = 0xA9 \<or> d = 0xAF) \<or>
                     b = 0xE2 \<and> c = 0x81 \<and> d = 0x9F \<or> b = 0xE3 \<and> c = 0x80 \<and> d = 0x80
                  then blank bs'' else False)"

text \<open>One call of \<open>read_until\<close> on at most \<open>MAX_LINE + 1\<close> bytes of the output of the adapter.\<close>

definition take_line :: "bytes \<Rightarrow> bytes" where
  "take_line stream =
     (let window = take (MAX_LINE + 1) stream; line = takeWhile (\<lambda>b. b \<noteq> 10) window in
      if length line < length window then line @ [10] else line)"

datatype line_error = LineTooLong | LineNotUtf8

lemma take_line_nonempty: "stream \<noteq> [] \<Longrightarrow> 0 < length (take_line stream)"
  by (cases stream) (auto simp: take_line_def Let_def)

text \<open>What is sent to the bridge when the adapter writes these bytes and closes its output.\<close>

function read_lines :: "bytes \<Rightarrow> (line_error + rstring) list" where
  "read_lines stream =
     (if stream = [] then []
      else
        let line = take_line stream; rest = drop (length line) stream in
        if last line \<noteq> 10 \<and> MAX_LINE < length line then [Inl LineTooLong]
        else
          let txt = (if last line = 10 then butlast line else line) in
          if \<not> utf8_valid txt then [Inl LineNotUtf8]
          else if blank txt then read_lines rest
          else Inr txt # read_lines rest)"
  by auto
termination
  by (relation "measure length") (use take_line_nonempty in auto)

declare read_lines.simps [simp del]

section \<open>Messages\<close>

record radio_metrics =
  rm_max_data_rate_rx_bps :: "u64 option"
  rm_max_data_rate_tx_bps :: "u64 option"
  rm_current_data_rate_rx_bps :: "u64 option"
  rm_current_data_rate_tx_bps :: "u64 option"
  rm_latency_us :: "u64 option"
  rm_resources :: "u8 option"
  rm_rlq_rx :: "u8 option"
  rm_rlq_tx :: "u8 option"
  rm_mtu :: "u16 option"

definition or_base :: "'a option \<Rightarrow> 'a option \<Rightarrow> 'a option" where
  "or_base a b = (case a of None \<Rightarrow> b | Some _ \<Rightarrow> a)"

definition unwrap_or :: "'a option \<Rightarrow> 'a \<Rightarrow> 'a" where
  "unwrap_or a b = (case a of None \<Rightarrow> b | Some v \<Rightarrow> v)"

definition metrics_overlay :: "radio_metrics \<Rightarrow> link_metrics \<Rightarrow> link_metrics" where
  "metrics_overlay m base = \<lparr>
     max_data_rate_rx_bps = unwrap_or (rm_max_data_rate_rx_bps m) (max_data_rate_rx_bps base),
     max_data_rate_tx_bps = unwrap_or (rm_max_data_rate_tx_bps m) (max_data_rate_tx_bps base),
     current_data_rate_rx_bps = unwrap_or (rm_current_data_rate_rx_bps m) (current_data_rate_rx_bps base),
     current_data_rate_tx_bps = unwrap_or (rm_current_data_rate_tx_bps m) (current_data_rate_tx_bps base),
     latency = unwrap_or (map_option from_micros (rm_latency_us m)) (latency base),
     resources = or_base (rm_resources m) (resources base),
     rlq_rx = or_base (rm_rlq_rx m) (rlq_rx base),
     rlq_tx = or_base (rm_rlq_tx m) (rlq_tx base),
     mtu = or_base (rm_mtu m) (mtu base)\<rparr>"

definition duration_us :: "duration \<Rightarrow> u64" where
  "duration_us d = (if as_micros d < 2 ^ 64 then of_nat (as_micros d) else - 1)"

definition metrics_from_link :: "link_metrics \<Rightarrow> radio_metrics" where
  "metrics_from_link m = \<lparr>
     rm_max_data_rate_rx_bps = Some (max_data_rate_rx_bps m),
     rm_max_data_rate_tx_bps = Some (max_data_rate_tx_bps m),
     rm_current_data_rate_rx_bps = Some (current_data_rate_rx_bps m),
     rm_current_data_rate_tx_bps = Some (current_data_rate_tx_bps m),
     rm_latency_us = Some (duration_us (latency m)),
     rm_resources = resources m, rm_rlq_rx = rlq_rx m, rm_rlq_tx = rlq_tx m, rm_mtu = mtu m\<rparr>"

record radio_addresses =
  ra_ipv4 :: "ipv4 list"
  ra_ipv6 :: "ipv6 list"
  ra_ipv4_subnets :: "string list"
  ra_ipv6_subnets :: "string list"

record ('n, 'm) net_parsers =
  parse_v4net :: "string \<Rightarrow> 'n option"
  parse_v6net :: "string \<Rightarrow> 'm option"

definition addresses_parse :: "('n, 'm) net_parsers \<Rightarrow> radio_addresses \<Rightarrow> ('n, 'm) destination_addrs option" where
  "addresses_parse N a =
     Option.bind (those (map (parse_v4net N) (ra_ipv4_subnets a))) (\<lambda>v4s.
     Option.bind (those (map (parse_v6net N) (ra_ipv6_subnets a))) (\<lambda>v6s.
     Some \<lparr>v4 = ra_ipv4 a, v6 = ra_ipv6 a, v4_subnets = v4s, v6_subnets = v6s\<rparr>))"

datatype radio_status = RadioSuccess | RadioDenied

datatype inbound =
    InDestinationUp mac_address radio_metrics radio_addresses
  | InDestinationUpdate mac_address radio_metrics
  | InDestinationAddresses mac_address radio_addresses radio_addresses
  | InDestinationDown mac_address
  | InSessionMetrics radio_metrics
  | InLinkResponse nat radio_status rstring "radio_metrics option"
  | InUnknown

record requested_characteristics =
  rq_current_data_rate_rx_bps :: "u64 option"
  rq_current_data_rate_tx_bps :: "u64 option"
  rq_latency_us :: "u64 option"

datatype outbound =
    OutSessionUp session_id socket_addr
  | OutSessionDown session_id socket_addr status_code
  | OutDestinationAnnounced session_id mac_address
  | OutLinkRequest nat session_id socket_addr mac_address requested_characteristics radio_metrics

text \<open>
  The check of field names before a message is converted: \<open>kind\<close> is the string under \<open>type\<close>, if there is
  one, and \<open>keys\<close> are the names of the object; \<open>convert\<close> is serde.
\<close>

definition INBOUND_FIELDS :: "(string \<times> string list) list" where
  "INBOUND_FIELDS = [
     (''destination_up'', [''mac'', ''metrics'', ''addresses'']),
     (''destination_update'', [''mac'', ''metrics'']),
     (''destination_addresses'', [''mac'', ''add'', ''remove'']),
     (''destination_down'', [''mac'']),
     (''session_metrics'', [''metrics'']),
     (''link_response'', [''request'', ''status'', ''text'', ''metrics''])]"

datatype message_error = NotAnObject | NoStringType | UnknownField string string | NotConverted string

definition parse_inbound ::
  "(string option \<times> string list) option \<Rightarrow> (unit \<Rightarrow> message_error + inbound) \<Rightarrow> message_error + inbound" where
  "parse_inbound object convert =
     (case object of
        None \<Rightarrow> Inl NotAnObject
      | Some (None, keys) \<Rightarrow> Inl NoStringType
      | Some (Some kind, keys) \<Rightarrow>
          (case map_of INBOUND_FIELDS kind of
             None \<Rightarrow> convert ()
           | Some names \<Rightarrow>
               (case find (\<lambda>key. key \<noteq> ''type'' \<and> key \<notin> set names) keys of
                  Some unknown \<Rightarrow> Inl (UnknownField unknown kind)
                | None \<Rightarrow> convert ())))"

text \<open>
  A link request of a session, as the backend of the link control: whether the bridge took it, and what came
  back within the timeout.
\<close>

datatype radio_wait = Answered link_response | AnswerDropped | TimedOut

definition radio_link_request :: "bool \<Rightarrow> radio_wait \<Rightarrow> link_response" where
  "radio_link_request taken response =
     (if \<not> taken then with_text link_denied (str ''radio adapter unavailable'')
      else
        case response of
          Answered response \<Rightarrow> response
        | AnswerDropped \<Rightarrow> with_text link_denied (str ''radio adapter unavailable'')
        | TimedOut \<Rightarrow> with_text link_denied (str ''radio adapter timed out''))"

section \<open>The bridge\<close>

datatype radio_retry = RetryAdd mac_address | RetryDrop mac_address | RetrySessionMetrics

record ('n, 'm) radio_known =
  kn_metrics :: link_metrics
  kn_addresses :: "('n, 'm) destination_addrs"

record radio_pending =
  pd_mac :: mac_address
  pd_current :: link_metrics

record ('n, 'm) bridge =
  br_destinations :: "(mac_address \<times> ('n, 'm) radio_known) list"
  br_initial :: link_metrics
  br_session_metrics :: link_metrics
  br_pending :: "(nat \<times> radio_pending) list"
  br_next_request :: nat
  br_retries :: "(duration \<times> session_id \<times> radio_retry) list"

definition bridge_new :: "link_metrics \<Rightarrow> ('n, 'm) bridge" where
  "bridge_new initial = \<lparr>br_destinations = [], br_initial = initial, br_session_metrics = initial,
     br_pending = [], br_next_request = 1, br_retries = []\<rparr>"

datatype ('n, 'm) radio_effect =
    ToSession session_id "('n, 'm) session_command"
  | ToAdapter outbound
  | AnswerLink nat link_response

text \<open>Whether the input of the adapter was valid.\<close>

fun radio_accepted :: "daemon_error + unit \<Rightarrow> bool" where
  "radio_accepted (Inr ()) = True"
| "radio_accepted (Inl NoMatchingSession) = True"
| "radio_accepted (Inl (CommandRejected report)) = True"
| "radio_accepted (Inl (ErrConfig _)) = False"
| "radio_accepted (Inl (ErrCodec _)) = False"
| "radio_accepted (Inl _) = True"

definition schedule_busy ::
  "duration \<Rightarrow> ('n, 'm) bridge \<Rightarrow> daemon_error + unit \<Rightarrow> radio_retry \<Rightarrow> ('n, 'm) bridge" where
  "schedule_busy now b result retry =
     (case result of
        Inl (CommandRejected report) \<Rightarrow>
          b\<lparr>br_retries := br_retries b @
             map (\<lambda>(sid, _). (now + RETRY_DELAY, sid, retry))
               (filter (\<lambda>(_, rejection). cr_reason rejection = Busy) (rep_rejected report))\<rparr>
      | _ \<Rightarrow> b)"

definition inbound_up ::
  "('n, 'm) packages \<Rightarrow> ('n, 'm) net_parsers \<Rightarrow> modem_daemon \<Rightarrow> ('n, 'm) senders \<Rightarrow> duration \<Rightarrow>
     mac_address \<Rightarrow> radio_metrics \<Rightarrow> radio_addresses \<Rightarrow> ('n, 'm) bridge \<Rightarrow> ('n, 'm) bridge" where
  "inbound_up P N md senders now mac metrics addresses b =
     (if map_of (br_destinations b) mac \<noteq> None then b
      else
        case addresses_parse N addresses of
          None \<Rightarrow> b
        | Some addresses \<Rightarrow>
            (let addresses = addrs_canonical P addresses;
                 metrics = metrics_overlay metrics (br_session_metrics b);
                 result = modem_add_destination_with_addresses P md senders mac metrics addresses in
             if radio_accepted result
             then schedule_busy now (b\<lparr>br_destinations :=
                 AList.update mac \<lparr>kn_metrics = metrics, kn_addresses = addresses\<rparr> (br_destinations b)\<rparr>)
               result (RetryAdd mac)
             else b))"

definition inbound_update ::
  "('n, 'm) packages \<Rightarrow> modem_daemon \<Rightarrow> ('n, 'm) senders \<Rightarrow> mac_address \<Rightarrow> radio_metrics \<Rightarrow>
     ('n, 'm) bridge \<Rightarrow> panic + ('n, 'm) bridge" where
  "inbound_update P md senders mac metrics b =
     (case map_of (br_destinations b) mac of
        None \<Rightarrow> Inr b
      | Some entry \<Rightarrow>
          (let metrics = metrics_overlay metrics (kn_metrics entry);
               result = modem_update_destination P md senders mac metrics in
           if radio_accepted result
           then try_then (expect ''known'' (map_of (br_destinations b) mac)) (\<lambda>entry.
             Inr (b\<lparr>br_destinations := AList.update mac (entry\<lparr>kn_metrics := metrics\<rparr>) (br_destinations b)\<rparr>))
           else Inr b))"

definition inbound_addresses ::
  "('n, 'm) packages \<Rightarrow> ('n, 'm) net_parsers \<Rightarrow> ('n, 'm) senders \<Rightarrow> mac_address \<Rightarrow> radio_addresses \<Rightarrow>
     radio_addresses \<Rightarrow> ('n, 'm) bridge \<Rightarrow> panic + ('n, 'm) bridge" where
  "inbound_addresses P N senders mac add remove b =
     (if map_of (br_destinations b) mac = None then Inr b
      else
        case (addresses_parse N add, addresses_parse N remove) of
          (Some new, Some old) \<Rightarrow>
            (let changes = changes_canonical P \<lparr>added = new, removed = old\<rparr>;
                 result = modem_update_destination_addresses P senders mac changes in
             if radio_accepted result
             then try_then (expect ''known'' (map_of (br_destinations b) mac)) (\<lambda>entry.
               Inr (b\<lparr>br_destinations := AList.update mac
                 (entry\<lparr>kn_addresses := apply_lenient P changes (kn_addresses entry)\<rparr>) (br_destinations b)\<rparr>))
             else Inr b)
        | _ \<Rightarrow> Inr b)"

definition inbound_down ::
  "('n, 'm) senders \<Rightarrow> duration \<Rightarrow> mac_address \<Rightarrow> ('n, 'm) bridge \<Rightarrow> ('n, 'm) bridge" where
  "inbound_down senders now mac b =
     (if map_of (br_destinations b) mac = None then b
      else
        let b = b\<lparr>br_destinations := AList.delete mac (br_destinations b)\<rparr>;
            result = modem_daemon_drop_destination senders mac SUCCESS in
        schedule_busy now b result (RetryDrop mac))"

definition inbound_session_metrics ::
  "('n, 'm) packages \<Rightarrow> modem_daemon \<Rightarrow> ('n, 'm) senders \<Rightarrow> duration \<Rightarrow> radio_metrics \<Rightarrow>
     ('n, 'm) bridge \<Rightarrow> ('n, 'm) bridge" where
  "inbound_session_metrics P md senders now metrics b =
     (let metrics = metrics_overlay metrics (br_session_metrics b);
          result = modem_update_session_metrics P md senders metrics in
      if radio_accepted result
      then
        (let update = metrics_from_link metrics in
         schedule_busy now (b\<lparr>br_session_metrics := metrics,
             br_destinations := map (\<lambda>(mac, entry).
               (mac, entry\<lparr>kn_metrics := metrics_overlay update (kn_metrics entry)\<rparr>)) (br_destinations b)\<rparr>)
           result RetrySessionMetrics)
      else b)"

text \<open>
  The answer to a link request; \<open>expired\<close> says whether the receiver has gone, and \<open>delivered\<close> whether it is
  still there when the answer is sent.
\<close>

definition inbound_link_response ::
  "('n, 'm) packages \<Rightarrow> modem_daemon \<Rightarrow> bool \<Rightarrow> bool \<Rightarrow> nat \<Rightarrow> radio_status \<Rightarrow> rstring \<Rightarrow> radio_metrics option \<Rightarrow>
     ('n, 'm) bridge \<Rightarrow> ('n, 'm) bridge \<times> ('n, 'm) radio_effect list" where
  "inbound_link_response P md expired delivered request status txt metrics b =
     (case map_of (br_pending b) request of
        None \<Rightarrow> (b, [])
      | Some pending \<Rightarrow>
          (let b = b\<lparr>br_pending := AList.delete request (br_pending b)\<rparr> in
           if expired then (b, [])
           else
             let metrics = map_option (\<lambda>m. metrics_overlay m (pd_current pending)) metrics in
             if (case metrics of None \<Rightarrow> False | Some m \<Rightarrow> \<not> is_ok (modem_validate_metrics P md m))
             then (b, [AnswerLink request link_denied])
             else
               let response = \<lparr>lrs_status = (case status of RadioSuccess \<Rightarrow> SUCCESS | RadioDenied \<Rightarrow> REQUEST_DENIED),
                     lrs_text = txt, lrs_metrics = metrics\<rparr>;
                   b = (if \<not> delivered then b
                        else
                          case (status, metrics, map_of (br_destinations b) (pd_mac pending)) of
                            (RadioSuccess, Some m, Some entry) \<Rightarrow>
                              b\<lparr>br_destinations := AList.update (pd_mac pending) (entry\<lparr>kn_metrics := m\<rparr>) (br_destinations b)\<rparr>
                          | _ \<Rightarrow> b) in
               (b, [AnswerLink request response])))"

definition bridge_inbound ::
  "('n, 'm) packages \<Rightarrow> ('n, 'm) net_parsers \<Rightarrow> modem_daemon \<Rightarrow> ('n, 'm) senders \<Rightarrow> duration \<Rightarrow> bool \<Rightarrow> bool \<Rightarrow>
     ('n, 'm) bridge \<Rightarrow> inbound \<Rightarrow> panic + ('n, 'm) bridge \<times> ('n, 'm) radio_effect list" where
  "bridge_inbound P N md senders now expired delivered b message =
     (let silent = \<lambda>r. try_then r (\<lambda>b. Inr (b, [])) in
      case message of
        InDestinationUp mac metrics addresses \<Rightarrow> silent (Inr (inbound_up P N md senders now mac metrics addresses b))
      | InDestinationUpdate mac metrics \<Rightarrow> silent (inbound_update P md senders mac metrics b)
      | InDestinationAddresses mac add remove \<Rightarrow> silent (inbound_addresses P N senders mac add remove b)
      | InDestinationDown mac \<Rightarrow> silent (Inr (inbound_down senders now mac b))
      | InSessionMetrics metrics \<Rightarrow> silent (Inr (inbound_session_metrics P md senders now metrics b))
      | InLinkResponse request status txt metrics \<Rightarrow>
          Inr (inbound_link_response P md expired delivered request status txt metrics b)
      | InUnknown \<Rightarrow> Inr (b, []))"

text \<open>A link request of a session; \<open>closed\<close> are the answers whose receiver has gone.\<close>

definition bridge_ask ::
  "(nat \<Rightarrow> bool) \<Rightarrow> link_request \<Rightarrow> ('n, 'm) bridge \<Rightarrow> ('n, 'm) bridge \<times> ('n, 'm) radio_effect list" where
  "bridge_ask closed request b =
     (let pending = filter (\<lambda>(req, _). \<not> closed req) (br_pending b);
          ident = br_next_request b;
          message = OutLinkRequest ident (lrq_session_id request) (pi_addr (lrq_peer request)) (lrq_id request)
            \<lparr>rq_current_data_rate_rx_bps = lc_current_data_rate_rx_bps (lrq_requested request),
             rq_current_data_rate_tx_bps = lc_current_data_rate_tx_bps (lrq_requested request),
             rq_latency_us = map_option duration_us (lc_latency (lrq_requested request))\<rparr>
            (metrics_from_link (lrq_current request)) in
      (b\<lparr>br_next_request := ident + 1,
         br_pending := AList.update ident \<lparr>pd_mac = lrq_id request, pd_current = lrq_current request\<rparr> pending\<rparr>,
       [ToAdapter message]))"

text \<open>The order of MAC addresses, in which a \<open>BTreeMap\<close> is visited.\<close>

definition mac_key :: "mac_address \<Rightarrow> nat \<times> nat list" where
  "mac_key mac = (case mac of Eui48 os \<Rightarrow> (0, map unat os) | Eui64 os \<Rightarrow> (1, map unat os))"

definition in_mac_order :: "(mac_address \<times> 'a) list \<Rightarrow> (mac_address \<times> 'a) list" where
  "in_mac_order xs = sort_key (\<lambda>(mac, _). mac_key mac) xs"

fun bridge_event :: "('n, 'm) bridge \<Rightarrow> ('n, 'm, 'x) daemon_event \<Rightarrow> ('n, 'm) radio_effect list" where
  "bridge_event b (DmSessionUp sid peer extensions) =
     (if br_session_metrics b \<noteq> br_initial b then [ToSession sid (CmdSessionUpdate (br_session_metrics b))] else []) @
     map (\<lambda>(mac, entry). ToSession sid (CmdAddDestination mac (kn_metrics entry) (kn_addresses entry)))
       (in_mac_order (br_destinations b)) @
     [ToAdapter (OutSessionUp sid (pi_addr peer))]"
| "bridge_event b (DmSessionDown sid peer reason) = [ToAdapter (OutSessionDown sid (pi_addr peer) reason)]"
| "bridge_event b (DmDestination sid peer (DeAnnounced mac changes)) = [ToAdapter (OutDestinationAnnounced sid mac)]"
| "bridge_event b _ = []"

text \<open>One due retry; \<open>senders\<close> are the channels of the sessions when the command is sent.\<close>

fun retry_command :: "('n, 'm) bridge \<Rightarrow> radio_retry \<Rightarrow> ('n, 'm) session_command option" where
  "retry_command b (RetryAdd mac) =
     map_option (\<lambda>entry. CmdAddDestination mac (kn_metrics entry) (kn_addresses entry)) (map_of (br_destinations b) mac)"
| "retry_command b (RetryDrop mac) = Some (CmdDropDestination mac SUCCESS)"
| "retry_command b RetrySessionMetrics = Some (CmdSessionUpdate (br_session_metrics b))"

fun retry_due ::
  "(nat \<Rightarrow> ('n, 'm) senders) \<Rightarrow> duration \<Rightarrow> nat \<Rightarrow> (duration \<times> session_id \<times> radio_retry) list \<Rightarrow> ('n, 'm) bridge \<Rightarrow>
     ('n, 'm) bridge \<times> ('n, 'm) radio_effect list" where
  "retry_due senders now i [] b = (b, [])"
| "retry_due senders now i ((_, sid, retry) # due) b =
     (case retry_command b retry of
        None \<Rightarrow> retry_due senders now i due b
      | Some cmd \<Rightarrow>
          (let result = send_command_to (senders i) sid cmd;
               b = schedule_busy now b result retry;
               b = (case (retry, result) of
                      (RetryDrop mac, Inr ()) \<Rightarrow>
                        if map_of (br_destinations b) mac \<noteq> None
                        then b\<lparr>br_retries := br_retries b @ [(now + RETRY_DELAY, sid, RetryAdd mac)]\<rparr> else b
                    | _ \<Rightarrow> b);
               (b, effects) = retry_due senders now (i + 1) due b in
           (b, ToSession sid cmd # effects)))"

definition bridge_retry ::
  "(nat \<Rightarrow> ('n, 'm) senders) \<Rightarrow> duration \<Rightarrow> ('n, 'm) bridge \<Rightarrow> ('n, 'm) bridge \<times> ('n, 'm) radio_effect list" where
  "bridge_retry senders now b =
     (let (due, later) = partition (\<lambda>(at, _). at \<le> now) (br_retries b) in
      retry_due senders now 0 due (b\<lparr>br_retries := later\<rparr>))"

text \<open>
  One turn of the loop that runs the adapter: what arrived, with the clock and the sessions at that moment. The loop
  ends with a failure or goes on with the new state of the bridge.
\<close>

datatype ('n, 'm, 'x) adapter_input =
    AdapterLine "line_error + rstring"
  | AdapterClosed
  | LinkAsked link_request
  | DaemonReported "('n, 'm, 'x) daemon_event"
  | EventsMissed
  | DaemonStopped
  | RetryDue
  | AdapterExited

datatype adapter_failure =
    BadLine line_error | BadMessage message_error | OutputClosed | StoppedDaemon | ExitedAdapter

record ('n, 'm) adapter_moment =
  am_now :: duration
  am_senders :: "('n, 'm) senders"
  am_retry_senders :: "nat \<Rightarrow> ('n, 'm) senders"
  am_expired :: bool
  am_delivered :: bool
  am_closed :: "nat \<Rightarrow> bool"

definition adapter_turn ::
  "('n, 'm) packages \<Rightarrow> ('n, 'm) net_parsers \<Rightarrow> (rstring \<Rightarrow> message_error + inbound) \<Rightarrow> modem_daemon \<Rightarrow>
     ('n, 'm) adapter_moment \<Rightarrow> ('n, 'm) bridge \<Rightarrow> ('n, 'm, 'x) adapter_input \<Rightarrow>
     panic + (adapter_failure + ('n, 'm) bridge \<times> ('n, 'm) radio_effect list)" where
  "adapter_turn P N parse md am b input =
     (case input of
        AdapterLine (Inr line) \<Rightarrow>
          (case parse line of
             Inl e \<Rightarrow> Inr (Inl (BadMessage e))
           | Inr message \<Rightarrow>
               try_then (bridge_inbound P N md (am_senders am) (am_now am) (am_expired am) (am_delivered am) b message)
                 (\<lambda>r. Inr (Inr r)))
      | AdapterLine (Inl e) \<Rightarrow> Inr (Inl (BadLine e))
      | AdapterClosed \<Rightarrow> Inr (Inl OutputClosed)
      | LinkAsked request \<Rightarrow> Inr (Inr (bridge_ask (am_closed am) request b))
      | DaemonReported event \<Rightarrow> Inr (Inr (b, bridge_event b event))
      | EventsMissed \<Rightarrow> Inr (Inr (b, []))
      | DaemonStopped \<Rightarrow> Inr (Inl StoppedDaemon)
      | RetryDue \<Rightarrow> Inr (Inr (bridge_retry (am_retry_senders am) (am_now am) b))
      | AdapterExited \<Rightarrow> Inr (Inl ExitedAdapter))"

text \<open>
  The states of the bridge, over any turns of the loop. An event of the daemon leaves the bridge as it is, so the type of its
  extension payload does not matter.
\<close>

definition percent_ok :: "u8 option \<Rightarrow> bool" where
  "percent_ok v = (case v of None \<Rightarrow> True | Some pct \<Rightarrow> pct \<le> 100)"

definition metrics_expressible :: "link_metrics \<Rightarrow> bool" where
  "metrics_expressible m \<longleftrightarrow> as_micros (latency m) < 2 ^ 64 \<and>
     percent_ok (resources m) \<and> percent_ok (rlq_rx m) \<and> percent_ok (rlq_tx m)"

inductive radio_reach ::
  "('n, 'm) packages \<Rightarrow> ('n, 'm) net_parsers \<Rightarrow> (rstring \<Rightarrow> message_error + inbound) \<Rightarrow> modem_daemon \<Rightarrow> ('n, 'm) bridge \<Rightarrow> bool"
  for P N parse md where
  new: "metrics_expressible (md_initial_metrics md) \<Longrightarrow> radio_reach P N parse md (bridge_new (md_initial_metrics md))"
| turn: "radio_reach P N parse md b \<Longrightarrow>
    adapter_turn P N parse md am b (input :: ('n, 'm, unit) adapter_input) = Inr (Inr (b', effects)) \<Longrightarrow>
    radio_reach P N parse md b'"

section \<open>Lines\<close>

lemma take_line_newline: "10 \<notin> set line \<Longrightarrow> length line \<le> MAX_LINE \<Longrightarrow> take_line (line @ 10 # rest) = line @ [10]"
proof -
  assume "10 \<notin> set line" "length line \<le> MAX_LINE"
  moreover from this have "take (MAX_LINE + 1) (line @ 10 # rest) = line @ 10 # take (MAX_LINE - length line) rest"
    by (simp add: Suc_diff_le)
  ultimately show ?thesis by (auto simp: take_line_def Let_def takeWhile_append)
qed

lemma read_lines_newline:
  assumes "10 \<notin> set line" "length line \<le> MAX_LINE" "utf8_valid line"
  shows "read_lines (line @ 10 # rest) = (if blank line then read_lines rest else Inr line # read_lines rest)"
  by (subst read_lines.simps) (simp add: take_line_newline assms Let_def butlast_append)

lemma read_lines_messages:
  "list_all (\<lambda>line. 10 \<notin> set line \<and> length line \<le> MAX_LINE \<and> utf8_valid line) lines \<Longrightarrow>
     read_lines (concat (map (\<lambda>line. line @ [10]) lines)) = map Inr (filter (\<lambda>line. \<not> blank line) lines)"
  by (induction lines) (simp_all add: read_lines_newline read_lines.simps [of "[]"])

section \<open>MAC addresses\<close>

lemma hex_digit_not_colon: "n < 16 \<Longrightarrow> hex_digit n \<noteq> CHR '':''"
proof -
  assume "n < 16"
  moreover have "list_all (\<lambda>c. c \<noteq> CHR '':'') ''0123456789abcdef''" by simp
  ultimately show ?thesis unfolding hex_digit_def list_all_length by simp
qed

lemma hex_value_digit: "n < 16 \<Longrightarrow> hex_value (hex_digit n) = Some n"
proof -
  assume n: "n < 16"
  have "\<forall>i \<in> set [0..<16]. hex_value (''0123456789abcdef'' ! i) = Some i" by code_simp
  then show ?thesis using n by (simp add: hex_digit_def)
qed

lemma hex_digit_not_sign: "n < 16 \<Longrightarrow> hex_digit n \<noteq> CHR ''+''"
  using hex_value_digit [of n] by (auto simp: hex_value_def)

lemma mac_octet_hex_byte: "mac_octet (hex_byte b) = Some b"
proof -
  have b: "unat b div 16 < 16" "unat b mod 16 < 16" "unat b div 16 * 16 + unat b mod 16 = unat b" "unat b < 256"
    using unsigned_less [of b, where 'a = nat] by auto
  then show ?thesis
    by (simp add: mac_octet_def hex_byte_def u8_from_hex_def hex_value_digit hex_digit_not_sign)
qed

lemma split_colon_hex_byte: "split_colon (hex_byte b @ rest) =
    (case split_colon rest of part # parts \<Rightarrow> (hex_byte b @ part) # parts | [] \<Rightarrow> [hex_byte b])"
proof -
  have "unat b div 16 < 16" "unat b mod 16 < 16" using unsigned_less [of b, where 'a = nat] by auto
  then show ?thesis by (simp add: hex_byte_def hex_digit_not_colon split: list.splits)
qed

lemma split_colon_hex: "bs \<noteq> [] \<Longrightarrow> split_colon (colon_hex bs) = map hex_byte bs"
proof (induction bs rule: colon_hex.induct)
  case (2 b)
  then show ?case using split_colon_hex_byte [of b "[]"] by simp
next
  case (3 b c bs)
  then show ?case using split_colon_hex_byte [of b "'':'' @ colon_hex (c # bs)"] by simp
qed simp

lemma those_octets: "those (map mac_octet (map hex_byte bs)) = Some bs"
  by (induction bs) (simp_all add: mac_octet_hex_byte)

lemma mac_text: "mac_wf mac \<Longrightarrow> mac_try_from (mac_display mac) = Inr mac"
proof -
  assume wf: "mac_wf mac"
  then have "as_bytes mac \<noteq> []" by (cases mac) auto
  from split_colon_hex [OF this] those_octets show ?thesis
    using wf by (cases mac) (simp_all add: mac_try_from_def mac_display_def)
qed

section \<open>The table as the adapter sees it\<close>

text \<open>What the messages of the adapter make of the session metrics and the destinations, without any session.\<close>

definition valid_metrics :: "('n, 'm) packages \<Rightarrow> modem_daemon \<Rightarrow> link_metrics \<Rightarrow> bool" where
  "valid_metrics P md m \<longleftrightarrow> modem_validate_metrics P md m = Inr ()"

definition valid_up :: "('n, 'm) packages \<Rightarrow> modem_daemon \<Rightarrow> mac_address \<Rightarrow> ('n, 'm) radio_known \<Rightarrow> bool" where
  "valid_up P md mac k \<longleftrightarrow> valid_metrics P md (kn_metrics k) \<and>
     validate_address_changes P \<lparr>added = addrs_canonical P (kn_addresses k), removed = no_addrs\<rparr> = Inr () \<and>
     is_ok (message_encode P (build_destination_up mac (kn_metrics k) (addrs_canonical P (kn_addresses k))))"

fun adapter_view ::
  "('n, 'm) packages \<Rightarrow> ('n, 'm) net_parsers \<Rightarrow> modem_daemon \<Rightarrow>
     link_metrics \<times> (mac_address \<Rightarrow> ('n, 'm) radio_known option) \<Rightarrow> inbound \<Rightarrow>
     link_metrics \<times> (mac_address \<Rightarrow> ('n, 'm) radio_known option)" where
  "adapter_view P N md (M, T) (InDestinationUp mac m a) =
     (case addresses_parse N a of
        None \<Rightarrow> (M, T)
      | Some ad \<Rightarrow>
          (let k = \<lparr>kn_metrics = metrics_overlay m M, kn_addresses = addrs_canonical P ad\<rparr> in
           if T mac = None \<and> valid_up P md mac k then (M, T(mac \<mapsto> k)) else (M, T)))"
| "adapter_view P N md (M, T) (InDestinationUpdate mac m) =
     (case T mac of
        None \<Rightarrow> (M, T)
      | Some k \<Rightarrow>
          (let m' = metrics_overlay m (kn_metrics k) in
           if valid_metrics P md m' then (M, T(mac \<mapsto> k\<lparr>kn_metrics := m'\<rparr>)) else (M, T)))"
| "adapter_view P N md (M, T) (InDestinationAddresses mac add rem) =
     (case (T mac, addresses_parse N add, addresses_parse N rem) of
        (Some k, Some new, Some old) \<Rightarrow>
          (let changes = changes_canonical P \<lparr>added = new, removed = old\<rparr> in
           if validate_address_changes P changes = Inr ()
           then (M, T(mac \<mapsto> k\<lparr>kn_addresses := apply_lenient P changes (kn_addresses k)\<rparr>)) else (M, T))
      | _ \<Rightarrow> (M, T))"
| "adapter_view P N md (M, T) (InDestinationDown mac) = (M, T(mac := None))"
| "adapter_view P N md (M, T) (InSessionMetrics m) =
     (let m' = metrics_overlay m M in
      if valid_metrics P md m'
      then (m', \<lambda>mac. map_option (\<lambda>k. k\<lparr>kn_metrics := metrics_overlay (metrics_from_link m') (kn_metrics k)\<rparr>) (T mac))
      else (M, T))"
| "adapter_view P N md (M, T) _ = (M, T)"

abbreviation radio_table :: "('n, 'm) bridge \<Rightarrow> link_metrics \<times> (mac_address \<Rightarrow> ('n, 'm) radio_known option)" where
  "radio_table b \<equiv> (br_session_metrics b, map_of (br_destinations b))"

lemma schedule_busy_sel [simp]:
  "br_destinations (schedule_busy now b r retry) = br_destinations b"
  "br_session_metrics (schedule_busy now b r retry) = br_session_metrics b"
  "br_initial (schedule_busy now b r retry) = br_initial b"
  "br_pending (schedule_busy now b r retry) = br_pending b"
  "br_next_request (schedule_busy now b r retry) = br_next_request b"
  by (simp_all add: schedule_busy_def split: sum.splits daemon_error.splits)

lemma accepted_fanout [simp]: "radio_accepted (fanout senders cmd)"
  by (simp add: fanout_def dispatch_command_def dispatch_outcome_def Let_def)

lemma accepted_try:
  assumes "\<And>e. r = Inl e \<Longrightarrow> (\<exists>msg. e = ErrConfig msg) \<or> (\<exists>c. e = ErrCodec c)"
  shows "radio_accepted (try_then r f) \<longleftrightarrow> (\<exists>x. r = Inr x \<and> radio_accepted (f x))"
  using assms by (cases r) auto

lemma validate_metrics_error: "modem_validate_metrics P md m = Inl e \<Longrightarrow> (\<exists>msg. e = ErrConfig msg) \<or> (\<exists>c. e = ErrCodec c)"
  by (cases "message_encode P (build_session_update m)") (auto simp: modem_validate_metrics_def split: if_splits)

lemma validate_changes_error: "validate_address_changes P c = Inl e \<Longrightarrow> (\<exists>msg. e = ErrConfig msg) \<or> (\<exists>c. e = ErrCodec c)"
  by (cases "changes_validate P c"; cases "message_encode P (append_to P c (message_new SESSION_UPDATE))")
    (auto simp: validate_address_changes_def)

lemma encode_error: "map_err ErrCodec r = Inl e \<Longrightarrow> (\<exists>msg. e = ErrConfig msg) \<or> (\<exists>c. e = ErrCodec c)"
  by (cases r) auto

lemma accepted_up:
  "radio_accepted (modem_add_destination_with_addresses P md senders mac m (addrs_canonical P a)) \<longleftrightarrow>
     valid_up P md mac \<lparr>kn_metrics = m, kn_addresses = addrs_canonical P a\<rparr>"
  unfolding modem_add_destination_with_addresses_def Let_def
  by (simp add: accepted_try validate_metrics_error validate_changes_error encode_error valid_up_def valid_metrics_def is_ok_def
      split: sum.splits)

lemma accepted_update: "radio_accepted (modem_update_destination P md senders mac m) \<longleftrightarrow> valid_metrics P md m"
  by (simp add: modem_update_destination_def accepted_try validate_metrics_error valid_metrics_def)

lemma accepted_session_metrics: "radio_accepted (modem_update_session_metrics P md senders m) \<longleftrightarrow> valid_metrics P md m"
  by (simp add: modem_update_session_metrics_def accepted_try validate_metrics_error valid_metrics_def)

lemma accepted_addresses:
  "radio_accepted (modem_update_destination_addresses P senders mac c) \<longleftrightarrow> validate_address_changes P c = Inr ()"
  by (simp add: modem_update_destination_addresses_def accepted_try validate_changes_error)

lemma map_of_map_entries: "map_of (map (\<lambda>(mac, k). (mac, f k)) xs) mac = map_option f (map_of xs mac)"
  by (induction xs) auto

lemma inbound_refines:
  assumes "\<And>request status txt metrics. message \<noteq> InLinkResponse request status txt metrics"
  shows "\<exists>b'. bridge_inbound P N md senders now expired delivered b message = Inr (b', []) \<and>
    radio_table b' = adapter_view P N md (radio_table b) message \<and>
    br_initial b' = br_initial b \<and> br_pending b' = br_pending b \<and> br_next_request b' = br_next_request b \<and>
    (distinct (map fst (br_destinations b)) \<longrightarrow> distinct (map fst (br_destinations b')))"
proof (cases message)
  case (InDestinationUp mac m a)
  then show ?thesis
    by (auto simp: bridge_inbound_def inbound_up_def Let_def accepted_up update_conv' distinct_update split: option.splits)
next
  case (InDestinationUpdate mac m)
  then show ?thesis
    by (auto simp: bridge_inbound_def inbound_update_def Let_def accepted_update update_conv' distinct_update
        expect_def split: option.splits)
next
  case (InDestinationAddresses mac add rem)
  then show ?thesis
    by (auto simp: bridge_inbound_def inbound_addresses_def Let_def accepted_addresses update_conv' distinct_update
        expect_def split: option.splits)
next
  case (InDestinationDown mac)
  have "(map_of (br_destinations b))(mac := None) = map_of (br_destinations b)" if "map_of (br_destinations b) mac = None"
    using that by auto
  then show ?thesis using InDestinationDown
    by (auto simp: bridge_inbound_def inbound_down_def Let_def delete_conv' distinct_delete)
next
  case (InSessionMetrics m)
  have keys: "map fst (map (\<lambda>(mac, k). (mac, f k)) xs) = map fst xs" for f :: "('a, 'b) radio_known \<Rightarrow> ('a, 'b) radio_known" and xs
    by (induction xs) auto
  show ?thesis
    by (simp add: InSessionMetrics bridge_inbound_def inbound_session_metrics_def Let_def accepted_session_metrics
        map_of_map_entries keys fun_eq_iff)
next
  case InUnknown
  then show ?thesis by (simp add: bridge_inbound_def)
qed (use assms in simp)

section \<open>Metrics in the table are valid\<close>

lemma or_base_None: "or_base a c = None \<longleftrightarrow> a = None \<and> c = None"
  by (cases a) (auto simp: or_base_def)

lemma percent_ok_or_base: "percent_ok a \<Longrightarrow> percent_ok c \<Longrightarrow> percent_ok (or_base a c)"
  by (cases a) (auto simp: or_base_def)

lemma items_wire_iff: "(\<exists>w. items_wire P is = Some w) \<longleftrightarrow> (\<forall>i \<in> set is. item_wire P i \<noteq> None)"
  by (induction "is") (auto split: option.splits)

lemma items_wire_length:
  "items_wire P is = Some w \<Longrightarrow> (\<And>i v. i \<in> set is \<Longrightarrow> item_wire P i = Some v \<Longrightarrow> length v \<le> n) \<Longrightarrow> length w \<le> n * length is"
proof (induction "is" arbitrary: w)
  case (Cons i "is")
  obtain v r where v: "item_wire P i = Some v" "items_wire P is = Some r" "w = v @ r"
    using Cons.prems(1) by (auto split: option.splits)
  have "length r \<le> n * length is" by (rule Cons.IH [OF v(2)], rule Cons.prems(2)) auto
  moreover have "length v \<le> n" by (rule Cons.prems(2) [OF _ v(1)]) simp
  ultimately show ?case by (simp add: v(3))
qed simp

lemma metric_items_wire:
  "(\<forall>i \<in> set (metric_items m). item_wire P i \<noteq> None) \<longleftrightarrow> metrics_expressible m"
  by (cases "resources m"; cases "rlq_rx m"; cases "rlq_tx m"; cases "mtu m")
    (auto simp: metric_items_def item_wire_def metrics_expressible_def percent_ok_def)

lemma metric_items_length: "length (metric_items m) \<le> 9"
  by (cases "resources m"; cases "rlq_rx m"; cases "rlq_tx m"; cases "mtu m") (simp_all add: metric_items_def)

lemma metric_item_length: "i \<in> set (metric_items m) \<Longrightarrow> item_wire P i = Some v \<Longrightarrow> length v \<le> 12"
  by (cases "resources m"; cases "rlq_rx m"; cases "rlq_tx m"; cases "mtu m")
    (auto simp: metric_items_def item_wire_def tlv_def split: if_splits)

context dlep_packages
begin

lemma valid_metrics_iff: "valid_metrics P md m \<longleftrightarrow> supported_by m (md_initial_metrics md) \<and> metrics_expressible m"
proof -
  have "length w \<le> 65535" if "items_wire P (metric_items m) = Some w" for w
  proof -
    have "length w \<le> 12 * length (metric_items m :: ('n, 'm) data_item list)"
      by (rule items_wire_length [OF that metric_item_length])
    then show ?thesis using metric_items_length [of m, where 'a = 'n and 'b = 'm] by simp
  qed
  then have "(\<exists>out. message_encode P (build_session_update m) = Inr out) \<longleftrightarrow> (\<exists>w. items_wire P (metric_items m) = Some w)"
    by (auto simp: message_encode_eq_Inr build_session_update_def)
  then have "(\<exists>out. message_encode P (build_session_update m) = Inr out) \<longleftrightarrow> metrics_expressible m"
    by (simp only: items_wire_iff metric_items_wire)
  moreover have "try_then (map_err ErrCodec r) (\<lambda>_. Inr ()) = Inr () \<longleftrightarrow> (\<exists>out. r = Inr out)" for r :: "codec_error + bytes"
    by (cases r) auto
  ultimately show ?thesis by (simp add: valid_metrics_def modem_validate_metrics_def)
qed

lemma valid_overlay_update:
  assumes "valid_metrics P md m" "valid_metrics P md k"
  shows "valid_metrics P md (metrics_overlay (metrics_from_link m) k)"
proof -
  have "as_micros (latency m) < 2 ^ 64" using assms(1) by (simp add: valid_metrics_iff metrics_expressible_def)
  then have "as_micros (from_micros (duration_us (latency m))) < 2 ^ 64"
    by (simp add: duration_us_def from_micros_def as_micros_def unat_of_nat)
  then have "metrics_expressible (metrics_overlay (metrics_from_link m) k)"
    using assms by (simp add: valid_metrics_iff metrics_expressible_def metrics_overlay_def metrics_from_link_def
        unwrap_or_def percent_ok_or_base)
  moreover have "supported_by (metrics_overlay (metrics_from_link m) k) (md_initial_metrics md)"
    using assms unfolding valid_metrics_iff supported_by_def metrics_overlay_def metrics_from_link_def
    by (simp only: link_metrics.select_convs radio_metrics.select_convs or_base_None) argo
  ultimately show ?thesis by (simp add: valid_metrics_iff)
qed

end

definition table_valid ::
  "('n, 'm) packages \<Rightarrow> modem_daemon \<Rightarrow> link_metrics \<times> (mac_address \<Rightarrow> ('n, 'm) radio_known option) \<Rightarrow> bool" where
  "table_valid P md = (\<lambda>(M, T). valid_metrics P md M \<and> (\<forall>mac k. T mac = Some k \<longrightarrow> valid_metrics P md (kn_metrics k)))"

definition bridge_ok :: "('n, 'm) packages \<Rightarrow> modem_daemon \<Rightarrow> ('n, 'm) bridge \<Rightarrow> bool" where
  "bridge_ok P md b \<longleftrightarrow> br_initial b = md_initial_metrics md \<and> distinct (map fst (br_destinations b)) \<and>
     table_valid P md (radio_table b) \<and> (\<forall>i \<in> dom (map_of (br_pending b)). i < br_next_request b)"

lemma is_ok_unit: "is_ok r \<longleftrightarrow> r = Inr ()"
  by (cases r) (simp_all add: is_ok_def)

lemma link_response_ok:
  assumes ok: "bridge_ok P md b" and r: "inbound_link_response P md expired delivered request status txt metrics b = (b', effects)"
  shows "bridge_ok P md b'" "map_of (br_pending b') request = None" "br_session_metrics b' = br_session_metrics b"
    and "br_next_request b' = br_next_request b"
proof -
  have "bridge_ok P md b' \<and> map_of (br_pending b') request = None \<and> br_session_metrics b' = br_session_metrics b \<and>
    br_next_request b' = br_next_request b"
  proof (cases "map_of (br_pending b) request")
    case None
    then show ?thesis using ok r by (simp add: inbound_link_response_def)
  next
    case (Some pending)
    define b1 where "b1 = b\<lparr>br_pending := AList.delete request (br_pending b)\<rparr>"
    have ok1: "bridge_ok P md b1" "map_of (br_pending b1) request = None" "br_session_metrics b1 = br_session_metrics b"
        "br_next_request b1 = br_next_request b"
      using ok by (auto simp: bridge_ok_def b1_def delete_conv')
    define m where "m = metrics_overlay (the metrics) (pd_current pending)"
    have "b' = b1 \<or> valid_metrics P md m \<and> map_of (br_destinations b1) (pd_mac pending) \<noteq> None \<and>
        b' = b1\<lparr>br_destinations := AList.update (pd_mac pending)
          (the (map_of (br_destinations b1) (pd_mac pending))\<lparr>kn_metrics := m\<rparr>) (br_destinations b1)\<rparr>"
      using r unfolding inbound_link_response_def Some option.case b1_def [symmetric] Let_def m_def
      by (cases expired; cases delivered; cases metrics; cases status; cases "map_of (br_destinations b1) (pd_mac pending)")
        (simp_all add: valid_metrics_def is_ok_unit split: if_splits)
    then consider "b' = b1" | k where "valid_metrics P md m" "map_of (br_destinations b1) (pd_mac pending) = Some k"
        "b' = b1\<lparr>br_destinations := AList.update (pd_mac pending) (k\<lparr>kn_metrics := m\<rparr>) (br_destinations b1)\<rparr>"
      by force
    then show ?thesis
    proof cases
      case 2
      then show ?thesis using ok1
        by (auto simp: bridge_ok_def table_valid_def distinct_update update_conv')
    qed (use ok1 in simp)
  qed
  then show "bridge_ok P md b'" "map_of (br_pending b') request = None" "br_session_metrics b' = br_session_metrics b"
    "br_next_request b' = br_next_request b"
    by blast+
qed

lemma retry_due_sel:
  "retry_due senders now i due b = (b', effects) \<Longrightarrow>
     br_destinations b' = br_destinations b \<and> br_session_metrics b' = br_session_metrics b \<and> br_initial b' = br_initial b \<and>
     br_pending b' = br_pending b \<and> br_next_request b' = br_next_request b"
proof (induction senders now i due b arbitrary: b' effects rule: retry_due.induct)
  case (2 senders now i at sid retry due b)
  show ?case
  proof (cases "retry_command b retry")
    case None
    then show ?thesis using 2 by simp
  next
    case (Some cmd)
    let ?r = "send_command_to (senders i) sid cmd"
    let ?b1 = "schedule_busy now b ?r retry"
    define b2 where "b2 = (case retry of RetryDrop mac \<Rightarrow> (case ?r of Inl e \<Rightarrow> ?b1 | Inr () \<Rightarrow>
        if map_of (br_destinations ?b1) mac \<noteq> None
        then ?b1\<lparr>br_retries := br_retries ?b1 @ [(now + RETRY_DELAY, sid, RetryAdd mac)]\<rparr> else ?b1) | _ \<Rightarrow> ?b1)"
    have b2: "br_destinations b2 = br_destinations b" "br_session_metrics b2 = br_session_metrics b" "br_initial b2 = br_initial b"
      "br_pending b2 = br_pending b" "br_next_request b2 = br_next_request b"
      by (simp_all add: b2_def split: radio_retry.splits sum.splits unit.splits)
    obtain effects' where e: "retry_due senders now (i + 1) due b2 = (b', effects')"
      using 2(3) Some by (auto simp: b2_def Let_def split: prod.splits)
    show ?thesis using 2(2) [OF Some refl refl b2_def e] b2 by simp
  qed
qed simp

context dlep_packages
begin

lemma adapter_view_valid: "table_valid P md (M, T) \<Longrightarrow> table_valid P md (adapter_view P N md (M, T) message)"
  using valid_overlay_update
  by (cases message) (auto simp: table_valid_def Let_def valid_up_def split: option.splits if_splits)

lemma inbound_ok:
  assumes ok: "bridge_ok P md b"
  obtains b' effects where "bridge_inbound P N md senders now expired delivered b message = Inr (b', effects)" "bridge_ok P md b'"
proof (cases "\<exists>request status words metrics. message = InLinkResponse request status words metrics")
  case True
  then obtain request status words metrics where m: "message = InLinkResponse request status words metrics" by blast
  obtain b' effects where r: "inbound_link_response P md expired delivered request status words metrics b = (b', effects)"
    by (cases "inbound_link_response P md expired delivered request status words metrics b")
  show thesis by (rule that [OF _ link_response_ok(1) [OF ok r]]) (simp add: m bridge_inbound_def r)
next
  case False
  then obtain b' where b': "bridge_inbound P N md senders now expired delivered b message = Inr (b', [])"
    "radio_table b' = adapter_view P N md (radio_table b) message" "br_initial b' = br_initial b"
    "br_pending b' = br_pending b" "br_next_request b' = br_next_request b"
    "distinct (map fst (br_destinations b)) \<longrightarrow> distinct (map fst (br_destinations b'))"
    using inbound_refines [of message P N md senders now expired delivered b] by blast
  have "bridge_ok P md b'" using ok b' adapter_view_valid [of md "br_session_metrics b" "map_of (br_destinations b)" N message]
    by (simp add: bridge_ok_def)
  with that b'(1) show thesis by blast
qed

lemma ask_ok: "bridge_ok P md b \<Longrightarrow> bridge_ask closed request b = (b', effects) \<Longrightarrow> bridge_ok P md b'"
proof -
  assume ok: "bridge_ok P md b" and ask: "bridge_ask closed request b = (b', effects)"
  have "dom (map_of (filter (\<lambda>(req, _). \<not> closed req) (br_pending b))) \<subseteq> dom (map_of (br_pending b))"
    by (auto simp: dom_map_of_conv_image_fst)
  then have "i < br_next_request b" if "map_of (filter (\<lambda>(req, _). \<not> closed req) (br_pending b)) i = Some y" for i y
    using ok that by (auto simp: bridge_ok_def)
  with ok ask show ?thesis
    by (auto simp: bridge_ask_def Let_def bridge_ok_def update_conv' less_Suc_eq)
qed

lemma retry_ok: "bridge_ok P md b \<Longrightarrow> bridge_retry senders now b = (b', effects) \<Longrightarrow> bridge_ok P md b'"
  by (auto simp: bridge_retry_def bridge_ok_def Let_def dest!: retry_due_sel split: prod.splits)

lemma turn_ok:
  assumes ok: "bridge_ok P md b"
  shows "case adapter_turn P N parse md am b input of
    Inr (Inr (b', effects)) \<Rightarrow> bridge_ok P md b' | Inr (Inl failure) \<Rightarrow> True | Inl panic \<Rightarrow> False"
proof (cases input)
  case (AdapterLine line)
  show ?thesis
  proof (cases line)
    case (Inr words)
    show ?thesis
    proof (cases "parse words")
      case (Inr message)
      obtain b' effects where "bridge_inbound P N md (am_senders am) (am_now am) (am_expired am) (am_delivered am) b message = Inr (b', effects)"
        "bridge_ok P md b'" by (rule inbound_ok [OF ok])
      then show ?thesis using AdapterLine \<open>line = Inr words\<close> Inr by (simp add: adapter_turn_def)
    qed (simp add: adapter_turn_def AdapterLine Inr)
  qed (simp add: adapter_turn_def AdapterLine)
next
  case (LinkAsked request)
  then show ?thesis using ask_ok [OF ok] by (simp add: adapter_turn_def split: prod.splits)
next
  case RetryDue
  then show ?thesis using retry_ok [OF ok] by (simp add: adapter_turn_def split: prod.splits)
qed (use ok in \<open>simp_all add: adapter_turn_def\<close>)

lemma radio_reach_ok: "radio_reach P N parse md b \<Longrightarrow> bridge_ok P md b"
proof (induction rule: radio_reach.induct)
  case new
  then show ?case by (simp add: bridge_ok_def bridge_new_def table_valid_def valid_metrics_iff supported_by_def del: not_None_eq)
next
  case (turn b am input b' effects)
  then show ?case using turn_ok [of md b N parse am input] by simp
qed

end

lemma link_response_effects:
  assumes r: "inbound_link_response P md expired delivered request status words metrics b = (b', effects)"
  shows "if map_of (br_pending b) request = None \<or> expired then effects = []
    else \<exists>answer. effects = [AnswerLink request answer] \<and>
      (\<forall>m. lrs_metrics answer = Some m \<longrightarrow> valid_metrics P md m)"
proof (cases "map_of (br_pending b) request")
  case None
  then show ?thesis using r by (simp add: inbound_link_response_def)
next
  case (Some pending)
  show ?thesis using r unfolding inbound_link_response_def Some option.case Let_def
    by (cases expired; cases metrics) (auto simp: valid_metrics_def is_ok_unit link_denied_def split: if_splits)
qed

lemma link_response_again:
  "map_of (br_pending b) request = None \<Longrightarrow>
     bridge_inbound P N md senders now expired delivered b (InLinkResponse request status words metrics) = Inr (b, [])"
  by (simp add: bridge_inbound_def inbound_link_response_def)

section \<open>The replay to a new session\<close>

lemma mac_key_inj: "mac_key m = mac_key m' \<longleftrightarrow> m = m'"
  by (cases m; cases m') (auto simp: mac_key_def inj_map_eq_map)

lemma in_mac_order_sorted:
  assumes "distinct (map fst xs)"
  shows "map_of (in_mac_order xs) = map_of xs" "sorted_wrt (<) (map (\<lambda>(mac, _). mac_key mac) (in_mac_order xs))"
proof -
  have m: "mset (map fst (in_mac_order xs)) = mset (map fst xs)" by (simp add: in_mac_order_def)
  then have d: "distinct (map fst (in_mac_order xs))" using assms mset_eq_imp_distinct_iff by blast
  then show "map_of (in_mac_order xs) = map_of xs"
    using assms map_of_inject_set [of "in_mac_order xs" xs] by (simp add: in_mac_order_def)
  have "map (\<lambda>(mac, _). mac_key mac) (in_mac_order xs) = map mac_key (map fst (in_mac_order xs))" by auto
  then have "distinct (map (\<lambda>(mac, _). mac_key mac) (in_mac_order xs))"
    using d by (simp add: distinct_map [of mac_key] inj_on_def mac_key_inj del: map_map)
  moreover have "sorted (map (\<lambda>(mac, _). mac_key mac) (in_mac_order xs))" by (simp add: in_mac_order_def)
  ultimately show "sorted_wrt (<) (map (\<lambda>(mac, _). mac_key mac) (in_mac_order xs))"
    by (simp add: strict_sorted_iff)
qed

section \<open>What the adapter and the sessions can rely on\<close>


definition sample_radio :: modem_daemon where
  "sample_radio = \<lparr>md_initial_metrics = default_metrics\<rparr>"

definition sample_parsers :: "(net4, net6) net_parsers" where
  "sample_parsers = \<lparr>parse_v4net = \<lambda>_. None, parse_v6net = \<lambda>_. None\<rparr>"

definition sample_parse :: "rstring \<Rightarrow> message_error + inbound" where
  "sample_parse line = Inl NotAnObject"

definition sample_known :: "(net4, net6) radio_known" where
  "sample_known = \<lparr>kn_metrics = default_metrics, kn_addresses = no_addrs\<lparr>v4 := [7]\<rparr>\<rparr>"

definition sample_report :: inbound where
  "sample_report = InDestinationUp (Eui48 [2, 0, 0, 0, 0, 1])
     \<lparr>rm_max_data_rate_rx_bps = None, rm_max_data_rate_tx_bps = None, rm_current_data_rate_rx_bps = None,
      rm_current_data_rate_tx_bps = None, rm_latency_us = None, rm_resources = None, rm_rlq_rx = None,
      rm_rlq_tx = None, rm_mtu = None\<rparr> \<lparr>ra_ipv4 = [7], ra_ipv6 = [], ra_ipv4_subnets = [], ra_ipv6_subnets = []\<rparr>"

lemma sample_radio_new: "radio_reach std_packages sample_parsers sample_parse sample_radio (bridge_new default_metrics)"
  using radio_reach.new [of sample_radio std_packages sample_parsers sample_parse]
  by (simp add: sample_radio_def metrics_expressible_def default_metrics_def as_micros_def percent_ok_def)

lemma sample_known_valid: "valid_up std_packages sample_radio (Eui48 [2, 0, 0, 0, 0, 1]) sample_known"
proof -
  let ?a = "no_addrs\<lparr>v4 := [7]\<rparr> :: (net4, net6) destination_addrs"
  have canonical: "addrs_canonical std_packages ?a = ?a" by (simp add: addrs_canonical_def no_addrs_def)
  have "valid_metrics std_packages sample_radio default_metrics"
    by (simp add: std.valid_metrics_iff sample_radio_def supported_by_def metrics_expressible_def default_metrics_def
        as_micros_def percent_ok_def)
  moreover have "changes_validate std_packages \<lparr>added = ?a, removed = no_addrs\<rparr> = Inr ()"
    by (simp add: changes_validate_def changes_canonical_def addrs_canonical_def no_addrs_def family_valid_def)
  moreover have "\<exists>out. message_encode std_packages (append_to std_packages \<lparr>added = ?a, removed = no_addrs\<rparr> (message_new SESSION_UPDATE)) = Inr out"
    "\<exists>out. message_encode std_packages (build_destination_up (Eui48 [2, 0, 0, 0, 0, 1]) default_metrics ?a) = Inr out"
    by (simp_all add: std.message_encode_eq_Inr append_to_def addrs_items_def addrs_canonical_def build_destination_up_def no_addrs_def message_new_def
        metric_items_def default_metrics_def item_wire_def as_micros_def tlv_def)
  ultimately show ?thesis
    by (auto simp: valid_up_def sample_known_def canonical validate_address_changes_def)
qed

lemma sample_report_view:
  "adapter_view std_packages sample_parsers sample_radio (default_metrics, \<lambda>_. None) sample_report =
     (default_metrics, [Eui48 [2, 0, 0, 0, 0, 1] \<mapsto> sample_known])"
proof -
  have "\<lparr>kn_metrics = default_metrics, kn_addresses = addrs_canonical std_packages (no_addrs\<lparr>v4 := [7]\<rparr>)\<rparr> = sample_known"
    by (simp add: sample_known_def addrs_canonical_def no_addrs_def)
  moreover have "metrics_overlay \<lparr>rm_max_data_rate_rx_bps = None, rm_max_data_rate_tx_bps = None,
      rm_current_data_rate_rx_bps = None, rm_current_data_rate_tx_bps = None, rm_latency_us = None, rm_resources = None,
      rm_rlq_rx = None, rm_rlq_tx = None, rm_mtu = None\<rparr> default_metrics = default_metrics"
    by (simp add: metrics_overlay_def or_base_def unwrap_or_def)
  ultimately show ?thesis using sample_known_valid
    by (simp add: sample_report_def addresses_parse_def no_addrs_def Let_def)
qed



definition sample_link_request :: link_request where
  "sample_link_request = \<lparr>lrq_session_id = 1, lrq_peer = \<lparr>pi_addr = SocketV4 1 854, pi_is_tls = False, pi_peer_description = None\<rparr>,
     lrq_id = Eui48 [2, 0, 0, 0, 0, 1], lrq_requested = default_characteristics, lrq_current = default_metrics\<rparr>"


end
