(* ===== verification/Spec2Isabelle.thy ===== *)
theory Spec2Isabelle
  imports Tcp_Sessions Reconnect Tcp_Monitor Radio
begin

text \<open>
  Verification of a DLEP implementation (RFC 8175, Dynamic Link Exchange Protocol) in Rust. A modem tells
  a router over a TCP session which destinations its radio reaches, with which addresses and metrics;
  before that the router finds the modem by UDP discovery. The crates build on each other:
  \<^item> dlep-core: data items, messages and signals and their encoding;
  \<^item> dlep-fsm: state machines without I/O for sessions and discovery of both roles, which turn events
    into actions;
  \<^item> dlep-net: framing, transports and the monitor of TCP connections;
  \<^item> dlep-ext: the interface of extensions;
  \<^item> dlep-daemon: the tasks that run the machines on sockets, timers and application commands;
  \<^item> dlep-router and dlep-modem: the applications; the first keeps its modems connected, the second
    reports what a radio adapter says.

  \<^bold>\<open>How the code is modelled.\<close> Structs are records, enums datatypes with the constructors of
  the source, integers words of their width, \<open>Duration\<close> and \<open>Instant\<close> natural numbers of nanoseconds, texts
  byte strings. A \<open>Result\<close> is a sum with the error on the left. Code that may panic returns
  \<open>panic + 'a\<close>, so that every \<open>expect\<close>, \<open>unwrap\<close>, index and \<open>unreachable!\<close> is a branch. Maps are association
  lists with distinct keys, in the order of insertion; where the source visits a hash map in an
  unspecified order, no property depends on the order. Methods that change \<open>self\<close> take and return the
  record. Tasks take what their environment delivers (bytes, expired timers, answers, the clock) as inputs.
  The packages bytes and ipnet are the record \<open>packages\<close>, an argument of all definitions that use
  them; the locale \<open>dlep_packages\<close> states their documented behaviour and \<open>std_packages\<close> is an instance.

  \<^bold>\<open>Wire format\<close> (dlep-core). \<open>Wire_Types\<close>, \<open>Utf8\<close> and \<open>Codec\<close> hold the types and every encoder and decoder of
  \<open>codec.rs\<close>. \<open>Codec_Correct\<close> gives the plain TLV form of an item (\<open>item_wire\<close>), shows that the in-place
  encoder writes it or leaves the buffer as it was, and derives the round trips of messages and signals
  in both directions.

  \<^bold>\<open>State machines\<close> (dlep-fsm). \<open>Addresses\<close> and \<open>Fsm_Types\<close> hold address sets, events, actions and
  the transaction tracker, which implements an abstract scope map (locale \<open>request_tracker\<close>);
  \<open>Session_Common\<close> the builders and extractors of messages; \<open>Validation\<close> the one-pass validator and its
  equivalence with a declarative grammar. \<open>Session_Router\<close> and \<open>Session_Modem\<close> have one definition for every arm of
  \<open>step\<close>, composed as in the source. What a session task may rely on is the locale \<open>session_machine\<close> of
  \<open>Session_Machine\<close>: an invariant every step keeps without panic, the phases of a session with the
  notices sent, and the timers armed in each phase. \<open>Router_Life\<close>, \<open>Router_Correct\<close>, \<open>Modem_Life\<close> and
  \<open>Modem_Correct\<close> prove it for both machines, and \<open>Session_Typing\<close> extends it by the types of the
  source that lists do not carry. \<open>Router_Properties\<close> and \<open>Modem_Properties\<close> state what follows for runs of events.
  \<open>Listener\<close> is an abstract receiver of a modem's messages; \<open>Modem_Sync\<close> and \<open>Router_Sync\<close> show that a
  modem keeps it informed and a router follows it. \<open>Handshake\<close> is the establishment of a session
  through the codec, \<open>Discovery\<close> both discovery machines and their exchange.

  \<^bold>\<open>Session tasks\<close> (dlep-net and dlep-daemon). \<open>Framing\<close> is the codec over a stream cut into arbitrary
  reads; \<open>Extensions\<close> the registry and the hooks of extensions; \<open>Daemon_Types\<close> and \<open>Link_Control\<close> the public
  events, the dispatch of commands and the calls of a link backend; \<open>Timer_Set\<close> the timer tasks
  with their generations. \<open>Session_Task\<close> is the select loop of \<open>session.rs\<close> with all its branches.
  \<open>Session_Task_Correct\<close> shows for every machine with the contract above that a task follows a run of the
  machine; \<open>Session_Wire\<close> what it reads and writes on the stream; \<open>Session_Runtime\<close> is the instance
  for both roles. \<open>Tcp_Sessions\<close> composes two tasks over a TCP stream: an established router that has read
  what the modem wrote holds what the modem holds.

  \<^bold>\<open>Connections and applications.\<close> \<open>Connections\<close> is the bounded connection history of the router and the table
  of connected routers of the modem; \<open>Daemon_Api\<close> the calls of an application, the dialling of
  offers and the admission of sessions; \<open>Reconnect\<close> the event loop of the router application with its
  retry queue and its pool of attempts, composed with the connection history: no static peer is lost,
  nothing is dialled twice, delays grow up to their limit. \<open>Tcp_Monitor\<close> is the kernel filter, the packet parser
  and the table of monitored connections: exactly the violated connection is reset. \<open>Radio\<close> is
  the bridge between the radio adapter and the modem daemon: its table is a function of the adapter's
  messages, and new sessions are brought up to date with it.

  \<^bold>\<open>This theory\<close> has the property that spans the machines of both roles without the runtime; the
  one for the running tasks is in \<open>Tcp_Sessions\<close>.

  \<^bold>\<open>Bounds and termination.\<close> No definition has fuel. Loops over lists are structural. The decoder of
  items and the walk over IPv6 extension headers are partial functions into \<open>option\<close>, in which \<open>None\<close> is a
  loop that does not end; that they end is proved (\<open>message_decode\<close> returns on every input in the round
  trips and in the session tasks, and \<open>low_ttl_connection\<close> by its own property). The line reader and the filter
  program have termination proofs. A task is run over a finite list of inputs of any length. The
  request numbers of the radio bridge are natural numbers: the 64-bit counter of the source would have to
  wrap around for a difference. The arithmetic of \<open>Instant\<close> does not overflow in the model, while
  intervals, lengths and retry counters keep their widths.

  \<^bold>\<open>Not modelled.\<close> System calls and the packages around them: sockets, interface addresses and
  the discovery loop around the discovery machines (\<open>dlep-net/discovery.rs\<close>, \<open>addr.rs\<close>, \<open>gtsm.rs\<close>, \<open>transport.rs\<close>,
  \<open>tls.rs\<close>, \<open>dlep-daemon/discovery.rs\<close>), process signals, TLS by rustls; the scheduler, of which only the
  interleavings appear; configuration files and the command line, which serde and clap read
  (\<open>config.rs\<close>, \<open>cli.rs\<close>, the \<open>lib.rs\<close> and \<open>main.rs\<close> of the applications apart from the event loop of the router);
  JSON, which serde reads and writes, apart from the rules about field names; starting and joining of
  tasks in \<open>spawn\<close> and \<open>shutdown\<close>; logging and \<open>Debug\<close> output.
\<close>

section \<open>The two roles together\<close>

context dlep_packages
begin

lemma roles_agree:
  assumes m: "run_events (modem_step P) (modem_with_config mc) mes = Inr (mfsm, macts)"
    and r: "run_events (router_step P) (router_with_config rc) res = Inr (rfsm, racts)"
    and link: "received res = sent macts"
    and rd: "r_state rfsm = RInSession" "map_of (r_destinations rfsm) mac = Some rd"
    and md: "map_of (m_destinations mfsm) mac = Some md" "md_announced md" "per_destination (m_tx mfsm) mac = None"
  shows "rd_metrics rd = md_metrics md \<and> addr_set (rd_addrs rd) \<subseteq> addr_set (md_addrs md)"
proof -
  have "heard (hears P deaf macts) mac = Some (md_metrics md, addr_set (md_addrs md))"
    by (rule modem_run_known [OF m md])
  moreover have "knows (Some rd) (heard (hears P deaf macts) mac)"
    using router_run_heard [OF r] rd by (metis hears_def link router_heard_def)
  ultimately show ?thesis by (simp add: knows_def)
qed

end



end
